(* ===== verification/Prelude.thy ===== *)
theory Prelude
  imports Main "HOL-Library.List_Lexorder" "HOL-Library.Char_ord" "HOL-Library.Product_Lexorder"
    "HOL-Library.Code_Target_Numeral"
begin

text \<open>
  Shared material of the development: the collections the component proofs draw on, reachable
  states of a step relation, SQL-style operations on tables kept as lists of rows, Python's
  bounded \<open>deque\<close> and \<open>str\<close> helpers, and the naming of the model's basic types.

  A Python \<open>str\<close> is a HOL \<open>string\<close> that holds its UTF-8 bytes: equality, concatenation, prefix
  tests and Python's code-point order (the order of SQLite's \<open>TEXT\<close>) are those of the byte
  strings. Code that counts or inspects single code points works on lists of \<open>nat\<close> (theory
  \<open>Utf8\<close>).
\<close>

type_synonym timestamp = string
type_synonym codepoint = nat

named_theorems keeps_inv
  \<open>the operations of the registry keep its invariant\<close>
named_theorems framed_intros
  \<open>programs that keep the agents and append no line on a role\<close>

subsection \<open>Reachable states\<close>

inductive reach :: "('s \<Rightarrow> bool) \<Rightarrow> ('s \<Rightarrow> 's \<Rightarrow> bool) \<Rightarrow> 's \<Rightarrow> bool" for init step where
  reach_init: "init s \<Longrightarrow> reach init step s"
| reach_step: "reach init step s \<Longrightarrow> step s t \<Longrightarrow> reach init step t"

lemma reach_invariant [consumes 1, case_names init step]:
  assumes "reach init step s"
    and "\<And>s. init s \<Longrightarrow> P s"
    and "\<And>s t. reach init step s \<Longrightarrow> P s \<Longrightarrow> step s t \<Longrightarrow> P t"
  shows "P s"
  using assms(1) by (induction rule: reach.induct) (auto intro: assms(2,3))

subsection \<open>Tables as lists of rows\<close>

definition update_where :: "('r \<Rightarrow> bool) \<Rightarrow> ('r \<Rightarrow> 'r) \<Rightarrow> 'r list \<Rightarrow> 'r list" where
  "update_where p f rows = map (\<lambda>r. if p r then f r else r) rows"

definition rowcount :: "('r \<Rightarrow> bool) \<Rightarrow> 'r list \<Rightarrow> nat" where
  "rowcount p rows = length (filter p rows)"

lemma length_update_where [simp]: "length (update_where p f rows) = length rows"
  by (simp add: update_where_def)

lemma update_where_Nil [simp]: "update_where p f [] = []"
  by (simp add: update_where_def)

lemma update_where_Cons [simp]:
  "update_where p f (r # rows) = (if p r then f r else r) # update_where p f rows"
  by (simp add: update_where_def)

lemma set_update_where:
  "set (update_where p f rows) = {r \<in> set rows. \<not> p r} \<union> f ` {r \<in> set rows. p r}"
  by (auto simp: update_where_def)

lemma in_update_where_cases:
  assumes "r \<in> set (update_where p f rows)"
  obtains (kept) "r \<in> set rows" "\<not> p r"
    | (changed) r0 where "r0 \<in> set rows" "p r0" "r = f r0"
  using assms by (auto simp: set_update_where)

lemma rowcount_0_iff: "rowcount p rows = 0 \<longleftrightarrow> (\<forall>r \<in> set rows. \<not> p r)"
  by (simp add: rowcount_def filter_empty_conv)

lemma update_where_no_match:
  "rowcount p rows = 0 \<Longrightarrow> update_where p f rows = rows"
  by (auto simp: rowcount_0_iff update_where_def intro!: map_idI)

lemma map_key_update_where:
  assumes "\<And>r. key (f r) = key r"
  shows "map key (update_where p f rows) = map key rows"
  by (simp add: update_where_def assms)

lemma filter_update_where_unaffected:
  assumes "\<And>r. r \<in> set rows \<Longrightarrow> p r \<Longrightarrow> \<not> q r" "\<And>r. r \<in> set rows \<Longrightarrow> p r \<Longrightarrow> \<not> q (f r)"
  shows "filter q (update_where p f rows) = filter q rows"
  using assms by (induction rows) auto

subsection \<open>Point lookups\<close>

text \<open>\<open>SELECT \<dots> WHERE key = ?\<close> followed by \<open>fetchone()\<close>: the first row with the key, if any.\<close>

definition lookup_row :: "('r \<Rightarrow> 'k) \<Rightarrow> 'k \<Rightarrow> 'r list \<Rightarrow> 'r option" where
  "lookup_row key k rows = find (\<lambda>r. key r = k) rows"

lemma lookup_row_SomeD: "lookup_row key k rows = Some r \<Longrightarrow> r \<in> set rows \<and> key r = k"
  unfolding lookup_row_def find_Some_iff by (auto simp: in_set_conv_nth)

lemma lookup_row_None_iff: "lookup_row key k rows = None \<longleftrightarrow> k \<notin> key ` set rows"
  unfolding lookup_row_def find_None_iff by auto

lemma lookup_row_unique:
  assumes "distinct (map key rows)" "r \<in> set rows"
  shows "lookup_row key (key r) rows = Some r"
proof -
  from assms(2) obtain r' where r': "lookup_row key (key r) rows = Some r'"
    using lookup_row_None_iff [of key "key r" rows] by (cases "lookup_row key (key r) rows") auto
  with assms have "r' = r"
    by (auto dest!: lookup_row_SomeD simp: distinct_map inj_on_def)
  with r' show ?thesis by simp
qed

lemma lookup_row_append:
  "lookup_row key k (rows @ [r]) =
     (case lookup_row key k rows of Some r0 \<Rightarrow> Some r0 | None \<Rightarrow> if key r = k then Some r else None)"
  by (induction rows) (auto simp: lookup_row_def)

lemma lookup_row_update_where:
  assumes "\<And>r. key (f r) = key r"
  shows "lookup_row key k (update_where p f rows) =
    map_option (\<lambda>r. if p r then f r else r) (lookup_row key k rows)"
  by (induction rows) (auto simp: lookup_row_def assms)

subsection \<open>Python's bounded deque\<close>

text \<open>\<open>collections.deque(maxlen=n).append(x)\<close>: the oldest entry leaves on overflow.\<close>

definition bounded_append :: "nat \<Rightarrow> 'a list \<Rightarrow> 'a \<Rightarrow> 'a list" where
  "bounded_append n xs x = (let ys = xs @ [x] in drop (length ys - n) ys)"

lemma length_bounded_append: "length (bounded_append n xs x) = min n (Suc (length xs))"
  by (simp add: bounded_append_def)

lemma bounded_append_room: "length xs < n \<Longrightarrow> bounded_append n xs x = xs @ [x]"
  by (simp add: bounded_append_def)

lemma bounded_append_full:
  assumes "length xs = n" "0 < n"
  shows "bounded_append n xs x = tl xs @ [x]"
  using assms by (cases xs) (simp_all add: bounded_append_def)

lemma set_bounded_append: "set (bounded_append n xs x) \<subseteq> insert x (set xs)"
  using set_drop_subset [of "length (xs @ [x]) - n" "xs @ [x]"]
  by (auto simp: bounded_append_def Let_def)

subsection \<open>Python strings\<close>

text \<open>\<open>str(n)\<close> of a non-negative integer.\<close>

fun py_str :: "nat \<Rightarrow> string" where
  "py_str n = (if n < 10 then [char_of (48 + n)] else py_str (n div 10) @ [char_of (48 + n mod 10)])"

declare py_str.simps [simp del]

definition py_str_int :: "int \<Rightarrow> string" where
  "py_str_int i = (if i < 0 then CHR ''-'' # py_str (nat (- i)) else py_str (nat i))"

definition py_startswith :: "'a list \<Rightarrow> 'a list \<Rightarrow> bool" where
  "py_startswith s p \<longleftrightarrow> take (length p) s = p"

lemma py_startswith_append [simp]: "py_startswith (p @ s) p"
  by (simp add: py_startswith_def)

lemma py_startswith_decomp: "py_startswith s p \<Longrightarrow> s = p @ drop (length p) s"
  by (metis append_take_drop_id py_startswith_def)

text \<open>\<open>needle in s\<close>.\<close>

fun py_contains :: "'a list \<Rightarrow> 'a list \<Rightarrow> bool" where
  "py_contains needle [] \<longleftrightarrow> needle = []"
| "py_contains needle (c # s) \<longleftrightarrow> py_startswith (c # s) needle \<or> py_contains needle s"

text \<open>\<open>s.split(c)\<close> for a one-character separator, and \<open>sep.join(parts)\<close>.\<close>

fun py_split :: "'a \<Rightarrow> 'a list \<Rightarrow> 'a list list" where
  "py_split c [] = [[]]"
| "py_split c (x # xs) =
     (if x = c then [] # py_split c xs
      else (case py_split c xs of [] \<Rightarrow> [[x]] | p # ps \<Rightarrow> (x # p) # ps))"

fun py_join :: "'a list \<Rightarrow> 'a list list \<Rightarrow> 'a list" where
  "py_join sep [] = []"
| "py_join sep [p] = p"
| "py_join sep (p # q # ps) = p @ sep @ py_join sep (q # ps)"

lemma py_split_not_Nil [simp]: "py_split c xs \<noteq> []"
  by (induction xs) (auto split: list.splits)

lemma py_join_Cons_Cons [simp]: "py_join sep ((x # p) # ps) = x # py_join sep (p # ps)"
  by (cases ps) auto

lemma py_join_Cons: "ps \<noteq> [] \<Longrightarrow> py_join sep (p # ps) = p @ sep @ py_join sep ps"
  by (cases ps) auto

lemma py_join_py_split: "py_join [c] (py_split c xs) = xs"
  by (induction xs) (auto simp: py_join_Cons split: list.splits)

lemma py_split_no_sep: "p \<in> set (py_split c xs) \<Longrightarrow> c \<notin> set p"
  by (induction xs arbitrary: p) (auto split: list.splits if_splits)

lemma py_split_single: "c \<notin> set xs \<Longrightarrow> py_split c xs = [xs]"
  by (induction xs) auto

lemma py_split_append_sep:
  "c \<notin> set xs \<Longrightarrow> py_split c (xs @ c # ys) = xs # py_split c ys"
  by (induction xs) auto

lemma py_split_py_join:
  "ls \<noteq> [] \<Longrightarrow> (\<And>l. l \<in> set ls \<Longrightarrow> c \<notin> set l) \<Longrightarrow> py_split c (py_join [c] ls) = ls"
  by (induction "[c]" ls rule: py_join.induct) (auto simp: py_split_single py_split_append_sep)

end
