(* ===== verification/Errors.thy ===== *)
theory Errors
  imports Prelude
begin

text \<open>
  The closed vocabularies of the routing subsystem (\<open>routing/errors.py\<close>,
  \<open>routing/route_errors.py\<close>, \<open>socket_api/errors.py\<close>): queue states, block and failure reasons,
  audit event types, error codes with their CLI exit codes, and the exception classes with
  Python's subclass relation where an \<open>except\<close> clause depends on it.
\<close>

subsection \<open>Queue states and reasons\<close>

datatype queue_state = Queued | Blocked | Delivered | Canceled | Failed

fun queue_state_str :: "queue_state \<Rightarrow> string" where
  "queue_state_str Queued = ''queued''"
| "queue_state_str Blocked = ''blocked''"
| "queue_state_str Delivered = ''delivered''"
| "queue_state_str Canceled = ''canceled''"
| "queue_state_str Failed = ''failed''"

definition terminal_states :: "queue_state list" where
  "terminal_states = [Delivered, Failed, Canceled]"

abbreviation terminal :: "queue_state \<Rightarrow> bool" where
  "terminal s \<equiv> s \<in> set terminal_states"

lemma terminal_iff: "terminal s \<longleftrightarrow> s = Delivered \<or> s = Failed \<or> s = Canceled"
  by (auto simp: terminal_states_def)

datatype block_reason =
    Sender_role_not_permitted | Target_role_not_permitted | Target_not_active
  | Target_pane_missing | Target_container_inactive | Kill_switch_off | Operator_delayed

fun block_reason_str :: "block_reason \<Rightarrow> string" where
  "block_reason_str Sender_role_not_permitted = ''sender_role_not_permitted''"
| "block_reason_str Target_role_not_permitted = ''target_role_not_permitted''"
| "block_reason_str Target_not_active = ''target_not_active''"
| "block_reason_str Target_pane_missing = ''target_pane_missing''"
| "block_reason_str Target_container_inactive = ''target_container_inactive''"
| "block_reason_str Kill_switch_off = ''kill_switch_off''"
| "block_reason_str Operator_delayed = ''operator_delayed''"

datatype failure_reason =
    Attempt_interrupted | Tmux_paste_failed | Docker_exec_failed | Tmux_send_keys_failed
  | Pane_disappeared_mid_attempt | Sqlite_lock_conflict

fun failure_reason_str :: "failure_reason \<Rightarrow> string" where
  "failure_reason_str Attempt_interrupted = ''attempt_interrupted''"
| "failure_reason_str Tmux_paste_failed = ''tmux_paste_failed''"
| "failure_reason_str Docker_exec_failed = ''docker_exec_failed''"
| "failure_reason_str Tmux_send_keys_failed = ''tmux_send_keys_failed''"
| "failure_reason_str Pane_disappeared_mid_attempt = ''pane_disappeared_mid_attempt''"
| "failure_reason_str Sqlite_lock_conflict = ''sqlite_lock_conflict''"

datatype operator_action = Act_approved | Act_delayed | Act_canceled

datatype origin = Direct | Route

subsection \<open>Audit event types\<close>

definition queue_audit_event_types :: "string list" where
  "queue_audit_event_types =
     [''queue_message_enqueued'', ''queue_message_delivered'', ''queue_message_blocked'',
      ''queue_message_failed'', ''queue_message_canceled'', ''queue_message_approved'',
      ''queue_message_delayed'']"

definition routing_audit_event_types :: "string list" where
  "routing_audit_event_types = [''routing_toggled'']"

definition route_audit_event_types :: "string list" where
  "route_audit_event_types =
     [''route_matched'', ''route_skipped'', ''route_created'', ''route_updated'',
      ''route_deleted'', ''routing_worker_heartbeat'']"

subsection \<open>Skip reasons of the routing worker\<close>

definition skip_reasons :: "string list" where
  "skip_reasons =
     [''no_eligible_master'', ''master_inactive'', ''master_not_found'', ''target_not_found'',
      ''target_role_not_permitted'', ''target_not_active'', ''target_pane_missing'',
      ''target_container_inactive'', ''no_eligible_target'', ''template_render_error'']"

definition template_sub_reasons :: "string list" where
  "template_sub_reasons =
     [''missing_field'', ''body_empty'', ''body_invalid_chars'', ''body_invalid_encoding'',
      ''body_too_large'', ''redactor_failure'']"

subsection \<open>Exit codes\<close>

definition cli_exit_code_map :: "(string \<times> nat) list" where
  "cli_exit_code_map =
     [(''delivery_wait_timeout'', 1), (''routing_disabled'', 2), (''sender_not_in_pane'', 3),
      (''sender_role_not_permitted'', 4), (''agent_not_found'', 5),
      (''target_label_ambiguous'', 6), (''target_not_active'', 7),
      (''target_role_not_permitted'', 8), (''target_container_inactive'', 9),
      (''target_pane_missing'', 10), (''body_empty'', 11), (''body_invalid_encoding'', 11),
      (''body_invalid_chars'', 11), (''body_too_large'', 11), (''daemon_unavailable'', 12),
      (''daemon_shutting_down'', 12), (''tmux_paste_failed'', 13), (''docker_exec_failed'', 13),
      (''tmux_send_keys_failed'', 13), (''pane_disappeared_mid_attempt'', 13),
      (''sqlite_lock_conflict'', 13), (''attempt_interrupted'', 13),
      (''since_invalid_format'', 14), (''terminal_state_cannot_change'', 15),
      (''delivery_in_progress'', 16), (''approval_not_applicable'', 17),
      (''delay_not_applicable'', 18), (''routing_toggle_host_only'', 19),
      (''message_id_not_found'', 20), (''operator_pane_inactive'', 21), (''bad_request'', 64),
      (''unknown_method'', 64)]"

definition cli_exit_code :: "string \<Rightarrow> nat" where
  "cli_exit_code string_code =
     (case map_of cli_exit_code_map string_code of Some n \<Rightarrow> n | None \<Rightarrow> 1)"

subsection \<open>Exceptions\<close>

text \<open>
  The classes the modelled code raises or catches. \<open>BodyValidationError\<close>,
  \<open>TargetResolveError\<close> and, through \<open>TmuxDeliveryError\<close>, \<open>SqliteLockConflict\<close> are subclasses of
  \<open>QueueServiceError\<close>: an \<open>except QueueServiceError\<close> clause catches them all. The subclasses of
  \<open>RouteError\<close> are told apart by their code; \<open>RouteTemplateRenderError\<close> and \<open>RoutingTransientError\<close> carry a sub-reason and an internal code.
  \<open>RegistrationError\<close>, \<open>DockerError\<close>, \<open>TmuxError\<close> and the errors of the application contract carry
  their closed-set code.
\<close>

datatype exc =
    QueueServiceError string
  | BodyValidationError string
  | TargetResolveError string
  | SqliteLockConflict
  | IntegrityError
  | OperationalError string
  | ValueError
  | KeyError
  | IndexError
  | AssertionError
  | RuntimeError
  | RouteError string
  | RouteTemplateRenderError string
  | RoutingTransientError string
  | SystemExit nat
  | OSError string
  | RegistrationError string
  | DockerError string
  | TmuxError string
  | PostCommitSideEffectError
  | CursorError
  | ContractError string

fun is_queue_service_error :: "exc \<Rightarrow> bool" where
  "is_queue_service_error (QueueServiceError _) = True"
| "is_queue_service_error (BodyValidationError _) = True"
| "is_queue_service_error (TargetResolveError _) = True"
| "is_queue_service_error SqliteLockConflict = True"
| "is_queue_service_error _ = False"

fun exc_code :: "exc \<Rightarrow> string" where
  "exc_code (QueueServiceError c) = c"
| "exc_code (BodyValidationError c) = c"
| "exc_code (TargetResolveError c) = c"
| "exc_code SqliteLockConflict = ''sqlite_lock_conflict''"
| "exc_code _ = ''''"

subsection \<open>Facts\<close>

lemma block_reason_str_inject [simp]: "block_reason_str a = block_reason_str b \<longleftrightarrow> a = b"
  by (cases a; cases b) simp_all

lemma failure_reason_str_inject [simp]: "failure_reason_str a = failure_reason_str b \<longleftrightarrow> a = b"
  by (cases a; cases b) simp_all

lemma queue_state_str_inject [simp]: "queue_state_str a = queue_state_str b \<longleftrightarrow> a = b"
  by (cases a; cases b) simp_all

lemma not_terminal_cases: "\<not> terminal s \<Longrightarrow> s = Queued \<or> s = Blocked"
  by (cases s) (simp_all add: terminal_iff)

end
