(* ===== verification/Schema.thy ===== *)
theory Schema
  imports Errors "HOL-Library.Word"
begin

text \<open>
  The tables the routing subsystem writes (\<open>state/schema.py\<close>, migrations v7 and v8):
  \<open>message_queue\<close>, \<open>events\<close>, \<open>daemon_state\<close> and \<open>routes\<close>, with their \<open>CHECK\<close> constraints, their
  primary keys and the partial unique index on \<open>(route_id, event_id)\<close>. A table is the list of its
  rows in \<open>rowid\<close> order; a statement that violates a constraint raises \<open>IntegrityError\<close>.

  The four identity columns of the sender and of the target are one record each. Of the
  \<open>events\<close> table the columns \<open>record_at\<close> (always \<open>NULL\<close>) and \<open>schema_version\<close> (always 1) are left
  out.
\<close>

type_synonym bytes = "8 word list"

subsection \<open>Rows\<close>

record ident =
  id_agent_id :: string
  id_label :: string
  id_role :: string
  id_capability :: "string option"

record queue_row =
  mq_message_id :: string
  mq_state :: queue_state
  mq_block_reason :: "block_reason option"
  mq_failure_reason :: "failure_reason option"
  mq_sender :: ident
  mq_target :: ident
  mq_target_container_id :: string
  mq_target_pane_id :: string
  mq_envelope_body :: bytes
  mq_envelope_body_sha256 :: string
  mq_envelope_size_bytes :: nat
  mq_enqueued_at :: timestamp
  mq_delivery_attempt_started_at :: "timestamp option"
  mq_delivered_at :: "timestamp option"
  mq_failed_at :: "timestamp option"
  mq_canceled_at :: "timestamp option"
  mq_last_updated_at :: timestamp
  mq_operator_action :: "operator_action option"
  mq_operator_action_at :: "timestamp option"
  mq_operator_action_by :: "string option"
  mq_origin :: origin
  mq_route_id :: "string option"
  mq_event_id :: "nat option"

text \<open>
  The columns of \<open>events\<close> that only the log reader fills; in the audit rows they are \<open>NULL\<close> (and
  the collapsed count is 1).
\<close>

record log_cols =
  lc_attachment_id :: string
  lc_log_path :: string
  lc_byte_range_start :: int
  lc_byte_range_end :: int
  lc_line_offset_start :: int
  lc_line_offset_end :: int
  lc_classifier_rule_id :: string
  lc_debounce_window_id :: "string option"
  lc_debounce_collapsed_count :: nat
  lc_debounce_window_started_at :: "timestamp option"
  lc_debounce_window_ended_at :: "timestamp option"

record event_row =
  ev_event_id :: nat
  ev_event_type :: string
  ev_agent_id :: string
  ev_observed_at :: timestamp
  ev_excerpt :: string
  ev_jsonl_appended_at :: "timestamp option"
  ev_log :: "log_cols option"

record routing_flag =
  fl_value :: string
  fl_last_updated_at :: timestamp
  fl_last_updated_by :: string

record route_row =
  rt_route_id :: string
  rt_event_type :: string
  rt_source_scope_kind :: string
  rt_source_scope_value :: "string option"
  rt_target_rule :: string
  rt_target_value :: "string option"
  rt_master_rule :: string
  rt_master_value :: "string option"
  rt_template :: string
  rt_enabled :: bool
  rt_last_consumed_event_id :: nat
  rt_created_at :: timestamp
  rt_updated_at :: timestamp
  rt_created_by_agent_id :: "string option"

text \<open>
  \<open>db_next_event_id\<close> is the \<open>AUTOINCREMENT\<close> sequence of \<open>events\<close>; \<open>db_flag\<close> is the one row
  \<open>daemon_state\<close> can have (its key column admits only \<open>routing_enabled\<close>).
\<close>

record db =
  db_queue :: "queue_row list"
  db_events :: "event_row list"
  db_next_event_id :: nat
  db_flag :: "routing_flag option"
  db_routes :: "route_row list"

subsection \<open>Constraints\<close>

definition queue_row_checks :: "queue_row \<Rightarrow> bool" where
  "queue_row_checks r \<longleftrightarrow>
     0 < mq_envelope_size_bytes r \<and>
     (mq_block_reason r = None \<or> mq_state r = Blocked) \<and>
     (mq_failure_reason r = None \<or> mq_state r = Failed) \<and>
     ((mq_operator_action r = None \<and> mq_operator_action_at r = None \<and>
       mq_operator_action_by r = None) \<or>
      (mq_operator_action r \<noteq> None \<and> mq_operator_action_at r \<noteq> None \<and>
       mq_operator_action_by r \<noteq> None)) \<and>
     (mq_state r \<noteq> Delivered \<or> mq_delivered_at r \<noteq> None) \<and>
     (mq_state r \<noteq> Failed \<or> mq_failed_at r \<noteq> None) \<and>
     (mq_state r \<noteq> Canceled \<or> mq_canceled_at r \<noteq> None)"

definition classifier_event_types :: "string list" where
  "classifier_event_types =
     [''activity'', ''waiting_for_input'', ''completed'', ''error'', ''test_failed'',
      ''test_passed'', ''manual_review_needed'', ''long_running'', ''pane_exited'',
      ''swarm_member_reported'']"

definition event_row_checks :: "event_row \<Rightarrow> bool" where
  "event_row_checks e \<longleftrightarrow>
     ev_event_type e \<in> set (classifier_event_types @ queue_audit_event_types @ routing_audit_event_types)"

definition routing_flag_checks :: "routing_flag \<Rightarrow> bool" where
  "routing_flag_checks f \<longleftrightarrow> fl_value f = ''enabled'' \<or> fl_value f = ''disabled''"

definition route_row_checks :: "route_row \<Rightarrow> bool" where
  "route_row_checks r \<longleftrightarrow>
     rt_event_type r \<in> set classifier_event_types \<and>
     rt_source_scope_kind r \<in> {''any'', ''agent_id'', ''role''} \<and>
     rt_target_rule r \<in> {''explicit'', ''source'', ''role''} \<and>
     rt_master_rule r \<in> {''auto'', ''explicit''} \<and>
     (rt_source_scope_kind r = ''any'' \<longleftrightarrow> rt_source_scope_value r = None) \<and>
     (rt_target_rule r = ''source'' \<longleftrightarrow> rt_target_value r = None) \<and>
     (rt_master_rule r = ''auto'' \<longleftrightarrow> rt_master_value r = None)"

text \<open>\<open>NULL\<close>s never collide in a unique index, so both columns have to be present and equal.\<close>

definition same_route_event :: "queue_row \<Rightarrow> queue_row \<Rightarrow> bool" where
  "same_route_event r r' \<longleftrightarrow>
     mq_origin r = Route \<and> mq_origin r' = Route \<and>
     mq_route_id r \<noteq> None \<and> mq_event_id r \<noteq> None \<and>
     mq_route_id r = mq_route_id r' \<and> mq_event_id r = mq_event_id r'"

subsection \<open>Statements\<close>

type_synonym 'r tx = "db \<Rightarrow> exc + ('r \<times> db)"

definition mq_insert :: "queue_row \<Rightarrow> unit tx" where
  "mq_insert r d =
     (if queue_row_checks r \<and>
         list_all (\<lambda>r'. mq_message_id r' \<noteq> mq_message_id r \<and> \<not> same_route_event r r') (db_queue d)
      then Inr ((), d\<lparr>db_queue := db_queue d @ [r]\<rparr>)
      else Inl IntegrityError)"

definition mq_update :: "(queue_row \<Rightarrow> bool) \<Rightarrow> (queue_row \<Rightarrow> queue_row) \<Rightarrow> nat tx" where
  "mq_update p f d =
     (if list_all (\<lambda>r. p r \<longrightarrow> queue_row_checks (f r)) (db_queue d)
      then Inr (rowcount p (db_queue d), d\<lparr>db_queue := update_where p f (db_queue d)\<rparr>)
      else Inl IntegrityError)"

definition mq_select :: "string \<Rightarrow> db \<Rightarrow> queue_row option" where
  "mq_select message_id d = lookup_row mq_message_id message_id (db_queue d)"

definition events_insert :: "string \<Rightarrow> string \<Rightarrow> timestamp \<Rightarrow> string \<Rightarrow> timestamp option \<Rightarrow>
    log_cols option \<Rightarrow> nat tx" where
  "events_insert event_type agent_id observed_at excerpt jsonl_appended_at log_columns d =
     (let e = \<lparr>ev_event_id = db_next_event_id d, ev_event_type = event_type,
               ev_agent_id = agent_id, ev_observed_at = observed_at, ev_excerpt = excerpt,
               ev_jsonl_appended_at = jsonl_appended_at, ev_log = log_columns\<rparr>
      in if event_row_checks e
         then Inr (db_next_event_id d,
                   d\<lparr>db_events := db_events d @ [e], db_next_event_id := Suc (db_next_event_id d)\<rparr>)
         else Inl IntegrityError)"

subsection \<open>Sequencing inside a transaction\<close>

definition tx_bind :: "'a tx \<Rightarrow> ('a \<Rightarrow> 'b tx) \<Rightarrow> 'b tx" where
  "tx_bind m k d = (case m d of Inl e \<Rightarrow> Inl e | Inr (a, d') \<Rightarrow> k a d')"

definition tx_return :: "'a \<Rightarrow> 'a tx" where
  "tx_return a d = Inr (a, d)"

definition tx_raise :: "exc \<Rightarrow> 'a tx" where
  "tx_raise e d = Inl e"

definition tx_get :: "(db \<Rightarrow> 'a) \<Rightarrow> 'a tx" where
  "tx_get f d = Inr (f d, d)"

subsection \<open>Facts\<close>

lemma tx_bind_simps [simp]:
  "m d = Inl e \<Longrightarrow> tx_bind m k d = Inl e"
  "m d = Inr (a, d') \<Longrightarrow> tx_bind m k d = k a d'"
  by (simp_all add: tx_bind_def)

lemma tx_return_simp [simp]: "tx_return a d = Inr (a, d)"
  by (simp add: tx_return_def)

lemma tx_raise_simp [simp]: "tx_raise e d = Inl e"
  by (simp add: tx_raise_def)

lemma tx_get_bind [simp]: "tx_bind (tx_get f) k d = k (f d) d"
  by (simp add: tx_bind_def tx_get_def)

lemma tx_bind_InrE:
  assumes "tx_bind m k d = Inr (b, d'')"
  obtains a d' where "m d = Inr (a, d')" "k a d' = Inr (b, d'')"
  using assms by (auto simp: tx_bind_def split: sum.splits)

lemma mq_insert_InrE:
  assumes "mq_insert r d = Inr (u, d')"
  obtains "queue_row_checks r" "mq_message_id r \<notin> mq_message_id ` set (db_queue d)"
    "\<And>r'. r' \<in> set (db_queue d) \<Longrightarrow> \<not> same_route_event r r'"
    "d' = d\<lparr>db_queue := db_queue d @ [r]\<rparr>"
proof (rule that)
  show "queue_row_checks r" "mq_message_id r \<notin> mq_message_id ` set (db_queue d)"
    "d' = d\<lparr>db_queue := db_queue d @ [r]\<rparr>"
    using assms by (auto simp: mq_insert_def list_all_iff split: if_splits)
  show "\<not> same_route_event r r'" if "r' \<in> set (db_queue d)" for r'
    using assms that by (auto simp: mq_insert_def list_all_iff split: if_splits)
qed

lemma mq_update_InrE:
  assumes "mq_update p f d = Inr (n, d')"
  obtains "\<And>r. r \<in> set (db_queue d) \<Longrightarrow> p r \<Longrightarrow> queue_row_checks (f r)"
    "n = rowcount p (db_queue d)" "d' = d\<lparr>db_queue := update_where p f (db_queue d)\<rparr>"
  using assms by (auto simp: mq_update_def list_all_iff split: if_splits)

lemma mq_update_ok:
  assumes "\<And>r. r \<in> set (db_queue d) \<Longrightarrow> p r \<Longrightarrow> queue_row_checks (f r)"
  shows "mq_update p f d =
    Inr (rowcount p (db_queue d), d\<lparr>db_queue := update_where p f (db_queue d)\<rparr>)"
  using assms by (auto simp: mq_update_def list_all_iff)

lemma same_route_event_sym: "same_route_event r r' \<Longrightarrow> same_route_event r' r"
  by (auto simp: same_route_event_def)

lemma events_insert_InrE:
  assumes "events_insert ty ag t x j l d = Inr (n, d')"
  obtains "n = db_next_event_id d" "db_queue d' = db_queue d" "db_flag d' = db_flag d"
    "db_routes d' = db_routes d" "db_next_event_id d' = Suc n"
    "db_events d' = db_events d @ [\<lparr>ev_event_id = n, ev_event_type = ty, ev_agent_id = ag,
       ev_observed_at = t, ev_excerpt = x, ev_jsonl_appended_at = j, ev_log = l\<rparr>]"
  using assms by (auto simp: events_insert_def Let_def split: if_splits)

end
