(* ===== verification/Lock_Retry.thy ===== *)
theory Lock_Retry
  imports Schema
begin

text \<open>
  Transactions and the bounded retry on SQLite lock conflicts (\<open>routing/dao.py\<close>,
  \<open>with_lock_retry\<close>). An operation is a function of the attempt index and the state; which attempts
  find the database locked is a choice of the environment, the predicate \<open>busy\<close>. A transaction
  that raises is rolled back: the state it leaves is the state it found. Sleeps are kept in
  milliseconds and returned beside the result.
\<close>

subsection \<open>Recognising a lock conflict\<close>

text \<open>SQLite's messages are ASCII, so \<open>str.lower\<close> is the ASCII case mapping.\<close>

definition py_lower :: "string \<Rightarrow> string" where
  "py_lower s = map (\<lambda>c. if 65 \<le> (of_char c :: nat) \<and> (of_char c :: nat) \<le> 90
                          then char_of ((of_char c :: nat) + 32) else c) s"

definition is_lock_message :: "string \<Rightarrow> bool" where
  "is_lock_message msg \<longleftrightarrow>
     py_contains ''database is locked'' (py_lower msg) \<or>
     py_contains ''database is busy'' (py_lower msg)"

fun is_lock_error :: "exc \<Rightarrow> bool" where
  "is_lock_error (OperationalError msg) = is_lock_message msg"
| "is_lock_error _ = False"

subsection \<open>The retry loop\<close>

definition lock_retry_delays_ms :: "nat list" where
  "lock_retry_delays_ms = [10, 50, 250]"

fun attempt_chain ::
  "nat list \<Rightarrow> (nat \<Rightarrow> 's \<Rightarrow> (exc + 'a) \<times> 's) \<Rightarrow> nat \<Rightarrow> 's \<Rightarrow> (exc + 'a) \<times> 's \<times> nat list"
where
  "attempt_chain [] operation i s =
     (case operation i s of
        (Inl e, s') \<Rightarrow> (if is_lock_error e then Inl SqliteLockConflict else Inl e, s', [])
      | (Inr a, s') \<Rightarrow> (Inr a, s', []))"
| "attempt_chain (d # delays) operation i s =
     (case operation i s of
        (Inl e, s') \<Rightarrow>
          if is_lock_error e
          then (case attempt_chain delays operation (Suc i) s' of
                  (r, s'', slept) \<Rightarrow> (r, s'', d # slept))
          else (Inl e, s', [])
      | (Inr a, s') \<Rightarrow> (Inr a, s', []))"

definition with_lock_retry ::
  "(nat \<Rightarrow> 's \<Rightarrow> (exc + 'a) \<times> 's) \<Rightarrow> 's \<Rightarrow> (exc + 'a) \<times> 's \<times> nat list" where
  "with_lock_retry operation s = attempt_chain lock_retry_delays_ms operation 0 s"

subsection \<open>Transactions\<close>

text \<open>
  \<open>BEGIN IMMEDIATE; body; COMMIT\<close>, with \<open>ROLLBACK\<close> on an exception of the body. A failing
  \<open>BEGIN\<close> raises before the body runs.
\<close>

definition begin_immediate :: "(nat \<Rightarrow> bool) \<Rightarrow> 'r tx \<Rightarrow> nat \<Rightarrow> db \<Rightarrow> (exc + 'r) \<times> db" where
  "begin_immediate busy body i d =
     (if busy i then (Inl (OperationalError ''database is locked''), d)
      else case body d of Inl e \<Rightarrow> (Inl e, d) | Inr (r, d') \<Rightarrow> (Inr r, d'))"

definition locked_tx :: "(nat \<Rightarrow> bool) \<Rightarrow> 'r tx \<Rightarrow> db \<Rightarrow> (exc + 'r) \<times> db" where
  "locked_tx busy body d =
     (case with_lock_retry (begin_immediate busy body) d of (r, d', slept) \<Rightarrow> (r, d'))"

definition all_busy :: "(nat \<Rightarrow> bool) \<Rightarrow> bool" where
  "all_busy busy \<longleftrightarrow> list_all busy [0..<Suc (length lock_retry_delays_ms)]"

subsection \<open>Facts\<close>

lemma is_lock_message_locked [simp]: "is_lock_message ''database is locked''"
  by (simp add: is_lock_message_def py_lower_def py_startswith_def)

lemma attempt_chain_slept:
  assumes "attempt_chain delays operation i s = (r, s', slept)"
  shows "\<exists>k \<le> length delays. slept = take k delays"
  using assms
proof (induction delays arbitrary: i s s' slept)
  case Nil
  then show ?case by (auto split: prod.splits sum.splits)
next
  case (Cons d delays)
  show ?case
  proof (cases "slept = []")
    case True
    then have "slept = take 0 (d # delays)" by simp
    then show ?thesis by blast
  next
    case False
    with Cons.prems obtain s1 sl where
      "attempt_chain delays operation (Suc i) s1 = (r, s', sl)" "slept = d # sl"
      by (auto split: prod.splits sum.splits if_splits)
    with Cons.IH obtain k where "k \<le> length delays" "slept = d # take k delays" by blast
    then show ?thesis by (intro exI [of _ "Suc k"]) simp
  qed
qed

lemma sum_list_take_le: "sum_list (take k (xs :: nat list)) \<le> sum_list xs"
  by (metis append_take_drop_id le_add1 sum_list_append)

lemma attempt_chain_error_keeps:
  assumes "\<And>i s e s'. operation i s = (Inl e, s') \<Longrightarrow> s' = s"
    and "attempt_chain delays operation i s = (Inl e, s', slept)"
  shows "s' = s"
  using assms(2)
  by (induction delays arbitrary: i s s' slept)
     (auto split: prod.splits sum.splits if_splits dest!: assms(1))

lemma attempt_chain_ok:
  assumes "\<And>i s e s'. operation i s = (Inl e, s') \<Longrightarrow> s' = s"
    and "attempt_chain delays operation i s = (Inr a, s', slept)"
  shows "\<exists>j. operation j s = (Inr a, s')"
  using assms(2)
  by (induction delays arbitrary: i s s' slept)
     (fastforce split: prod.splits sum.splits if_splits dest: assms(1))+

lemma begin_immediate_error_keeps:
  "begin_immediate busy body i d = (Inl e, d') \<Longrightarrow> d' = d"
  by (auto simp: begin_immediate_def split: if_splits sum.splits)

lemma locked_tx_error [dest]: "locked_tx busy body d = (Inl e, d') \<Longrightarrow> d' = d"
  using attempt_chain_error_keeps [of "begin_immediate busy body", OF begin_immediate_error_keeps]
  by (auto simp: locked_tx_def with_lock_retry_def split: prod.splits)

lemma locked_tx_ok [dest]:
  assumes "locked_tx busy body d = (Inr r, d')"
  shows "body d = Inr (r, d')"
proof -
  from assms obtain slept where
    "attempt_chain lock_retry_delays_ms (begin_immediate busy body) 0 d = (Inr r, d', slept)"
    by (auto simp: locked_tx_def with_lock_retry_def split: prod.splits)
  then have "\<exists>j. begin_immediate busy body j d = (Inr r, d')"
    by (rule attempt_chain_ok [rotated]) (rule begin_immediate_error_keeps)
  then obtain j where "begin_immediate busy body j d = (Inr r, d')" ..
  then show ?thesis by (auto simp: begin_immediate_def split: if_splits sum.splits)
qed

lemma attempt_chain_begin_immediate:
  assumes "\<And>e. body d = Inl e \<Longrightarrow> \<not> is_lock_error e"
  shows "attempt_chain delays (begin_immediate busy body) i d =
    (if list_all busy [i..<Suc (i + length delays)] then (Inl SqliteLockConflict, d, delays)
     else (case body d of Inl e \<Rightarrow> Inl e | Inr (r, d') \<Rightarrow> Inr r,
           case body d of Inl e \<Rightarrow> d | Inr (r, d') \<Rightarrow> d',
           map snd (takeWhile (\<lambda>(j, _). busy j) (zip [i..<i + length delays] delays))))"
proof (induction delays arbitrary: i)
  case Nil
  show ?case using assms by (auto simp: begin_immediate_def split: sum.splits)
next
  case (Cons x delays)
  have upt: "[i..<Suc (i + length (x # delays))] = i # [Suc i..<Suc (Suc i + length delays)]"
    by (simp add: upt_rec)
  have upt': "[i..<i + length (x # delays)] = i # [Suc i..<Suc i + length delays]"
    by (simp add: upt_rec)
  show ?case
    unfolding upt upt' using assms Cons.IH [of "Suc i"]
    by (auto simp: begin_immediate_def split: sum.splits)
qed

lemma locked_tx_eq:
  assumes "\<And>e. body d = Inl e \<Longrightarrow> \<not> is_lock_error e"
  shows "locked_tx busy body d =
    (if all_busy busy then (Inl SqliteLockConflict, d)
     else case body d of Inl e \<Rightarrow> (Inl e, d) | Inr (r, d') \<Rightarrow> (Inr r, d'))"
  using attempt_chain_begin_immediate [of body d lock_retry_delays_ms busy 0] assms
  by (auto simp: locked_tx_def with_lock_retry_def all_busy_def split: sum.splits)

lemma locked_tx_free:
  assumes "\<not> all_busy busy" "body d = Inr (r, d')"
  shows "locked_tx busy body d = (Inr r, d')"
  using assms locked_tx_eq [of body d busy] by simp

lemma locked_tx_free_error:
  assumes "\<not> all_busy busy" "body d = Inl e" "\<not> is_lock_error e"
  shows "locked_tx busy body d = (Inl e, d)"
  using assms locked_tx_eq [of body d busy] by simp

lemma all_busy_False [simp]: "\<not> all_busy (\<lambda>_. False)"
  by (simp add: all_busy_def lock_retry_delays_ms_def)

text \<open>
  C30: the retry schedule. A transaction that does not itself fail with a lock error is attempted at
  most four times: if the database is locked every time the caller gets \<open>SqliteLockConflict\<close> after
  10, 50 and 250 ms of sleep and nothing has changed; otherwise the first attempt that gets the lock
  decides the result, after the delays of the attempts before it, at most 310 ms in all.
\<close>

theorem lock_retry_outcome:
  assumes "\<And>e. body d = Inl e \<Longrightarrow> \<not> is_lock_error e"
  shows "with_lock_retry (begin_immediate busy body) d =
    (if busy 0 \<and> busy 1 \<and> busy 2 \<and> busy 3 then (Inl SqliteLockConflict, d, [10, 50, 250])
     else (case body d of Inl e \<Rightarrow> Inl e | Inr (r, d') \<Rightarrow> Inr r,
           case body d of Inl e \<Rightarrow> d | Inr (r, d') \<Rightarrow> d',
           take (length (takeWhile busy [0, 1, 2])) [10, 50, 250]))"
  using attempt_chain_begin_immediate [of body d lock_retry_delays_ms busy 0, OF assms]
  by (simp add: with_lock_retry_def lock_retry_delays_ms_def upt_rec numeral_2_eq_2 numeral_3_eq_3)

theorem lock_retry_outcome_witness:
  "with_lock_retry (begin_immediate (\<lambda>i. i < 2) (tx_return (7 :: nat)))
     \<lparr>db_queue = [], db_events = [], db_next_event_id = 1, db_flag = None, db_routes = []\<rparr> =
   (Inr 7, \<lparr>db_queue = [], db_events = [], db_next_event_id = 1, db_flag = None, db_routes = []\<rparr>,
    [10, 50])"
  by (subst lock_retry_outcome) (auto simp: tx_return_def)

end
