(* ===== verification/Queue_Dao.thy ===== *)
theory Queue_Dao
  imports Lock_Retry
begin

text \<open>
  \<open>MessageQueueDao\<close> and \<open>DaemonStateDao\<close> (\<open>routing/dao.py\<close>): the inserts, the worker's and the
  operator's transitions, recovery, and the reads. Every write is one transaction under the lock
  retry; the audit callback of a transition runs inside it and is the argument \<open>audit_callback\<close>
  (no callback is \<open>tx_return None\<close>).

  The specification of the queue is a transition system on the phases of a message
  (\<open>phase_step\<close>). The locale \<open>audit_hook\<close> states what the DAO relies on of a callback; in it every
  operation is proved to keep the table well-formed and to move each row along at most one
  transition of the specification, with its identity columns frozen.
\<close>

subsection \<open>Inserts\<close>

definition insert_row_tx :: "queue_row \<Rightarrow> 'p tx \<Rightarrow> 'p tx" where
  "insert_row_tx r audit_callback = tx_bind (mq_insert r) (\<lambda>_. audit_callback)"

definition new_queue_row ::
  "string \<Rightarrow> queue_state \<Rightarrow> block_reason option \<Rightarrow> ident \<Rightarrow> ident \<Rightarrow> string \<Rightarrow> string \<Rightarrow> bytes \<Rightarrow>
   string \<Rightarrow> nat \<Rightarrow> timestamp \<Rightarrow> origin \<Rightarrow> string option \<Rightarrow> nat option \<Rightarrow> queue_row" where
  "new_queue_row message_id state block_reason sender target container_id pane_id body sha256 size_bytes
     enqueued_at origin route_id event_id =
   \<lparr>mq_message_id = message_id, mq_state = state, mq_block_reason = block_reason,
    mq_failure_reason = None, mq_sender = sender, mq_target = target,
    mq_target_container_id = container_id, mq_target_pane_id = pane_id,
    mq_envelope_body = body, mq_envelope_body_sha256 = sha256, mq_envelope_size_bytes = size_bytes,
    mq_enqueued_at = enqueued_at, mq_delivery_attempt_started_at = None, mq_delivered_at = None,
    mq_failed_at = None, mq_canceled_at = None, mq_last_updated_at = enqueued_at,
    mq_operator_action = None, mq_operator_action_at = None, mq_operator_action_by = None,
    mq_origin = origin, mq_route_id = route_id, mq_event_id = event_id\<rparr>"

definition insert_queued ::
  "(nat \<Rightarrow> bool) \<Rightarrow> string \<Rightarrow> ident \<Rightarrow> ident \<Rightarrow> string \<Rightarrow> string \<Rightarrow> bytes \<Rightarrow> string \<Rightarrow> nat \<Rightarrow>
   timestamp \<Rightarrow> 'p tx \<Rightarrow> origin \<Rightarrow> string option \<Rightarrow> nat option \<Rightarrow> db \<Rightarrow> (exc + 'p) \<times> db" where
  "insert_queued busy message_id sender target container_id pane_id body sha256 size_bytes enqueued_at
     audit_callback origin route_id event_id =
   locked_tx busy
     (insert_row_tx
        (new_queue_row message_id Queued None sender target container_id pane_id body sha256 size_bytes
           enqueued_at origin route_id event_id)
        audit_callback)"

definition insert_blocked ::
  "(nat \<Rightarrow> bool) \<Rightarrow> string \<Rightarrow> ident \<Rightarrow> ident \<Rightarrow> string \<Rightarrow> string \<Rightarrow> bytes \<Rightarrow> string \<Rightarrow> nat \<Rightarrow>
   timestamp \<Rightarrow> block_reason \<Rightarrow> 'p tx \<Rightarrow> origin \<Rightarrow> string option \<Rightarrow> nat option \<Rightarrow> db \<Rightarrow>
   (exc + 'p) \<times> db" where
  "insert_blocked busy message_id sender target container_id pane_id body sha256 size_bytes enqueued_at
     block_reason audit_callback origin route_id event_id =
   locked_tx busy
     (insert_row_tx
        (new_queue_row message_id Blocked (Some block_reason) sender target container_id pane_id
           body sha256 size_bytes enqueued_at origin route_id event_id)
        audit_callback)"

subsection \<open>Worker transitions\<close>

definition ready :: "queue_row \<Rightarrow> bool" where
  "ready r \<longleftrightarrow> mq_state r = Queued \<and> mq_delivery_attempt_started_at r = None"

text \<open>\<open>delivery_attempt_started_at\<close> set and no terminal stamp: the row is mid-delivery.\<close>

definition in_flight :: "queue_row \<Rightarrow> bool" where
  "in_flight r \<longleftrightarrow>
     mq_delivery_attempt_started_at r \<noteq> None \<and> mq_delivered_at r = None \<and>
     mq_failed_at r = None \<and> mq_canceled_at r = None"

text \<open>\<open>ORDER BY enqueued_at ASC, message_id ASC\<close>.\<close>

definition order_rows :: "queue_row list \<Rightarrow> queue_row list" where
  "order_rows rows = sort_key (\<lambda>r. (mq_enqueued_at r, mq_message_id r)) rows"

definition pick_next_ready_row :: "db \<Rightarrow> queue_row option" where
  "pick_next_ready_row d =
     (case order_rows (filter ready (db_queue d)) of [] \<Rightarrow> None | r # _ \<Rightarrow> Some r)"

definition update_or_raise ::
  "(queue_row \<Rightarrow> bool) \<Rightarrow> (queue_row \<Rightarrow> queue_row) \<Rightarrow> exc \<Rightarrow> 'p tx \<Rightarrow> 'p tx" where
  "update_or_raise p f e continue =
     tx_bind (mq_update p f) (\<lambda>n. if n = 0 then tx_raise e else continue)"

definition stamp_delivery_attempt_started ::
  "(nat \<Rightarrow> bool) \<Rightarrow> string \<Rightarrow> timestamp \<Rightarrow> db \<Rightarrow> (exc + unit) \<times> db" where
  "stamp_delivery_attempt_started busy message_id ts =
     locked_tx busy
       (update_or_raise (\<lambda>r. mq_message_id r = message_id \<and> ready r)
          (\<lambda>r. r\<lparr>mq_delivery_attempt_started_at := Some ts, mq_last_updated_at := ts\<rparr>)
          (QueueServiceError ''delivery_in_progress'') (tx_return ()))"

text \<open>The terminal column and the reason a transition out of flight writes.\<close>

datatype terminal_write = Write_delivered | Write_failed failure_reason

fun write_terminal :: "terminal_write \<Rightarrow> timestamp \<Rightarrow> queue_row \<Rightarrow> queue_row" where
  "write_terminal Write_delivered ts r =
     r\<lparr>mq_state := Delivered, mq_delivered_at := Some ts, mq_last_updated_at := ts\<rparr>"
| "write_terminal (Write_failed reason) ts r =
     r\<lparr>mq_state := Failed, mq_failed_at := Some ts, mq_last_updated_at := ts,
       mq_failure_reason := Some reason\<rparr>"

definition terminal_transition_from_in_flight ::
  "(nat \<Rightarrow> bool) \<Rightarrow> string \<Rightarrow> terminal_write \<Rightarrow> timestamp \<Rightarrow> 'p tx \<Rightarrow> db \<Rightarrow> (exc + 'p) \<times> db" where
  "terminal_transition_from_in_flight busy message_id w ts audit_callback =
     locked_tx busy
       (update_or_raise
          (\<lambda>r. mq_message_id r = message_id \<and> mq_state r = Queued \<and> in_flight r)
          (write_terminal w ts) (QueueServiceError ''message_id_not_found'') audit_callback)"

definition transition_queued_to_delivered ::
  "(nat \<Rightarrow> bool) \<Rightarrow> string \<Rightarrow> timestamp \<Rightarrow> 'p tx \<Rightarrow> db \<Rightarrow> (exc + 'p) \<times> db" where
  "transition_queued_to_delivered busy message_id ts =
     terminal_transition_from_in_flight busy message_id Write_delivered ts"

definition transition_queued_to_failed ::
  "(nat \<Rightarrow> bool) \<Rightarrow> string \<Rightarrow> failure_reason \<Rightarrow> timestamp \<Rightarrow> 'p tx \<Rightarrow> db \<Rightarrow> (exc + 'p) \<times> db" where
  "transition_queued_to_failed busy message_id failure_reason ts =
     terminal_transition_from_in_flight busy message_id (Write_failed failure_reason) ts"

definition transition_queued_to_blocked_re_check ::
  "(nat \<Rightarrow> bool) \<Rightarrow> string \<Rightarrow> block_reason \<Rightarrow> timestamp \<Rightarrow> 'p tx \<Rightarrow> db \<Rightarrow> (exc + 'p) \<times> db" where
  "transition_queued_to_blocked_re_check busy message_id block_reason ts audit_callback =
     locked_tx busy
       (update_or_raise (\<lambda>r. mq_message_id r = message_id \<and> ready r)
          (\<lambda>r. r\<lparr>mq_state := Blocked, mq_block_reason := Some block_reason,
                  mq_last_updated_at := ts\<rparr>)
          (QueueServiceError ''message_id_not_found'') audit_callback)"

subsection \<open>Operator transitions\<close>

fun not_applicable_code :: "operator_action \<Rightarrow> string" where
  "not_applicable_code Act_approved = ''approval_not_applicable''"
| "not_applicable_code Act_delayed = ''delay_not_applicable''"
| "not_applicable_code Act_canceled = ''terminal_state_cannot_change''"

text \<open>The checks shared by the three operator transitions, before the \<open>UPDATE\<close>.\<close>

definition operator_precheck :: "string \<Rightarrow> (queue_row \<Rightarrow> 'p tx) \<Rightarrow> 'p tx" where
  "operator_precheck message_id continue =
     tx_bind (tx_get (mq_select message_id))
       (\<lambda>row. case row of
          None \<Rightarrow> tx_raise (QueueServiceError ''message_id_not_found'')
        | Some r \<Rightarrow>
            if terminal (mq_state r)
            then tx_raise (QueueServiceError ''terminal_state_cannot_change'')
            else if in_flight r then tx_raise (QueueServiceError ''delivery_in_progress'')
            else continue r)"

definition operator_write ::
  "string \<Rightarrow> timestamp \<Rightarrow> queue_state \<Rightarrow> queue_state \<Rightarrow> operator_action \<Rightarrow> block_reason option \<Rightarrow>
   queue_row \<Rightarrow> queue_row" where
  "operator_write operator ts from_state to_state operator_action block_reason_new r =
     r\<lparr>mq_state := to_state, mq_last_updated_at := ts, mq_operator_action := Some operator_action,
       mq_operator_action_at := Some ts, mq_operator_action_by := Some operator,
       mq_block_reason :=
         (case block_reason_new of
            Some b \<Rightarrow> Some b
          | None \<Rightarrow> if from_state = Blocked \<and> to_state = Queued then None
                    else mq_block_reason r)\<rparr>"

definition operator_transition ::
  "(nat \<Rightarrow> bool) \<Rightarrow> string \<Rightarrow> string \<Rightarrow> timestamp \<Rightarrow> queue_state \<Rightarrow> queue_state \<Rightarrow> operator_action \<Rightarrow>
   block_reason option \<Rightarrow> 'p tx \<Rightarrow> db \<Rightarrow> (exc + 'p) \<times> db" where
  "operator_transition busy message_id operator ts from_state to_state operator_action
     block_reason_new audit_callback =
   locked_tx busy
     (operator_precheck message_id
        (\<lambda>row. if mq_state row \<noteq> from_state
           then tx_raise (QueueServiceError (not_applicable_code operator_action))
           else update_or_raise (\<lambda>r. mq_message_id r = message_id \<and> mq_state r = from_state)
             (operator_write operator ts from_state to_state operator_action block_reason_new)
             (QueueServiceError (not_applicable_code operator_action)) audit_callback))"

definition transition_blocked_to_queued_approve ::
  "(nat \<Rightarrow> bool) \<Rightarrow> string \<Rightarrow> string \<Rightarrow> timestamp \<Rightarrow> 'p tx \<Rightarrow> db \<Rightarrow> (exc + 'p) \<times> db" where
  "transition_blocked_to_queued_approve busy message_id operator ts =
     operator_transition busy message_id operator ts Blocked Queued Act_approved None"

definition transition_queued_to_blocked_delay ::
  "(nat \<Rightarrow> bool) \<Rightarrow> string \<Rightarrow> string \<Rightarrow> timestamp \<Rightarrow> 'p tx \<Rightarrow> db \<Rightarrow> (exc + 'p) \<times> db" where
  "transition_queued_to_blocked_delay busy message_id operator ts =
     operator_transition busy message_id operator ts Queued Blocked Act_delayed
       (Some Operator_delayed)"

definition cancel_write :: "string \<Rightarrow> timestamp \<Rightarrow> queue_row \<Rightarrow> queue_row" where
  "cancel_write operator ts r =
     r\<lparr>mq_state := Canceled, mq_canceled_at := Some ts, mq_last_updated_at := ts,
       mq_block_reason := None, mq_operator_action := Some Act_canceled,
       mq_operator_action_at := Some ts, mq_operator_action_by := Some operator\<rparr>"

definition transition_to_canceled ::
  "(nat \<Rightarrow> bool) \<Rightarrow> string \<Rightarrow> string \<Rightarrow> timestamp \<Rightarrow> 'p tx \<Rightarrow> db \<Rightarrow> (exc + 'p) \<times> db" where
  "transition_to_canceled busy message_id operator ts audit_callback =
     locked_tx busy
       (operator_precheck message_id
          (\<lambda>_. update_or_raise
             (\<lambda>r. mq_message_id r = message_id \<and> (mq_state r = Queued \<or> mq_state r = Blocked))
             (cancel_write operator ts)
             (QueueServiceError ''message_id_not_found'') audit_callback))"

subsection \<open>Recovery\<close>

definition snapshot_in_flight_identities :: "db \<Rightarrow> (string \<times> ident \<times> ident) list" where
  "snapshot_in_flight_identities d =
     map (\<lambda>r. (mq_message_id r, mq_sender r, mq_target r)) (filter in_flight (db_queue d))"

definition recover_in_flight_rows ::
  "(nat \<Rightarrow> bool) \<Rightarrow> timestamp \<Rightarrow> (nat \<Rightarrow> 'p tx) \<Rightarrow> db \<Rightarrow> (exc + (nat \<times> 'p)) \<times> db" where
  "recover_in_flight_rows busy ts audit_callback =
     locked_tx busy
       (tx_bind (mq_update in_flight
           (\<lambda>r. r\<lparr>mq_state := Failed, mq_failure_reason := Some Attempt_interrupted,
                   mq_failed_at := Some ts, mq_last_updated_at := ts\<rparr>))
          (\<lambda>n. tx_bind (audit_callback n) (\<lambda>p. tx_return (n, p))))"

subsection \<open>Reads\<close>

definition read_envelope_bytes :: "string \<Rightarrow> db \<Rightarrow> exc + bytes" where
  "read_envelope_bytes message_id d =
     (case mq_select message_id d of
        None \<Rightarrow> Inl (QueueServiceError ''message_id_not_found'')
      | Some r \<Rightarrow> Inr (mq_envelope_body r))"

definition get_row_by_id :: "string \<Rightarrow> db \<Rightarrow> queue_row option" where
  "get_row_by_id message_id d = mq_select message_id d"

record queue_list_filter =
  qf_state :: "string option"
  qf_target_agent_id :: "string option"
  qf_sender_agent_id :: "string option"
  qf_since :: "timestamp option"
  qf_limit :: "int option"
  qf_origin :: "string option"

fun origin_str :: "origin \<Rightarrow> string" where
  "origin_str Direct = ''direct''"
| "origin_str Route = ''route''"

definition filter_clause :: "'a option \<Rightarrow> ('a \<Rightarrow> bool) \<Rightarrow> bool" where
  "filter_clause q p = (case q of None \<Rightarrow> True | Some x \<Rightarrow> p x)"

definition row_matches :: "queue_list_filter \<Rightarrow> queue_row \<Rightarrow> bool" where
  "row_matches f r \<longleftrightarrow>
     filter_clause (qf_state f) (\<lambda>s. queue_state_str (mq_state r) = s) \<and>
     filter_clause (qf_target_agent_id f) (\<lambda>a. id_agent_id (mq_target r) = a) \<and>
     filter_clause (qf_sender_agent_id f) (\<lambda>a. id_agent_id (mq_sender r) = a) \<and>
     filter_clause (qf_since f) (\<lambda>t. t \<le> mq_enqueued_at r) \<and>
     filter_clause (qf_origin f) (\<lambda>g. origin_str (mq_origin r) = g)"

definition list_limit :: "int option \<Rightarrow> nat" where
  "list_limit l = nat (max 1 (min (case l of None \<Rightarrow> 100 | Some n \<Rightarrow> n) 1000))"

definition list_rows :: "queue_list_filter \<Rightarrow> db \<Rightarrow> exc + queue_row list" where
  "list_rows f d =
     (if filter_clause (qf_origin f) (\<lambda>g. g = ''direct'' \<or> g = ''route'')
      then Inr (take (list_limit (qf_limit f)) (order_rows (filter (row_matches f) (db_queue d))))
      else Inl ValueError)"

subsection \<open>The routing flag\<close>

definition read_routing_flag :: "db \<Rightarrow> exc + routing_flag" where
  "read_routing_flag d = (case db_flag d of None \<Rightarrow> Inl RuntimeError | Some f \<Rightarrow> Inr f)"

text \<open>The \<open>UPDATE\<close> touches no row when the seed row is missing.\<close>

definition write_routing_flag ::
  "(nat \<Rightarrow> bool) \<Rightarrow> string \<Rightarrow> timestamp \<Rightarrow> string \<Rightarrow> 'p tx \<Rightarrow> db \<Rightarrow> (exc + 'p) \<times> db" where
  "write_routing_flag busy value ts updated_by audit_callback d =
     (if value \<noteq> ''enabled'' \<and> value \<noteq> ''disabled'' then (Inl ValueError, d)
      else locked_tx busy
        (\<lambda>d. audit_callback
           (d\<lparr>db_flag := map_option (\<lambda>_. \<lparr>fl_value = value, fl_last_updated_at = ts,
                                           fl_last_updated_by = updated_by\<rparr>) (db_flag d)\<rparr>)) d)"

subsection \<open>Specification: the phases of a message\<close>

datatype msg_phase =
    Ph_queued | Ph_in_flight | Ph_blocked "block_reason option" | Ph_delivered
  | Ph_failed "failure_reason option" | Ph_canceled

inductive phase_step :: "msg_phase \<Rightarrow> msg_phase \<Rightarrow> bool" where
  claim: "phase_step Ph_queued Ph_in_flight"
| deliver: "phase_step Ph_in_flight Ph_delivered"
| fail: "phase_step Ph_in_flight (Ph_failed (Some reason))"
| block: "phase_step Ph_queued (Ph_blocked (Some reason))"
| approve: "phase_step (Ph_blocked reason) Ph_queued"
| cancel_queued: "phase_step Ph_queued Ph_canceled"
| cancel_blocked: "phase_step (Ph_blocked reason) Ph_canceled"

inductive_simps phase_step_simps [simp]:
  "phase_step Ph_queued q" "phase_step Ph_in_flight q" "phase_step (Ph_blocked b) q"
  "phase_step Ph_delivered q" "phase_step (Ph_failed e) q" "phase_step Ph_canceled q"

definition phase :: "queue_row \<Rightarrow> msg_phase" where
  "phase r =
     (case mq_state r of
        Queued \<Rightarrow> if mq_delivery_attempt_started_at r = None then Ph_queued else Ph_in_flight
      | Blocked \<Rightarrow> Ph_blocked (mq_block_reason r)
      | Delivered \<Rightarrow> Ph_delivered
      | Failed \<Rightarrow> Ph_failed (mq_failure_reason r)
      | Canceled \<Rightarrow> Ph_canceled)"

text \<open>
  The row invariant: the table's constraints, and the coherence of state, reasons and stamps the
  transitions maintain beyond them.
\<close>

definition stamps_coherent :: "queue_row \<Rightarrow> bool" where
  "stamps_coherent r \<longleftrightarrow>
     (mq_delivered_at r \<noteq> None \<longleftrightarrow> mq_state r = Delivered) \<and>
     (mq_failed_at r \<noteq> None \<longleftrightarrow> mq_state r = Failed) \<and>
     (mq_canceled_at r \<noteq> None \<longleftrightarrow> mq_state r = Canceled) \<and>
     (mq_block_reason r \<noteq> None \<longleftrightarrow> mq_state r = Blocked) \<and>
     (mq_failure_reason r \<noteq> None \<longleftrightarrow> mq_state r = Failed) \<and>
     (mq_state r \<in> {Delivered, Failed} \<longrightarrow> mq_delivery_attempt_started_at r \<noteq> None) \<and>
     (mq_state r \<in> {Blocked, Canceled} \<longrightarrow> mq_delivery_attempt_started_at r = None)"

definition queue_row_ok :: "queue_row \<Rightarrow> bool" where
  "queue_row_ok r \<longleftrightarrow> queue_row_checks r \<and> stamps_coherent r"

definition queue_wf :: "queue_row list \<Rightarrow> bool" where
  "queue_wf rows \<longleftrightarrow>
     distinct (map mq_message_id rows) \<and> list_all queue_row_ok rows \<and>
     sorted_wrt (\<lambda>r r'. \<not> same_route_event r r') rows"

text \<open>The columns no transition writes: the identity snapshot, the body and the route tag.\<close>

definition frozen where
  "frozen r =
     (mq_message_id r, mq_sender r, mq_target r, mq_target_container_id r, mq_target_pane_id r,
      mq_envelope_body r, mq_envelope_body_sha256 r, mq_envelope_size_bytes r, mq_enqueued_at r,
      mq_origin r, mq_route_id r, mq_event_id r)"

text \<open>
  How a change of the table may affect it: every row is kept or moves as \<open>A\<close> allows with its frozen
  columns unchanged, and new rows come last, queued or blocked.
\<close>

definition row_evolves :: "(queue_row \<Rightarrow> queue_row \<Rightarrow> bool) \<Rightarrow> queue_row \<Rightarrow> queue_row \<Rightarrow> bool" where
  "row_evolves A r r' \<longleftrightarrow> r' = r \<or> (A r r' \<and> frozen r' = frozen r)"

definition fresh_row :: "queue_row \<Rightarrow> bool" where
  "fresh_row r \<longleftrightarrow> phase r = Ph_queued \<or> (\<exists>b. phase r = Ph_blocked (Some b))"

definition queue_evolves ::
  "(queue_row \<Rightarrow> queue_row \<Rightarrow> bool) \<Rightarrow> queue_row list \<Rightarrow> queue_row list \<Rightarrow> bool" where
  "queue_evolves A rows rows' \<longleftrightarrow>
     (\<exists>kept new. rows' = kept @ new \<and> list_all2 (row_evolves A) rows kept \<and> list_all fresh_row new)"

definition queue_legal ::
  "(queue_row \<Rightarrow> queue_row \<Rightarrow> bool) \<Rightarrow> queue_row list \<Rightarrow> queue_row list \<Rightarrow> bool" where
  "queue_legal A rows rows' \<longleftrightarrow> queue_wf rows' \<and> queue_evolves A rows rows'"

definition spec_step :: "queue_row \<Rightarrow> queue_row \<Rightarrow> bool" where
  "spec_step r r' \<longleftrightarrow> phase_step (phase r) (phase r')"

text \<open>The transition each operation makes.\<close>

definition claims :: "string \<Rightarrow> queue_row \<Rightarrow> queue_row \<Rightarrow> bool" where
  "claims m r r' \<longleftrightarrow> mq_message_id r = m \<and> phase r = Ph_queued \<and> phase r' = Ph_in_flight"

fun terminal_phase :: "terminal_write \<Rightarrow> msg_phase" where
  "terminal_phase Write_delivered = Ph_delivered"
| "terminal_phase (Write_failed reason) = Ph_failed (Some reason)"

definition finishes :: "string \<Rightarrow> terminal_write \<Rightarrow> queue_row \<Rightarrow> queue_row \<Rightarrow> bool" where
  "finishes m w r r' \<longleftrightarrow> mq_message_id r = m \<and> phase r = Ph_in_flight \<and> phase r' = terminal_phase w"

definition blocks :: "string \<Rightarrow> block_reason \<Rightarrow> queue_row \<Rightarrow> queue_row \<Rightarrow> bool" where
  "blocks m b r r' \<longleftrightarrow> mq_message_id r = m \<and> phase r = Ph_queued \<and> phase r' = Ph_blocked (Some b)"

definition approves :: "string \<Rightarrow> queue_row \<Rightarrow> queue_row \<Rightarrow> bool" where
  "approves m r r' \<longleftrightarrow> mq_message_id r = m \<and> (\<exists>b. phase r = Ph_blocked b) \<and> phase r' = Ph_queued"

definition cancels :: "string \<Rightarrow> queue_row \<Rightarrow> queue_row \<Rightarrow> bool" where
  "cancels m r r' \<longleftrightarrow> mq_message_id r = m \<and> (phase r = Ph_queued \<or> (\<exists>b. phase r = Ph_blocked b)) \<and>
     phase r' = Ph_canceled"

definition interrupts :: "queue_row \<Rightarrow> queue_row \<Rightarrow> bool" where
  "interrupts r r' \<longleftrightarrow> phase r = Ph_in_flight \<and> phase r' = Ph_failed (Some Attempt_interrupted)"

lemmas transition_defs = claims_def finishes_def blocks_def approves_def cancels_def interrupts_def

lemma transitions_spec_step:
  "claims m r r' \<Longrightarrow> spec_step r r'" "finishes m w r r' \<Longrightarrow> spec_step r r'"
  "blocks m b r r' \<Longrightarrow> spec_step r r'" "approves m r r' \<Longrightarrow> spec_step r r'"
  "cancels m r r' \<Longrightarrow> spec_step r r'" "interrupts r r' \<Longrightarrow> spec_step r r'"
  by (cases w; force simp: transition_defs spec_step_def)+

lemmas row_ok_defs = queue_row_ok_def queue_row_checks_def stamps_coherent_def

subsection \<open>Legal changes of the table\<close>

lemma queue_evolves_refl [simp]: "queue_evolves A rows rows"
  unfolding queue_evolves_def
  by (intro exI [of _ rows] exI [of _ "[]"]) (simp add: list.rel_refl row_evolves_def)

lemma queue_legal_refl [simp]: "queue_wf rows \<Longrightarrow> queue_legal A rows rows"
  by (simp add: queue_legal_def)

lemma queue_legal_mono:
  assumes "queue_legal A rows rows'" "\<And>r r'. A r r' \<Longrightarrow> B r r'"
  shows "queue_legal B rows rows'"
proof -
  have "list_all2 (row_evolves B) xs ys" if "list_all2 (row_evolves A) xs ys" for xs ys
    using that by (rule list.rel_mono_strong) (auto simp: row_evolves_def assms(2))
  then show ?thesis using assms(1) unfolding queue_legal_def queue_evolves_def by blast
qed

lemma queue_legal_wf: "queue_legal A rows rows' \<Longrightarrow> queue_wf rows'"
  by (simp add: queue_legal_def)

lemma queue_wf_row_ok: "queue_wf rows \<Longrightarrow> r \<in> set rows \<Longrightarrow> queue_row_ok r"
  by (simp add: queue_wf_def list_all_iff)

lemma frozen_route_event:
  assumes "frozen r1' = frozen r1" "frozen r2' = frozen r2"
  shows "same_route_event r1' r2' = same_route_event r1 r2"
  using assms by (simp add: frozen_def same_route_event_def)

lemma queue_legal_update:
  assumes wf: "queue_wf rows"
    and step: "\<And>r. r \<in> set rows \<Longrightarrow> p r \<Longrightarrow>
      queue_row_ok (f r) \<and> frozen (f r) = frozen r \<and> A r (f r)"
  shows "queue_legal A rows (update_where p f rows)"
proof -
  let ?g = "\<lambda>r. if p r then f r else r"
  have fr: "frozen (?g r) = frozen r" if "r \<in> set rows" for r using step that by simp
  have "map mq_message_id (update_where p f rows) = map mq_message_id rows"
    using fr by (simp add: update_where_def frozen_def)
  moreover have "list_all queue_row_ok (update_where p f rows)"
    using wf step by (auto simp: update_where_def list_all_iff queue_wf_def)
  moreover have "sorted_wrt (\<lambda>r r'. \<not> same_route_event r r') (update_where p f rows)"
    unfolding update_where_def sorted_wrt_map
  proof (rule sorted_wrt_mono_rel)
    show "sorted_wrt (\<lambda>r r'. \<not> same_route_event r r') rows" using wf by (simp add: queue_wf_def)
    show "\<not> same_route_event (?g x) (?g y)"
      if "x \<in> set rows" "y \<in> set rows" "\<not> same_route_event x y" for x y
      using frozen_route_event [OF fr fr] that by blast
  qed
  ultimately have "queue_wf (update_where p f rows)" using wf by (simp add: queue_wf_def)
  moreover have "list_all2 (row_evolves A) rows (update_where p f rows)"
    unfolding update_where_def list_all2_map2
    by (rule list.rel_refl_strong) (use step in \<open>auto simp: row_evolves_def\<close>)
  then have "queue_evolves A rows (update_where p f rows)"
    unfolding queue_evolves_def by (intro exI [of _ "update_where p f rows"] exI [of _ "[]"]) simp
  ultimately show ?thesis by (simp add: queue_legal_def)
qed

lemma queue_legal_insert:
  assumes "queue_wf rows" "queue_row_ok r" "fresh_row r"
    and "mq_message_id r \<notin> mq_message_id ` set rows"
    and "\<And>r'. r' \<in> set rows \<Longrightarrow> \<not> same_route_event r r'"
  shows "queue_legal A rows (rows @ [r])"
proof -
  have "queue_wf (rows @ [r])"
    using assms by (auto simp: queue_wf_def sorted_wrt_append dest: same_route_event_sym)
  moreover have "queue_evolves A rows (rows @ [r])"
    unfolding queue_evolves_def using assms(3)
    by (intro exI [of _ rows] exI [of _ "[r]"]) (simp add: row_evolves_def list.rel_refl)
  ultimately show ?thesis by (simp add: queue_legal_def)
qed

lemma locked_tx_legal:
  assumes "queue_wf (db_queue d)"
    and "\<And>r d'. body d = Inr (r, d') \<Longrightarrow> queue_legal A (db_queue d) (db_queue d')"
    and "locked_tx busy body d = (res, d')"
  shows "queue_legal A (db_queue d) (db_queue d')"
  using assms by (cases res) auto

lemma update_or_raise_InrE:
  assumes "update_or_raise p f e k d = Inr (x, d')"
  obtains d1 where "d1 = d\<lparr>db_queue := update_where p f (db_queue d)\<rparr>"
    "\<And>r. r \<in> set (db_queue d) \<Longrightarrow> p r \<Longrightarrow> queue_row_checks (f r)"
    "rowcount p (db_queue d) \<noteq> 0" "k d1 = Inr (x, d')"
  using assms unfolding update_or_raise_def
  by (elim tx_bind_InrE mq_update_InrE) (auto split: if_splits)

lemma operator_precheck_InrE:
  assumes "operator_precheck message_id k d = Inr (x, d')"
  obtains r where "mq_select message_id d = Some r" "\<not> terminal (mq_state r)" "\<not> in_flight r"
    "k r d = Inr (x, d')"
  using assms unfolding operator_precheck_def by (auto split: option.splits if_splits)

subsection \<open>The row updates are transitions of the specification\<close>

lemma in_flight_queued: "queue_row_ok r \<Longrightarrow> in_flight r \<Longrightarrow> mq_state r = Queued"
  by (cases "mq_state r") (auto simp: row_ok_defs in_flight_def)

lemma in_flight_phase: "queue_row_ok r \<Longrightarrow> in_flight r \<longleftrightarrow> phase r = Ph_in_flight"
  by (cases "mq_state r") (auto simp: row_ok_defs in_flight_def phase_def)

lemma ready_phase: "ready r \<longleftrightarrow> phase r = Ph_queued"
  by (cases "mq_state r") (auto simp: ready_def phase_def)

lemma stamp_step:
  assumes "queue_row_ok r" "ready r"
  shows "queue_row_ok (r\<lparr>mq_delivery_attempt_started_at := Some ts, mq_last_updated_at := ts\<rparr>)"
    and "claims (mq_message_id r) r
      (r\<lparr>mq_delivery_attempt_started_at := Some ts, mq_last_updated_at := ts\<rparr>)"
  using assms by (simp_all add: row_ok_defs ready_def phase_def claims_def)

lemma write_terminal_step:
  assumes "queue_row_ok r" "mq_state r = Queued" "in_flight r"
  shows "queue_row_ok (write_terminal w ts r)"
    and "finishes (mq_message_id r) w r (write_terminal w ts r)"
    and "frozen (write_terminal w ts r) = frozen r"
  using assms by (cases w; simp add: row_ok_defs in_flight_def phase_def frozen_def finishes_def)+

lemma block_step:
  assumes "queue_row_ok r" "ready r"
  shows "queue_row_ok (r\<lparr>mq_state := Blocked, mq_block_reason := Some b, mq_last_updated_at := ts\<rparr>)"
    and "blocks (mq_message_id r) b r
      (r\<lparr>mq_state := Blocked, mq_block_reason := Some b, mq_last_updated_at := ts\<rparr>)"
  using assms by (simp_all add: row_ok_defs ready_def phase_def blocks_def)

lemma recover_step:
  assumes "queue_row_ok r" "in_flight r"
  shows "queue_row_ok (r\<lparr>mq_state := Failed, mq_failure_reason := Some Attempt_interrupted,
      mq_failed_at := Some ts, mq_last_updated_at := ts\<rparr>)"
    and "interrupts r (r\<lparr>mq_state := Failed, mq_failure_reason := Some Attempt_interrupted,
      mq_failed_at := Some ts, mq_last_updated_at := ts\<rparr>)"
  using assms in_flight_queued [OF assms]
  by (simp_all add: row_ok_defs in_flight_def phase_def interrupts_def)

lemma queue_legal_recover:
  assumes "queue_wf rows"
  shows "queue_legal interrupts rows (update_where in_flight
    (\<lambda>r. r\<lparr>mq_state := Failed, mq_failure_reason := Some Attempt_interrupted, mq_failed_at := Some ts,
            mq_last_updated_at := ts\<rparr>) rows)"
  by (rule queue_legal_update [OF assms])
     (use queue_wf_row_ok [OF assms] recover_step in \<open>auto simp: frozen_def\<close>)

lemma not_in_flight_ready:
  "queue_row_ok r \<Longrightarrow> \<not> in_flight r \<Longrightarrow> mq_state r = Queued \<Longrightarrow> ready r"
  by (simp add: row_ok_defs in_flight_def ready_def)

lemma approve_write_step:
  assumes "queue_row_ok r" "mq_state r = Blocked"
  shows "queue_row_ok (operator_write operator ts Blocked Queued act None r)"
    and "frozen (operator_write operator ts Blocked Queued act None r) = frozen r"
    and "approves (mq_message_id r) r (operator_write operator ts Blocked Queued act None r)"
  using assms by (simp_all add: operator_write_def row_ok_defs frozen_def phase_def approves_def)

lemma delay_write_step:
  assumes "queue_row_ok r" "\<not> in_flight r" "mq_state r = Queued"
  shows "queue_row_ok (operator_write operator ts Queued Blocked act (Some b) r)"
    and "frozen (operator_write operator ts Queued Blocked act (Some b) r) = frozen r"
    and "blocks (mq_message_id r) b r (operator_write operator ts Queued Blocked act (Some b) r)"
  using assms
  by (simp_all add: operator_write_def row_ok_defs frozen_def phase_def in_flight_def blocks_def)

lemma cancel_write_step:
  assumes "queue_row_ok r" "\<not> in_flight r" "mq_state r = Queued \<or> mq_state r = Blocked"
  shows "queue_row_ok (cancel_write operator ts r)"
    and "frozen (cancel_write operator ts r) = frozen r"
    and "cancels (mq_message_id r) r (cancel_write operator ts r)"
  using assms
  by (elim disjE; simp add: cancel_write_def row_ok_defs frozen_def phase_def in_flight_def cancels_def)+

lemma mq_select_SomeD:
  "mq_select m d = Some r \<Longrightarrow> r \<in> set (db_queue d) \<and> mq_message_id r = m"
  unfolding mq_select_def by (rule lookup_row_SomeD)

lemma mq_select_same:
  assumes "queue_wf (db_queue d)" "mq_select m d = Some r" "r' \<in> set (db_queue d)"
    "mq_message_id r' = m"
  shows "r' = r"
  using assms lookup_row_unique [of mq_message_id "db_queue d" r']
  by (simp add: queue_wf_def mq_select_def)

subsection \<open>Every operation is legal\<close>

text \<open>
  What the DAO relies on of an audit callback: run inside a transition's transaction, it leaves the
  other tables alone and only appends to \<open>events\<close>.
\<close>

locale audit_hook =
  fixes audit :: "'a \<Rightarrow> 'p tx"
  assumes audit_keeps: "audit a d = Inr (p, d') \<Longrightarrow>
      db_queue d' = db_queue d \<and> db_flag d' = db_flag d \<and> db_routes d' = db_routes d"
    and audit_appends: "audit a d = Inr (p, d') \<Longrightarrow> \<exists>es. db_events d' = db_events d @ es"
begin

lemma insert_legal:
  assumes "queue_wf (db_queue d)" "queue_row_checks r \<Longrightarrow> queue_row_ok r \<and> fresh_row r"
    and "insert_row_tx r (audit a) d = Inr (p, d')"
  shows "queue_legal A (db_queue d) (db_queue d')"
  using assms(3) unfolding insert_row_tx_def
proof (elim tx_bind_InrE mq_insert_InrE)
  fix u d1
  assume "audit a d1 = Inr (p, d')" "d1 = d\<lparr>db_queue := db_queue d @ [r]\<rparr>" "queue_row_checks r"
    "mq_message_id r \<notin> mq_message_id ` set (db_queue d)"
    "\<And>r'. r' \<in> set (db_queue d) \<Longrightarrow> \<not> same_route_event r r'"
  then show ?thesis using assms(1,2) audit_keeps by (auto intro!: queue_legal_insert)
qed

lemma update_legal:
  assumes "queue_wf (db_queue d)"
    and "\<And>r. r \<in> set (db_queue d) \<Longrightarrow> p r \<Longrightarrow>
      queue_row_ok (f r) \<and> frozen (f r) = frozen r \<and> A r (f r)"
    and "update_or_raise p f e (audit a) d = Inr (x, d')"
  shows "queue_legal A (db_queue d) (db_queue d')"
  using assms(3)
  by (elim update_or_raise_InrE) (auto dest!: audit_keeps intro!: queue_legal_update assms(1,2))

lemma insert_queued_legal:
  assumes "queue_wf (db_queue d)"
    and "insert_queued busy m s t c pn b sha n enq (audit a) og rid eid d = (res, d')"
  shows "queue_legal A (db_queue d) (db_queue d')"
  using assms(2) unfolding insert_queued_def
  by (rule locked_tx_legal [OF assms(1), rotated], intro insert_legal [OF assms(1)])
     (auto simp: new_queue_row_def row_ok_defs fresh_row_def phase_def)

lemma insert_blocked_legal:
  assumes "queue_wf (db_queue d)"
    and "insert_blocked busy m s t c pn b sha n enq br (audit a) og rid eid d = (res, d')"
  shows "queue_legal A (db_queue d) (db_queue d')"
  using assms(2) unfolding insert_blocked_def
  by (rule locked_tx_legal [OF assms(1), rotated], intro insert_legal [OF assms(1)])
     (auto simp: new_queue_row_def row_ok_defs fresh_row_def phase_def)

lemma terminal_transition_legal:
  assumes "queue_wf (db_queue d)"
    and "terminal_transition_from_in_flight busy m w ts (audit a) d = (res, d')"
  shows "queue_legal (finishes m w) (db_queue d) (db_queue d')"
  using assms(2) unfolding terminal_transition_from_in_flight_def
  by (rule locked_tx_legal [OF assms(1), rotated], intro update_legal [OF assms(1)])
     (auto intro: write_terminal_step dest: queue_wf_row_ok [OF assms(1)])

lemma blocked_re_check_legal:
  assumes "queue_wf (db_queue d)"
    and "transition_queued_to_blocked_re_check busy m b ts (audit a) d = (res, d')"
  shows "queue_legal (blocks m b) (db_queue d) (db_queue d')"
  using assms(2) unfolding transition_queued_to_blocked_re_check_def
  by (rule locked_tx_legal [OF assms(1), rotated], intro update_legal [OF assms(1)])
     (auto intro: block_step dest: queue_wf_row_ok [OF assms(1)] simp: frozen_def)

lemma recover_legal:
  assumes "queue_wf (db_queue d)"
    and "recover_in_flight_rows busy ts (\<lambda>n. audit (g n)) d = (res, d')"
  shows "queue_legal interrupts (db_queue d) (db_queue d')"
  using assms(2) unfolding recover_in_flight_rows_def
  by (rule locked_tx_legal [OF assms(1), rotated])
     (auto elim!: tx_bind_InrE mq_update_InrE dest!: audit_keeps
        intro!: queue_legal_recover [OF assms(1)])

lemma approve_legal:
  assumes wf: "queue_wf (db_queue d)"
    and run: "transition_blocked_to_queued_approve busy m operator ts (audit a) d = (res, d')"
  shows "queue_legal (approves m) (db_queue d) (db_queue d')"
  using run unfolding transition_blocked_to_queued_approve_def operator_transition_def
proof (rule locked_tx_legal [OF wf, rotated], elim operator_precheck_InrE)
  fix p d' r
  assume "(if mq_state r \<noteq> Blocked then tx_raise (QueueServiceError (not_applicable_code Act_approved))
      else update_or_raise (\<lambda>r. mq_message_id r = m \<and> mq_state r = Blocked)
             (operator_write operator ts Blocked Queued Act_approved None)
             (QueueServiceError (not_applicable_code Act_approved)) (audit a)) d = Inr (p, d')"
  then have "update_or_raise (\<lambda>r. mq_message_id r = m \<and> mq_state r = Blocked)
             (operator_write operator ts Blocked Queued Act_approved None)
             (QueueServiceError (not_applicable_code Act_approved)) (audit a) d = Inr (p, d')"
    by (simp split: if_splits)
  then show "queue_legal (approves m) (db_queue d) (db_queue d')"
    by (rule update_legal [OF wf, rotated])
       (use approve_write_step queue_wf_row_ok [OF wf] in blast)
qed

lemma delay_legal:
  assumes wf: "queue_wf (db_queue d)"
    and run: "transition_queued_to_blocked_delay busy m operator ts (audit a) d = (res, d')"
  shows "queue_legal (blocks m Operator_delayed) (db_queue d) (db_queue d')"
  using run unfolding transition_queued_to_blocked_delay_def operator_transition_def
proof (rule locked_tx_legal [OF wf, rotated], elim operator_precheck_InrE)
  fix p d' r
  assume sel: "mq_select m d = Some r" "\<not> in_flight r"
    and "(if mq_state r \<noteq> Queued then tx_raise (QueueServiceError (not_applicable_code Act_delayed))
      else update_or_raise (\<lambda>r. mq_message_id r = m \<and> mq_state r = Queued)
             (operator_write operator ts Queued Blocked Act_delayed (Some Operator_delayed))
             (QueueServiceError (not_applicable_code Act_delayed)) (audit a)) d = Inr (p, d')"
  then have upd: "update_or_raise (\<lambda>r. mq_message_id r = m \<and> mq_state r = Queued)
             (operator_write operator ts Queued Blocked Act_delayed (Some Operator_delayed))
             (QueueServiceError (not_applicable_code Act_delayed)) (audit a) d = Inr (p, d')"
    by (simp split: if_splits)
  have "queue_row_ok r'" "\<not> in_flight r'" if "r' \<in> set (db_queue d)" "mq_message_id r' = m" for r'
    using that sel mq_select_same [OF wf sel(1)] queue_wf_row_ok [OF wf] by auto
  with upd show "queue_legal (blocks m Operator_delayed) (db_queue d) (db_queue d')"
    by (elim update_legal [OF wf, rotated]) (use delay_write_step in blast)
qed

lemma cancel_legal:
  assumes wf: "queue_wf (db_queue d)"
    and run: "transition_to_canceled busy m operator ts (audit a) d = (res, d')"
  shows "queue_legal (cancels m) (db_queue d) (db_queue d')"
  using run unfolding transition_to_canceled_def
proof (rule locked_tx_legal [OF wf, rotated], elim operator_precheck_InrE)
  fix p d' r
  assume sel: "mq_select m d = Some r" "\<not> in_flight r"
    and upd: "update_or_raise
             (\<lambda>r. mq_message_id r = m \<and> (mq_state r = Queued \<or> mq_state r = Blocked))
             (cancel_write operator ts)
             (QueueServiceError ''message_id_not_found'') (audit a) d = Inr (p, d')"
  have "queue_row_ok r'" "\<not> in_flight r'" if "r' \<in> set (db_queue d)" "mq_message_id r' = m" for r'
    using that sel mq_select_same [OF wf sel(1)] queue_wf_row_ok [OF wf] by auto
  with upd show "queue_legal (cancels m) (db_queue d) (db_queue d')"
    by (elim update_legal [OF wf, rotated]) (use cancel_write_step in blast)
qed

lemma write_flag_keeps:
  assumes "write_routing_flag busy v ts by_whom (audit a) d = (res, d')"
  shows "db_queue d' = db_queue d" "db_routes d' = db_routes d"
  using assms audit_keeps unfolding write_routing_flag_def
  by (cases res; fastforce split: if_splits)+

end

lemma stamp_legal:
  assumes "queue_wf (db_queue d)"
    and "stamp_delivery_attempt_started busy m ts d = (res, d')"
  shows "queue_legal (claims m) (db_queue d) (db_queue d')"
  using assms(2) unfolding stamp_delivery_attempt_started_def
proof (rule locked_tx_legal [OF assms(1), rotated], elim update_or_raise_InrE)
  fix d1 d' and r :: unit
  assume d1: "d1 = d\<lparr>db_queue := update_where (\<lambda>r. mq_message_id r = m \<and> ready r)
       (\<lambda>r. r\<lparr>mq_delivery_attempt_started_at := Some ts, mq_last_updated_at := ts\<rparr>) (db_queue d)\<rparr>"
    "tx_return () d1 = Inr (r, d')"
  have "queue_legal (claims m) (db_queue d) (update_where (\<lambda>r. mq_message_id r = m \<and> ready r)
       (\<lambda>r. r\<lparr>mq_delivery_attempt_started_at := Some ts, mq_last_updated_at := ts\<rparr>) (db_queue d))"
    by (rule queue_legal_update [OF assms(1)])
       (use stamp_step queue_wf_row_ok [OF assms(1)] in \<open>auto simp: frozen_def\<close>)
  with d1 show "queue_legal (claims m) (db_queue d) (db_queue d')" by auto
qed

subsection \<open>What a successful transition did\<close>

text \<open>Where a callback runs on success: on the database with only \<open>message_queue\<close> changed.\<close>

definition hook_ran :: "'p tx \<Rightarrow> 'p \<Rightarrow> db \<Rightarrow> db \<Rightarrow> bool" where
  "hook_ran audit_callback p d d' \<longleftrightarrow> (\<exists>rows. audit_callback (d\<lparr>db_queue := rows\<rparr>) = Inr (p, d'))"

lemma update_or_raise_hook: "update_or_raise p f e cb d = Inr (x, d') \<Longrightarrow> hook_ran cb x d d'"
  by (auto simp: hook_ran_def elim!: update_or_raise_InrE)

lemma insert_row_hook: "insert_row_tx r cb d = Inr (x, d') \<Longrightarrow> hook_ran cb x d d'"
  by (auto simp: hook_ran_def insert_row_tx_def elim!: tx_bind_InrE mq_insert_InrE)

lemma transition_hooks:
  "insert_queued busy m s t c pn b sha n enq cb og rid eid d = (Inr p, d') \<Longrightarrow> hook_ran cb p d d'"
  "insert_blocked busy m s t c pn b sha n enq br cb og rid eid d = (Inr p, d') \<Longrightarrow> hook_ran cb p d d'"
  "terminal_transition_from_in_flight busy m w ts cb d = (Inr p, d') \<Longrightarrow> hook_ran cb p d d'"
  "transition_queued_to_blocked_re_check busy m br ts cb d = (Inr p, d') \<Longrightarrow> hook_ran cb p d d'"
  "operator_transition busy m operator ts f_st t_st act bn cb d = (Inr p, d') \<Longrightarrow> hook_ran cb p d d'"
  "transition_to_canceled busy m operator ts cb d = (Inr p, d') \<Longrightarrow> hook_ran cb p d d'"
  unfolding insert_queued_def insert_blocked_def terminal_transition_from_in_flight_def
    transition_queued_to_blocked_re_check_def operator_transition_def transition_to_canceled_def
  by (auto dest!: locked_tx_ok intro: insert_row_hook update_or_raise_hook
      elim!: operator_precheck_InrE split: if_splits)

end
