(* ===== verification/Audit_Writer.thy ===== *)
theory Audit_Writer
  imports Queue_Dao
begin

text \<open>
  The dual-write audit trail (\<open>routing/audit_writer.py\<close>, \<open>events/dao.py\<close>): the \<open>events\<close> row is
  inserted inside the caller's transaction, the JSONL line is appended after the commit, and a
  failed append or watermark is kept in a bounded deque that \<open>drain_pending\<close> retries.

  The file \<open>events.jsonl\<close> is the list of the payloads appended to it, each with the id of its
  \<open>events\<close> row. Whether an append or a watermark transaction raises is a choice of the environment:
  \<open>None\<close> is success, \<open>Some cls\<close> an exception of that class.
\<close>

subsection \<open>Payloads and state\<close>

record queue_payload =
  pl_event_type :: string
  pl_message_id :: string
  pl_from_state :: "queue_state option"
  pl_to_state :: queue_state
  pl_reason :: "string option"
  pl_operator :: "string option"
  pl_observed_at :: timestamp
  pl_sender :: ident
  pl_target :: ident
  pl_excerpt :: string

record toggle_payload =
  tp_previous_value :: string
  tp_current_value :: string
  tp_observed_at :: timestamp
  tp_operator :: string

datatype payload = Queue_transition queue_payload | Routing_toggled toggle_payload

fun payload_observed_at :: "payload \<Rightarrow> timestamp" where
  "payload_observed_at (Queue_transition p) = pl_observed_at p"
| "payload_observed_at (Routing_toggled p) = tp_observed_at p"

record pending_jsonl =
  pj_event_id :: nat
  pj_payload :: payload
  pj_failure_exc_class :: string
  pj_jsonl_appended :: bool

record audit_state =
  au_pending :: "pending_jsonl list"
  au_degraded_exc_class :: "string option"
  au_jsonl :: "(nat \<times> payload) list"

definition default_degraded_audit_buffer_max_rows :: nat where
  "default_degraded_audit_buffer_max_rows = 1024"

definition degraded :: "audit_state \<Rightarrow> bool" where
  "degraded a \<longleftrightarrow> 0 < length (au_pending a)"

definition pending_count :: "audit_state \<Rightarrow> nat" where
  "pending_count a = length (au_pending a)"

subsection \<open>Rows\<close>

definition insert_audit_event :: "string \<Rightarrow> string \<Rightarrow> timestamp \<Rightarrow> string \<Rightarrow> nat tx" where
  "insert_audit_event event_type agent_id observed_at excerpt =
     (if \<not> (py_startswith event_type ''queue_message_'' \<or> event_type = ''routing_toggled'')
      then tx_raise ValueError
      else events_insert event_type agent_id observed_at excerpt None None)"

definition insert_queue_transition_in_tx :: "queue_payload \<Rightarrow> (nat \<times> payload) tx" where
  "insert_queue_transition_in_tx p =
     (if \<not> py_startswith (pl_event_type p) ''queue_message_'' then tx_raise ValueError
      else tx_bind (insert_audit_event (pl_event_type p) (id_agent_id (pl_target p))
             (pl_observed_at p) (pl_excerpt p))
        (\<lambda>event_id. tx_return (event_id, Queue_transition p)))"

definition insert_routing_toggled_in_tx :: "toggle_payload \<Rightarrow> (nat \<times> payload) tx" where
  "insert_routing_toggled_in_tx p =
     tx_bind (insert_audit_event ''routing_toggled'' (tp_operator p) (tp_observed_at p)
        (''routing '' @ tp_current_value p @ '' (was '' @ tp_previous_value p @ '')''))
       (\<lambda>event_id. tx_return (event_id, Routing_toggled p))"

definition mark_jsonl_appended :: "nat \<Rightarrow> timestamp \<Rightarrow> db \<Rightarrow> db" where
  "mark_jsonl_appended event_id ts d =
     d\<lparr>db_events := update_where (\<lambda>e. ev_event_id e = event_id \<and> ev_jsonl_appended_at e = None)
                     (\<lambda>e. e\<lparr>ev_jsonl_appended_at := Some ts\<rparr>) (db_events d)\<rparr>"

subsection \<open>Append, then watermark\<close>

definition buffer_pending :: "nat \<Rightarrow> nat \<Rightarrow> payload \<Rightarrow> string \<Rightarrow> bool \<Rightarrow> audit_state \<Rightarrow> audit_state" where
  "buffer_pending max_pending event_id payload exc_name appended a =
     a\<lparr>au_degraded_exc_class := Some exc_name,
       au_pending := bounded_append max_pending (au_pending a)
         \<lparr>pj_event_id = event_id, pj_payload = payload, pj_failure_exc_class = exc_name,
          pj_jsonl_appended = appended\<rparr>\<rparr>"

definition append_event :: "nat \<Rightarrow> payload \<Rightarrow> audit_state \<Rightarrow> audit_state" where
  "append_event event_id payload a = a\<lparr>au_jsonl := au_jsonl a @ [(event_id, payload)]\<rparr>"

definition append_jsonl_then_watermark ::
  "nat \<Rightarrow> string option \<Rightarrow> string option \<Rightarrow> nat \<Rightarrow> payload \<Rightarrow> timestamp \<Rightarrow> audit_state \<times> db \<Rightarrow>
   audit_state \<times> db" where
  "append_jsonl_then_watermark max_pending jsonl_exc watermark_exc event_id payload watermark_ts s =
     (case s of (a, d) \<Rightarrow>
        (case jsonl_exc of
           Some exc_name \<Rightarrow> (buffer_pending max_pending event_id payload exc_name False a, d)
         | None \<Rightarrow>
             let a' = append_event event_id payload a in
             (case watermark_exc of
                Some exc_name \<Rightarrow> (buffer_pending max_pending event_id payload exc_name True a', d)
              | None \<Rightarrow> (a', mark_jsonl_appended event_id watermark_ts d))))"

text \<open>The paths with a transaction of their own: one attempt, no lock retry.\<close>

definition append_queue_transition ::
  "nat \<Rightarrow> bool \<Rightarrow> string option \<Rightarrow> string option \<Rightarrow> queue_payload \<Rightarrow> audit_state \<times> db \<Rightarrow>
   (exc + nat) \<times> audit_state \<times> db" where
  "append_queue_transition max_pending locked jsonl_exc watermark_exc p s =
     (case s of (a, d) \<Rightarrow>
        (case begin_immediate (\<lambda>_. locked) (insert_queue_transition_in_tx p) 0 d of
           (Inl e, d') \<Rightarrow> (Inl e, a, d')
         | (Inr (event_id, payload), d') \<Rightarrow>
             (Inr event_id, append_jsonl_then_watermark max_pending jsonl_exc watermark_exc event_id
                payload (pl_observed_at p) (a, d'))))"

definition append_routing_toggled ::
  "nat \<Rightarrow> bool \<Rightarrow> string option \<Rightarrow> string option \<Rightarrow> toggle_payload \<Rightarrow> audit_state \<times> db \<Rightarrow>
   (exc + nat) \<times> audit_state \<times> db" where
  "append_routing_toggled max_pending locked jsonl_exc watermark_exc p s =
     (case s of (a, d) \<Rightarrow>
        (case begin_immediate (\<lambda>_. locked) (insert_routing_toggled_in_tx p) 0 d of
           (Inl e, d') \<Rightarrow> (Inl e, a, d')
         | (Inr (event_id, payload), d') \<Rightarrow>
             (Inr event_id, append_jsonl_then_watermark max_pending jsonl_exc watermark_exc event_id
                payload (tp_observed_at p) (a, d'))))"

subsection \<open>Draining the buffer\<close>

text \<open>
  The outcomes of the environment are indexed by the iteration of the loop. The loop pops the head
  it has just written, so it recurses over the buffer.
\<close>

fun drain_loop ::
  "(nat \<Rightarrow> string option) \<Rightarrow> (nat \<Rightarrow> string option) \<Rightarrow> nat \<Rightarrow> pending_jsonl list \<Rightarrow>
   (nat \<times> payload) list \<Rightarrow> string option \<Rightarrow> db \<Rightarrow>
   nat \<times> pending_jsonl list \<times> (nat \<times> payload) list \<times> string option \<times> db"
where
  "drain_loop jsonl_exc watermark_exc i [] jsonl deg d = (0, [], jsonl, None, d)"
| "drain_loop jsonl_exc watermark_exc i (head # rest) jsonl deg d =
     (if \<not> pj_jsonl_appended head \<and> jsonl_exc i \<noteq> None
      then (0, head # rest, jsonl, jsonl_exc i, d)
      else
        let head' = head\<lparr>pj_jsonl_appended := True\<rparr>;
            jsonl' = (if pj_jsonl_appended head then jsonl
                      else jsonl @ [(pj_event_id head, pj_payload head)])
        in if watermark_exc i \<noteq> None then (0, head' # rest, jsonl', deg, d)
           else case drain_loop jsonl_exc watermark_exc (Suc i) rest jsonl' deg
                  (mark_jsonl_appended (pj_event_id head) (payload_observed_at (pj_payload head)) d)
                of (n, r) \<Rightarrow> (Suc n, r))"

definition drain_pending ::
  "(nat \<Rightarrow> string option) \<Rightarrow> (nat \<Rightarrow> string option) \<Rightarrow> audit_state \<times> db \<Rightarrow>
   nat \<times> audit_state \<times> db" where
  "drain_pending jsonl_exc watermark_exc s =
     (case s of (a, d) \<Rightarrow>
        (case drain_loop jsonl_exc watermark_exc 0 (au_pending a) (au_jsonl a)
                (au_degraded_exc_class a) d of
           (drained, pending, jsonl, deg, d') \<Rightarrow>
             (drained, \<lparr>au_pending = pending, au_degraded_exc_class = deg, au_jsonl = jsonl\<rparr>, d')))"

subsection \<open>The callbacks are audit hooks\<close>

lemma insert_audit_event_keeps:
  assumes "insert_audit_event ty ag t x d = Inr (n, d')"
  shows "db_queue d' = db_queue d \<and> db_flag d' = db_flag d \<and> db_routes d' = db_routes d"
    and "\<exists>es. db_events d' = db_events d @ es"
  using assms unfolding insert_audit_event_def
  by (auto split: if_splits elim!: events_insert_InrE)

interpretation queue_audit: audit_hook insert_queue_transition_in_tx
proof unfold_locales
  show "db_queue d' = db_queue d \<and> db_flag d' = db_flag d \<and> db_routes d' = db_routes d"
    if "insert_queue_transition_in_tx a d = Inr (p, d')" for a d p d'
    using that unfolding insert_queue_transition_in_tx_def
    by (auto split: if_splits elim!: tx_bind_InrE dest: insert_audit_event_keeps(1))
  show "\<exists>es. db_events d' = db_events d @ es"
    if "insert_queue_transition_in_tx a d = Inr (p, d')" for a d p d'
    using that unfolding insert_queue_transition_in_tx_def
    by (auto split: if_splits elim!: tx_bind_InrE dest: insert_audit_event_keeps(2))
qed

interpretation toggle_audit: audit_hook insert_routing_toggled_in_tx
proof unfold_locales
  show "db_queue d' = db_queue d \<and> db_flag d' = db_flag d \<and> db_routes d' = db_routes d"
    if "insert_routing_toggled_in_tx a d = Inr (p, d')" for a d p d'
    using that unfolding insert_routing_toggled_in_tx_def
    by (auto elim!: tx_bind_InrE dest: insert_audit_event_keeps(1))
  show "\<exists>es. db_events d' = db_events d @ es"
    if "insert_routing_toggled_in_tx a d = Inr (p, d')" for a d p d'
    using that unfolding insert_routing_toggled_in_tx_def
    by (auto elim!: tx_bind_InrE dest: insert_audit_event_keeps(2))
qed

subsection \<open>The audit invariant\<close>

text \<open>
  Every \<open>events\<close> row has one JSONL line at most; a buffered record is on disk exactly when its
  flag says so; a watermark is only set on rows whose line is on disk.
\<close>

definition jsonl_ids :: "audit_state \<Rightarrow> nat set" where
  "jsonl_ids a = set (map fst (au_jsonl a))"

definition events_wf :: "db \<Rightarrow> bool" where
  "events_wf d \<longleftrightarrow>
     distinct (map ev_event_id (db_events d)) \<and>
     list_all (\<lambda>e. ev_event_id e < db_next_event_id d) (db_events d)"

definition audit_wf :: "nat \<Rightarrow> audit_state \<times> db \<Rightarrow> bool" where
  "audit_wf max_pending s \<longleftrightarrow>
     (case s of (a, d) \<Rightarrow>
        length (au_pending a) \<le> max_pending \<and>
        distinct (map fst (au_jsonl a)) \<and>
        distinct (map pj_event_id (au_pending a)) \<and>
        list_all (\<lambda>q. pj_jsonl_appended q \<longleftrightarrow> pj_event_id q \<in> jsonl_ids a) (au_pending a) \<and>
        list_all (\<lambda>q. pj_event_id q < db_next_event_id d) (au_pending a) \<and>
        list_all (\<lambda>i. i < db_next_event_id d) (map fst (au_jsonl a)))"

definition watermark_ok :: "audit_state \<times> db \<Rightarrow> bool" where
  "watermark_ok s \<longleftrightarrow>
     (case s of (a, d) \<Rightarrow>
        list_all (\<lambda>e. ev_jsonl_appended_at e \<noteq> None \<longrightarrow> ev_event_id e \<in> jsonl_ids a)
          (db_events d))"

lemma events_wf_ids:
  "events_wf d \<longleftrightarrow> distinct (map ev_event_id (db_events d)) \<and>
     list_all (\<lambda>i. i < db_next_event_id d) (map ev_event_id (db_events d))"
  by (simp add: events_wf_def list_all_iff)

lemma jsonl_ids_simps [simp]:
  "jsonl_ids (append_event e p a) = insert e (jsonl_ids a)"
  "jsonl_ids (buffer_pending n e p x b a) = jsonl_ids a"
  by (simp_all add: jsonl_ids_def append_event_def buffer_pending_def)

lemma audit_wf_append_event:
  assumes "audit_wf n (a, d)" "e < db_next_event_id d" "e \<notin> jsonl_ids a"
    "e \<notin> pj_event_id ` set (au_pending a)"
  shows "audit_wf n (append_event e p a, d)"
  using assms
  by (auto simp: audit_wf_def list_all_iff) (auto simp: append_event_def jsonl_ids_def)

lemma mark_jsonl_appended_keeps [simp]:
  "db_queue (mark_jsonl_appended e t d) = db_queue d"
  "db_flag (mark_jsonl_appended e t d) = db_flag d"
  "db_routes (mark_jsonl_appended e t d) = db_routes d"
  "db_next_event_id (mark_jsonl_appended e t d) = db_next_event_id d"
  by (simp_all add: mark_jsonl_appended_def)

lemma watermark_ok_mark:
  assumes "watermark_ok (a, d)" "event_id \<in> jsonl_ids a"
  shows "watermark_ok (a, mark_jsonl_appended event_id t d)"
  using assms
  by (auto simp: watermark_ok_def mark_jsonl_appended_def list_all_iff set_update_where split: if_splits)

lemma in_set_bounded_append:
  "y \<in> set (bounded_append n xs x) \<Longrightarrow> y = x \<or> y \<in> set xs"
  using set_bounded_append by fastforce

lemma distinct_map_bounded_append:
  assumes "distinct (map f xs)" "f x \<notin> f ` set xs"
  shows "distinct (map f (bounded_append n xs x))"
proof -
  have "distinct (map f (xs @ [x]))" using assms by auto
  then show ?thesis unfolding bounded_append_def Let_def by (metis distinct_drop drop_map)
qed

lemma buffer_audit_wf:
  assumes "audit_wf n (a, d)" "e < db_next_event_id d" "b \<longleftrightarrow> e \<in> jsonl_ids a"
    "e \<notin> pj_event_id ` set (au_pending a)"
  shows "audit_wf n (buffer_pending n e p x b a, d)"
proof -
  let ?a = "buffer_pending n e p x b a"
  have "distinct (map pj_event_id (au_pending ?a))"
    unfolding buffer_pending_def
    using assms by (auto simp: audit_wf_def intro!: distinct_map_bounded_append)
  moreover have "length (au_pending ?a) \<le> n"
    by (simp add: buffer_pending_def length_bounded_append)
  moreover have "list_all (\<lambda>q. (pj_jsonl_appended q \<longleftrightarrow> pj_event_id q \<in> jsonl_ids a) \<and>
      pj_event_id q < db_next_event_id d) (au_pending ?a)"
    using assms
    by (auto simp: audit_wf_def list_all_iff buffer_pending_def dest!: in_set_bounded_append)
  ultimately show ?thesis using assms(1)
    by (simp add: audit_wf_def list_all_iff) (simp add: buffer_pending_def)
qed

lemma append_audit_wf:
  assumes wf: "audit_wf n (a, d)" "watermark_ok (a, d)"
    and fresh: "e < db_next_event_id d" "e \<notin> jsonl_ids a" "e \<notin> pj_event_id ` set (au_pending a)"
    and run: "append_jsonl_then_watermark n je we e p t (a, d) = (a', d')"
  shows "audit_wf n (a', d') \<and> watermark_ok (a', d')"
proof (cases je)
  case (Some x)
  with run have r: "a' = buffer_pending n e p x False a" "d' = d"
    by (auto simp: append_jsonl_then_watermark_def)
  show ?thesis unfolding r
    using wf fresh by (simp add: buffer_audit_wf) (simp add: watermark_ok_def)
next
  case None
  let ?a1 = "append_event e p a"
  have wf1: "audit_wf n (?a1, d)" "watermark_ok (?a1, d)"
    using wf fresh
    by (simp_all add: audit_wf_append_event, auto simp: watermark_ok_def list_all_iff append_event_def jsonl_ids_def)
  show ?thesis
  proof (cases we)
    case (Some x)
    with run None have r: "a' = buffer_pending n e p x True ?a1" "d' = d"
      by (auto simp: append_jsonl_then_watermark_def Let_def)
    have "e \<in> jsonl_ids ?a1" "e \<notin> pj_event_id ` set (au_pending ?a1)"
      using fresh by (simp, auto simp: append_event_def)
    with wf1 fresh(1) show ?thesis unfolding r by (simp add: buffer_audit_wf) (simp add: watermark_ok_def)
  next
    case None': None
    with run None have r: "a' = ?a1" "d' = mark_jsonl_appended e t d"
      by (auto simp: append_jsonl_then_watermark_def Let_def)
    have "e \<in> jsonl_ids ?a1" by simp
    with wf1 show ?thesis unfolding r by (simp add: audit_wf_def watermark_ok_mark)
  qed
qed

subsection \<open>Draining\<close>

definition jsonl_record :: "pending_jsonl \<Rightarrow> nat \<times> payload" where
  "jsonl_record q = (pj_event_id q, pj_payload q)"

text \<open>
  A drain writes the lines of the first \<open>k\<close> records that were not on disk yet, in buffer order,
  and removes the first \<open>n\<close> records; \<open>k\<close> is \<open>n\<close>, or one more when the last watermark failed.
\<close>

lemma drain_loop_spec:
  assumes "drain_loop je we i pending jsonl deg d = (n, pending', jsonl', deg', d')"
  shows "\<exists>k. (k = n \<or> k = Suc n) \<and> k \<le> length pending \<and>
    jsonl' = jsonl @ map jsonl_record (filter (\<lambda>q. \<not> pj_jsonl_appended q) (take k pending)) \<and>
    pending' = map (\<lambda>q. q\<lparr>pj_jsonl_appended := True\<rparr>) (take (k - n) (drop n pending)) @ drop k pending"
  using assms
proof (induction pending arbitrary: i jsonl deg d n pending' jsonl' deg' d')
  case Nil
  then show ?case by simp
next
  case (Cons head rest)
  let ?j = "if pj_jsonl_appended head then jsonl else jsonl @ [(pj_event_id head, pj_payload head)]"
  consider (stop) "\<not> pj_jsonl_appended head" "je i \<noteq> None"
    | (watermark) "pj_jsonl_appended head \<or> je i = None" "we i \<noteq> None"
    | (next_record) "pj_jsonl_appended head \<or> je i = None" "we i = None" by blast
  then show ?case
  proof cases
    case stop
    with Cons.prems show ?thesis by (intro exI [of _ 0]) auto
  next
    case watermark
    with Cons.prems show ?thesis
      by (intro exI [of _ 1]) (auto simp: Let_def jsonl_record_def split: if_splits)
  next
    case next_record
    with Cons.prems obtain n1 d1 where
      r: "drain_loop je we (Suc i) rest ?j deg d1 = (n1, pending', jsonl', deg', d')" "n = Suc n1"
      by (auto simp: Let_def split: prod.splits if_splits)
    from Cons.IH [OF r(1)] obtain k where
      k: "k = n1 \<or> k = Suc n1" "k \<le> length rest"
        "jsonl' = ?j @ map jsonl_record (filter (\<lambda>q. \<not> pj_jsonl_appended q) (take k rest))"
        "pending' = map (\<lambda>q. q\<lparr>pj_jsonl_appended := True\<rparr>) (take (k - n1) (drop n1 rest)) @ drop k rest"
      by blast
    then show ?thesis unfolding r(2)
      by (intro exI [of _ "Suc k"]) (auto simp: jsonl_record_def)
  qed
qed

lemma drain_loop_success:
  assumes "\<And>j. je j = None" "\<And>j. we j = None"
  shows "fst (drain_loop je we i pending jsonl deg d) = length pending"
    and "fst (snd (drain_loop je we i pending jsonl deg d)) = []"
    and "fst (snd (snd (snd (drain_loop je we i pending jsonl deg d)))) = None"
  using assms
  by (induction pending arbitrary: i jsonl deg d) (simp_all add: Let_def case_prod_unfold)

lemma drain_loop_keeps:
  assumes "drain_loop je we i pending jsonl deg d = (n, pending', jsonl', deg', d')"
  shows "db_queue d' = db_queue d" "db_flag d' = db_flag d" "db_routes d' = db_routes d"
    "db_next_event_id d' = db_next_event_id d"
  using assms
  by (induction pending arbitrary: i jsonl deg d n pending' jsonl' deg' d')
     (auto simp: Let_def split: prod.splits if_splits)

lemma audit_wf_flag_head:
  assumes "audit_wf m (\<lparr>au_pending = h # rest, au_degraded_exc_class = x, au_jsonl = jsonl\<rparr>, d)"
  shows "audit_wf m (\<lparr>au_pending = h\<lparr>pj_jsonl_appended := True\<rparr> # rest, au_degraded_exc_class = y,
    au_jsonl = (if pj_jsonl_appended h then jsonl else jsonl @ [(pj_event_id h, pj_payload h)])\<rparr>, d)"
  using assms by (auto simp: audit_wf_def jsonl_ids_def list_all_iff rev_image_eqI)

lemma audit_wf_pop:
  assumes "audit_wf m (\<lparr>au_pending = h # rest, au_degraded_exc_class = x, au_jsonl = jsonl\<rparr>, d)"
  shows "audit_wf m (\<lparr>au_pending = rest, au_degraded_exc_class = y, au_jsonl = jsonl\<rparr>,
    mark_jsonl_appended e t d)"
  using assms by (simp add: audit_wf_def jsonl_ids_def)

lemma drain_loop_wf:
  assumes "audit_wf m (\<lparr>au_pending = pending, au_degraded_exc_class = x, au_jsonl = jsonl\<rparr>, d)"
    and "watermark_ok (\<lparr>au_pending = pending, au_degraded_exc_class = x, au_jsonl = jsonl\<rparr>, d)"
    and "drain_loop je we i pending jsonl deg d = (n, pending', jsonl', deg', d')"
  shows "audit_wf m (\<lparr>au_pending = pending', au_degraded_exc_class = deg', au_jsonl = jsonl'\<rparr>, d') \<and>
    watermark_ok (\<lparr>au_pending = pending', au_degraded_exc_class = deg', au_jsonl = jsonl'\<rparr>, d')"
  using assms
proof (induction pending arbitrary: i jsonl deg d n x)
  case Nil
  then show ?case by (simp add: audit_wf_def watermark_ok_def jsonl_ids_def)
next
  case (Cons h rest)
  let ?j = "if pj_jsonl_appended h then jsonl else jsonl @ [(pj_event_id h, pj_payload h)]"
  let ?d = "mark_jsonl_appended (pj_event_id h) (payload_observed_at (pj_payload h)) d"
  have wf1: "audit_wf m (\<lparr>au_pending = h\<lparr>pj_jsonl_appended := True\<rparr> # rest,
      au_degraded_exc_class = y, au_jsonl = ?j\<rparr>, d)" for y
    using audit_wf_flag_head [OF Cons.prems(1)] .
  have wm1: "watermark_ok (\<lparr>au_pending = ps, au_degraded_exc_class = y, au_jsonl = ?j\<rparr>, d)" for ps y
    using Cons.prems(2) by (auto simp: watermark_ok_def jsonl_ids_def list_all_iff)
  have wf2: "audit_wf m (\<lparr>au_pending = rest, au_degraded_exc_class = y, au_jsonl = ?j\<rparr>, ?d)" for y
    using audit_wf_pop [OF wf1] .
  have "pj_event_id h \<in> jsonl_ids \<lparr>au_pending = ps, au_degraded_exc_class = y, au_jsonl = ?j\<rparr>" for ps y
    using Cons.prems(1) by (auto simp: audit_wf_def jsonl_ids_def)
  then have wm2: "watermark_ok (\<lparr>au_pending = rest, au_degraded_exc_class = y, au_jsonl = ?j\<rparr>, ?d)" for y
    using watermark_ok_mark [OF wm1] by simp
  consider (stop) "\<not> pj_jsonl_appended h" "je i \<noteq> None"
    | (watermark) "pj_jsonl_appended h \<or> je i = None" "we i \<noteq> None"
    | (next_record) "pj_jsonl_appended h \<or> je i = None" "we i = None" by blast
  then show ?case
  proof cases
    case stop
    with Cons.prems show ?thesis by (auto simp: audit_wf_def watermark_ok_def jsonl_ids_def)
  next
    case watermark
    with Cons.prems(3) wf1 wm1 show ?thesis by (auto simp: Let_def split: if_splits)
  next
    case next_record
    with Cons.prems(3) obtain n1 where
      r: "drain_loop je we (Suc i) rest ?j deg ?d = (n1, pending', jsonl', deg', d')"
      by (auto simp: Let_def split: prod.splits if_splits)
    show ?thesis by (rule Cons.IH [OF wf2 wm2 r])
  qed
qed

lemma drain_audit_wf:
  assumes "audit_wf m (a, d)" "watermark_ok (a, d)" "drain_pending je we (a, d) = (n, a', d')"
  shows "audit_wf m (a', d') \<and> watermark_ok (a', d')"
proof -
  have a: "\<lparr>au_pending = au_pending a, au_degraded_exc_class = au_degraded_exc_class a,
    au_jsonl = au_jsonl a\<rparr> = a" by simp
  from assms(3) show ?thesis
    using drain_loop_wf [of m "au_pending a" "au_degraded_exc_class a" "au_jsonl a" d] assms(1,2)
    unfolding a drain_pending_def by (auto split: prod.splits)
qed

text \<open>A buffer of two records that wait for the log.\<close>

definition example_buffer :: audit_state where
  "example_buffer =
     (let p = Routing_toggled \<lparr>tp_previous_value = ''enabled'', tp_current_value = ''disabled'',
                tp_observed_at = ''t1'', tp_operator = ''host-operator''\<rparr>
      in \<lparr>au_pending = [\<lparr>pj_event_id = 1, pj_payload = p, pj_failure_exc_class = ''OSError'', pj_jsonl_appended = False\<rparr>,
                        \<lparr>pj_event_id = 2, pj_payload = p, pj_failure_exc_class = ''OSError'', pj_jsonl_appended = False\<rparr>],
          au_degraded_exc_class = Some ''OSError'', au_jsonl = []\<rparr>)"

definition example_events :: db where
  "example_events = \<lparr>db_queue = [], db_events = [], db_next_event_id = 3, db_flag = None, db_routes = []\<rparr>"

text \<open>
  Draining the retry buffer. Records are taken from the front: the JSONL lines appended are those
  of the first \<open>k\<close> buffered records that were not in the log yet, in their order, where \<open>k\<close> is the
  number drained, or one more if the pass stopped at a record whose line was written and whose
  watermark was not; that record stays at the front, marked, and the rest is untouched.
\<close>

lemma drain_in_order:
  assumes "drain_pending je we (a, d) = (n, a', d')"
  shows "\<exists>k. (k = n \<or> k = Suc n) \<and> k \<le> pending_count a \<and>
    au_jsonl a' = au_jsonl a @ map (\<lambda>q. (pj_event_id q, pj_payload q))
      (filter (\<lambda>q. \<not> pj_jsonl_appended q) (take k (au_pending a))) \<and>
    au_pending a' = map (\<lambda>q. q\<lparr>pj_jsonl_appended := True\<rparr>) (take (k - n) (drop n (au_pending a))) @
      drop k (au_pending a)"
  using assms drain_loop_spec [of je we 0 "au_pending a" "au_jsonl a" "au_degraded_exc_class a" d]
  by (auto simp: drain_pending_def pending_count_def jsonl_record_def [abs_def] split: prod.splits)

end
