(* ===== verification/Kill_Switch.thy ===== *)
theory Kill_Switch
  imports Audit_Writer
begin

text \<open>
  The routing kill switch with its write-through cache (\<open>routing/kill_switch.py\<close>). The state of
  the service is the cached value (\<open>None\<close> before the first read) beside the database. Toggles
  and \<open>is_enabled\<close> hold the service lock throughout and are single steps; \<open>read_full\<close> reads the row
  before it takes the lock, so its read and its cache write are two steps (\<open>ks_step\<close>).
\<close>

record toggle_result =
  tr_previous_value :: string
  tr_current_value :: string
  tr_changed :: bool
  tr_last_updated_at :: timestamp
  tr_last_updated_by :: string

type_synonym flag_cache = "string option"

definition is_enabled :: "flag_cache \<times> db \<Rightarrow> (exc + bool) \<times> flag_cache" where
  "is_enabled s =
     (case s of (cache, d) \<Rightarrow>
        (case cache of
           Some v \<Rightarrow> (Inr (v = ''enabled''), cache)
         | None \<Rightarrow>
             (case read_routing_flag d of
                Inl e \<Rightarrow> (Inl e, None)
              | Inr f \<Rightarrow> (Inr (fl_value f = ''enabled''), Some (fl_value f)))))"

definition read_full :: "flag_cache \<times> db \<Rightarrow> (exc + (string \<times> timestamp \<times> string)) \<times> flag_cache" where
  "read_full s =
     (case s of (cache, d) \<Rightarrow>
        (case read_routing_flag d of
           Inl e \<Rightarrow> (Inl e, cache)
         | Inr f \<Rightarrow> (Inr (fl_value f, fl_last_updated_at f, fl_last_updated_by f), Some (fl_value f))))"

text \<open>
  \<open>audit_callback\<close> receives the previous value; its result is returned beside the
  \<open>ToggleResult\<close> (the code captures it by closure).
\<close>

definition set_flag ::
  "(nat \<Rightarrow> bool) \<Rightarrow> string \<Rightarrow> string \<Rightarrow> timestamp \<Rightarrow> (string \<Rightarrow> 'p tx) \<Rightarrow> flag_cache \<times> db \<Rightarrow>
   (exc + toggle_result \<times> 'p option) \<times> flag_cache \<times> db" where
  "set_flag busy value operator ts audit_callback s =
     (case s of (cache, d) \<Rightarrow>
        (case read_routing_flag d of
           Inl e \<Rightarrow> (Inl e, cache, d)
         | Inr current_flag \<Rightarrow>
             let previous = fl_value current_flag in
             if previous \<noteq> value then
               (case write_routing_flag busy value ts operator (audit_callback previous) d of
                  (Inl e, d') \<Rightarrow> (Inl e, cache, d')
                | (Inr p, d') \<Rightarrow>
                    (Inr (\<lparr>tr_previous_value = previous, tr_current_value = value, tr_changed = True,
                           tr_last_updated_at = ts, tr_last_updated_by = operator\<rparr>, Some p),
                     Some value, d'))
             else
               (Inr (\<lparr>tr_previous_value = previous, tr_current_value = previous, tr_changed = False,
                      tr_last_updated_at = fl_last_updated_at current_flag,
                      tr_last_updated_by = fl_last_updated_by current_flag\<rparr>, None),
                Some previous, d)))"

definition enable ::
  "(nat \<Rightarrow> bool) \<Rightarrow> string \<Rightarrow> timestamp \<Rightarrow> (string \<Rightarrow> 'p tx) \<Rightarrow> flag_cache \<times> db \<Rightarrow>
   (exc + toggle_result \<times> 'p option) \<times> flag_cache \<times> db" where
  "enable busy operator ts audit_callback = set_flag busy ''enabled'' operator ts audit_callback"

definition disable ::
  "(nat \<Rightarrow> bool) \<Rightarrow> string \<Rightarrow> timestamp \<Rightarrow> (string \<Rightarrow> 'p tx) \<Rightarrow> flag_cache \<times> db \<Rightarrow>
   (exc + toggle_result \<times> 'p option) \<times> flag_cache \<times> db" where
  "disable busy operator ts audit_callback = set_flag busy ''disabled'' operator ts audit_callback"

definition invalidate_cache :: "flag_cache \<Rightarrow> flag_cache" where
  "invalidate_cache cache = None"

text \<open>The audit callback of the dispatch layer.\<close>

definition toggle_callback :: "string \<Rightarrow> string \<Rightarrow> timestamp \<Rightarrow> string \<Rightarrow> (nat \<times> payload) tx" where
  "toggle_callback value operator ts previous =
     insert_routing_toggled_in_tx
       \<lparr>tp_previous_value = previous, tp_current_value = value, tp_observed_at = ts,
        tp_operator = operator\<rparr>"

subsection \<open>Facts\<close>

definition flag_value :: "db \<Rightarrow> string option" where
  "flag_value d = map_option fl_value (db_flag d)"

text \<open>The cache is empty or holds the stored value.\<close>

definition cache_coherent :: "flag_cache \<times> db \<Rightarrow> bool" where
  "cache_coherent s = (case s of (cache, d) \<Rightarrow> cache = None \<or> cache = flag_value d)"

lemma toggle_write:
  assumes "write_routing_flag busy v ts who (toggle_callback v who ts pr) d = (Inr p, d')"
    and "db_flag d = Some f"
  shows "db_flag d' = Some \<lparr>fl_value = v, fl_last_updated_at = ts, fl_last_updated_by = who\<rparr>"
    and "\<exists>e. db_events d' = db_events d @ [e] \<and> ev_event_type e = ''routing_toggled'' \<and>
      ev_event_id e = fst p \<and> ev_agent_id e = who"
    and "snd p = Routing_toggled \<lparr>tp_previous_value = pr, tp_current_value = v, tp_observed_at = ts,
      tp_operator = who\<rparr>"
  using assms
  by (auto simp: write_routing_flag_def toggle_callback_def insert_routing_toggled_in_tx_def
      insert_audit_event_def split: if_splits elim!: tx_bind_InrE events_insert_InrE dest!: locked_tx_ok)

lemma toggle_write_error:
  "write_routing_flag busy v ts who cb d = (Inl e, d') \<Longrightarrow> d' = d"
  by (auto simp: write_routing_flag_def split: if_splits)

lemma set_flag_coherent:
  assumes "cache_coherent (cache, d)"
    and "set_flag busy v who ts (toggle_callback v who ts) (cache, d) = (res, cache', d')"
  shows "cache_coherent (cache', d')"
  using assms toggle_write(1)
  by (auto simp: set_flag_def read_routing_flag_def cache_coherent_def flag_value_def Let_def
      split: option.splits if_splits prod.splits sum.splits dest!: toggle_write_error)

lemma is_enabled_coherent:
  assumes "cache_coherent (cache, d)" "is_enabled (cache, d) = (res, cache')"
  shows "cache_coherent (cache', d)"
    and "flag_value d = Some v \<Longrightarrow> res = Inr (v = ''enabled'')"
  using assms
  by (auto simp: is_enabled_def read_routing_flag_def cache_coherent_def flag_value_def
      split: option.splits sum.splits)

subsection \<open>Interleavings\<close>

text \<open>
  \<open>ks_readers\<close> are the values read by calls of \<open>read_full\<close> that have not taken the lock yet.
\<close>

record ks_state =
  ks_cache :: flag_cache
  ks_db :: db
  ks_readers :: "string list"

inductive ks_step :: "ks_state \<Rightarrow> ks_state \<Rightarrow> bool" where
  toggle: "set_flag busy v who ts (toggle_callback v who ts) (ks_cache s, ks_db s) = (res, cache', d')
    \<Longrightarrow> ks_step s (s\<lparr>ks_cache := cache', ks_db := d'\<rparr>)"
| check: "is_enabled (ks_cache s, ks_db s) = (b, cache') \<Longrightarrow> ks_step s (s\<lparr>ks_cache := cache'\<rparr>)"
| full_read: "read_routing_flag (ks_db s) = Inr f
    \<Longrightarrow> ks_step s (s\<lparr>ks_readers := ks_readers s @ [fl_value f]\<rparr>)"
| full_store: "ks_readers s = xs @ v # ys
    \<Longrightarrow> ks_step s (s\<lparr>ks_cache := Some v, ks_readers := xs @ ys\<rparr>)"
| invalidate: "ks_step s (s\<lparr>ks_cache := invalidate_cache (ks_cache s)\<rparr>)"

definition ks_init :: "ks_state \<Rightarrow> bool" where
  "ks_init s \<longleftrightarrow> ks_cache s = None \<and> ks_readers s = [] \<and> (\<exists>v \<in> {''enabled'', ''disabled''}. flag_value (ks_db s) = Some v)"

abbreviation ks_reachable :: "ks_state \<Rightarrow> bool" where
  "ks_reachable \<equiv> reach ks_init ks_step"

lemma ks_step_coherent:
  assumes "ks_step s t" "cache_coherent (ks_cache s, ks_db s)" "ks_readers s = []"
  shows "cache_coherent (ks_cache t, ks_db t)"
  using assms(1)
proof cases
  case toggle
  then show ?thesis using set_flag_coherent [OF assms(2)] by simp
next
  case check
  then show ?thesis using is_enabled_coherent(1) [OF assms(2)] by simp
qed (use assms(2,3) in \<open>auto simp: invalidate_cache_def cache_coherent_def\<close>)

subsection \<open>Properties of the switch\<close>

definition example_flag_db :: "string \<Rightarrow> db" where
  "example_flag_db v =
     \<lparr>db_queue = [], db_events = [], db_next_event_id = 1,
      db_flag = Some \<lparr>fl_value = v, fl_last_updated_at = ''t0'', fl_last_updated_by = ''(daemon-init)''\<rparr>,
      db_routes = []\<rparr>"

text \<open>
  A toggle that returns. Setting the value the flag already has changes nothing, writes no audit
  row and reports the stored provenance. Otherwise the stored flag, the cache and the reported value
  become the new one, and exactly one \<open>routing_toggled\<close> event by the operator is appended in the
  same transaction. In both cases the next check answers by the new value.
\<close>

lemma toggle_outcome:
  assumes "set_flag busy v who ts (toggle_callback v who ts) (cache, d) = (Inr (result, p), cache', d')"
    and "db_flag d = Some f"
  shows "tr_previous_value result = fl_value f \<and> tr_current_value result = v \<and>
    tr_changed result = (fl_value f \<noteq> v) \<and> cache' = Some v \<and>
    fst (is_enabled (cache', d')) = Inr (v = ''enabled'') \<and>
    (if fl_value f = v then d' = d \<and> p = None \<and> tr_last_updated_at result = fl_last_updated_at f
     else db_flag d' = Some \<lparr>fl_value = v, fl_last_updated_at = ts, fl_last_updated_by = who\<rparr> \<and>
       (\<exists>e. db_events d' = db_events d @ [e] \<and> ev_event_type e = ''routing_toggled'' \<and>
          ev_agent_id e = who))"
proof (cases "fl_value f = v")
  case True
  then show ?thesis using assms by (auto simp: set_flag_def read_routing_flag_def is_enabled_def)
next
  case False
  then obtain q where w: "write_routing_flag busy v ts who (toggle_callback v who ts (fl_value f)) d = (Inr q, d')"
    and "result = \<lparr>tr_previous_value = fl_value f, tr_current_value = v, tr_changed = True,
      tr_last_updated_at = ts, tr_last_updated_by = who\<rparr>" "cache' = Some v"
    using assms by (auto simp: set_flag_def read_routing_flag_def Let_def split: prod.splits sum.splits)
  then show ?thesis using toggle_write [OF w assms(2)] False by (auto simp: is_enabled_def)
qed

text \<open>
  A stale cache is reachable. \<open>read_full\<close> reads the row before it takes the service lock: if a
  \<open>disable\<close> runs in between, the value it then stores is outdated, and from there on \<open>is_enabled\<close>
  answers true although routing is disabled in the database.
\<close>

lemma read_full_stale_cache:
  "\<exists>s. ks_reachable s \<and> flag_value (ks_db s) = Some ''disabled'' \<and>
     fst (is_enabled (ks_cache s, ks_db s)) = Inr True"
proof -
  define s0 where "s0 = \<lparr>ks_cache = None, ks_db = example_flag_db ''enabled'', ks_readers = []\<rparr>"
  define s1 where "s1 = s0\<lparr>ks_readers := [''enabled'']\<rparr>"
  let ?set = "set_flag (\<lambda>_. False) ''disabled'' ''op'' ''t1'' (toggle_callback ''disabled'' ''op'' ''t1'')
    (None, example_flag_db ''enabled'')"
  define s2 where "s2 = s1\<lparr>ks_cache := fst (snd ?set), ks_db := snd (snd ?set)\<rparr>"
  define s3 where "s3 = s2\<lparr>ks_cache := Some ''enabled'', ks_readers := []\<rparr>"
  have 0: "ks_reachable s0"
    by (rule reach_init) (simp add: s0_def ks_init_def flag_value_def example_flag_db_def)
  have "ks_step s0 s1"
    using ks_step.full_read [of s0] by (simp add: s0_def s1_def read_routing_flag_def example_flag_db_def)
  moreover have "ks_step s1 s2"
    using ks_step.toggle [of "\<lambda>_. False" "''disabled''" "''op''" "''t1''" s1 "fst ?set" "fst (snd ?set)" "snd (snd ?set)"]
    by (simp add: s2_def s1_def s0_def)
  moreover have "ks_step s2 s3"
    using ks_step.full_store [of s2 "[]" "''enabled''" "[]"] by (simp add: s3_def s2_def s1_def)
  ultimately have "ks_reachable s3" using 0 reach_step by metis
  moreover have "flag_value (snd (snd ?set)) = Some ''disabled''" by code_simp
  then have "flag_value (ks_db s3) = Some ''disabled''" by (simp add: s3_def s2_def)
  moreover have "fst (is_enabled (ks_cache s3, ks_db s3)) = Inr True" by (simp add: s3_def is_enabled_def)
  ultimately show ?thesis by blast
qed

end
