(* ===== verification/Agents.thy ===== *)
theory Agents
  imports Schema "HOL-Library.Option_ord" "HOL-Library.Multiset"
begin

text \<open>
  The agent registry as the routing code sees it: the record and its queries
  (\<open>state/agents.py\<close>), the shape of agent ids (\<open>agents/identifiers.py\<close>), the read adapters
  (\<open>routing/daemon_adapters.py\<close>) and the resolution of a \<open>--target\<close> argument
  (\<open>routing/target_resolver.py\<close>). The locale \<open>agents_lookup\<close> is the \<open>AgentsLookup\<close> protocol.
\<close>

text \<open>The permissions that follow from a role (\<open>agents/permissions.py\<close>).\<close>

record effective_permissions =
  can_send :: bool
  can_receive :: bool
  can_send_to_roles :: "string list"

record agent =
  ag_agent_id :: string
  ag_container_id :: string
  ag_tmux_socket_path :: string
  ag_tmux_session_name :: string
  ag_tmux_window_index :: int
  ag_tmux_pane_index :: int
  ag_tmux_pane_id :: string
  ag_role :: string
  ag_capability :: string
  ag_label :: string
  ag_project_path :: string
  ag_parent_agent_id :: "string option"
  ag_effective_permissions :: effective_permissions
  ag_created_at :: timestamp
  ag_last_registered_at :: timestamp
  ag_last_seen_at :: "timestamp option"
  ag_active :: bool

subsection \<open>Queries\<close>

definition select_agent_by_id :: "agent list \<Rightarrow> string \<Rightarrow> agent option" where
  "select_agent_by_id agents agent_id = lookup_row ag_agent_id agent_id agents"

text \<open>
  The upper bound of the prefix scan bumps the last character; \<open>prefix[-1]\<close> on the empty string
  raises \<open>IndexError\<close>. Container ids are ASCII.
\<close>

definition next_lex_prefix :: "string \<Rightarrow> exc + string" where
  "next_lex_prefix prefix =
     (if prefix = [] then Inl IndexError
      else Inr (butlast prefix @ [char_of ((of_char (last prefix) :: nat) + 1)]))"

definition container_clause :: "string option \<Rightarrow> exc + (string \<Rightarrow> bool)" where
  "container_clause container_id =
     (case container_id of
        None \<Rightarrow> Inr (\<lambda>_. True)
      | Some c \<Rightarrow>
          if length c = 64 then Inr (\<lambda>x. x = c)
          else case next_lex_prefix c of
                 Inl e \<Rightarrow> Inl e
               | Inr upper \<Rightarrow> Inr (\<lambda>x. c \<le> x \<and> x < upper))"

definition order_agents :: "agent list \<Rightarrow> agent list" where
  "order_agents =
     sort_key (\<lambda>a. (\<not> ag_active a, ag_container_id a, ag_parent_agent_id a, ag_label a,
                     ag_agent_id a))"

definition list_agents ::
  "string list \<Rightarrow> string option \<Rightarrow> bool \<Rightarrow> string option \<Rightarrow> agent list \<Rightarrow> exc + agent list" where
  "list_agents role container_id active_only parent_agent_id agents =
     (case container_clause container_id of
        Inl e \<Rightarrow> Inl e
      | Inr in_container \<Rightarrow>
          Inr (order_agents
            (filter (\<lambda>a. (active_only \<longrightarrow> ag_active a) \<and> (role \<noteq> [] \<longrightarrow> ag_role a \<in> set role) \<and>
                in_container (ag_container_id a) \<and>
                (parent_agent_id \<noteq> None \<longrightarrow> ag_parent_agent_id a = parent_agent_id)) agents)))"

subsection \<open>Adapters\<close>

definition get_agent_by_id :: "agent list \<Rightarrow> string \<Rightarrow> agent option" where
  "get_agent_by_id agents agent_id = select_agent_by_id agents agent_id"

definition find_agents_by_label :: "agent list \<Rightarrow> string \<Rightarrow> bool \<Rightarrow> exc + agent list" where
  "find_agents_by_label agents label only_active =
     map_sum id (filter (\<lambda>r. ag_label r = label)) (list_agents [] None only_active None agents)"

definition list_active_masters :: "agent list \<Rightarrow> exc + agent list" where
  "list_active_masters agents = list_agents [''master''] None True None agents"

definition list_active_by_role :: "agent list \<Rightarrow> string \<Rightarrow> string option \<Rightarrow> exc + agent list" where
  "list_active_by_role agents role capability =
     (case capability of
        None \<Rightarrow> list_agents [role] None True None agents
      | Some c \<Rightarrow> map_sum id (filter (\<lambda>r. ag_capability r = c))
                    (list_agents [role] None True None agents))"

subsection \<open>Agent ids\<close>

definition hex_digit :: "char \<Rightarrow> bool" where
  "hex_digit c \<longleftrightarrow> c \<in> set ''0123456789abcdef''"

text \<open>
  \<open>re.compile(r"^agt_[0-9a-f]{12}$").match(s)\<close>; Python's \<open>$\<close> also matches before a newline that
  ends the string.
\<close>

definition agent_id_re :: "string \<Rightarrow> bool" where
  "agent_id_re s \<longleftrightarrow>
     py_startswith s ''agt_'' \<and> list_all hex_digit (take 12 (drop 4 s)) \<and>
     (length s = 16 \<or> (length s = 17 \<and> last s = CHR 10))"

definition host_operator_sentinel :: string where
  "host_operator_sentinel = ''host-operator''"

definition validate_agent_id_shape :: "string \<Rightarrow> string + string" where
  "validate_agent_id_shape value =
     (if value = host_operator_sentinel then Inl ''value_out_of_set''
      else if \<not> agent_id_re value then Inl ''value_out_of_set''
      else Inr value)"

subsection \<open>Target resolution\<close>

definition resolve_target ::
  "(string \<Rightarrow> agent option) \<Rightarrow> (string \<Rightarrow> bool \<Rightarrow> exc + agent list) \<Rightarrow> string \<Rightarrow> exc + agent" where
  "resolve_target by_id by_label input_str =
     (if agent_id_re input_str then
        (case by_id input_str of
           None \<Rightarrow> Inl (TargetResolveError ''agent_not_found'')
         | Some record \<Rightarrow> Inr record)
      else
        (case by_label input_str True of
           Inl e \<Rightarrow> Inl e
         | Inr matches \<Rightarrow>
             (case matches of
                [] \<Rightarrow> Inl (TargetResolveError ''agent_not_found'')
              | [m] \<Rightarrow> Inr m
              | _ \<Rightarrow> Inl (TargetResolveError ''target_label_ambiguous''))))"

subsection \<open>The lookup protocol\<close>

text \<open>The laws the clients rely on: lookups return exactly the registered agents that qualify.\<close>

locale agents_lookup =
  fixes by_id :: "string \<Rightarrow> agent option"
    and by_label :: "string \<Rightarrow> bool \<Rightarrow> exc + agent list"
    and registered :: "agent list"
  assumes by_id_Some: "by_id i = Some a \<Longrightarrow> a \<in> set registered \<and> ag_agent_id a = i"
    and by_id_None: "by_id i = None \<Longrightarrow> i \<notin> ag_agent_id ` set registered"
    and by_label_total: "\<exists>ms. by_label l only_active = Inr ms \<and>
      mset ms = filter_mset (\<lambda>a. ag_label a = l \<and> (only_active \<longrightarrow> ag_active a)) (mset registered)"
begin

lemma resolve_id:
  assumes "agent_id_re s"
  shows "resolve_target by_id by_label s =
    (case by_id s of None \<Rightarrow> Inl (TargetResolveError ''agent_not_found'') | Some a \<Rightarrow> Inr a)"
  using assms by (simp add: resolve_target_def)

lemma resolve_sound:
  assumes "resolve_target by_id by_label s = Inr a"
  shows "a \<in> set registered \<and> (if agent_id_re s then ag_agent_id a = s
    else filter (\<lambda>b. ag_label b = s \<and> ag_active b) registered = [a])"
proof (cases "agent_id_re s")
  case True
  with assms show ?thesis by (auto simp: resolve_id by_id_Some split: option.splits)
next
  case False
  with assms have "by_label s True = Inr [a]"
    by (auto simp: resolve_target_def split: sum.splits list.splits)
  with by_label_total [of s True] have
    "mset (filter (\<lambda>b. ag_label b = s \<and> ag_active b) registered) = {#a#}"
    by (simp add: mset_filter)
  then have one: "filter (\<lambda>b. ag_label b = s \<and> ag_active b) registered = [a]"
    by (simp only: mset_single_iff)
  then have "a \<in> set (filter (\<lambda>b. ag_label b = s \<and> ag_active b) registered)" by simp
  then have "a \<in> set registered" by simp
  with one False show ?thesis by simp
qed

lemma resolve_error:
  assumes "resolve_target by_id by_label s = Inl e"
  shows "(e = TargetResolveError ''agent_not_found'' \<and>
      (if agent_id_re s then s \<notin> ag_agent_id ` set registered
       else \<forall>a \<in> set registered. ag_label a = s \<longrightarrow> \<not> ag_active a)) \<or>
    (e = TargetResolveError ''target_label_ambiguous'' \<and> \<not> agent_id_re s \<and>
      2 \<le> length (filter (\<lambda>a. ag_label a = s \<and> ag_active a) registered))"
proof (cases "agent_id_re s")
  case True
  with assms show ?thesis by (auto simp: resolve_id by_id_None split: option.splits)
next
  case False
  obtain ms where ms: "by_label s True = Inr ms"
    "mset ms = mset (filter (\<lambda>a. ag_label a = s \<and> ag_active a) registered)"
    using by_label_total [of s True] by (auto simp: mset_filter)
  have len: "length ms = length (filter (\<lambda>a. ag_label a = s \<and> ag_active a) registered)"
    using arg_cong [OF ms(2), of size] by (simp only: size_mset)
  have set: "set ms = set (filter (\<lambda>a. ag_label a = s \<and> ag_active a) registered)"
    using arg_cong [OF ms(2), of set_mset] by (simp only: set_mset_mset)
  show ?thesis
  proof (cases ms)
    case Nil
    with assms ms False set show ?thesis by (auto simp: resolve_target_def)
  next
    case (Cons m ms')
    with assms ms(1) False len show ?thesis
      by (auto simp: resolve_target_def split: list.splits)
  qed
qed

end

lemma list_agents_no_container:
  "list_agents role None active_only parent agents =
     Inr (order_agents (filter (\<lambda>a. (active_only \<longrightarrow> ag_active a) \<and>
       (role \<noteq> [] \<longrightarrow> ag_role a \<in> set role) \<and>
       (parent \<noteq> None \<longrightarrow> ag_parent_agent_id a = parent)) agents))"
  by (simp add: list_agents_def container_clause_def)

lemma mset_order_agents [simp]: "mset (order_agents agents) = mset agents"
  by (simp add: order_agents_def)

lemma registry_by_label:
  "\<exists>ms. find_agents_by_label agents l oa = Inr ms \<and>
     mset ms = filter_mset (\<lambda>a. ag_label a = l \<and> (oa \<longrightarrow> ag_active a)) (mset agents)"
proof (intro exI conjI)
  let ?ms = "filter (\<lambda>r. ag_label r = l) (order_agents (filter (\<lambda>a. oa \<longrightarrow> ag_active a) agents))"
  show "find_agents_by_label agents l oa = Inr ?ms"
    by (simp add: find_agents_by_label_def list_agents_no_container)
  show "mset ?ms = filter_mset (\<lambda>a. ag_label a = l \<and> (oa \<longrightarrow> ag_active a)) (mset agents)"
    by (simp add: mset_filter filter_filter_mset conj_commute)
qed

interpretation registry: agents_lookup "get_agent_by_id agents" "find_agents_by_label agents" agents
  for agents
proof unfold_locales
  show "get_agent_by_id agents i = Some a \<Longrightarrow> a \<in> set agents \<and> ag_agent_id a = i" for i a
    unfolding get_agent_by_id_def select_agent_by_id_def by (rule lookup_row_SomeD)
  show "get_agent_by_id agents i = None \<Longrightarrow> i \<notin> ag_agent_id ` set agents" for i
    unfolding get_agent_by_id_def select_agent_by_id_def lookup_row_None_iff .
  show "\<exists>ms. find_agents_by_label agents l oa = Inr ms \<and>
      mset ms = filter_mset (\<lambda>a. ag_label a = l \<and> (oa \<longrightarrow> ag_active a)) (mset agents)" for l oa
    by (rule registry_by_label)
qed

lemma filter_key_unique:
  assumes "distinct (map key xs)" "a \<in> set xs"
  shows "filter (\<lambda>b. key b = key a) xs = [a]"
  using assms
proof (induction xs)
  case (Cons x xs)
  show ?case
  proof (cases "a = x")
    case True
    then show ?thesis using Cons.prems(1) by (auto simp: filter_empty_conv image_iff)
  next
    case False
    then have "key x \<noteq> key a" using Cons.prems by auto
    then show ?thesis using Cons False by simp
  qed
qed simp

text \<open>The strings between \<open>p\<close> followed by \<open>k\<close> and \<open>p\<close> followed by the next character.\<close>

lemma succ_char_interval:
  assumes "(of_char k :: nat) < 255"
  shows "(k \<le> (c :: char) \<and> c < char_of ((of_char k :: nat) + 1)) \<longleftrightarrow> c = k"
proof -
  have s: "of_char (char_of ((of_char k :: nat) + 1) :: char) = (of_char k :: nat) + 1"
    using assms by (simp add: of_char_of)
  have "((of_char k :: nat) \<le> of_char c \<and> (of_char c :: nat) < of_char k + 1) \<longleftrightarrow> (of_char c :: nat) = of_char k"
    by arith
  then show ?thesis unfolding less_eq_char_def less_char_def s of_char_eq_iff .
qed

lemma prefix_interval:
  assumes "(of_char k :: nat) < 255"
  shows "(p @ [k] \<le> x \<and> x < p @ [char_of ((of_char k :: nat) + 1)]) \<longleftrightarrow>
    take (Suc (length p)) x = p @ [k]"
proof (induction p arbitrary: x)
  case Nil
  show ?case
    using succ_char_interval [OF assms] by (cases x) (auto simp: less_le)
next
  case (Cons a p)
  note IH = Cons.IH
  show ?case
  proof (cases x)
    case (Cons b y)
    then show ?thesis using IH [of y] by (cases "a = b") (simp_all add: less_le)
  qed simp
qed

definition example_agent :: "string \<Rightarrow> string \<Rightarrow> agent" where
  "example_agent agent_id label =
     \<lparr>ag_agent_id = agent_id, ag_container_id = ''c1'', ag_tmux_socket_path = ''/tmp/tmux-0/default'',
      ag_tmux_session_name = ''main'', ag_tmux_window_index = 0, ag_tmux_pane_index = 0,
      ag_tmux_pane_id = ''%3'', ag_role = ''slave'', ag_capability = ''codex'', ag_label = label,
      ag_project_path = ''/work'', ag_parent_agent_id = None,
      ag_effective_permissions = \<lparr>can_send = False, can_receive = True, can_send_to_roles = []\<rparr>, ag_created_at = ''t0'',
      ag_last_registered_at = ''t0'', ag_last_seen_at = None, ag_active = True\<rparr>"

text \<open>
  Target resolution is exact. With distinct agent ids, a \<open>--target\<close> of agent-id shape resolves
  to the agent with that id or is not found; any other resolves to the only active agent with that
  label, is not found when there is none, and is refused as ambiguous when there are several.
\<close>

lemma resolve_target_exact:
  assumes "distinct (map ag_agent_id agents)"
  shows "resolve_target (get_agent_by_id agents) (find_agents_by_label agents) s =
    (if agent_id_re s then
       (case filter (\<lambda>a. ag_agent_id a = s) agents of
          [a] \<Rightarrow> Inr a | _ \<Rightarrow> Inl (TargetResolveError ''agent_not_found''))
     else
       (case filter (\<lambda>a. ag_label a = s \<and> ag_active a) agents of
          [] \<Rightarrow> Inl (TargetResolveError ''agent_not_found'')
        | [a] \<Rightarrow> Inr a
        | _ \<Rightarrow> Inl (TargetResolveError ''target_label_ambiguous'')))"
proof (cases "resolve_target (get_agent_by_id agents) (find_agents_by_label agents) s")
  case (Inr a)
  note sound = registry.resolve_sound [OF this]
  show ?thesis
  proof (cases "agent_id_re s")
    case True
    then have "a \<in> set agents" "ag_agent_id a = s" using sound by auto
    then have "filter (\<lambda>b. ag_agent_id b = s) agents = [a]"
      using filter_key_unique [OF assms, of a] by simp
    then show ?thesis using Inr True by simp
  next
    case False
    then show ?thesis using Inr sound by simp
  qed
next
  case (Inl e)
  note err = registry.resolve_error [OF this]
  show ?thesis
  proof (cases "agent_id_re s")
    case True
    then have "filter (\<lambda>b. ag_agent_id b = s) agents = []" using err by (auto simp: filter_empty_conv)
    then show ?thesis using Inl True err by simp
  next
    case False
    then show ?thesis
      using Inl err by (auto simp: filter_empty_conv split: list.splits)
  qed
qed

text \<open>
  The container filter of \<open>list_agents\<close>. A short container id selects by the half-open interval
  from the id to the id with its last character bumped; for ASCII ids this is exactly the set of
  container ids that start with it.
\<close>

lemma container_prefix_scan:
  assumes "c \<noteq> []" "(of_char (last c) :: nat) < 255" "length c \<noteq> 64"
  shows "\<exists>p. container_clause (Some c) = Inr p \<and> (\<forall>x. p x \<longleftrightarrow> take (length c) x = c)"
proof -
  let ?u = "butlast c @ [char_of ((of_char (last c) :: nat) + 1)]"
  have "container_clause (Some c) = Inr (\<lambda>x. c \<le> x \<and> x < ?u)"
    using assms by (simp add: container_clause_def next_lex_prefix_def)
  moreover have "(c \<le> x \<and> x < ?u) \<longleftrightarrow> take (length c) x = c" for x
    using prefix_interval [of "last c" "butlast c" x] assms(1,2) by simp
  ultimately show ?thesis by blast
qed

end
