(* ===== verification/Permissions.thy ===== *)
theory Permissions
  imports Agents
begin

text \<open>
  The permission gate (\<open>routing/permissions.py\<close>): the six-step precedence at enqueue time and the
  re-check of the target before a paste. A \<open>Decision\<close> is the block reason, or none.
\<close>

type_synonym decision = "block_reason option"

definition permitted_sender_roles :: "string list" where
  "permitted_sender_roles = [''master'']"

definition permitted_target_roles :: "string list" where
  "permitted_target_roles = [''slave'', ''swarm'']"

definition evaluate_enqueue_permissions ::
  "agent \<Rightarrow> agent \<Rightarrow> bool \<Rightarrow> bool \<Rightarrow> bool \<Rightarrow> decision" where
  "evaluate_enqueue_permissions sender target routing_enabled target_container_active
     target_pane_resolvable =
   (if \<not> routing_enabled then Some Kill_switch_off
    else if ag_role sender \<notin> set permitted_sender_roles \<or> \<not> ag_active sender
      then Some Sender_role_not_permitted
    else if \<not> ag_active target then Some Target_not_active
    else if ag_role target \<notin> set permitted_target_roles then Some Target_role_not_permitted
    else if \<not> target_container_active then Some Target_container_inactive
    else if \<not> target_pane_resolvable then Some Target_pane_missing
    else None)"

definition recheck_target_only :: "agent \<Rightarrow> bool \<Rightarrow> bool \<Rightarrow> bool \<Rightarrow> decision" where
  "recheck_target_only target routing_enabled target_container_active target_pane_resolvable =
   (if \<not> routing_enabled then Some Kill_switch_off
    else if \<not> ag_active target then Some Target_not_active
    else if \<not> target_container_active then Some Target_container_inactive
    else if \<not> target_pane_resolvable then Some Target_pane_missing
    else None)"

subsection \<open>Specification: an ordered list of conditions\<close>

text \<open>The reason of the first condition of the list that fails.\<close>

fun first_failing :: "(bool \<times> block_reason) list \<Rightarrow> decision" where
  "first_failing [] = None"
| "first_failing ((ok, reason) # rest) = (if ok then first_failing rest else Some reason)"

definition enqueue_steps ::
  "agent \<Rightarrow> agent \<Rightarrow> bool \<Rightarrow> bool \<Rightarrow> bool \<Rightarrow> (bool \<times> block_reason) list" where
  "enqueue_steps sender target routing_enabled container_active pane_resolvable =
     [(routing_enabled, Kill_switch_off),
      (ag_role sender = ''master'' \<and> ag_active sender, Sender_role_not_permitted),
      (ag_active target, Target_not_active),
      (ag_role target = ''slave'' \<or> ag_role target = ''swarm'', Target_role_not_permitted),
      (container_active, Target_container_inactive),
      (pane_resolvable, Target_pane_missing)]"

lemma first_failing_None_iff: "first_failing steps = None \<longleftrightarrow> list_all fst steps"
  by (induction steps rule: first_failing.induct) auto

lemma first_failing_Some_iff:
  "first_failing steps = Some reason \<longleftrightarrow>
     (\<exists>i < length steps. steps ! i = (False, reason) \<and> list_all fst (take i steps))"
  by (induction steps rule: first_failing.induct) (auto simp: Ex_less_Suc2)

lemma enqueue_first_failing:
  "evaluate_enqueue_permissions sender target en ca pr = first_failing (enqueue_steps sender target en ca pr)"
  by (simp add: evaluate_enqueue_permissions_def enqueue_steps_def permitted_sender_roles_def
      permitted_target_roles_def)

text \<open>
  The permission gate checks six conditions in a fixed order (switch, sender, target active,
  target role, container, pane) and the reason it gives is that of the first one that fails; it
  allows the message exactly when all six hold.
\<close>

lemma enqueue_permission_precedence:
  "(evaluate_enqueue_permissions sender target en ca pr = None \<longleftrightarrow>
     en \<and> ag_role sender = ''master'' \<and> ag_active sender \<and> ag_active target \<and>
     (ag_role target = ''slave'' \<or> ag_role target = ''swarm'') \<and> ca \<and> pr) \<and>
   (evaluate_enqueue_permissions sender target en ca pr = Some reason \<longleftrightarrow>
     (\<exists>i < length (enqueue_steps sender target en ca pr).
        enqueue_steps sender target en ca pr ! i = (False, reason) \<and>
        list_all fst (take i (enqueue_steps sender target en ca pr))))"
  unfolding enqueue_first_failing first_failing_None_iff first_failing_Some_iff
  by (simp add: enqueue_steps_def)

end
