(* ===== verification/Utf8.thy ===== *)
theory Utf8
  imports Schema
begin

text \<open>
  Python's strict UTF-8 codec, used where the code decodes a body (\<open>bytes.decode\<close>) or counts
  code points. \<open>utf8_next\<close> reads one well-formed sequence: no overlong form, no surrogate, nothing
  above U+10FFFF. The two lemmas \<open>utf8_decode_encode\<close> and \<open>utf8_encode_decode\<close> are the round trip.
\<close>

definition cont_byte :: "nat \<Rightarrow> bool" where
  "cont_byte b \<longleftrightarrow> 0x80 \<le> b \<and> b \<le> 0xBF"

fun utf8_next :: "nat list \<Rightarrow> (codepoint \<times> nat list) option" where
  "utf8_next [] = None"
| "utf8_next (b0 # bs) =
     (if b0 < 0x80 then Some (b0, bs)
      else if 0xC2 \<le> b0 \<and> b0 \<le> 0xDF then
        (case bs of
           b1 # rest \<Rightarrow> if cont_byte b1 then Some ((b0 - 0xC0) * 64 + (b1 - 0x80), rest) else None
         | _ \<Rightarrow> None)
      else if 0xE0 \<le> b0 \<and> b0 \<le> 0xEF then
        (case bs of
           b1 # b2 # rest \<Rightarrow>
             if cont_byte b1 \<and> cont_byte b2 \<and> (b0 = 0xE0 \<longrightarrow> 0xA0 \<le> b1) \<and> (b0 = 0xED \<longrightarrow> b1 < 0xA0)
             then Some (((b0 - 0xE0) * 64 + (b1 - 0x80)) * 64 + (b2 - 0x80), rest) else None
         | _ \<Rightarrow> None)
      else if 0xF0 \<le> b0 \<and> b0 \<le> 0xF4 then
        (case bs of
           b1 # b2 # b3 # rest \<Rightarrow>
             if cont_byte b1 \<and> cont_byte b2 \<and> cont_byte b3 \<and>
                (b0 = 0xF0 \<longrightarrow> 0x90 \<le> b1) \<and> (b0 = 0xF4 \<longrightarrow> b1 < 0x90)
             then Some ((((b0 - 0xF0) * 64 + (b1 - 0x80)) * 64 + (b2 - 0x80)) * 64 + (b3 - 0x80), rest)
             else None
         | _ \<Rightarrow> None)
      else None)"

lemma utf8_next_shorter: "utf8_next bs = Some (c, rest) \<Longrightarrow> length rest < length bs"
  by (cases bs) (auto split: if_splits list.splits)

function utf8_decode :: "nat list \<Rightarrow> codepoint list option" where
  "utf8_decode bs =
     (if bs = [] then Some []
      else case utf8_next bs of
             None \<Rightarrow> None
           | Some (c, rest) \<Rightarrow> map_option ((#) c) (utf8_decode rest))"
  by pat_completeness auto
termination
  by (relation "measure length") (auto dest: utf8_next_shorter)

declare utf8_decode.simps [simp del]

definition scalar_value :: "codepoint \<Rightarrow> bool" where
  "scalar_value c \<longleftrightarrow> c < 0xD800 \<or> (0xE000 \<le> c \<and> c \<le> 0x10FFFF)"

definition utf8_encode_one :: "codepoint \<Rightarrow> nat list" where
  "utf8_encode_one c =
     (if c < 0x80 then [c]
      else if c < 0x800 then [0xC0 + c div 64, 0x80 + c mod 64]
      else if c < 0x10000 then [0xE0 + c div 64 div 64, 0x80 + c div 64 mod 64, 0x80 + c mod 64]
      else [0xF0 + c div 64 div 64 div 64, 0x80 + c div 64 div 64 mod 64, 0x80 + c div 64 mod 64,
            0x80 + c mod 64])"

definition utf8_encode :: "codepoint list \<Rightarrow> nat list" where
  "utf8_encode cs = concat (map utf8_encode_one cs)"

text \<open>\<open>body.decode("utf-8")\<close>, and the byte string of a list of code points.\<close>

definition decode_body :: "bytes \<Rightarrow> codepoint list option" where
  "decode_body body = utf8_decode (map unat body)"

definition string_of_codepoints :: "codepoint list \<Rightarrow> string" where
  "string_of_codepoints cs = map char_of (utf8_encode cs)"

definition codepoints_of_string :: "string \<Rightarrow> codepoint list option" where
  "codepoints_of_string s = utf8_decode (map of_char s)"

definition bytes_of_string :: "string \<Rightarrow> bytes" where
  "bytes_of_string s = map (\<lambda>c. word_of_nat (of_char c)) s"

text \<open>
  \<open>decode("utf-8", errors="replace")\<close>: an ill-formed sequence is replaced by U+FFFD up to the longest
  prefix of a well-formed one.
\<close>

definition second_byte_ok :: "nat \<Rightarrow> nat \<Rightarrow> bool" where
  "second_byte_ok b0 b1 \<longleftrightarrow> cont_byte b1 \<and> (b0 = 0xE0 \<longrightarrow> 0xA0 \<le> b1) \<and> (b0 = 0xED \<longrightarrow> b1 < 0xA0) \<and>
     (b0 = 0xF0 \<longrightarrow> 0x90 \<le> b1) \<and> (b0 = 0xF4 \<longrightarrow> b1 < 0x90)"

fun ill_formed_tail :: "nat list \<Rightarrow> nat list" where
  "ill_formed_tail [] = []"
| "ill_formed_tail [b0] = []"
| "ill_formed_tail [b0, b1] = (if 0xE0 \<le> b0 \<and> b0 \<le> 0xF4 \<and> second_byte_ok b0 b1 then [] else [b1])"
| "ill_formed_tail (b0 # b1 # b2 # bs) =
     (if 0xF0 \<le> b0 \<and> b0 \<le> 0xF4 \<and> second_byte_ok b0 b1 \<and> cont_byte b2 then bs
      else if 0xE0 \<le> b0 \<and> b0 \<le> 0xF4 \<and> second_byte_ok b0 b1 then b2 # bs
      else b1 # b2 # bs)"

lemma ill_formed_tail_shorter: "bs \<noteq> [] \<Longrightarrow> length (ill_formed_tail bs) < length bs"
  by (cases bs rule: ill_formed_tail.cases) auto

function decode_replace :: "nat list \<Rightarrow> codepoint list" where
  "decode_replace bs =
     (if bs = [] then []
      else case utf8_next bs of
        Some (c, rest) \<Rightarrow> c # decode_replace rest
      | None \<Rightarrow> 0xFFFD # decode_replace (ill_formed_tail bs))"
  by pat_completeness auto

termination
  by (relation "measure length") (auto dest: utf8_next_shorter ill_formed_tail_shorter simp del: utf8_next.simps)

declare decode_replace.simps [simp del]

subsection \<open>Round trips\<close>

lemma utf8_decode_Nil [simp]: "utf8_decode [] = Some []"
  by (simp add: utf8_decode.simps)

lemma sextets:
  fixes x :: nat
  assumes "k < 64"
  shows "(x * 64 + k) div 64 = x" "(x * 64 + k) mod 64 = k"
  using assms by simp_all

lemma sextet_split:
  fixes c :: nat
  obtains x k where "c = x * 64 + k" "k < 64"
  by (rule that [of "c div 64" "c mod 64"]) simp_all

lemma utf8_next_encode:
  assumes "scalar_value c"
  shows "utf8_next (utf8_encode_one c @ bs) = Some (c, bs)"
proof -
  obtain x3 k3 where 3: "c = x3 * 64 + k3" "k3 < 64" by (rule sextet_split)
  obtain x2 k2 where 2: "x3 = x2 * 64 + k2" "k2 < 64" by (rule sextet_split)
  obtain x1 k1 where 1: "x2 = x1 * 64 + k1" "k1 < 64" by (rule sextet_split)
  have d: "c div 64 = x3" "c mod 64 = k3" "x3 div 64 = x2" "x3 mod 64 = k2" "x2 div 64 = x1"
    "x2 mod 64 = k1"
    using 3 2 1 by (simp_all only: sextets)
  consider "c < 0x80" | "0x80 \<le> c" "c < 0x800" | "0x800 \<le> c" "c < 0x10000" | "0x10000 \<le> c" by linarith
  then show ?thesis
  proof cases
    case a: 1
    then show ?thesis by (simp add: utf8_encode_one_def)
  next
    case a: 2
    then have "utf8_encode_one c = [0xC0 + x3, 0x80 + k3]"
      by (simp add: utf8_encode_one_def d)
    moreover have "2 \<le> x3" "x3 < 32" using a 3 by linarith+
    ultimately show ?thesis using 3 by (simp add: cont_byte_def)
  next
    case a: 3
    then have "utf8_encode_one c = [0xE0 + x2, 0x80 + k2, 0x80 + k3]"
      by (simp add: utf8_encode_one_def d)
    moreover have "x2 < 16" "x2 = 0 \<Longrightarrow> 32 \<le> k2" "x2 = 13 \<Longrightarrow> k2 < 32"
      using a 3 2 assms unfolding scalar_value_def by linarith+
    ultimately show ?thesis using 3 2 by (simp add: cont_byte_def)
  next
    case a: 4
    then have "utf8_encode_one c = [0xF0 + x1, 0x80 + k1, 0x80 + k2, 0x80 + k3]"
      by (simp add: utf8_encode_one_def d)
    moreover have "x1 \<le> 4" "x1 = 0 \<Longrightarrow> 16 \<le> k1" "x1 = 4 \<Longrightarrow> k1 < 16"
      using a 3 2 1 assms unfolding scalar_value_def by linarith+
    ultimately show ?thesis using 3 2 1 by (simp add: cont_byte_def)
  qed
qed

lemma utf8_encode_one_not_Nil [simp]: "utf8_encode_one c \<noteq> []"
  by (simp add: utf8_encode_one_def)

lemma utf8_decode_encode:
  assumes "list_all scalar_value cs"
  shows "utf8_decode (utf8_encode cs) = Some cs"
  using assms
proof (induction cs)
  case Nil
  then show ?case by (simp add: utf8_encode_def)
next
  case (Cons c cs)
  then show ?case
    by (subst utf8_decode.simps) (simp add: utf8_encode_def utf8_next_encode)
qed

lemma cont_byteE:
  assumes "cont_byte b" obtains k where "b = 0x80 + k" "k < 64"
  using assms by (intro that [of "b - 0x80"]) (auto simp: cont_byte_def)

lemma utf8_next_sound:
  assumes "utf8_next bs = Some (c, rest)"
  shows "bs = utf8_encode_one c @ rest \<and> scalar_value c"
proof (cases bs)
  case Nil
  with assms show ?thesis by simp
next
  case (Cons b0 bs1)
  consider "b0 < 0x80" | "0xC2 \<le> b0" "b0 \<le> 0xDF" | "0xE0 \<le> b0" "b0 \<le> 0xEF" | "0xF0 \<le> b0" "b0 \<le> 0xF4"
    using assms Cons by (auto split: if_splits)
  then show ?thesis
  proof cases
    case 1
    with assms Cons show ?thesis by (auto simp: utf8_encode_one_def scalar_value_def)
  next
    case 2
    with assms Cons obtain k1 where k: "bs1 = (0x80 + k1) # rest" "k1 < 64" "c = (b0 - 0xC0) * 64 + k1"
      by (auto split: list.splits if_splits elim!: cont_byteE)
    with 2 have "c div 64 = b0 - 0xC0" "c mod 64 = k1" "0x80 \<le> c" "c < 0x800" by auto
    with k 2 Cons show ?thesis by (simp add: utf8_encode_one_def scalar_value_def)
  next
    case 3
    with assms Cons obtain k1 k2 where k: "bs1 = (0x80 + k1) # (0x80 + k2) # rest" "k1 < 64" "k2 < 64"
      "c = ((b0 - 0xE0) * 64 + k1) * 64 + k2" "b0 = 0xE0 \<longrightarrow> 32 \<le> k1" "b0 = 0xED \<longrightarrow> k1 < 32"
      by (auto split: list.splits if_splits elim!: cont_byteE)
    define a where "a = b0 - 0xE0"
    have a: "b0 = 0xE0 + a" "a < 16" using 3 by (simp_all add: a_def)
    have c: "c = (a * 64 + k1) * 64 + k2" using k(4) by (simp add: a_def)
    have "c div 64 div 64 = a" "c div 64 mod 64 = k1" "c mod 64 = k2"
      unfolding c by (simp_all only: sextets k(2,3))
    moreover have "c < 0x10000" using c k(2,3) a(2) by simp
    moreover have "0x800 \<le> c" using c k(5) a by (cases "a = 0") simp_all
    moreover have "scalar_value c"
    proof -
      consider "a < 13" | "a = 13" | "13 < a" by linarith
      then show ?thesis using c k(2,3,6) a \<open>c < 0x10000\<close> by cases (auto simp: scalar_value_def)
    qed
    ultimately show ?thesis using k a Cons by (simp add: utf8_encode_one_def)
  next
    case 4
    with assms Cons obtain k1 k2 k3 where
      k: "bs1 = (0x80 + k1) # (0x80 + k2) # (0x80 + k3) # rest" "k1 < 64" "k2 < 64" "k3 < 64"
      "c = (((b0 - 0xF0) * 64 + k1) * 64 + k2) * 64 + k3" "b0 = 0xF0 \<longrightarrow> 16 \<le> k1"
      "b0 = 0xF4 \<longrightarrow> k1 < 16"
      by (auto split: list.splits if_splits elim!: cont_byteE)
    define a where "a = b0 - 0xF0"
    have a: "b0 = 0xF0 + a" "a < 5" using 4 by (simp_all add: a_def)
    have c: "c = ((a * 64 + k1) * 64 + k2) * 64 + k3" using k(5) by (simp add: a_def)
    have "c div 64 div 64 div 64 = a" "c div 64 div 64 mod 64 = k1" "c div 64 mod 64 = k2"
      "c mod 64 = k3"
      unfolding c by (simp_all only: sextets k(2,3,4))
    moreover have "0x10000 \<le> c" using c k(6) a by (cases "a = 0") simp_all
    moreover have "c \<le> 0x10FFFF" using c k(2,3,4,7) a by (cases "a = 4") simp_all
    then have "scalar_value c" using \<open>0x10000 \<le> c\<close> by (simp add: scalar_value_def)
    ultimately show ?thesis using k a Cons by (simp add: utf8_encode_one_def)
  qed
qed

lemma utf8_encode_decode:
  assumes "utf8_decode bs = Some cs"
  shows "utf8_encode cs = bs \<and> list_all scalar_value cs"
  using assms
proof (induction bs arbitrary: cs rule: utf8_decode.induct)
  case (1 bs)
  show ?case
  proof (cases "bs = []")
    case True
    with 1(2) show ?thesis by (simp add: utf8_encode_def)
  next
    case False
    with 1(2) obtain c rest cs' where
      n: "utf8_next bs = Some (c, rest)" "utf8_decode rest = Some cs'" "cs = c # cs'"
      by (subst (asm) utf8_decode.simps) (auto split: option.splits)
    with 1(1) [OF False n(1) refl n(2)] utf8_next_sound [OF n(1)] show ?thesis
      by (simp add: utf8_encode_def)
  qed
qed

end
