(* ===== verification/Envelope.thy ===== *)
theory Envelope
  imports Utf8
begin

text \<open>
  Body validation, envelope rendering and the size check (\<open>routing/envelope.py\<close>), over raw bytes.
  An \<open>EnvelopeIdentity\<close> is the record \<open>ident\<close>.
\<close>

definition default_envelope_body_max_bytes :: nat where
  "default_envelope_body_max_bytes = 65536"

definition forbidden_body_byte :: "8 word \<Rightarrow> bool" where
  "forbidden_body_byte b \<longleftrightarrow> (b < 0x20 \<or> b = 0x7F) \<and> b \<noteq> 0x09 \<and> b \<noteq> 0x0A"

definition validate_body :: "bytes \<Rightarrow> exc + unit" where
  "validate_body body =
     (if length body = 0 then Inl (BodyValidationError ''body_empty'')
      else if decode_body body = None then Inl (BodyValidationError ''body_invalid_encoding'')
      else if list_ex forbidden_body_byte body then Inl (BodyValidationError ''body_invalid_chars'')
      else Inr ())"

definition newline :: string where
  "newline = [CHR 10]"

definition capability_suffix :: "string option \<Rightarrow> string" where
  "capability_suffix capability =
     (case capability of
        None \<Rightarrow> ''''
      | Some c \<Rightarrow> if c = '''' then '''' else '' [capability='' @ c @ '']'')"

definition identity_header :: "string \<Rightarrow> ident \<Rightarrow> string" where
  "identity_header key who =
     key @ '': '' @ id_agent_id who @ '' '' @ [CHR 0x22] @ id_label who @ [CHR 0x22] @ '' '' @
     id_role who @ capability_suffix (id_capability who)"

definition render_headers :: "string \<Rightarrow> ident \<Rightarrow> ident \<Rightarrow> string" where
  "render_headers message_id sender target =
     ''Message-Id: '' @ message_id @ newline @
     identity_header ''From'' sender @ newline @
     identity_header ''To'' target @ newline @
     ''Type: prompt'' @ newline @
     ''Priority: normal'' @ newline @
     ''Requires-Reply: yes'' @ newline @
     newline"

definition render_envelope :: "string \<Rightarrow> ident \<Rightarrow> ident \<Rightarrow> bytes \<Rightarrow> bytes" where
  "render_envelope message_id sender target body =
     bytes_of_string (render_headers message_id sender target) @ body"

definition serialize_and_check_size ::
  "string \<Rightarrow> ident \<Rightarrow> ident \<Rightarrow> bytes \<Rightarrow> nat \<Rightarrow> exc + bytes" where
  "serialize_and_check_size message_id sender target body max_bytes =
     (case validate_body body of
        Inl e \<Rightarrow> Inl e
      | Inr _ \<Rightarrow>
          let rendered = render_envelope message_id sender target body
          in if max_bytes < length rendered then Inl (BodyValidationError ''body_too_large'')
             else Inr rendered)"

subsection \<open>Facts\<close>

lemma length_bytes_of_string [simp]: "length (bytes_of_string s) = length s"
  by (simp add: bytes_of_string_def)

lemma render_headers_not_Nil: "0 < length (render_headers m s t)"
  by (simp add: render_headers_def)

lemma render_envelope_nonempty: "0 < length (render_envelope m s t body)"
  using render_headers_not_Nil by (simp add: render_envelope_def)

lemma serialize_InrD:
  assumes "serialize_and_check_size m s t body max_bytes = Inr env"
  shows "env = render_envelope m s t body" "length env \<le> max_bytes" "validate_body body = Inr ()"
  using assms by (auto simp: serialize_and_check_size_def Let_def split: sum.splits if_splits)

lemma validate_body_InrD:
  assumes "validate_body body = Inr ()"
  shows "body \<noteq> []" "decode_body body \<noteq> None" "list_all (\<lambda>b. \<not> forbidden_body_byte b) body"
  using assms by (auto simp: validate_body_def list_ex_iff list_all_iff split: if_splits)

lemma serialize_error_codes:
  assumes "serialize_and_check_size m s t body max_bytes = Inl e"
  shows "e \<in> BodyValidationError ` {''body_empty'', ''body_invalid_encoding'', ''body_invalid_chars'',
    ''body_too_large''}"
  using assms by (auto simp: serialize_and_check_size_def validate_body_def Let_def
      split: if_splits)

lemma decode_iff:
  "decode_body body = Some cs \<longleftrightarrow> list_all scalar_value cs \<and> map unat body = utf8_encode cs"
  unfolding decode_body_def using utf8_decode_encode utf8_encode_decode by metis


text \<open>
  The envelope check on every branch, in the order of the source: an empty body, a body that is
  not UTF-8, a body with a forbidden control byte (below 32 or 127, except tab and line feed), an
  envelope whose headers and body together exceed the cap, and otherwise the headers followed by
  the body unchanged.
\<close>

lemma serialize_outcome:
  "serialize_and_check_size m s t body max_bytes =
     (if body = [] then Inl (BodyValidationError ''body_empty'')
      else if \<not> (\<exists>cs. list_all scalar_value cs \<and> map unat body = utf8_encode cs)
        then Inl (BodyValidationError ''body_invalid_encoding'')
      else if \<exists>b \<in> set body. (unat b < 32 \<or> unat b = 127) \<and> unat b \<noteq> 9 \<and> unat b \<noteq> 10
        then Inl (BodyValidationError ''body_invalid_chars'')
      else if max_bytes < length (render_headers m s t) + length body
        then Inl (BodyValidationError ''body_too_large'')
      else Inr (bytes_of_string (render_headers m s t) @ body))"
proof -
  have dec: "decode_body body = None \<longleftrightarrow> \<not> (\<exists>cs. list_all scalar_value cs \<and> map unat body = utf8_encode cs)"
    using decode_iff [of body] by (metis option.exhaust option.distinct(1))
  have forb: "list_ex forbidden_body_byte body \<longleftrightarrow>
      (\<exists>b \<in> set body. (unat b < 32 \<or> unat b = 127) \<and> unat b \<noteq> 9 \<and> unat b \<noteq> 10)"
    by (auto simp: list_ex_iff forbidden_body_byte_def word_less_nat_alt word_unat_eq_iff)
  show ?thesis
    unfolding forb [symmetric] dec [symmetric]
    by (simp add: serialize_and_check_size_def validate_body_def render_envelope_def Let_def)
qed

end
