(* ===== verification/Excerpt.thy ===== *)
theory Excerpt
  imports Envelope
begin

text \<open>
  The redacted one-line excerpt of a body (\<open>routing/excerpt.py\<close>). The redactor
  (\<open>logs/redaction.py\<close> in production, injectable in the code) is a parameter on lines of code
  points; \<open>None\<close> is a redactor that raises.
\<close>

type_synonym redactor = "codepoint list \<Rightarrow> codepoint list option"

definition default_excerpt_cap :: nat where
  "default_excerpt_cap = 240"

definition ellipsis :: codepoint where
  "ellipsis = 0x2026"

definition redactor_failed_placeholder :: "codepoint list" where
  "redactor_failed_placeholder = map of_char ''[excerpt unavailable: redactor failed]''"

text \<open>The characters \<open>\s\<close> matches in a Python \<open>str\<close> pattern.\<close>

definition is_whitespace :: "codepoint \<Rightarrow> bool" where
  "is_whitespace c \<longleftrightarrow>
     (0x09 \<le> c \<and> c \<le> 0x0D) \<or> (0x1C \<le> c \<and> c \<le> 0x20) \<or> c = 0x85 \<or> c = 0xA0 \<or> c = 0x1680 \<or>
     (0x2000 \<le> c \<and> c \<le> 0x200A) \<or> c = 0x2028 \<or> c = 0x2029 \<or> c = 0x202F \<or> c = 0x205F \<or> c = 0x3000"

text \<open>\<open>re.sub(r"\s+", " ", s)\<close>; the flag says that the previous character was whitespace.\<close>

fun collapse_whitespace :: "bool \<Rightarrow> codepoint list \<Rightarrow> codepoint list" where
  "collapse_whitespace in_run [] = []"
| "collapse_whitespace in_run (c # cs) =
     (if is_whitespace c
      then (if in_run then collapse_whitespace True cs else 0x20 # collapse_whitespace True cs)
      else c # collapse_whitespace False cs)"

fun redact_all :: "redactor \<Rightarrow> codepoint list list \<Rightarrow> codepoint list list option" where
  "redact_all redactor [] = Some []"
| "redact_all redactor (l # ls) =
     (case redactor l of
        None \<Rightarrow> None
      | Some l' \<Rightarrow> map_option ((#) l') (redact_all redactor ls))"

definition redact_multiline :: "redactor \<Rightarrow> codepoint list \<Rightarrow> codepoint list option" where
  "redact_multiline redactor text =
     map_option (py_join [0x0A]) (redact_all redactor (py_split 0x0A text))"

definition truncate_cap :: "nat \<Rightarrow> codepoint list \<Rightarrow> codepoint list" where
  "truncate_cap cap one_line =
     (if length one_line \<le> cap then one_line else take cap one_line @ [ellipsis])"

definition render_excerpt :: "redactor \<Rightarrow> nat \<Rightarrow> bytes \<Rightarrow> codepoint list" where
  "render_excerpt redactor cap body =
     (case decode_body body of
        None \<Rightarrow> redactor_failed_placeholder
      | Some raw \<Rightarrow>
          (case redact_multiline redactor raw of
             None \<Rightarrow> redactor_failed_placeholder
           | Some redacted \<Rightarrow> truncate_cap cap (collapse_whitespace False redacted)))"

subsection \<open>Shape of an excerpt\<close>

text \<open>No whitespace but single blanks.\<close>

fun single_spaced :: "codepoint list \<Rightarrow> bool" where
  "single_spaced [] = True"
| "single_spaced [c] = (is_whitespace c \<longrightarrow> c = 0x20)"
| "single_spaced (c # d # cs) =
     ((is_whitespace c \<longrightarrow> c = 0x20 \<and> \<not> is_whitespace d) \<and> single_spaced (d # cs))"

lemma space_is_whitespace [simp]: "is_whitespace 32"
  by (simp add: is_whitespace_def)

lemma collapse_head:
  "collapse_whitespace True cs = c # ds \<Longrightarrow> \<not> is_whitespace c"
  by (induction cs) (auto split: if_splits)

lemma single_spaced_Cons:
  "single_spaced (c # cs) \<longleftrightarrow>
     (is_whitespace c \<longrightarrow> c = 0x20 \<and> (cs \<noteq> [] \<longrightarrow> \<not> is_whitespace (hd cs))) \<and> single_spaced cs"
  by (cases cs) auto

lemma collapse_single_spaced: "single_spaced (collapse_whitespace b cs)"
proof (induction cs arbitrary: b)
  case (Cons c cs)
  show ?case
  proof (cases "is_whitespace c \<and> \<not> b")
    case True
    have "collapse_whitespace True cs \<noteq> [] \<longrightarrow> \<not> is_whitespace (hd (collapse_whitespace True cs))"
      by (cases "collapse_whitespace True cs") (auto dest: collapse_head)
    with True Cons show ?thesis by (simp add: single_spaced_Cons)
  next
    case False
    with Cons show ?thesis by (simp add: single_spaced_Cons)
  qed
qed simp

lemma single_spaced_take: "single_spaced cs \<Longrightarrow> single_spaced (take n cs)"
  by (induction cs arbitrary: n) (auto simp: take_Cons' single_spaced_Cons)

lemma single_spaced_snoc:
  "single_spaced cs \<Longrightarrow> \<not> is_whitespace c \<Longrightarrow> single_spaced (cs @ [c])"
  by (induction cs rule: single_spaced.induct) auto

lemma ellipsis_not_whitespace [simp]: "\<not> is_whitespace ellipsis"
  by (simp add: ellipsis_def is_whitespace_def)

lemma placeholder_single_spaced: "single_spaced redactor_failed_placeholder"
  by (simp add: redactor_failed_placeholder_def is_whitespace_def)

lemma render_excerpt_single_spaced: "single_spaced (render_excerpt redactor cap body)"
  by (auto simp: render_excerpt_def truncate_cap_def placeholder_single_spaced
      collapse_single_spaced intro!: single_spaced_snoc single_spaced_take
      split: option.splits)

lemma render_excerpt_length:
  "38 \<le> cap \<Longrightarrow> length (render_excerpt redactor cap body) \<le> Suc cap"
  by (auto simp: render_excerpt_def truncate_cap_def redactor_failed_placeholder_def
      split: option.splits)

lemma redact_all_None_iff: "redact_all redactor ls = None \<longleftrightarrow> (\<exists>l \<in> set ls. redactor l = None)"
  by (induction ls) (auto split: option.splits)

lemma redact_all_cong:
  "map redactor ls = map redactor ls' \<Longrightarrow> redact_all redactor ls = redact_all redactor ls'"
proof (induction ls arbitrary: ls')
  case (Cons l ls)
  then show ?case by (cases ls') (auto split: option.splits)
qed simp

text \<open>
  Shape of the excerpt that goes into the audit log. Whatever the body and the redactor, it is
  one line (no whitespace but single blanks) of at most 241 code points.
\<close>

lemma excerpt_one_bounded_line:
  "single_spaced (render_excerpt redactor default_excerpt_cap body) \<and>
   length (render_excerpt redactor default_excerpt_cap body) \<le> 241"
  using render_excerpt_single_spaced render_excerpt_length [of default_excerpt_cap]
  by (simp add: default_excerpt_cap_def)

text \<open>
  The excerpt reveals of a body only what the redactor lets through, line by line. Two bodies
  whose lines the redactor maps to the same results have the same excerpt, also when the redactor
  fails on some line.
\<close>

lemma excerpt_noninterference:
  assumes "decode_body body = Some text" "decode_body body' = Some text'"
    and "map redactor (py_split 0x0A text) = map redactor (py_split 0x0A text')"
  shows "render_excerpt redactor cap body = render_excerpt redactor cap body'"
  using redact_all_cong [OF assms(3)] by (simp add: render_excerpt_def redact_multiline_def assms(1,2))

end
