(* ===== verification/Queue_Service.thy ===== *)
theory Queue_Service
  imports Kill_Switch Permissions Excerpt
begin

text \<open>
  The queue service (\<open>routing/service.py\<close>): \<open>send_input\<close>, the routing entry
  \<open>enqueue_route_message\<close>, and the operator actions. The world is the database, the audit writer,
  the kill switch cache and the log of tmux calls. What a request does not choose is in two
  records: the collaborators and settings of the service, and the outcomes of one call (clock,
  \<open>uuid4\<close>, lock contention, JSONL and watermark failures).

  The operator actions read the row first and run the DAO transition later; the two halves are
  separate definitions, so that other threads can run between them, and the action is their
  composition.
\<close>

subsection \<open>World and environment\<close>

record delivery_context =
  dc_container_id :: string
  dc_bench_user :: string
  dc_socket_path :: string
  dc_pane_id :: string

datatype tmux_call =
    Load_buffer delivery_context string bytes
  | Paste_buffer delivery_context string
  | Send_keys delivery_context string
  | Delete_buffer delivery_context string

text \<open>A \<open>TmuxError\<close> carries a failure reason, possibly \<open>None\<close>.\<close>

datatype tmux_result = Tmux_ok | Tmux_error "failure_reason option"

text \<open>\<open>w_tmux\<close> records every call made, with the message it was made for and its outcome.\<close>

record world =
  w_db :: db
  w_audit :: audit_state
  w_cache :: flag_cache
  w_tmux :: "(string \<times> tmux_call \<times> tmux_result) list"

record service_env =
  se_agents :: "agent list"
  se_container_active :: "string \<Rightarrow> bool"
  se_pane_resolvable :: "string \<Rightarrow> string \<Rightarrow> bool"
  se_redactor :: redactor
  se_sha256 :: "bytes \<Rightarrow> string"
  se_envelope_max_bytes :: nat
  se_max_pending :: nat

record call_env =
  ce_now :: timestamp
  ce_uuid :: string
  ce_busy :: "nat \<Rightarrow> bool"
  ce_jsonl_exc :: "string option"
  ce_watermark_exc :: "string option"

definition excerpt_str :: "redactor \<Rightarrow> bytes \<Rightarrow> string" where
  "excerpt_str redactor body =
     string_of_codepoints (render_excerpt redactor default_excerpt_cap body)"

definition agent_ident :: "agent \<Rightarrow> ident" where
  "agent_ident a = \<lparr>id_agent_id = ag_agent_id a, id_label = ag_label a, id_role = ag_role a,
                     id_capability = Some (ag_capability a)\<rparr>"

definition check_enabled :: "world \<Rightarrow> (exc + bool) \<times> world" where
  "check_enabled w =
     (case is_enabled (w_cache w, w_db w) of (r, cache) \<Rightarrow> (r, w\<lparr>w_cache := cache\<rparr>))"

text \<open>
  After the transition has committed: append the JSONL line, then read the row back.
\<close>

definition finish_transition ::
  "service_env \<Rightarrow> call_env \<Rightarrow> string \<Rightarrow> (exc + nat \<times> payload) \<times> db \<Rightarrow> world \<Rightarrow>
   (exc + queue_row) \<times> world" where
  "finish_transition se ce message_id outcome w =
     (case outcome of
        (Inl e, d) \<Rightarrow> (Inl e, w\<lparr>w_db := d\<rparr>)
      | (Inr (event_id, payload), d) \<Rightarrow>
          (case append_jsonl_then_watermark (se_max_pending se) (ce_jsonl_exc ce)
                  (ce_watermark_exc ce) event_id payload (ce_now ce) (w_audit w, d) of
             (a, d') \<Rightarrow>
               (case get_row_by_id message_id d' of
                  None \<Rightarrow> (Inl AssertionError, w\<lparr>w_db := d', w_audit := a\<rparr>)
                | Some row \<Rightarrow> (Inr row, w\<lparr>w_db := d', w_audit := a\<rparr>))))"

subsection \<open>Sending\<close>

definition enqueue_payload ::
  "string \<Rightarrow> decision \<Rightarrow> timestamp \<Rightarrow> ident \<Rightarrow> ident \<Rightarrow> string \<Rightarrow> queue_payload" where
  "enqueue_payload message_id decision ts sender target excerpt =
     \<lparr>pl_event_type = ''queue_message_enqueued'', pl_message_id = message_id, pl_from_state = None,
      pl_to_state = (if decision = None then Queued else Blocked),
      pl_reason = map_option block_reason_str decision, pl_operator = None, pl_observed_at = ts,
      pl_sender = sender, pl_target = target, pl_excerpt = excerpt\<rparr>"

definition enqueue_message ::
  "service_env \<Rightarrow> call_env \<Rightarrow> agent \<Rightarrow> string \<Rightarrow> bytes \<Rightarrow> origin \<Rightarrow> string option \<Rightarrow> nat option \<Rightarrow>
   world \<Rightarrow> (exc + queue_row) \<times> world" where
  "enqueue_message se ce sender target_input body origin route_id event_id w =
     (case resolve_target (get_agent_by_id (se_agents se)) (find_agents_by_label (se_agents se))
             target_input of
        Inl e \<Rightarrow> (Inl e, w)
      | Inr target \<Rightarrow>
          let message_id = ce_uuid ce; si = agent_ident sender; ti = agent_ident target in
          (case serialize_and_check_size message_id si ti body (se_envelope_max_bytes se) of
             Inl e \<Rightarrow> (Inl e, w)
           | Inr rendered \<Rightarrow>
               (case check_enabled w of
                  (Inl e, w1) \<Rightarrow> (Inl e, w1)
                | (Inr routing_enabled, w1) \<Rightarrow>
                    let decision = evaluate_enqueue_permissions sender target routing_enabled
                          (se_container_active se (ag_container_id target))
                          (se_pane_resolvable se (ag_container_id target) (ag_tmux_pane_id target));
                        ts = ce_now ce;
                        audit = insert_queue_transition_in_tx
                          (enqueue_payload message_id decision ts si ti
                             (excerpt_str (se_redactor se) body));
                        outcome =
                          (case decision of
                             None \<Rightarrow> insert_queued (ce_busy ce) message_id si ti
                               (ag_container_id target) (ag_tmux_pane_id target) body
                               (se_sha256 se body) (length rendered) ts audit origin route_id
                               event_id (w_db w1)
                           | Some reason \<Rightarrow> insert_blocked (ce_busy ce) message_id si ti
                               (ag_container_id target) (ag_tmux_pane_id target) body
                               (se_sha256 se body) (length rendered) ts reason audit origin
                               route_id event_id (w_db w1))
                    in finish_transition se ce message_id outcome w1)))"

definition end_of_wait :: "queue_state \<Rightarrow> bool" where
  "end_of_wait s \<longleftrightarrow> terminal s \<or> s = Blocked"

text \<open>
  \<open>_wait_for_terminal\<close> over what its iterations observe: the state of the row (\<open>None\<close> if it is
  missing) and then the monotonic clock, in milliseconds. The result is \<open>None\<close> while the
  observations given have not ended the wait.
\<close>

fun wait_for_terminal :: "(queue_state option \<times> int) list \<Rightarrow> int \<Rightarrow> bool option" where
  "wait_for_terminal [] deadline = None"
| "wait_for_terminal ((row_state, clock) # observations) deadline =
     (case row_state of
        Some s \<Rightarrow>
          if end_of_wait s then Some (terminal s)
          else if deadline - clock \<le> 0 then Some False
          else wait_for_terminal observations deadline
      | None \<Rightarrow>
          if deadline - clock \<le> 0 then Some False
          else wait_for_terminal observations deadline)"

record send_input_result =
  sr_row :: queue_row
  sr_waited_to_terminal :: bool

text \<open>
  The rest of \<open>send_input\<close> after the row has been read back. What other threads do meanwhile is
  observed: \<open>started\<close> is the monotonic clock at the start of the wait, \<open>observations\<close> what the wait
  loop sees and \<open>final_row\<close> the row re-read after it.
\<close>

definition default_send_input_wait_ms :: int where
  "default_send_input_wait_ms = 10000"

record wait_env =
  wt_started :: int
  wt_observations :: "(queue_state option \<times> int) list"
  wt_final_row :: "queue_row option"

definition send_input_wait ::
  "bool \<Rightarrow> int option \<Rightarrow> wait_env \<Rightarrow> queue_row \<Rightarrow> (exc + send_input_result) option" where
  "send_input_wait wait wait_timeout wt row =
     (if \<not> wait \<or> end_of_wait (mq_state row)
      then Some (Inr \<lparr>sr_row = row, sr_waited_to_terminal = terminal (mq_state row)\<rparr>)
      else
        let timeout = (case wait_timeout of Some t \<Rightarrow> t | None \<Rightarrow> default_send_input_wait_ms) in
        (case wait_for_terminal (wt_observations wt) (wt_started wt + timeout) of
           None \<Rightarrow> None
         | Some t \<Rightarrow>
             Some (case wt_final_row wt of
                     None \<Rightarrow> Inl AssertionError
                   | Some r \<Rightarrow> Inr \<lparr>sr_row = r, sr_waited_to_terminal = t\<rparr>)))"

definition send_input ::
  "service_env \<Rightarrow> call_env \<Rightarrow> agent \<Rightarrow> string \<Rightarrow> bytes \<Rightarrow> bool \<Rightarrow> int option \<Rightarrow> wait_env \<Rightarrow> origin \<Rightarrow>
   string option \<Rightarrow> nat option \<Rightarrow> world \<Rightarrow> (exc + send_input_result) option \<times> world" where
  "send_input se ce sender target_input body wait wait_timeout wt origin route_id event_id w =
     (case enqueue_message se ce sender target_input body origin route_id event_id w of
        (Inl e, w') \<Rightarrow> (Some (Inl e), w')
      | (Inr row, w') \<Rightarrow> (send_input_wait wait wait_timeout wt row, w'))"

definition no_wait :: wait_env where
  "no_wait = \<lparr>wt_started = 0, wt_observations = [], wt_final_row = None\<rparr>"

text \<open>With \<open>wait=False\<close> nothing of the wait is used, and the call always has a result.\<close>

definition enqueue_route_message ::
  "service_env \<Rightarrow> call_env \<Rightarrow> agent \<Rightarrow> string \<Rightarrow> bytes \<Rightarrow> string \<Rightarrow> nat \<Rightarrow> world \<Rightarrow>
   (exc + send_input_result) option \<times> world" where
  "enqueue_route_message se ce sender target_input body route_id event_id w =
     send_input se ce sender target_input body False None no_wait Route (Some route_id) (Some event_id) w"

lemma send_input_world:
  "snd (send_input se ce sender target_input body wait wait_timeout wt og route_id event_id w) =
   snd (enqueue_message se ce sender target_input body og route_id event_id w)"
  by (auto simp: send_input_def split: prod.splits sum.splits)

lemma enqueue_route_message_eq:
  "enqueue_route_message se ce sender target_input body route_id event_id w =
     (case enqueue_message se ce sender target_input body Route (Some route_id) (Some event_id) w of
        (Inl e, w') \<Rightarrow> (Some (Inl e), w')
      | (Inr row, w') \<Rightarrow>
          (Some (Inr \<lparr>sr_row = row, sr_waited_to_terminal = terminal (mq_state row)\<rparr>), w'))"
  by (auto simp: enqueue_route_message_def send_input_def send_input_wait_def
      split: prod.splits sum.splits)

subsection \<open>Operator actions\<close>

definition operator_resolvable :: "block_reason list" where
  "operator_resolvable =
     [Operator_delayed, Target_not_active, Target_pane_missing, Target_container_inactive]"

definition check_approve_applicable :: "block_reason option \<Rightarrow> world \<Rightarrow> (exc + unit) \<times> world" where
  "check_approve_applicable block_reason w =
     (case block_reason of
        None \<Rightarrow> (Inl (QueueServiceError ''approval_not_applicable''), w)
      | Some b \<Rightarrow>
          if b \<in> set operator_resolvable then (Inr (), w)
          else if b = Kill_switch_off then
            (case check_enabled w of
               (Inl e, w') \<Rightarrow> (Inl e, w')
             | (Inr True, w') \<Rightarrow> (Inr (), w')
             | (Inr False, w') \<Rightarrow> (Inl (QueueServiceError ''approval_not_applicable''), w'))
          else (Inl (QueueServiceError ''approval_not_applicable''), w))"

definition operator_payload ::
  "string \<Rightarrow> string \<Rightarrow> queue_state \<Rightarrow> queue_state \<Rightarrow> string option \<Rightarrow> string \<Rightarrow> timestamp \<Rightarrow> queue_row \<Rightarrow>
   queue_payload" where
  "operator_payload event_type message_id from_state to_state reason operator ts row =
     \<lparr>pl_event_type = event_type, pl_message_id = message_id, pl_from_state = Some from_state,
      pl_to_state = to_state, pl_reason = reason, pl_operator = Some operator, pl_observed_at = ts,
      pl_sender = mq_sender row, pl_target = mq_target row, pl_excerpt = ''''\<rparr>"

definition approve_read :: "string \<Rightarrow> world \<Rightarrow> (exc + queue_row) \<times> world" where
  "approve_read message_id w =
     (case get_row_by_id message_id (w_db w) of
        None \<Rightarrow> (Inl (QueueServiceError ''message_id_not_found''), w)
      | Some row \<Rightarrow>
          if mq_state row = Blocked then
            (case check_approve_applicable (mq_block_reason row) w of
               (Inl e, w') \<Rightarrow> (Inl e, w')
             | (Inr _, w') \<Rightarrow> (Inr row, w'))
          else (Inr row, w))"

definition approve_commit ::
  "service_env \<Rightarrow> call_env \<Rightarrow> string \<Rightarrow> string \<Rightarrow> queue_row \<Rightarrow> world \<Rightarrow> (exc + queue_row) \<times> world" where
  "approve_commit se ce message_id operator row w =
     finish_transition se ce message_id
       (transition_blocked_to_queued_approve (ce_busy ce) message_id operator (ce_now ce)
          (insert_queue_transition_in_tx
             (operator_payload ''queue_message_approved'' message_id Blocked Queued
                (map_option block_reason_str (mq_block_reason row)) operator (ce_now ce) row))
          (w_db w)) w"

definition approve ::
  "service_env \<Rightarrow> call_env \<Rightarrow> string \<Rightarrow> string \<Rightarrow> world \<Rightarrow> (exc + queue_row) \<times> world" where
  "approve se ce message_id operator w =
     (case approve_read message_id w of
        (Inl e, w') \<Rightarrow> (Inl e, w')
      | (Inr row, w') \<Rightarrow> approve_commit se ce message_id operator row w')"

definition delay_read :: "string \<Rightarrow> world \<Rightarrow> exc + queue_row" where
  "delay_read message_id w =
     (case get_row_by_id message_id (w_db w) of
        None \<Rightarrow> Inl (QueueServiceError ''message_id_not_found'')
      | Some row \<Rightarrow> Inr row)"

definition delay_commit ::
  "service_env \<Rightarrow> call_env \<Rightarrow> string \<Rightarrow> string \<Rightarrow> queue_row \<Rightarrow> world \<Rightarrow> (exc + queue_row) \<times> world" where
  "delay_commit se ce message_id operator row w =
     finish_transition se ce message_id
       (transition_queued_to_blocked_delay (ce_busy ce) message_id operator (ce_now ce)
          (insert_queue_transition_in_tx
             (operator_payload ''queue_message_delayed'' message_id Queued Blocked
                (Some ''operator_delayed'') operator (ce_now ce) row))
          (w_db w)) w"

definition delay ::
  "service_env \<Rightarrow> call_env \<Rightarrow> string \<Rightarrow> string \<Rightarrow> world \<Rightarrow> (exc + queue_row) \<times> world" where
  "delay se ce message_id operator w =
     (case delay_read message_id w of
        Inl e \<Rightarrow> (Inl e, w)
      | Inr row \<Rightarrow> delay_commit se ce message_id operator row w)"

text \<open>
  \<open>cancel\<close> does not check its read: with no row the identity dictionaries are empty and the
  callback's \<open>target["agent_id"]\<close> raises.
\<close>

definition cancel_callback ::
  "string \<Rightarrow> string \<Rightarrow> timestamp \<Rightarrow> queue_row option \<Rightarrow> (nat \<times> payload) tx" where
  "cancel_callback message_id operator ts pre_row =
     (case pre_row of
        None \<Rightarrow> tx_raise KeyError
      | Some row \<Rightarrow>
          insert_queue_transition_in_tx
            (operator_payload ''queue_message_canceled'' message_id (mq_state row) Canceled None
               operator ts row))"

definition cancel_commit ::
  "service_env \<Rightarrow> call_env \<Rightarrow> string \<Rightarrow> string \<Rightarrow> queue_row option \<Rightarrow> world \<Rightarrow>
   (exc + queue_row) \<times> world" where
  "cancel_commit se ce message_id operator pre_row w =
     finish_transition se ce message_id
       (transition_to_canceled (ce_busy ce) message_id operator (ce_now ce)
          (cancel_callback message_id operator (ce_now ce) pre_row) (w_db w)) w"

definition cancel ::
  "service_env \<Rightarrow> call_env \<Rightarrow> string \<Rightarrow> string \<Rightarrow> world \<Rightarrow> (exc + queue_row) \<times> world" where
  "cancel se ce message_id operator w =
     cancel_commit se ce message_id operator (get_row_by_id message_id (w_db w)) w"

subsection \<open>Helpers of the dispatch layer\<close>

definition resolve_target_agent_id :: "service_env \<Rightarrow> string \<Rightarrow> exc + string" where
  "resolve_target_agent_id se target_input =
     map_sum id ag_agent_id
       (resolve_target (get_agent_by_id (se_agents se)) (find_agents_by_label (se_agents se))
          target_input)"

definition read_envelope_excerpt :: "service_env \<Rightarrow> string \<Rightarrow> db \<Rightarrow> string" where
  "read_envelope_excerpt se message_id d =
     (case read_envelope_bytes message_id d of
        Inl _ \<Rightarrow> ''''
      | Inr body \<Rightarrow> excerpt_str (se_redactor se) body)"

subsection \<open>Toggling\<close>

text \<open>
  \<open>routing.enable\<close> and \<open>routing.disable\<close> of the dispatcher (\<open>socket_api/methods.py\<close>): the
  host-only gate on the caller's pane and peer credentials, the toggle with its audit row in the
  same transaction, and the JSONL line. An unreadable peer uid is \<open>-1\<close>.
\<close>

definition routing_host_only_gate :: "bool \<Rightarrow> int \<Rightarrow> int \<Rightarrow> bool \<Rightarrow> string option" where
  "routing_host_only_gate has_caller_pane peer_uid daemon_uid peer_is_host_process =
     (if has_caller_pane then Some ''routing_toggle_host_only''
      else if peer_uid = -1 then Some ''routing_toggle_host_only''
      else if peer_uid \<noteq> daemon_uid then Some ''routing_toggle_host_only''
      else if \<not> peer_is_host_process then Some ''routing_toggle_host_only''
      else None)"

definition routing_toggle ::
  "service_env \<Rightarrow> call_env \<Rightarrow> string option \<Rightarrow> string \<Rightarrow> world \<Rightarrow> (string + toggle_result) \<times> world" where
  "routing_toggle se ce gate value w =
     (case gate of
        Some code \<Rightarrow> (Inl code, w)
      | None \<Rightarrow>
          (case (if value = ''enabled''
                 then enable (ce_busy ce) host_operator_sentinel (ce_now ce)
                   (toggle_callback value host_operator_sentinel (ce_now ce)) (w_cache w, w_db w)
                 else disable (ce_busy ce) host_operator_sentinel (ce_now ce)
                   (toggle_callback value host_operator_sentinel (ce_now ce)) (w_cache w, w_db w)) of
             (Inl e, cache, d) \<Rightarrow> (Inl ''internal_error'', w\<lparr>w_cache := cache, w_db := d\<rparr>)
           | (Inr (result, None), cache, d) \<Rightarrow> (Inr result, w\<lparr>w_cache := cache, w_db := d\<rparr>)
           | (Inr (result, Some (event_id, payload)), cache, d) \<Rightarrow>
               (case append_jsonl_then_watermark (se_max_pending se) (ce_jsonl_exc ce)
                       (ce_watermark_exc ce) event_id payload (tr_last_updated_at result)
                       (w_audit w, d) of
                  (a, d') \<Rightarrow> (Inr result, w\<lparr>w_cache := cache, w_db := d', w_audit := a\<rparr>))))"

subsection \<open>The audit trail stays well-formed\<close>

definition audit_ok :: "nat \<Rightarrow> audit_state \<Rightarrow> db \<Rightarrow> bool" where
  "audit_ok n a d \<longleftrightarrow> audit_wf n (a, d) \<and> watermark_ok (a, d) \<and> events_wf d"

lemma insert_audit_event_facts:
  assumes "insert_audit_event ty ag t x d = Inr (n, d')"
  shows "n = db_next_event_id d" "db_next_event_id d' = Suc n"
    "db_events d' = db_events d @ [\<lparr>ev_event_id = n, ev_event_type = ty, ev_agent_id = ag,
       ev_observed_at = t, ev_excerpt = x, ev_jsonl_appended_at = None, ev_log = None\<rparr>]"
  using assms unfolding insert_audit_event_def
  by (auto split: if_splits elim!: events_insert_InrE)

lemma insert_queue_transition_facts:
  assumes "insert_queue_transition_in_tx pl d = Inr ((event_id, payload), d')"
  shows "event_id = db_next_event_id d" "payload = Queue_transition pl"
    "db_next_event_id d' = Suc event_id"
    "db_events d' = db_events d @ [\<lparr>ev_event_id = event_id, ev_event_type = pl_event_type pl,
       ev_agent_id = id_agent_id (pl_target pl), ev_observed_at = pl_observed_at pl,
       ev_excerpt = pl_excerpt pl, ev_jsonl_appended_at = None, ev_log = None\<rparr>]"
  using assms unfolding insert_queue_transition_in_tx_def
  by (auto split: if_splits elim!: tx_bind_InrE dest: insert_audit_event_facts)

lemma audit_ok_new_event:
  assumes "audit_ok n a d" "db_next_event_id d' = Suc (db_next_event_id d)"
    "db_events d' = db_events d @ [e]" "ev_event_id e = db_next_event_id d"
    "ev_jsonl_appended_at e = None"
  shows "audit_ok n a d'"
  using assms by (auto simp: audit_ok_def audit_wf_def watermark_ok_def events_wf_def list_all_iff
      less_Suc_eq)

lemma append_jsonl_keeps:
  assumes "append_jsonl_then_watermark n je we e p t (a, d) = (a', d')"
  shows "db_queue d' = db_queue d" "db_flag d' = db_flag d" "db_routes d' = db_routes d"
  using assms by (auto simp: append_jsonl_then_watermark_def Let_def split: option.splits)

lemma map_ids_mark_jsonl_appended:
  "map ev_event_id (db_events (mark_jsonl_appended e t d)) = map ev_event_id (db_events d)"
  by (simp add: mark_jsonl_appended_def map_key_update_where)

lemma events_wf_append:
  assumes "append_jsonl_then_watermark n je we e p t (a, d) = (a', d')" "events_wf d"
  shows "events_wf d'"
  using assms unfolding events_wf_ids
  by (auto simp: append_jsonl_then_watermark_def Let_def map_ids_mark_jsonl_appended
      split: option.splits)

lemma audit_ok_append:
  assumes "audit_ok n a d" "db_next_event_id d1 = Suc (db_next_event_id d)"
    "db_events d1 = db_events d @ [e]" "ev_event_id e = db_next_event_id d"
    "ev_jsonl_appended_at e = None"
    and run: "append_jsonl_then_watermark n je we (db_next_event_id d) p t (a, d1) = (a', d')"
  shows "audit_ok n a' d'"
proof -
  have ok1: "audit_ok n a d1" using assms(1-5) by (rule audit_ok_new_event)
  have "db_next_event_id d \<notin> jsonl_ids a" "db_next_event_id d \<notin> pj_event_id ` set (au_pending a)"
    using assms(1) by (auto simp: audit_ok_def audit_wf_def list_all_iff jsonl_ids_def)
  moreover have "db_next_event_id d < db_next_event_id d1" by (simp add: assms(2))
  ultimately show ?thesis
    using ok1 append_audit_wf [OF _ _ _ _ _ run] events_wf_append [OF run]
    by (simp add: audit_ok_def)
qed

lemma append_step_effect:
  assumes "hook_ran (insert_queue_transition_in_tx pl) (event_id, payload) d d1"
    and "append_jsonl_then_watermark n je we event_id payload t (a, d1) = (a', d')"
    and "audit_ok n a d"
  shows "audit_ok n a' d'"
proof -
  from assms(1) obtain rows where
    ins: "insert_queue_transition_in_tx pl (d\<lparr>db_queue := rows\<rparr>) = Inr ((event_id, payload), d1)"
    by (auto simp: hook_ran_def)
  note facts = insert_queue_transition_facts [OF ins]
  have id: "event_id = db_next_event_id d" using facts(1) by simp
  have next_id: "db_next_event_id d1 = Suc (db_next_event_id d)" using facts(3) id by simp
  have ev: "db_events d1 = db_events d @
      [\<lparr>ev_event_id = event_id, ev_event_type = pl_event_type pl,
        ev_agent_id = id_agent_id (pl_target pl), ev_observed_at = pl_observed_at pl,
        ev_excerpt = pl_excerpt pl, ev_jsonl_appended_at = None, ev_log = None\<rparr>]" using facts(4) by simp
  show ?thesis
    by (rule audit_ok_append [OF assms(3) next_id ev _ _ assms(2) [unfolded id]]) (simp_all add: id)
qed

text \<open>What the rest of a request does once its transition has an outcome.\<close>

definition outcome_audited :: "queue_payload \<Rightarrow> db \<Rightarrow> (exc + nat \<times> payload) \<times> db \<Rightarrow> bool" where
  "outcome_audited pl d outcome \<longleftrightarrow>
     (case outcome of
        (Inl e, d1) \<Rightarrow> d1 = d
      | (Inr p, d1) \<Rightarrow> hook_ran (insert_queue_transition_in_tx pl) p d d1)"

lemma finish_transition_effect:
  assumes "finish_transition se ce m outcome w = (res, w')"
    and "outcome_audited pl (w_db w) outcome"
  shows "db_queue (w_db w') = db_queue (snd outcome)" "w_tmux w' = w_tmux w" "w_cache w' = w_cache w"
    and "audit_ok (se_max_pending se) (w_audit w) (w_db w) \<Longrightarrow>
      audit_ok (se_max_pending se) (w_audit w') (w_db w')"
proof -
  obtain o1 d1 where o: "outcome = (o1, d1)" by fastforce
  show "db_queue (w_db w') = db_queue (snd outcome)" "w_tmux w' = w_tmux w" "w_cache w' = w_cache w"
    using assms(1)
    by (auto simp: o finish_transition_def split: sum.splits prod.splits option.splits
        dest!: append_jsonl_keeps(1))
  assume ok: "audit_ok (se_max_pending se) (w_audit w) (w_db w)"
  show "audit_ok (se_max_pending se) (w_audit w') (w_db w')"
  proof (cases o1)
    case (Inl e)
    with assms ok show ?thesis by (auto simp: o finish_transition_def outcome_audited_def)
  next
    case (Inr p)
    obtain event_id payload where p: "p = (event_id, payload)" by fastforce
    obtain a' d' where app: "append_jsonl_then_watermark (se_max_pending se) (ce_jsonl_exc ce)
        (ce_watermark_exc ce) event_id payload (ce_now ce) (w_audit w, d1) = (a', d')" by fastforce
    with assms(1) have w': "w_audit w' = a'" "w_db w' = d'"
      by (auto simp: o Inr p finish_transition_def split: option.splits)
    show ?thesis unfolding w'
      using assms(2) append_step_effect [OF _ app ok] by (auto simp: o Inr p outcome_audited_def)
  qed
qed

subsection \<open>What the requests do to the world\<close>

definition world_moves :: "nat \<Rightarrow> (queue_row \<Rightarrow> queue_row \<Rightarrow> bool) \<Rightarrow> world \<Rightarrow> world \<Rightarrow> bool" where
  "world_moves n A w w' \<longleftrightarrow>
     queue_legal A (db_queue (w_db w)) (db_queue (w_db w')) \<and> w_tmux w' = w_tmux w \<and>
     (audit_ok n (w_audit w) (w_db w) \<longrightarrow> audit_ok n (w_audit w') (w_db w'))"

lemma finish_moves:
  assumes "finish_transition se ce m outcome w = (res, w')"
    and "outcome_audited pl (w_db w) outcome"
    and "queue_legal A (db_queue (w_db w)) (db_queue (snd outcome))"
  shows "world_moves (se_max_pending se) A w w'"
  using finish_transition_effect [OF assms(1,2)] assms(3) by (simp add: world_moves_def)

lemma outcome_auditedI:
  assumes "\<And>e d1. outcome = (Inl e, d1) \<Longrightarrow> d1 = d"
    and "\<And>p d1. outcome = (Inr p, d1) \<Longrightarrow> hook_ran (insert_queue_transition_in_tx pl) p d d1"
  shows "outcome_audited pl d outcome"
  using assms by (cases outcome; cases "fst outcome") (auto simp: outcome_audited_def)

lemma check_enabled_keeps:
  assumes "check_enabled w = (r, w')"
  shows "w_db w' = w_db w" "w_audit w' = w_audit w" "w_tmux w' = w_tmux w"
  using assms by (auto simp: check_enabled_def split: prod.splits)

lemma world_moves_refl: "queue_wf (db_queue (w_db w)) \<Longrightarrow> w_db w' = w_db w \<Longrightarrow> w_audit w' = w_audit w \<Longrightarrow>
    w_tmux w' = w_tmux w \<Longrightarrow> world_moves n A w w'"
  by (simp add: world_moves_def)

lemma world_moves_start:
  assumes "world_moves n A w1 w'" "w_db w1 = w_db w" "w_audit w1 = w_audit w" "w_tmux w1 = w_tmux w"
  shows "world_moves n A w w'"
  using assms by (simp add: world_moves_def)

text \<open>The outcome of the insert of \<open>enqueue_message\<close>.\<close>

definition enqueue_outcome where
  "enqueue_outcome se ce message_id si ti target body size_bytes decision origin route_id event_id d =
     (let audit = insert_queue_transition_in_tx
            (enqueue_payload message_id decision (ce_now ce) si ti (excerpt_str (se_redactor se) body))
      in case decision of
           None \<Rightarrow> insert_queued (ce_busy ce) message_id si ti (ag_container_id target)
             (ag_tmux_pane_id target) body (se_sha256 se body) size_bytes (ce_now ce) audit origin
             route_id event_id d
         | Some reason \<Rightarrow> insert_blocked (ce_busy ce) message_id si ti (ag_container_id target)
             (ag_tmux_pane_id target) body (se_sha256 se body) size_bytes (ce_now ce) reason audit
             origin route_id event_id d)"

lemma enqueue_message_unfold:
  "enqueue_message se ce sender target_input body origin route_id event_id w =
     (case resolve_target (get_agent_by_id (se_agents se)) (find_agents_by_label (se_agents se))
             target_input of
        Inl e \<Rightarrow> (Inl e, w)
      | Inr target \<Rightarrow>
          (case serialize_and_check_size (ce_uuid ce) (agent_ident sender) (agent_ident target) body
                  (se_envelope_max_bytes se) of
             Inl e \<Rightarrow> (Inl e, w)
           | Inr rendered \<Rightarrow>
               (case check_enabled w of
                  (Inl e, w1) \<Rightarrow> (Inl e, w1)
                | (Inr routing_enabled, w1) \<Rightarrow>
                    finish_transition se ce (ce_uuid ce)
                      (enqueue_outcome se ce (ce_uuid ce) (agent_ident sender) (agent_ident target)
                         target body (length rendered)
                         (evaluate_enqueue_permissions sender target routing_enabled
                            (se_container_active se (ag_container_id target))
                            (se_pane_resolvable se (ag_container_id target)
                               (ag_tmux_pane_id target)))
                         origin route_id event_id (w_db w1)) w1)))"
  unfolding enqueue_message_def enqueue_outcome_def Let_def
  by (simp split: sum.split prod.split option.split)

lemma enqueue_outcome_audited:
  "outcome_audited (enqueue_payload m decision (ce_now ce) si ti (excerpt_str (se_redactor se) body)) d
     (enqueue_outcome se ce m si ti target body n decision og rid eid d)"
  by (rule outcome_auditedI)
     (auto simp: enqueue_outcome_def Let_def insert_queued_def insert_blocked_def
        split: option.splits dest: transition_hooks(1,2) [unfolded insert_queued_def insert_blocked_def])

lemma enqueue_outcome_legal:
  assumes "queue_wf (db_queue d)"
  shows "queue_legal A (db_queue d)
    (db_queue (snd (enqueue_outcome se ce m si ti target body n decision og rid eid d)))"
proof (cases "enqueue_outcome se ce m si ti target body n decision og rid eid d")
  case (Pair r d')
  then show ?thesis
    using queue_audit.insert_queued_legal [OF assms] queue_audit.insert_blocked_legal [OF assms]
    by (cases decision) (auto simp: enqueue_outcome_def Let_def)
qed

lemma enqueue_message_cases:
  assumes run: "enqueue_message se ce sender target_input body og rid eid w = (res, w')"
  obtains (early) e where "res = Inl e" "w_db w' = w_db w" "w_audit w' = w_audit w" "w_tmux w' = w_tmux w"
      "resolve_target (get_agent_by_id (se_agents se)) (find_agents_by_label (se_agents se)) target_input = Inl e \<or>
       (\<exists>target. serialize_and_check_size (ce_uuid ce) (agent_ident sender) (agent_ident target) body
          (se_envelope_max_bytes se) = Inl e) \<or> fst (check_enabled w) = Inl e"
  | (insert) target rendered enabled w1 decision where
      "resolve_target (get_agent_by_id (se_agents se)) (find_agents_by_label (se_agents se)) target_input = Inr target"
      "serialize_and_check_size (ce_uuid ce) (agent_ident sender) (agent_ident target) body
         (se_envelope_max_bytes se) = Inr rendered"
      "check_enabled w = (Inr enabled, w1)" "w_db w1 = w_db w" "w_audit w1 = w_audit w" "w_tmux w1 = w_tmux w"
      "decision = evaluate_enqueue_permissions sender target enabled
         (se_container_active se (ag_container_id target))
         (se_pane_resolvable se (ag_container_id target) (ag_tmux_pane_id target))"
      "finish_transition se ce (ce_uuid ce)
         (enqueue_outcome se ce (ce_uuid ce) (agent_ident sender) (agent_ident target) target body
            (length rendered) decision og rid eid (w_db w1)) w1 = (res, w')"
proof (cases "resolve_target (get_agent_by_id (se_agents se)) (find_agents_by_label (se_agents se)) target_input")
  case (Inl e)
  with run show ?thesis by (intro early [of e]) (simp_all add: enqueue_message_unfold)
next
  case target: (Inr target)
  show ?thesis
  proof (cases "serialize_and_check_size (ce_uuid ce) (agent_ident sender) (agent_ident target) body
      (se_envelope_max_bytes se)")
    case (Inl e)
    with run target show ?thesis by (intro early [of e]) (auto simp: enqueue_message_unfold)
  next
    case rendered: (Inr rendered)
    obtain en w1 where ce: "check_enabled w = (en, w1)" by fastforce
    note k = check_enabled_keeps [OF ce]
    show ?thesis
    proof (cases en)
      case (Inl e)
      with run target rendered ce k show ?thesis by (intro early [of e]) (simp_all add: enqueue_message_unfold)
    next
      case (Inr enabled)
      note fin = run [unfolded enqueue_message_unfold target sum.case rendered ce Inr prod.case]
      show ?thesis by (rule insert [OF target rendered ce [unfolded Inr] k refl fin])
    qed
  qed
qed

lemma enqueue_message_moves:
  assumes wf: "queue_wf (db_queue (w_db w))"
    and run: "enqueue_message se ce sender target_input body og rid eid w = (res, w')"
  shows "world_moves (se_max_pending se) A w w'"
  using run
proof (cases rule: enqueue_message_cases)
  case (early e)
  with wf show ?thesis by (simp add: world_moves_refl)
next
  case (insert target rendered enabled w1 decision)
  have "world_moves (se_max_pending se) A w1 w'"
    by (rule finish_moves [OF insert(8) enqueue_outcome_audited])
       (use wf insert(4) in \<open>simp add: enqueue_outcome_legal\<close>)
  then show ?thesis using insert(4-6) by (rule world_moves_start)
qed

lemma approve_commit_moves:
  assumes wf: "queue_wf (db_queue (w_db w))"
    and run: "approve_commit se ce m operator row w = (res, w')"
  shows "world_moves (se_max_pending se) (approves m) w w'"
  using run unfolding approve_commit_def
proof (rule finish_moves)
  let ?out = "transition_blocked_to_queued_approve (ce_busy ce) m operator (ce_now ce)
     (insert_queue_transition_in_tx (operator_payload ''queue_message_approved'' m Blocked Queued
        (map_option block_reason_str (mq_block_reason row)) operator (ce_now ce) row)) (w_db w)"
  show "outcome_audited (operator_payload ''queue_message_approved'' m Blocked Queued
        (map_option block_reason_str (mq_block_reason row)) operator (ce_now ce) row) (w_db w) ?out"
    by (rule outcome_auditedI)
       (auto simp: transition_blocked_to_queued_approve_def operator_transition_def
         dest: transition_hooks(5) [unfolded operator_transition_def])
  show "queue_legal (approves m) (db_queue (w_db w)) (db_queue (snd ?out))"
    using queue_audit.approve_legal [OF wf] by (cases ?out) auto
qed

lemma delay_commit_moves:
  assumes wf: "queue_wf (db_queue (w_db w))"
    and run: "delay_commit se ce m operator row w = (res, w')"
  shows "world_moves (se_max_pending se) (blocks m Operator_delayed) w w'"
  using run unfolding delay_commit_def
proof (rule finish_moves)
  let ?out = "transition_queued_to_blocked_delay (ce_busy ce) m operator (ce_now ce)
     (insert_queue_transition_in_tx (operator_payload ''queue_message_delayed'' m Queued Blocked
        (Some ''operator_delayed'') operator (ce_now ce) row)) (w_db w)"
  show "outcome_audited (operator_payload ''queue_message_delayed'' m Queued Blocked
        (Some ''operator_delayed'') operator (ce_now ce) row) (w_db w) ?out"
    by (rule outcome_auditedI)
       (auto simp: transition_queued_to_blocked_delay_def operator_transition_def
         dest: transition_hooks(5) [unfolded operator_transition_def])
  show "queue_legal (blocks m Operator_delayed) (db_queue (w_db w)) (db_queue (snd ?out))"
    using queue_audit.delay_legal [OF wf] by (cases ?out) auto
qed

interpretation cancel_audit: audit_hook "\<lambda>(m, operator, ts, pre_row). cancel_callback m operator ts pre_row"
proof unfold_locales
  show "db_queue d' = db_queue d \<and> db_flag d' = db_flag d \<and> db_routes d' = db_routes d"
    if "(case a of (m, operator, ts, pre_row) \<Rightarrow> cancel_callback m operator ts pre_row) d = Inr (p, d')"
    for a d p d'
    using that by (auto simp: cancel_callback_def split: prod.splits option.splits
        dest: queue_audit.audit_keeps)
  show "\<exists>es. db_events d' = db_events d @ es"
    if "(case a of (m, operator, ts, pre_row) \<Rightarrow> cancel_callback m operator ts pre_row) d = Inr (p, d')"
    for a d p d'
    using that by (auto simp: cancel_callback_def split: prod.splits option.splits
        dest: queue_audit.audit_appends)
qed

lemma cancel_commit_moves:
  assumes wf: "queue_wf (db_queue (w_db w))"
    and run: "cancel_commit se ce m operator pre_row w = (res, w')"
  shows "world_moves (se_max_pending se) (cancels m) w w'"
proof -
  let ?out = "transition_to_canceled (ce_busy ce) m operator (ce_now ce)
     (cancel_callback m operator (ce_now ce) pre_row) (w_db w)"
  obtain row where row: "pre_row = None \<or> pre_row = Some row" by (cases pre_row) auto
  have aud: "outcome_audited (operator_payload ''queue_message_canceled'' m (mq_state row) Canceled None
      operator (ce_now ce) row) (w_db w) ?out"
  proof (rule outcome_auditedI)
    show "d1 = w_db w" if "?out = (Inl e, d1)" for e d1
      using that by (auto simp: transition_to_canceled_def)
    show "hook_ran (insert_queue_transition_in_tx (operator_payload ''queue_message_canceled'' m
        (mq_state row) Canceled None operator (ce_now ce) row)) p (w_db w) d1"
      if "?out = (Inr p, d1)" for p d1
      using transition_hooks(6) [OF that] row by (auto simp: hook_ran_def cancel_callback_def)
  qed
  have leg: "queue_legal (cancels m) (db_queue (w_db w)) (db_queue (snd ?out))"
    using cancel_audit.cancel_legal [OF wf, of _ _ _ _ "(m, operator, ce_now ce, pre_row)"]
    by (cases ?out) auto
  show ?thesis using run unfolding cancel_commit_def by (rule finish_moves [OF _ aud leg])
qed


lemma insert_routing_toggled_facts:
  assumes "insert_routing_toggled_in_tx pl d = Inr ((event_id, payload), d')"
  shows "event_id = db_next_event_id d" "payload = Routing_toggled pl"
    "db_next_event_id d' = Suc event_id"
    "db_events d' = db_events d @ [\<lparr>ev_event_id = event_id, ev_event_type = ''routing_toggled'',
       ev_agent_id = tp_operator pl, ev_observed_at = tp_observed_at pl,
       ev_excerpt = ''routing '' @ tp_current_value pl @ '' (was '' @ tp_previous_value pl @ '')'',
       ev_jsonl_appended_at = None, ev_log = None\<rparr>]"
  using assms unfolding insert_routing_toggled_in_tx_def
  by (auto elim!: tx_bind_InrE dest: insert_audit_event_facts)

lemma set_flag_facts:
  assumes "set_flag busy v who ts (toggle_callback v2 who ts) (cache, d) = (res, cache', d')"
  shows "db_queue d' = db_queue d" "db_routes d' = db_routes d"
    and "(\<exists>e. res = Inl e) \<or> (\<exists>r. res = Inr (r, None)) \<Longrightarrow> d' = d"
    and "res = Inr (r, Some (event_id, payload)) \<Longrightarrow>
      event_id = db_next_event_id d \<and> db_next_event_id d' = Suc event_id \<and>
      (\<exists>e. db_events d' = db_events d @ [e] \<and> ev_event_id e = event_id \<and> ev_jsonl_appended_at e = None)"
proof -
  have w: "write_routing_flag busy v ts who (toggle_callback v2 who ts pr) d = (r1, d1) \<Longrightarrow>
      db_queue d1 = db_queue d \<and> db_routes d1 = db_routes d" for pr r1 d1
    using toggle_audit.write_flag_keeps [of busy v ts who] unfolding toggle_callback_def by blast
  show "db_queue d' = db_queue d" "db_routes d' = db_routes d"
    using assms w by (auto simp: set_flag_def Let_def split: sum.splits prod.splits if_splits)
  show "d' = d" if "(\<exists>e. res = Inl e) \<or> (\<exists>r. res = Inr (r, None))"
    using assms that
    by (auto simp: set_flag_def Let_def split: sum.splits prod.splits if_splits
        dest!: toggle_write_error)
  show "event_id = db_next_event_id d \<and> db_next_event_id d' = Suc event_id \<and>
      (\<exists>e. db_events d' = db_events d @ [e] \<and> ev_event_id e = event_id \<and> ev_jsonl_appended_at e = None)"
    if r: "res = Inr (r, Some (event_id, payload))"
  proof -
    from assms r obtain pr where
      "write_routing_flag busy v ts who (toggle_callback v2 who ts pr) d = (Inr (event_id, payload), d')"
      by (auto simp: set_flag_def Let_def split: sum.splits prod.splits if_splits)
    then obtain d1 where "toggle_callback v2 who ts pr d1 = Inr ((event_id, payload), d')"
      "db_next_event_id d1 = db_next_event_id d" "db_events d1 = db_events d"
      by (auto simp: write_routing_flag_def split: if_splits dest!: locked_tx_ok)
    then show ?thesis
      unfolding toggle_callback_def by (auto dest: insert_routing_toggled_facts)
  qed
qed

lemma routing_toggle_moves:
  assumes wf: "queue_wf (db_queue (w_db w))"
    and run: "routing_toggle se ce gate value w = (res, w')"
  shows "world_moves (se_max_pending se) A w w'"
proof (cases gate)
  case (Some code)
  with run wf show ?thesis by (simp add: routing_toggle_def world_moves_refl)
next
  case None
  obtain r cache d where
    set: "(if value = ''enabled''
       then set_flag (ce_busy ce) ''enabled'' host_operator_sentinel (ce_now ce)
         (toggle_callback value host_operator_sentinel (ce_now ce)) (w_cache w, w_db w)
       else set_flag (ce_busy ce) ''disabled'' host_operator_sentinel (ce_now ce)
         (toggle_callback value host_operator_sentinel (ce_now ce)) (w_cache w, w_db w)) = (r, cache, d)"
    by (metis prod_cases3)
  then obtain v where
    v: "set_flag (ce_busy ce) v host_operator_sentinel (ce_now ce)
       (toggle_callback value host_operator_sentinel (ce_now ce)) (w_cache w, w_db w) = (r, cache, d)"
    by (auto split: if_splits)
  note facts = set_flag_facts [OF v]
  note run = run [unfolded routing_toggle_def enable_def disable_def None option.case set]
  consider (err) e where "r = Inl e" | (same) t where "r = Inr (t, None)"
    | (new) t e p where "r = Inr (t, Some (e, p))"
    by (metis old.prod.exhaust option.exhaust sum.exhaust)
  then show ?thesis
  proof cases
    case err
    with run facts(3) wf show ?thesis by (auto intro!: world_moves_refl)
  next
    case same
    with run facts(3) wf show ?thesis by (auto intro!: world_moves_refl)
  next
    case new
    note f = facts(4) [OF new]
    obtain a' d' where app: "append_jsonl_then_watermark (se_max_pending se) (ce_jsonl_exc ce)
        (ce_watermark_exc ce) e p (tr_last_updated_at t) (w_audit w, d) = (a', d')" by fastforce
    with run new have w': "w' = w\<lparr>w_cache := cache, w_db := d', w_audit := a'\<rparr>" by auto
    have "audit_ok (se_max_pending se) a' d'" if "audit_ok (se_max_pending se) (w_audit w) (w_db w)"
      using f app audit_ok_append [OF that] by auto
    moreover have "db_queue d' = db_queue (w_db w)"
      using append_jsonl_keeps(1) [OF app] facts(1) by simp
    ultimately show ?thesis using wf by (simp add: w' world_moves_def)
  qed
qed

subsection \<open>The row a send creates\<close>

lemma enqueue_outcome_success:
  assumes "enqueue_outcome se ce m si ti target body n decision og rid eid d = (Inr p, d')"
  defines "r \<equiv> new_queue_row m (if decision = None then Queued else Blocked) decision si ti
      (ag_container_id target) (ag_tmux_pane_id target) body (se_sha256 se body) n (ce_now ce) og rid eid"
  shows "db_queue d' = db_queue d @ [r]" "m \<notin> mq_message_id ` set (db_queue d)"
    "map ev_event_type (db_events d') = map ev_event_type (db_events d) @ [''queue_message_enqueued'']"
proof -
  let ?cb = "insert_queue_transition_in_tx
    (enqueue_payload m decision (ce_now ce) si ti (excerpt_str (se_redactor se) body))"
  have "insert_row_tx r ?cb d = Inr (p, d')"
    using assms(1) unfolding r_def enqueue_outcome_def insert_queued_def insert_blocked_def
    by (cases decision) (auto simp: Let_def)
  then have ins: "m \<notin> mq_message_id ` set (db_queue d)"
    "?cb (d\<lparr>db_queue := db_queue d @ [r]\<rparr>) = Inr (p, d')"
    by (auto simp: insert_row_tx_def r_def new_queue_row_def elim!: tx_bind_InrE mq_insert_InrE)
  show "m \<notin> mq_message_id ` set (db_queue d)" by (rule ins(1))
  show "db_queue d' = db_queue d @ [r]" using queue_audit.audit_keeps [OF ins(2)] by simp
  obtain event_id payload where "p = (event_id, payload)" by fastforce
  from insert_queue_transition_facts(4) [OF ins(2) [unfolded this]]
  show "map ev_event_type (db_events d') = map ev_event_type (db_events d) @ [''queue_message_enqueued'']"
    by (simp add: enqueue_payload_def)
qed

lemma enqueue_outcome_error:
  "enqueue_outcome se ce m si ti target body n decision og rid eid d = (Inl e, d') \<Longrightarrow> d' = d"
  by (cases decision) (auto simp: enqueue_outcome_def Let_def insert_queued_def insert_blocked_def)

lemma append_event_types:
  assumes "append_jsonl_then_watermark n je we e p t (a, d) = (a', d')"
  shows "map ev_event_type (db_events d') = map ev_event_type (db_events d)"
  using assms
  by (auto simp: append_jsonl_then_watermark_def Let_def mark_jsonl_appended_def map_key_update_where
      split: option.splits)

lemma finish_enqueue:
  assumes fin: "finish_transition se ce m (enqueue_outcome se ce m si ti target body n decision og rid eid (w_db w)) w = (res, w')"
  defines "r \<equiv> new_queue_row m (if decision = None then Queued else Blocked) decision si ti
      (ag_container_id target) (ag_tmux_pane_id target) body (se_sha256 se body) n (ce_now ce) og rid eid"
  shows "case res of
     Inl e \<Rightarrow> w_db w' = w_db w
   | Inr row \<Rightarrow> row = r \<and> db_queue (w_db w') = db_queue (w_db w) @ [r] \<and>
       map ev_event_type (db_events (w_db w')) =
         map ev_event_type (db_events (w_db w)) @ [''queue_message_enqueued'']"
proof (cases "enqueue_outcome se ce m si ti target body n decision og rid eid (w_db w)")
  case (Pair out d1)
  show ?thesis
  proof (cases out)
    case (Inl e)
    then show ?thesis using fin enqueue_outcome_error [OF Pair [unfolded Inl]]
      by (auto simp: Pair finish_transition_def)
  next
    case (Inr p)
    obtain event_id payload where p: "p = (event_id, payload)" by fastforce
    obtain a' d' where app: "append_jsonl_then_watermark (se_max_pending se) (ce_jsonl_exc ce)
        (ce_watermark_exc ce) event_id payload (ce_now ce) (w_audit w, d1) = (a', d')" by fastforce
    note s = enqueue_outcome_success [OF Pair [unfolded Inr], folded r_def]
    have q: "db_queue d' = db_queue (w_db w) @ [r]" using s(1) append_jsonl_keeps(1) [OF app] by simp
    have "get_row_by_id m d' = Some r"
      using s(2) lookup_row_None_iff [of mq_message_id m "db_queue (w_db w)"]
      by (simp add: get_row_by_id_def mq_select_def q lookup_row_append r_def new_queue_row_def)
    then show ?thesis
      using fin q s(3) append_event_types [OF app]
      by (auto simp: Pair Inr p app finish_transition_def)
  qed
qed

text \<open>
  C31: what a send does. If it raises, the database is unchanged. If it returns, exactly one row has
  been appended and is the row returned: it carries the new id, the sender's and the resolved
  target's identities, the target's container and pane, the body unchanged with the size of its
  rendered envelope, and it is queued if the permission gate allows the message and blocked with
  the gate's reason otherwise; and exactly one \<open>queue_message_enqueued\<close> event has been recorded.
\<close>

theorem enqueue_creates_one_row:
  assumes "enqueue_message se ce sender target_input body og rid eid w = (res, w')"
  shows "case res of
     Inl e \<Rightarrow> w_db w' = w_db w
   | Inr row \<Rightarrow> \<exists>target enabled rendered.
       resolve_target (get_agent_by_id (se_agents se)) (find_agents_by_label (se_agents se))
         target_input = Inr target \<and>
       fst (check_enabled w) = Inr enabled \<and>
       serialize_and_check_size (ce_uuid ce) (agent_ident sender) (agent_ident target) body
         (se_envelope_max_bytes se) = Inr rendered \<and>
       (let decision = evaluate_enqueue_permissions sender target enabled
              (se_container_active se (ag_container_id target))
              (se_pane_resolvable se (ag_container_id target) (ag_tmux_pane_id target))
        in row = new_queue_row (ce_uuid ce) (if decision = None then Queued else Blocked) decision
             (agent_ident sender) (agent_ident target) (ag_container_id target)
             (ag_tmux_pane_id target) body (se_sha256 se body) (length rendered) (ce_now ce) og rid eid) \<and>
       db_queue (w_db w') = db_queue (w_db w) @ [row] \<and>
       map ev_event_type (db_events (w_db w')) =
         map ev_event_type (db_events (w_db w)) @ [''queue_message_enqueued'']"
  using assms
proof (cases rule: enqueue_message_cases)
  case (early e)
  then show ?thesis by simp
next
  case (insert target rendered enabled w1 decision)
  from finish_enqueue [OF insert(8)] insert show ?thesis
    by (cases res) (simp_all add: Let_def)
qed

text \<open>
  The wait of \<open>send_input\<close>. The loop ends at the first observation in which the row has settled
  (delivered, failed, canceled or blocked) or the deadline has passed, and answers whether the row
  was in a terminal state there; so it ends as soon as any observation is past the deadline.
\<close>

lemma wait_ends_at_first_settled:
  "wait_for_terminal observations deadline =
     map_option (\<lambda>(s, clock). s \<in> {Some Delivered, Some Failed, Some Canceled})
       (find (\<lambda>(s, clock). s \<in> {Some Delivered, Some Failed, Some Canceled, Some Blocked} \<or> deadline \<le> clock)
          observations)"
proof (induction observations)
  case (Cons x observations)
  obtain s clock where x: "x = (s, clock)" by fastforce
  show ?case
    using Cons by (cases s) (auto simp: x end_of_wait_def terminal_iff)
qed simp

subsection \<open>Routed messages\<close>

lemma insert_queue_transition_total:
  "pl_event_type pl \<in> set queue_audit_event_types \<Longrightarrow> py_startswith (pl_event_type pl) ''queue_message_'' \<Longrightarrow>
   \<exists>x. insert_queue_transition_in_tx pl d = Inr x"
  by (auto simp: insert_queue_transition_in_tx_def insert_audit_event_def tx_bind_def events_insert_def
      event_row_checks_def Let_def)

lemma enqueue_payload_recorded: "\<exists>x. insert_queue_transition_in_tx (enqueue_payload m dec t si ti x') d = Inr x"
  by (rule insert_queue_transition_total)
     (simp_all add: enqueue_payload_def queue_audit_event_types_def py_startswith_def)

definition routed :: "string \<Rightarrow> nat \<Rightarrow> queue_row \<Rightarrow> bool" where
  "routed route_id event_id r \<longleftrightarrow>
     mq_origin r = Route \<and> mq_route_id r = Some route_id \<and> mq_event_id r = Some event_id"

lemma new_row_checks:
  "0 < n \<Longrightarrow> queue_row_checks (new_queue_row m (if dec = None then Queued else Blocked) dec si ti c p b h n t og rid eid)"
  by (auto simp: queue_row_checks_def new_queue_row_def)

lemma enqueue_outcome_eq:
  fixes m si ti target body se n ce og rid eid dec
  defines "r \<equiv> new_queue_row m (if dec = None then Queued else Blocked) dec si ti
      (ag_container_id target) (ag_tmux_pane_id target) body (se_sha256 se body) n (ce_now ce) og rid eid"
  assumes "0 < n"
  shows "\<exists>p d2. db_routes d2 = db_routes d \<and> enqueue_outcome se ce m si ti target body n dec og rid eid d =
    (if all_busy (ce_busy ce) then (Inl SqliteLockConflict, d)
     else if list_all (\<lambda>r'. mq_message_id r' \<noteq> m \<and> \<not> same_route_event r r') (db_queue d)
     then (Inr p, d2) else (Inl IntegrityError, d))"
proof -
  let ?cb = "insert_queue_transition_in_tx
    (enqueue_payload m dec (ce_now ce) si ti (excerpt_str (se_redactor se) body))"
  let ?d = "d\<lparr>db_queue := db_queue d @ [r]\<rparr>"
  have eq: "enqueue_outcome se ce m si ti target body n dec og rid eid d =
      locked_tx (ce_busy ce) (insert_row_tx r ?cb) d"
    unfolding r_def enqueue_outcome_def insert_queued_def insert_blocked_def
    by (cases dec) (auto simp: Let_def)
  obtain p d2 where cb: "?cb ?d = Inr (p, d2)" using enqueue_payload_recorded by fastforce
  have id: "mq_message_id r = m" by (simp add: r_def new_queue_row_def)
  have "queue_row_checks r" unfolding r_def by (rule new_row_checks [OF assms(2)])
  then have body: "insert_row_tx r ?cb d =
     (if list_all (\<lambda>r'. mq_message_id r' \<noteq> m \<and> \<not> same_route_event r r') (db_queue d)
      then Inr (p, d2) else Inl IntegrityError)"
    using cb by (simp add: insert_row_tx_def mq_insert_def tx_bind_def id)
  have "db_routes d2 = db_routes d"
    using cb by (auto simp: insert_queue_transition_in_tx_def insert_audit_event_def split: if_splits
        elim!: tx_bind_InrE events_insert_InrE)
  moreover have "locked_tx (ce_busy ce) (insert_row_tx r ?cb) d =
    (if all_busy (ce_busy ce) then (Inl SqliteLockConflict, d)
     else case insert_row_tx r ?cb d of Inl e \<Rightarrow> (Inl e, d) | Inr (r, d') \<Rightarrow> (Inr r, d'))"
    by (rule locked_tx_eq) (auto simp: body split: if_splits)
  ultimately show ?thesis unfolding eq body by (intro exI [of _ p] exI [of _ d2]) auto
qed

lemma finish_transition_routes:
  assumes "finish_transition se ce m outcome w = (res, w')"
  shows "db_routes (w_db w') = db_routes (snd outcome)"
  using assms by (auto simp: finish_transition_def split: sum.splits prod.splits option.splits
      dest!: append_jsonl_keeps(3))

lemma early_enqueue_error:
  assumes "resolve_target (get_agent_by_id (se_agents se)) (find_agents_by_label (se_agents se)) target_input = Inl e \<or>
       (\<exists>target. serialize_and_check_size (ce_uuid ce) (agent_ident sender) (agent_ident target) body
          (se_envelope_max_bytes se) = Inl e) \<or> fst (check_enabled w) = Inl e"
  shows "e \<noteq> IntegrityError"
proof -
  have "e \<noteq> IntegrityError" if "resolve_target (get_agent_by_id (se_agents se)) (find_agents_by_label (se_agents se)) target_input = Inl e"
    using registry.resolve_error [OF that] by auto
  moreover have "e \<noteq> IntegrityError" if "fst (check_enabled w) = Inl e"
    using that by (auto simp: check_enabled_def is_enabled_def read_routing_flag_def split: option.splits prod.splits)
  ultimately show ?thesis using assms by (auto dest!: serialize_error_codes)
qed

lemma routed_new_row:
  "same_route_event (new_queue_row m st dec si ti c p b h n t Route (Some i) (Some e)) r' = routed i e r'"
  by (auto simp: same_route_event_def new_queue_row_def routed_def)

lemma enqueue_route_effect:
  assumes run: "enqueue_message se ce sender target_input body Route (Some i) (Some e) w = (res, w')"
  shows "db_routes (w_db w') = db_routes (w_db w)"
    and "res = Inl x \<Longrightarrow> w_db w' = w_db w"
    and "res = Inr row \<Longrightarrow> db_queue (w_db w') = db_queue (w_db w) @ [row] \<and> routed i e row \<and>
      list_all (\<lambda>r. \<not> routed i e r) (db_queue (w_db w))"
    and "res = Inl IntegrityError \<Longrightarrow> ce_uuid ce \<in> mq_message_id ` set (db_queue (w_db w)) \<or>
      list_ex (routed i e) (db_queue (w_db w))"
proof -
  have "db_routes (w_db w') = db_routes (w_db w) \<and> (res = Inl x \<longrightarrow> w_db w' = w_db w) \<and>
    (res = Inr row \<longrightarrow> db_queue (w_db w') = db_queue (w_db w) @ [row] \<and> routed i e row \<and>
      list_all (\<lambda>r. \<not> routed i e r) (db_queue (w_db w))) \<and>
    (res = Inl IntegrityError \<longrightarrow> ce_uuid ce \<in> mq_message_id ` set (db_queue (w_db w)) \<or>
      list_ex (routed i e) (db_queue (w_db w)))"
    using run
  proof (cases rule: enqueue_message_cases)
    case (early err)
    then show ?thesis using early_enqueue_error [OF early(5)] by simp
  next
    case (insert target rendered enabled w1 decision)
    let ?out = "enqueue_outcome se ce (ce_uuid ce) (agent_ident sender) (agent_ident target) target body
            (length rendered) decision Route (Some i) (Some e) (w_db w1)"
    have pos: "0 < length rendered"
      using serialize_InrD(1) [OF insert(2)] render_headers_not_Nil by (auto simp: render_envelope_def)
    obtain p d2 where out: "db_routes d2 = db_routes (w_db w1)" "?out =
      (if all_busy (ce_busy ce) then (Inl SqliteLockConflict, w_db w1)
       else if list_all (\<lambda>r'. mq_message_id r' \<noteq> ce_uuid ce \<and> \<not> routed i e r') (db_queue (w_db w1))
       then (Inr p, d2) else (Inl IntegrityError, w_db w1))"
      using enqueue_outcome_eq [OF pos, of "w_db w1" se ce "ce_uuid ce" "agent_ident sender" "agent_ident target"
          target body decision Route "Some i" "Some e"] unfolding routed_new_row by blast
    have routes: "db_routes (w_db w') = db_routes (w_db w)"
      using finish_transition_routes [OF insert(8)] out insert(4) by (auto split: if_splits)
    show ?thesis
    proof (cases res)
      case (Inl err)
      then have "w_db w' = w_db w" using finish_enqueue [OF insert(8)] insert(4) by simp
      moreover have "ce_uuid ce \<in> mq_message_id ` set (db_queue (w_db w)) \<or> list_ex (routed i e) (db_queue (w_db w))"
        if "err = IntegrityError"
      proof (rule ccontr)
        assume "\<not> ?thesis"
        then have "list_all (\<lambda>r'. mq_message_id r' \<noteq> ce_uuid ce \<and> \<not> routed i e r') (db_queue (w_db w1))"
          by (auto simp: list_all_iff list_ex_iff insert(4) intro: rev_image_eqI)
        then have "fst ?out \<noteq> Inl IntegrityError" using out(2) by auto
        then show False using insert(8) that Inl
          by (auto simp: finish_transition_def split: prod.splits sum.splits option.splits)
      qed
      ultimately show ?thesis using routes Inl by simp
    next
      case (Inr r)
      have "fst ?out \<noteq> Inl y" for y
        using insert(8) Inr by (auto simp: finish_transition_def split: prod.splits sum.splits option.splits)
      then have "list_all (\<lambda>r. \<not> routed i e r) (db_queue (w_db w))"
        using out(2) insert(4) by (auto simp: list_all_iff split: if_splits)
      then show ?thesis using finish_enqueue [OF insert(8)] Inr insert(4) routes
        by (auto simp: new_queue_row_def routed_def)
    qed
  qed
  then show "db_routes (w_db w') = db_routes (w_db w)" "res = Inl x \<Longrightarrow> w_db w' = w_db w"
    "res = Inr row \<Longrightarrow> db_queue (w_db w') = db_queue (w_db w) @ [row] \<and> routed i e row \<and>
      list_all (\<lambda>r. \<not> routed i e r) (db_queue (w_db w))"
    "res = Inl IntegrityError \<Longrightarrow> ce_uuid ce \<in> mq_message_id ` set (db_queue (w_db w)) \<or>
      list_ex (routed i e) (db_queue (w_db w))" by blast+
qed

text \<open>The ids of the events of one type, in the order of the table.\<close>

definition event_ids :: "string \<Rightarrow> db \<Rightarrow> nat list" where
  "event_ids ty d = map ev_event_id (filter (\<lambda>e. ev_event_type e = ty) (db_events d))"

lemma append_jsonl_event_ids:
  assumes "append_jsonl_then_watermark n je we e p t (a, d) = (a', d')"
  shows "event_ids ty d' = event_ids ty d"
proof -
  have "map ev_event_id (filter (\<lambda>e. ev_event_type e = ty) (update_where q (\<lambda>e. e\<lparr>ev_jsonl_appended_at := x\<rparr>) es)) =
      map ev_event_id (filter (\<lambda>e. ev_event_type e = ty) es)" for q x es
    by (induction es) auto
  then show ?thesis using assms
    by (auto simp: append_jsonl_then_watermark_def Let_def mark_jsonl_appended_def event_ids_def split: option.splits)
qed

lemma enqueue_outcome_event_ids:
  assumes "enqueue_outcome se ce m si ti target body n decision og rid eid d = (res, d')"
    "ty \<noteq> ''queue_message_enqueued''"
  shows "event_ids ty d' = event_ids ty d"
proof (cases res)
  case (Inl e)
  then show ?thesis using enqueue_outcome_error assms(1) by blast
next
  case (Inr p)
  obtain event_id payload where p: "p = (event_id, payload)" by fastforce
  have "outcome_audited (enqueue_payload m decision (ce_now ce) si ti (excerpt_str (se_redactor se) body)) d (res, d')"
    using enqueue_outcome_audited [of m decision ce si ti se body d target n og rid eid] assms(1) by simp
  then have "hook_ran (insert_queue_transition_in_tx
      (enqueue_payload m decision (ce_now ce) si ti (excerpt_str (se_redactor se) body))) (event_id, payload) d d'"
    by (simp add: outcome_audited_def Inr p)
  then obtain q where "insert_queue_transition_in_tx
      (enqueue_payload m decision (ce_now ce) si ti (excerpt_str (se_redactor se) body)) (d\<lparr>db_queue := q\<rparr>) =
      Inr ((event_id, payload), d')" by (auto simp: hook_ran_def)
  from insert_queue_transition_facts(4) [OF this] assms(2) show ?thesis
    by (simp add: event_ids_def enqueue_payload_def)
qed

lemma enqueue_message_event_ids:
  assumes "enqueue_message se ce sender target_input body og rid eid w = (res, w')"
    "ty \<noteq> ''queue_message_enqueued''"
  shows "event_ids ty (w_db w') = event_ids ty (w_db w)"
  using assms(1)
proof (cases rule: enqueue_message_cases)
  case (insert target rendered enabled w1 decision)
  obtain out d1 where out: "enqueue_outcome se ce (ce_uuid ce) (agent_ident sender) (agent_ident target) target body
            (length rendered) decision og rid eid (w_db w1) = (out, d1)" by fastforce
  have "event_ids ty (w_db w') = event_ids ty d1"
    using insert(8) unfolding out finish_transition_def
    by (auto split: sum.splits prod.splits option.splits dest!: append_jsonl_event_ids [where ty = ty])
  then show ?thesis using enqueue_outcome_event_ids [OF out assms(2)] insert(4) by simp
qed simp

end
