(* ===== verification/Delivery.thy ===== *)
theory Delivery
  imports Queue_Service
begin

text \<open>
  The delivery worker (\<open>routing/delivery.py\<close>) and its context resolver
  (\<open>routing/daemon_adapters.py\<close>). Each segment of \<open>_deliver_one\<close> between two points where other
  threads can run is one function on the world and the worker's program counter; \<open>deliver_one\<close>
  runs them in source order, and \<open>dw_step\<close> is the same segments as a step relation.
\<close>

subsection \<open>Resolving the delivery context\<close>

text \<open>The active container's configured user and the active pane's socket, from the tables.\<close>

record resolver_env =
  re_config_user :: "string \<Rightarrow> string option option"
  re_socket_path :: "string \<Rightarrow> string \<Rightarrow> string option"

definition resolve_context :: "resolver_env \<Rightarrow> queue_row \<Rightarrow> exc + delivery_context" where
  "resolve_context re row =
     (case re_config_user re (mq_target_container_id row) of
        None \<Rightarrow> Inl RuntimeError
      | Some config_user \<Rightarrow>
          let bench_user = (case config_user of
                              None \<Rightarrow> ''root''
                            | Some u \<Rightarrow> if u = '''' then ''root'' else u) in
          (case re_socket_path re (mq_target_container_id row) (mq_target_pane_id row) of
             None \<Rightarrow> Inl RuntimeError
           | Some socket_path \<Rightarrow>
               Inr \<lparr>dc_container_id = mq_target_container_id row, dc_bench_user = bench_user,
                    dc_socket_path = socket_path, dc_pane_id = mq_target_pane_id row\<rparr>))"

subsection \<open>Transition helpers\<close>

definition worker_payload ::
  "string \<Rightarrow> queue_row \<Rightarrow> queue_state \<Rightarrow> string option \<Rightarrow> timestamp \<Rightarrow> string \<Rightarrow> queue_payload" where
  "worker_payload event_type row to_state reason ts excerpt =
     \<lparr>pl_event_type = event_type, pl_message_id = mq_message_id row, pl_from_state = Some Queued,
      pl_to_state = to_state, pl_reason = reason, pl_operator = None, pl_observed_at = ts,
      pl_sender = mq_sender row, pl_target = mq_target row, pl_excerpt = excerpt\<rparr>"

text \<open>
  The helpers swallow \<open>SqliteLockConflict\<close>; any other exception propagates to the loop, which logs
  it. The JSONL line is appended after the commit.
\<close>

definition append_outcome ::
  "service_env \<Rightarrow> call_env \<Rightarrow> (exc + nat \<times> payload) \<times> db \<Rightarrow> world \<Rightarrow> (exc + unit) \<times> world" where
  "append_outcome se ce outcome w =
     (case outcome of
        (Inl e, d) \<Rightarrow> (if e = SqliteLockConflict then Inr () else Inl e, w\<lparr>w_db := d\<rparr>)
      | (Inr (event_id, payload), d) \<Rightarrow>
          (case append_jsonl_then_watermark (se_max_pending se) (ce_jsonl_exc ce)
                  (ce_watermark_exc ce) event_id payload (ce_now ce) (w_audit w, d) of
             (a, d') \<Rightarrow> (Inr (), w\<lparr>w_db := d', w_audit := a\<rparr>)))"

definition transition_to_blocked_re_check ::
  "service_env \<Rightarrow> call_env \<Rightarrow> queue_row \<Rightarrow> block_reason \<Rightarrow> world \<Rightarrow> (exc + unit) \<times> world" where
  "transition_to_blocked_re_check se ce row block_reason w =
     append_outcome se ce
       (transition_queued_to_blocked_re_check (ce_busy ce) (mq_message_id row) block_reason (ce_now ce)
          (insert_queue_transition_in_tx
             (worker_payload ''queue_message_blocked'' row Blocked
                (Some (block_reason_str block_reason)) (ce_now ce) ''''))
          (w_db w)) w"

definition transition_to_failed ::
  "service_env \<Rightarrow> call_env \<Rightarrow> queue_row \<Rightarrow> failure_reason \<Rightarrow> world \<Rightarrow> (exc + unit) \<times> world" where
  "transition_to_failed se ce row failure_reason w =
     append_outcome se ce
       (transition_queued_to_failed (ce_busy ce) (mq_message_id row) failure_reason (ce_now ce)
          (insert_queue_transition_in_tx
             (worker_payload ''queue_message_failed'' row Failed
                (Some (failure_reason_str failure_reason)) (ce_now ce) ''''))
          (w_db w)) w"

subsection \<open>The segments of \<open>_deliver_one\<close>\<close>

datatype worker_pc =
    Idle
  | Picked queue_row
  | Block queue_row block_reason
  | Ready queue_row delivery_context
  | Stamped queue_row delivery_context bytes
  | Loaded queue_row delivery_context bytes
  | Pasted queue_row delivery_context bytes
  | Submitted queue_row delivery_context bytes
  | Cleanup queue_row delivery_context failure_reason
  | Failing queue_row failure_reason
  | Committing queue_row bytes

text \<open>\<open>pick_raises\<close>: the read of the queue fails, which the loop logs before its next iteration.\<close>

definition pick_row :: "bool \<Rightarrow> world \<Rightarrow> (exc + worker_pc) \<times> world" where
  "pick_row pick_raises w =
     (case check_enabled w of
        (Inl e, w') \<Rightarrow> (Inl e, w')
      | (Inr enabled, w') \<Rightarrow>
          if \<not> enabled \<or> pick_raises then (Inr Idle, w')
          else (case pick_next_ready_row (w_db w') of
                  None \<Rightarrow> (Inr Idle, w')
                | Some row \<Rightarrow> (Inr (Picked row), w')))"

definition recheck_row ::
  "service_env \<Rightarrow> resolver_env \<Rightarrow> queue_row \<Rightarrow> world \<Rightarrow> (exc + worker_pc) \<times> world" where
  "recheck_row se re row w =
     (case get_agent_by_id (se_agents se) (id_agent_id (mq_target row)) of
        None \<Rightarrow> (Inr (Block row Target_not_active), w)
      | Some target \<Rightarrow>
          (case check_enabled w of
             (Inl e, w') \<Rightarrow> (Inl e, w')
           | (Inr routing_enabled, w') \<Rightarrow>
               (case recheck_target_only target routing_enabled
                       (se_container_active se (mq_target_container_id row))
                       (se_pane_resolvable se (mq_target_container_id row) (mq_target_pane_id row)) of
                  Some reason \<Rightarrow> (Inr (Block row reason), w')
                | None \<Rightarrow>
                    (case resolve_context re row of
                       Inl _ \<Rightarrow> (Inr (Block row Target_pane_missing), w')
                     | Inr ctx \<Rightarrow> (Inr (Ready row ctx), w')))))"

text \<open>The stamp, and the read of the persisted body before the first tmux call.\<close>

definition stamp_row ::
  "(nat \<Rightarrow> bool) \<Rightarrow> timestamp \<Rightarrow> queue_row \<Rightarrow> delivery_context \<Rightarrow> world \<Rightarrow> (exc + worker_pc) \<times> world" where
  "stamp_row busy ts row ctx w =
     (case stamp_delivery_attempt_started busy (mq_message_id row) ts (w_db w) of
        (Inl e, d) \<Rightarrow> (if e = SqliteLockConflict then Inr Idle else Inl e, w\<lparr>w_db := d\<rparr>)
      | (Inr _, d) \<Rightarrow>
          (case read_envelope_bytes (mq_message_id row) d of
             Inl e \<Rightarrow> (Inl e, w\<lparr>w_db := d\<rparr>)
           | Inr body \<Rightarrow> (Inr (Stamped row ctx body), w\<lparr>w_db := d\<rparr>)))"

definition buffer_name :: "queue_row \<Rightarrow> string" where
  "buffer_name row = ''agenttower-'' @ mq_message_id row"

definition log_tmux :: "queue_row \<Rightarrow> tmux_call \<Rightarrow> tmux_result \<Rightarrow> world \<Rightarrow> world" where
  "log_tmux row c r w = w\<lparr>w_tmux := w_tmux w @ [(mq_message_id row, c, r)]\<rparr>"

definition tmux_failure_reason :: "failure_reason option \<Rightarrow> failure_reason" where
  "tmux_failure_reason reason = (case reason of None \<Rightarrow> Tmux_paste_failed | Some r \<Rightarrow> r)"

definition load_row :: "queue_row \<Rightarrow> delivery_context \<Rightarrow> bytes \<Rightarrow> tmux_result \<Rightarrow> world \<Rightarrow> worker_pc \<times> world" where
  "load_row row ctx body res w =
     (case res of
        Tmux_ok \<Rightarrow> Loaded row ctx body
      | Tmux_error reason \<Rightarrow> Failing row (tmux_failure_reason reason),
      log_tmux row (Load_buffer ctx (buffer_name row) body) res w)"

definition paste_row :: "queue_row \<Rightarrow> delivery_context \<Rightarrow> bytes \<Rightarrow> tmux_result \<Rightarrow> world \<Rightarrow> worker_pc \<times> world" where
  "paste_row row ctx body res w =
     (case res of
        Tmux_ok \<Rightarrow> Pasted row ctx body
      | Tmux_error reason \<Rightarrow> Cleanup row ctx (tmux_failure_reason reason),
      log_tmux row (Paste_buffer ctx (buffer_name row)) res w)"

definition submit_row :: "queue_row \<Rightarrow> delivery_context \<Rightarrow> bytes \<Rightarrow> tmux_result \<Rightarrow> world \<Rightarrow> worker_pc \<times> world" where
  "submit_row row ctx body res w =
     (case res of
        Tmux_ok \<Rightarrow> Submitted row ctx body
      | Tmux_error reason \<Rightarrow> Cleanup row ctx (tmux_failure_reason reason),
      log_tmux row (Send_keys ctx ''Enter'') res w)"

text \<open>\<open>delete_buffer\<close>, after a failure and after success: its own failure is only logged.\<close>

definition cleanup_row ::
  "queue_row \<Rightarrow> delivery_context \<Rightarrow> failure_reason \<Rightarrow> tmux_result \<Rightarrow> world \<Rightarrow> worker_pc \<times> world" where
  "cleanup_row row ctx reason res w =
     (Failing row reason, log_tmux row (Delete_buffer ctx (buffer_name row)) res w)"

definition delete_row :: "queue_row \<Rightarrow> delivery_context \<Rightarrow> bytes \<Rightarrow> tmux_result \<Rightarrow> world \<Rightarrow> worker_pc \<times> world" where
  "delete_row row ctx body res w =
     (Committing row body, log_tmux row (Delete_buffer ctx (buffer_name row)) res w)"

text \<open>
  The commit of \<open>delivered\<close>; when it loses every lock retry the row is to be marked
  \<open>failed/sqlite_lock_conflict\<close>.
\<close>

definition commit_delivered ::
  "service_env \<Rightarrow> call_env \<Rightarrow> queue_row \<Rightarrow> bytes \<Rightarrow> world \<Rightarrow> (exc + worker_pc) \<times> world" where
  "commit_delivered se ce row body w =
     (case transition_queued_to_delivered (ce_busy ce) (mq_message_id row) (ce_now ce)
             (insert_queue_transition_in_tx
                (worker_payload ''queue_message_delivered'' row Delivered None (ce_now ce)
                   (excerpt_str (se_redactor se) body)))
             (w_db w) of
        (Inl e, d) \<Rightarrow>
          (if e = SqliteLockConflict then Inr (Failing row Sqlite_lock_conflict) else Inl e,
           w\<lparr>w_db := d\<rparr>)
      | (Inr (event_id, payload), d) \<Rightarrow>
          (case append_jsonl_then_watermark (se_max_pending se) (ce_jsonl_exc ce)
                  (ce_watermark_exc ce) event_id payload (ce_now ce) (w_audit w, d) of
             (a, d') \<Rightarrow> (Inr Idle, w\<lparr>w_db := d', w_audit := a\<rparr>)))"

text \<open>An exception that leaves \<open>_deliver_one\<close> is logged by the loop, which goes on.\<close>

definition pc_of :: "exc + worker_pc \<Rightarrow> worker_pc" where
  "pc_of r = (case r of Inl _ \<Rightarrow> Idle | Inr pc \<Rightarrow> pc)"

subsection \<open>One row, in source order\<close>

record delivery_env =
  de_resolver :: resolver_env
  de_block :: call_env
  de_stamp_busy :: "nat \<Rightarrow> bool"
  de_stamp_ts :: timestamp
  de_load :: tmux_result
  de_paste :: tmux_result
  de_submit :: tmux_result
  de_delete :: tmux_result
  de_fail :: call_env
  de_commit :: call_env

definition deliver_one ::
  "service_env \<Rightarrow> delivery_env \<Rightarrow> queue_row \<Rightarrow> world \<Rightarrow> (exc + unit) \<times> world" where
  "deliver_one se de row w0 =
     (case recheck_row se (de_resolver de) row w0 of
        (Inl e, w) \<Rightarrow> (Inl e, w)
      | (Inr (Ready _ ctx), w) \<Rightarrow>
          (case stamp_row (de_stamp_busy de) (de_stamp_ts de) row ctx w of
             (Inr (Stamped _ _ body), w) \<Rightarrow>
               (case load_row row ctx body (de_load de) w of
                  (Loaded _ _ _, w) \<Rightarrow>
                    (case paste_row row ctx body (de_paste de) w of
                       (Pasted _ _ _, w) \<Rightarrow>
                         (case submit_row row ctx body (de_submit de) w of
                            (Submitted _ _ _, w) \<Rightarrow>
                              (case delete_row row ctx body (de_delete de) w of
                                 (_, w) \<Rightarrow>
                                   (case commit_delivered se (de_commit de) row body w of
                                      (Inr (Failing _ reason), w) \<Rightarrow>
                                        transition_to_failed se (de_fail de) row reason w
                                    | (Inr _, w) \<Rightarrow> (Inr (), w)
                                    | (Inl e, w) \<Rightarrow> (Inl e, w)))
                          | (Cleanup _ _ reason, w) \<Rightarrow>
                              (case cleanup_row row ctx reason (de_delete de) w of
                                 (_, w) \<Rightarrow> transition_to_failed se (de_fail de) row reason w)
                          | (_, w) \<Rightarrow> (Inr (), w))
                     | (Cleanup _ _ reason, w) \<Rightarrow>
                         (case cleanup_row row ctx reason (de_delete de) w of
                            (_, w) \<Rightarrow> transition_to_failed se (de_fail de) row reason w)
                     | (_, w) \<Rightarrow> (Inr (), w))
                | (Failing _ reason, w) \<Rightarrow> transition_to_failed se (de_fail de) row reason w
                | (_, w) \<Rightarrow> (Inr (), w))
           | (Inr _, w) \<Rightarrow> (Inr (), w)
           | (Inl e, w) \<Rightarrow> (Inl e, w))
      | (Inr (Block _ reason), w) \<Rightarrow> transition_to_blocked_re_check se (de_block de) row reason w
      | (Inr _, w) \<Rightarrow> (Inr (), w))"

text \<open>
  One iteration of \<open>_run_loop\<close>. An exception out of \<open>_deliver_one\<close> is logged and the loop goes on; an
  exception of \<open>is_enabled\<close> leaves the loop.
\<close>

definition run_loop_once ::
  "service_env \<Rightarrow> delivery_env \<Rightarrow> (nat \<Rightarrow> string option) \<Rightarrow> (nat \<Rightarrow> string option) \<Rightarrow> bool \<Rightarrow> world \<Rightarrow>
   (exc + unit) \<times> world" where
  "run_loop_once se de je we pick_raises w =
     (case drain_pending je we (w_audit w, w_db w) of
        (_, a, d) \<Rightarrow>
          (case pick_row pick_raises (w\<lparr>w_audit := a, w_db := d\<rparr>) of
             (Inl e, w1) \<Rightarrow> (Inl e, w1)
           | (Inr (Picked row), w1) \<Rightarrow> (Inr (), snd (deliver_one se de row w1))
           | (Inr _, w1) \<Rightarrow> (Inr (), w1)))"

subsection \<open>Recovery at boot\<close>

definition recovery_payload :: "timestamp \<Rightarrow> string \<times> ident \<times> ident \<Rightarrow> queue_payload" where
  "recovery_payload ts r =
     (case r of (message_id, sender, target) \<Rightarrow>
        \<lparr>pl_event_type = ''queue_message_failed'', pl_message_id = message_id,
         pl_from_state = Some Queued, pl_to_state = Failed, pl_reason = Some ''attempt_interrupted'',
         pl_operator = None, pl_observed_at = ts, pl_sender = sender, pl_target = target,
         pl_excerpt = ''''\<rparr>)"

fun insert_transitions_in_tx :: "queue_payload list \<Rightarrow> (nat \<times> payload) list tx" where
  "insert_transitions_in_tx [] = tx_return []"
| "insert_transitions_in_tx (p # ps) =
     tx_bind (insert_queue_transition_in_tx p)
       (\<lambda>x. tx_bind (insert_transitions_in_tx ps) (\<lambda>xs. tx_return (x # xs)))"

fun append_all ::
  "nat \<Rightarrow> (nat \<Rightarrow> string option) \<Rightarrow> (nat \<Rightarrow> string option) \<Rightarrow> timestamp \<Rightarrow> nat \<Rightarrow> (nat \<times> payload) list \<Rightarrow>
   audit_state \<times> db \<Rightarrow> audit_state \<times> db" where
  "append_all n je we ts i [] s = s"
| "append_all n je we ts i ((event_id, payload) # xs) s =
     append_all n je we ts (Suc i) xs
       (append_jsonl_then_watermark n (je i) (we i) event_id payload ts s)"

definition run_recovery_pass ::
  "service_env \<Rightarrow> (nat \<Rightarrow> bool) \<Rightarrow> timestamp \<Rightarrow> (nat \<Rightarrow> string option) \<Rightarrow> (nat \<Rightarrow> string option) \<Rightarrow>
   world \<Rightarrow> (exc + nat) \<times> world" where
  "run_recovery_pass se busy ts je we w =
     (let rows = snapshot_in_flight_identities (w_db w) in
      if rows = [] then (Inr 0, w)
      else
        (case recover_in_flight_rows busy ts
                (\<lambda>_. insert_transitions_in_tx (map (recovery_payload ts) rows)) (w_db w) of
           (Inl e, d) \<Rightarrow> (Inl e, w\<lparr>w_db := d\<rparr>)
         | (Inr (recovered, pending), d) \<Rightarrow>
             (case append_all (se_max_pending se) je we ts 0 pending (w_audit w, d) of
                (a, d') \<Rightarrow> (Inr recovered, w\<lparr>w_db := d', w_audit := a\<rparr>))))"

subsection \<open>The segments as a step relation\<close>

text \<open>
  \<open>dw_step n\<close>: one segment of the worker, from any program counter; all environments are free
  (registry, containers and lock contention may change between segments), except the buffer size.
\<close>

inductive dw_step :: "nat \<Rightarrow> worker_pc \<times> world \<Rightarrow> worker_pc \<times> world \<Rightarrow> bool" for n where
  pick: "pick_row pr w = (r, w') \<Longrightarrow> dw_step n (Idle, w) (pc_of r, w')"
| recheck: "recheck_row se re row w = (r, w') \<Longrightarrow> dw_step n (Picked row, w) (pc_of r, w')"
| block: "se_max_pending se = n \<Longrightarrow> transition_to_blocked_re_check se ce row reason w = (r, w')
    \<Longrightarrow> dw_step n (Block row reason, w) (Idle, w')"
| stamp: "stamp_row busy ts row ctx w = (r, w') \<Longrightarrow> dw_step n (Ready row ctx, w) (pc_of r, w')"
| load: "load_row row ctx body res w = (pc, w') \<Longrightarrow> dw_step n (Stamped row ctx body, w) (pc, w')"
| paste: "paste_row row ctx body res w = (pc, w') \<Longrightarrow> dw_step n (Loaded row ctx body, w) (pc, w')"
| submit: "submit_row row ctx body res w = (pc, w') \<Longrightarrow> dw_step n (Pasted row ctx body, w) (pc, w')"
| delete: "delete_row row ctx body res w = (pc, w') \<Longrightarrow> dw_step n (Submitted row ctx body, w) (pc, w')"
| cleanup: "cleanup_row row ctx reason res w = (pc, w') \<Longrightarrow> dw_step n (Cleanup row ctx reason, w) (pc, w')"
| failing: "se_max_pending se = n \<Longrightarrow> transition_to_failed se ce row reason w = (r, w')
    \<Longrightarrow> dw_step n (Failing row reason, w) (Idle, w')"
| commit: "se_max_pending se = n \<Longrightarrow> commit_delivered se ce row body w = (r, w')
    \<Longrightarrow> dw_step n (Committing row body, w) (pc_of r, w')"

text \<open>\<open>deliver_one\<close> is a path of the step relation.\<close>

abbreviation dw_path :: "nat \<Rightarrow> worker_pc \<times> world \<Rightarrow> worker_pc \<times> world \<Rightarrow> bool" where
  "dw_path n \<equiv> (dw_step n)\<^sup>*\<^sup>*"

lemma dw_path_step: "dw_step n s t \<Longrightarrow> dw_path n t u \<Longrightarrow> dw_path n s u"
  by (rule converse_rtranclp_into_rtranclp)

lemma recheck_row_pcs:
  assumes "recheck_row se re row w = (Inr pc, w')"
  obtains reason where "pc = Block row reason" | ctx where "pc = Ready row ctx"
  using assms by (auto simp: recheck_row_def split: option.splits sum.splits prod.splits)

lemma stamp_row_pcs:
  assumes "stamp_row busy ts row ctx w = (Inr pc, w')"
  obtains "pc = Idle" | body where "pc = Stamped row ctx body"
  using assms by (auto simp: stamp_row_def split: sum.splits prod.splits if_splits)

lemma commit_delivered_pcs:
  assumes "commit_delivered se ce row body w = (Inr pc, w')"
  obtains "pc = Idle" | "pc = Failing row Sqlite_lock_conflict"
  using assms by (auto simp: commit_delivered_def split: sum.splits prod.splits if_splits)

lemma failing_path:
  assumes "se_max_pending se = n" "transition_to_failed se ce row reason w = (r, w')"
  shows "dw_path n (Failing row reason, w) (Idle, w')"
  using assms by (auto intro: dw_step.failing)

lemma cleanup_path:
  assumes "se_max_pending se = n" "cleanup_row row ctx reason res w = (pc, w1)"
    "transition_to_failed se ce row reason w1 = (r, w')"
  shows "dw_path n (Cleanup row ctx reason, w) (Idle, w')"
proof (rule dw_path_step [OF dw_step.cleanup [OF assms(2)]])
  have "pc = Failing row reason" using assms(2) by (auto simp: cleanup_row_def)
  then show "dw_path n (pc, w1) (Idle, w')" using failing_path [OF assms(1,3)] by simp
qed

lemma commit_path:
  assumes "se_max_pending se = n"
    and "(case commit_delivered se ce row body w of
            (Inr (Failing _ reason), w) \<Rightarrow> transition_to_failed se ce' row reason w
          | (Inr _, w) \<Rightarrow> (Inr (), w)
          | (Inl e, w) \<Rightarrow> (Inl e, w)) = (r, w')"
  shows "dw_path n (Committing row body, w) (Idle, w')"
proof -
  obtain c w1 where c: "commit_delivered se ce row body w = (c, w1)" by fastforce
  note step = dw_path_step [OF dw_step.commit [OF assms(1) c]]
  show ?thesis
  proof (cases c)
    case (Inl e)
    with assms(2) c show ?thesis by (auto intro!: step simp: pc_of_def)
  next
    case (Inr pc)
    from c Inr have "pc = Idle \<or> pc = Failing row Sqlite_lock_conflict"
      by (auto elim: commit_delivered_pcs)
    with assms(2) c Inr show ?thesis
      by (auto intro!: step simp: pc_of_def intro: failing_path [OF assms(1)])
  qed
qed

lemma submit_path:
  assumes n: "se_max_pending se = n"
    and run: "(case submit_row row ctx body res w of
        (Submitted _ _ _, w) \<Rightarrow>
          (case delete_row row ctx body res' w of
             (_, w) \<Rightarrow>
               (case commit_delivered se ce row body w of
                  (Inr (Failing _ reason), w) \<Rightarrow> transition_to_failed se ce' row reason w
                | (Inr _, w) \<Rightarrow> (Inr (), w)
                | (Inl e, w) \<Rightarrow> (Inl e, w)))
      | (Cleanup _ _ reason, w) \<Rightarrow>
          (case cleanup_row row ctx reason res' w of
             (_, w) \<Rightarrow> transition_to_failed se ce' row reason w)
      | (_, w) \<Rightarrow> (Inr (), w)) = (r, w')"
  shows "dw_path n (Pasted row ctx body, w) (Idle, w')"
proof (rule dw_path_step [OF dw_step.submit])
  show "submit_row row ctx body res w =
    (fst (submit_row row ctx body res w), snd (submit_row row ctx body res w))" by simp
  show "dw_path n (fst (submit_row row ctx body res w), snd (submit_row row ctx body res w)) (Idle, w')"
  proof (cases res)
    case Tmux_ok
    with run n show ?thesis
      by (auto simp: submit_row_def delete_row_def intro!: dw_path_step [OF dw_step.delete] commit_path)
  next
    case (Tmux_error e)
    with run n show ?thesis
      by (auto simp: submit_row_def split: prod.splits intro: cleanup_path)
  qed
qed

lemma paste_path:
  assumes n: "se_max_pending se = n"
    and run: "(case paste_row row ctx body res w of
        (Pasted _ _ _, w) \<Rightarrow>
          (case submit_row row ctx body res1 w of
             (Submitted _ _ _, w) \<Rightarrow>
               (case delete_row row ctx body res' w of
                  (_, w) \<Rightarrow>
                    (case commit_delivered se ce row body w of
                       (Inr (Failing _ reason), w) \<Rightarrow> transition_to_failed se ce' row reason w
                     | (Inr _, w) \<Rightarrow> (Inr (), w)
                     | (Inl e, w) \<Rightarrow> (Inl e, w)))
           | (Cleanup _ _ reason, w) \<Rightarrow>
               (case cleanup_row row ctx reason res' w of
                  (_, w) \<Rightarrow> transition_to_failed se ce' row reason w)
           | (_, w) \<Rightarrow> (Inr (), w))
      | (Cleanup _ _ reason, w) \<Rightarrow>
          (case cleanup_row row ctx reason res' w of
             (_, w) \<Rightarrow> transition_to_failed se ce' row reason w)
      | (_, w) \<Rightarrow> (Inr (), w)) = (r, w')"
  shows "dw_path n (Loaded row ctx body, w) (Idle, w')"
proof (cases res)
  case Tmux_ok
  then have p: "paste_row row ctx body res w = (Pasted row ctx body,
      log_tmux row (Paste_buffer ctx (buffer_name row)) res w)" by (simp add: paste_row_def)
  show ?thesis
    by (rule dw_path_step [OF dw_step.paste [OF p]], rule submit_path [OF n])
       (use run p in \<open>simp only: p prod.case worker_pc.case\<close>)
next
  case (Tmux_error e)
  with run n show ?thesis
    by (auto simp: paste_row_def split: prod.splits
        intro!: dw_path_step [OF dw_step.paste [of _ _ _ res]] intro: cleanup_path)
qed

lemma deliver_one_path:
  assumes n: "se_max_pending se = n" and run: "deliver_one se de row w = (r, w')"
  shows "dw_path n (Picked row, w) (Idle, w')"
proof -
  obtain c w1 where c: "recheck_row se (de_resolver de) row w = (c, w1)" by fastforce
  note step1 = dw_path_step [OF dw_step.recheck [OF c]]
  show ?thesis
  proof (cases c)
    case (Inl e)
    with run c show ?thesis by (auto simp: deliver_one_def intro!: step1 simp: pc_of_def)
  next
    case (Inr pc)
    with c consider (blk) reason where "pc = Block row reason" | (rdy) ctx where "pc = Ready row ctx"
      by (auto elim: recheck_row_pcs)
    then show ?thesis
    proof cases
      case blk
      with run c Inr n show ?thesis
        by (auto simp: deliver_one_def pc_of_def intro!: step1 dw_step.block)
    next
      case rdy
      obtain st w2 where st: "stamp_row (de_stamp_busy de) (de_stamp_ts de) row ctx w1 = (st, w2)"
        by fastforce
      note step2 = dw_path_step [OF dw_step.stamp [OF st]]
      have goal: ?thesis if "dw_path n (pc_of st, w2) (Idle, w')"
        using step2 [OF that] Inr rdy by (auto intro!: step1 simp: pc_of_def)
      show ?thesis
      proof (cases "\<exists>body. st = Inr (Stamped row ctx body)")
        case False
        with st run c Inr rdy have "pc_of st = Idle" "w2 = w'"
          by (auto simp: deliver_one_def pc_of_def elim!: stamp_row_pcs split: sum.splits)
        then show ?thesis using goal by simp
      next
        case True
        then obtain body where b: "st = Inr (Stamped row ctx body)" by blast
        note run' = run [unfolded deliver_one_def c Inr rdy prod.case sum.case worker_pc.case st b]
        have "dw_path n (Stamped row ctx body, w2) (Idle, w')"
        proof (cases "de_load de")
          case Tmux_ok
          then have l: "load_row row ctx body (de_load de) w2 = (Loaded row ctx body,
            log_tmux row (Load_buffer ctx (buffer_name row) body) (de_load de) w2)"
            by (simp add: load_row_def)
          show ?thesis
            by (rule dw_path_step [OF dw_step.load [OF l]], rule paste_path [OF n])
               (use run' in \<open>simp only: l prod.case worker_pc.case\<close>)
        next
          case (Tmux_error e)
          then show ?thesis using run' n
            by (auto simp: load_row_def intro!: dw_path_step [OF dw_step.load [of _ _ _ "de_load de"]]
                intro: failing_path)
        qed
        then show ?thesis using goal b by (simp add: pc_of_def)
      qed
    qed
  qed
qed

subsection \<open>What the segments do to the world\<close>

lemma append_outcome_moves:
  assumes run: "append_outcome se ce outcome w = (res, w')"
    and aud: "outcome_audited pl (w_db w) outcome"
    and leg: "queue_legal A (db_queue (w_db w)) (db_queue (snd outcome))"
  shows "world_moves (se_max_pending se) A w w'"
proof -
  obtain o1 d1 where o: "outcome = (o1, d1)" by fastforce
  show ?thesis
  proof (cases o1)
    case (Inl e)
    with run aud leg show ?thesis
      by (auto simp: o append_outcome_def outcome_audited_def world_moves_def)
  next
    case (Inr p)
    obtain event_id payload where p: "p = (event_id, payload)" by fastforce
    obtain a' d' where app: "append_jsonl_then_watermark (se_max_pending se) (ce_jsonl_exc ce)
        (ce_watermark_exc ce) event_id payload (ce_now ce) (w_audit w, d1) = (a', d')" by fastforce
    with run have w': "w' = w\<lparr>w_db := d', w_audit := a'\<rparr>"
      by (auto simp: o Inr p append_outcome_def)
    have "audit_ok (se_max_pending se) a' d'" if "audit_ok (se_max_pending se) (w_audit w) (w_db w)"
      using aud append_step_effect [OF _ app that] by (auto simp: o Inr p outcome_audited_def)
    then show ?thesis
      using leg append_jsonl_keeps(1) [OF app] by (simp add: w' world_moves_def o)
  qed
qed

lemma block_moves:
  assumes wf: "queue_wf (db_queue (w_db w))"
    and run: "transition_to_blocked_re_check se ce row reason w = (res, w')"
  shows "world_moves (se_max_pending se) (blocks (mq_message_id row) reason) w w'"
  using run unfolding transition_to_blocked_re_check_def
proof (rule append_outcome_moves)
  let ?pl = "worker_payload ''queue_message_blocked'' row Blocked (Some (block_reason_str reason))
     (ce_now ce) ''''"
  let ?out = "transition_queued_to_blocked_re_check (ce_busy ce) (mq_message_id row) reason (ce_now ce)
     (insert_queue_transition_in_tx ?pl) (w_db w)"
  show "outcome_audited ?pl (w_db w) ?out"
    by (rule outcome_auditedI)
       (auto simp: transition_queued_to_blocked_re_check_def dest: transition_hooks(4) [unfolded
         transition_queued_to_blocked_re_check_def])
  show "queue_legal (blocks (mq_message_id row) reason) (db_queue (w_db w)) (db_queue (snd ?out))"
    using queue_audit.blocked_re_check_legal [OF wf] by (cases ?out) auto
qed

lemma terminal_outcome_audited:
  "outcome_audited pl d (terminal_transition_from_in_flight busy m w ts (insert_queue_transition_in_tx pl) d)"
  by (rule outcome_auditedI)
     (auto simp: terminal_transition_from_in_flight_def dest: transition_hooks(3) [unfolded
       terminal_transition_from_in_flight_def])

lemma failed_moves:
  assumes wf: "queue_wf (db_queue (w_db w))"
    and run: "transition_to_failed se ce row reason w = (res, w')"
  shows "world_moves (se_max_pending se) (finishes (mq_message_id row) (Write_failed reason)) w w'"
  using run unfolding transition_to_failed_def transition_queued_to_failed_def
proof (rule append_outcome_moves)
  let ?pl = "worker_payload ''queue_message_failed'' row Failed (Some (failure_reason_str reason))
     (ce_now ce) ''''"
  let ?out = "terminal_transition_from_in_flight (ce_busy ce) (mq_message_id row) (Write_failed reason)
     (ce_now ce) (insert_queue_transition_in_tx ?pl) (w_db w)"
  show "outcome_audited ?pl (w_db w) ?out" by (rule terminal_outcome_audited)
  show "queue_legal (finishes (mq_message_id row) (Write_failed reason)) (db_queue (w_db w))
      (db_queue (snd ?out))"
    using queue_audit.terminal_transition_legal [OF wf] by (cases ?out) auto
qed

lemma commit_delivered_moves:
  assumes wf: "queue_wf (db_queue (w_db w))"
    and run: "commit_delivered se ce row body w = (res, w')"
  shows "world_moves (se_max_pending se) (finishes (mq_message_id row) Write_delivered) w w'"
proof -
  let ?pl = "worker_payload ''queue_message_delivered'' row Delivered None (ce_now ce)
     (excerpt_str (se_redactor se) body)"
  let ?out = "terminal_transition_from_in_flight (ce_busy ce) (mq_message_id row) Write_delivered
     (ce_now ce) (insert_queue_transition_in_tx ?pl) (w_db w)"
  obtain res' where "append_outcome se ce ?out w = (res', w')"
    using run unfolding commit_delivered_def transition_queued_to_delivered_def append_outcome_def
    by (auto split: sum.splits prod.splits)
  then show ?thesis
  proof (rule append_outcome_moves)
    show "outcome_audited ?pl (w_db w) ?out" by (rule terminal_outcome_audited)
    show "queue_legal (finishes (mq_message_id row) Write_delivered) (db_queue (w_db w))
        (db_queue (snd ?out))"
      using queue_audit.terminal_transition_legal [OF wf] by (cases ?out) auto
  qed
qed

lemma stamp_row_moves:
  assumes wf: "queue_wf (db_queue (w_db w))" and run: "stamp_row busy ts row ctx w = (res, w')"
  shows "queue_legal (claims (mq_message_id row)) (db_queue (w_db w)) (db_queue (w_db w'))"
    and "w_tmux w' = w_tmux w" "w_audit w' = w_audit w"
    and "db_events (w_db w') = db_events (w_db w)" "db_next_event_id (w_db w') = db_next_event_id (w_db w)"
proof -
  obtain s1 d1 where st: "stamp_delivery_attempt_started busy (mq_message_id row) ts (w_db w) = (s1, d1)"
    by fastforce
  with run have w': "w' = w\<lparr>w_db := d1\<rparr>"
    by (auto simp: stamp_row_def split: sum.splits)
  show "queue_legal (claims (mq_message_id row)) (db_queue (w_db w)) (db_queue (w_db w'))"
    using stamp_legal [OF wf st] by (simp add: w')
  show "w_tmux w' = w_tmux w" "w_audit w' = w_audit w" by (simp_all add: w')
  show "db_events (w_db w') = db_events (w_db w)" "db_next_event_id (w_db w') = db_next_event_id (w_db w)"
    using st unfolding w' stamp_delivery_attempt_started_def
    by (cases s1; auto dest!: locked_tx_ok elim!: update_or_raise_InrE)+
qed

text \<open>A successful stamp found the row queued and left it in flight, with its body read back.\<close>

lemma stamp_row_success:
  assumes wf: "queue_wf (db_queue (w_db w))"
    and run: "stamp_row busy ts row ctx w = (Inr (Stamped row' ctx' body), w')"
  shows "row' = row" "ctx' = ctx"
    and "\<exists>r r'. r \<in> set (db_queue (w_db w)) \<and> r' \<in> set (db_queue (w_db w')) \<and>
      mq_message_id r = mq_message_id row \<and> phase r = Ph_queued \<and> frozen r' = frozen r \<and>
      phase r' = Ph_in_flight \<and> body = mq_envelope_body r"
proof -
  let ?m = "mq_message_id row"
  let ?f = "\<lambda>r. r\<lparr>mq_delivery_attempt_started_at := Some ts, mq_last_updated_at := ts\<rparr>"
  let ?p = "\<lambda>r. mq_message_id r = ?m \<and> ready r"
  from run obtain d1 where st: "stamp_delivery_attempt_started busy ?m ts (w_db w) = (Inr (), d1)"
    and b: "read_envelope_bytes ?m d1 = Inr body" and eqs: "row' = row" "ctx' = ctx" "w' = w\<lparr>w_db := d1\<rparr>"
    by (auto simp: stamp_row_def split: sum.splits prod.splits if_splits)
  from st have q: "db_queue d1 = update_where ?p ?f (db_queue (w_db w))"
    and "rowcount ?p (db_queue (w_db w)) \<noteq> 0"
    unfolding stamp_delivery_attempt_started_def
    by (auto dest!: locked_tx_ok elim!: update_or_raise_InrE)
  then obtain r where r: "r \<in> set (db_queue (w_db w))" "mq_message_id r = ?m" "ready r"
    by (auto simp: rowcount_0_iff)
  have sel: "mq_select ?m d1 = Some (?f r)"
    unfolding mq_select_def q
    using lookup_row_update_where [where key = mq_message_id and f = ?f and p = ?p]
      lookup_row_unique [of mq_message_id "db_queue (w_db w)" r] wf r
    by (simp add: queue_wf_def)
  have "?f r \<in> set (db_queue d1)" using mq_select_SomeD [OF sel] by blast
  moreover have "phase (?f r) = Ph_in_flight" using r(3) by (simp add: ready_def phase_def)
  moreover have "body = mq_envelope_body r" using b sel by (simp add: read_envelope_bytes_def)
  ultimately show "\<exists>r r'. r \<in> set (db_queue (w_db w)) \<and> r' \<in> set (db_queue (w_db w')) \<and>
      mq_message_id r = ?m \<and> phase r = Ph_queued \<and> frozen r' = frozen r \<and>
      phase r' = Ph_in_flight \<and> body = mq_envelope_body r"
    using r ready_phase by (intro exI [of _ r] exI [of _ "?f r"]) (simp add: eqs frozen_def)
  show "row' = row" "ctx' = ctx" using eqs by simp_all
qed

subsection \<open>What recovery does\<close>

interpretation recovery_audit: audit_hook insert_transitions_in_tx
proof unfold_locales
  show "db_queue d' = db_queue d \<and> db_flag d' = db_flag d \<and> db_routes d' = db_routes d"
    if "insert_transitions_in_tx ps d = Inr (xs, d')" for ps d xs d'
    using that
    by (induction ps arbitrary: d xs) (auto elim!: tx_bind_InrE dest!: queue_audit.audit_keeps)
  show "\<exists>es. db_events d' = db_events d @ es"
    if "insert_transitions_in_tx ps d = Inr (xs, d')" for ps d xs d'
    using that
    by (induction ps arbitrary: d xs) (fastforce elim!: tx_bind_InrE dest!: queue_audit.audit_appends)+
qed

lemma insert_transitions_facts:
  assumes "insert_transitions_in_tx ps d = Inr (xs, d')" "audit_ok n a d"
  shows "map fst xs = [db_next_event_id d..<db_next_event_id d'] \<and>
    map snd xs = map Queue_transition ps \<and> db_next_event_id d \<le> db_next_event_id d' \<and> audit_ok n a d'"
  using assms
proof (induction ps arbitrary: d xs)
  case (Cons p ps)
  from Cons.prems(1) obtain e pl d1 xs1 where
    i: "insert_queue_transition_in_tx p d = Inr ((e, pl), d1)"
      "insert_transitions_in_tx ps d1 = Inr (xs1, d')" "xs = (e, pl) # xs1"
    by (auto elim!: tx_bind_InrE)
  note f = insert_queue_transition_facts [OF i(1)]
  have "audit_ok n a d1" using audit_ok_new_event [OF Cons.prems(2)] f by simp
  note IH = Cons.IH [OF i(2) this]
  have "[db_next_event_id d..<db_next_event_id d'] = e # [db_next_event_id d1..<db_next_event_id d']"
    using f IH by (simp add: upt_conv_Cons)
  then show ?case using IH f i(3) by simp
qed simp

lemma append_jsonl_ids:
  assumes "append_jsonl_then_watermark n je we e p t (a, d) = (a', d')"
  shows "jsonl_ids a' \<subseteq> insert e (jsonl_ids a)"
    "pj_event_id ` set (au_pending a') \<subseteq> insert e (pj_event_id ` set (au_pending a))"
    "db_next_event_id d' = db_next_event_id d"
  using assms
  by (auto simp: append_jsonl_then_watermark_def Let_def split: option.splits)
     (auto simp: buffer_pending_def append_event_def dest!: in_set_bounded_append)

lemma append_all_ok:
  assumes "audit_ok n a d" "distinct (map fst xs)"
    "\<And>e. e \<in> fst ` set xs \<Longrightarrow>
      e < db_next_event_id d \<and> e \<notin> jsonl_ids a \<and> e \<notin> pj_event_id ` set (au_pending a)"
    "append_all n je we ts i xs (a, d) = (a', d')"
  shows "audit_ok n a' d' \<and> db_queue d' = db_queue d"
  using assms
proof (induction xs arbitrary: a d i)
  case Nil
  then show ?case by simp
next
  case (Cons x xs)
  obtain e p where x: "x = (e, p)" by fastforce
  obtain a1 d1 where app: "append_jsonl_then_watermark n (je i) (we i) e p ts (a, d) = (a1, d1)"
    by fastforce
  have fresh: "e < db_next_event_id d" "e \<notin> jsonl_ids a" "e \<notin> pj_event_id ` set (au_pending a)"
    using Cons.prems(3) x by auto
  have "audit_wf n (a1, d1) \<and> watermark_ok (a1, d1)" "events_wf d1"
    using Cons.prems(1) append_audit_wf [OF _ _ fresh app] events_wf_append [OF app]
    by (auto simp: audit_ok_def)
  then have ok1: "audit_ok n a1 d1" by (simp add: audit_ok_def)
  have "audit_ok n a' d' \<and> db_queue d' = db_queue d1"
  proof (rule Cons.IH [OF ok1])
    show "distinct (map fst xs)" using Cons.prems(2) by simp
    show "append_all n je we ts (Suc i) xs (a1, d1) = (a', d')" using Cons.prems(4) app x by simp
    show "f < db_next_event_id d1 \<and> f \<notin> jsonl_ids a1 \<and> f \<notin> pj_event_id ` set (au_pending a1)"
      if "f \<in> fst ` set xs" for f
    proof -
      have "f \<noteq> e" using that Cons.prems(2) x by auto
      moreover have "f < db_next_event_id d \<and> f \<notin> jsonl_ids a \<and> f \<notin> pj_event_id ` set (au_pending a)"
        using Cons.prems(3) that by auto
      ultimately show ?thesis using append_jsonl_ids [OF app] by auto
    qed
  qed
  then show ?case using append_jsonl_keeps(1) [OF app] by simp
qed

lemma recovery_success:
  assumes wf: "queue_wf (db_queue d)"
    and run: "recover_in_flight_rows busy ts (\<lambda>_. insert_transitions_in_tx ps) d = (Inr (k, xs), d')"
  shows "r \<in> set (db_queue d') \<Longrightarrow> phase r \<noteq> Ph_in_flight"
    and "k = length (filter in_flight (db_queue d))"
    and "\<exists>rows. insert_transitions_in_tx ps (d\<lparr>db_queue := rows\<rparr>) = Inr (xs, d')"
proof -
  let ?f = "\<lambda>r. r\<lparr>mq_state := Failed, mq_failure_reason := Some Attempt_interrupted,
    mq_failed_at := Some ts, mq_last_updated_at := ts\<rparr>"
  from run have q: "k = rowcount in_flight (db_queue d)"
    "insert_transitions_in_tx ps (d\<lparr>db_queue := update_where in_flight ?f (db_queue d)\<rparr>) = Inr (xs, d')"
    unfolding recover_in_flight_rows_def
    by (auto dest!: locked_tx_ok elim!: tx_bind_InrE mq_update_InrE)
  show "k = length (filter in_flight (db_queue d))" using q(1) by (simp add: rowcount_def)
  show "\<exists>rows. insert_transitions_in_tx ps (d\<lparr>db_queue := rows\<rparr>) = Inr (xs, d')" using q(2) by blast
  have q': "db_queue d' = update_where in_flight ?f (db_queue d)"
    using recovery_audit.audit_keeps [OF q(2)] by simp
  show "phase r \<noteq> Ph_in_flight" if "r \<in> set (db_queue d')"
    using that unfolding q'
  proof (cases rule: in_update_where_cases)
    case kept
    then show ?thesis using in_flight_phase queue_wf_row_ok [OF wf] by blast
  next
    case changed
    then show ?thesis by (simp add: phase_def)
  qed
qed

lemma recovery_moves:
  assumes wf: "queue_wf (db_queue (w_db w))"
    and run: "run_recovery_pass se busy ts je we w = (res, w')"
    and ok: "audit_ok (se_max_pending se) (w_audit w) (w_db w)"
  shows "queue_legal interrupts (db_queue (w_db w)) (db_queue (w_db w'))" "w_tmux w' = w_tmux w"
    and "audit_ok (se_max_pending se) (w_audit w') (w_db w')"
    and "res = Inr k \<Longrightarrow> r \<in> set (db_queue (w_db w')) \<Longrightarrow> phase r \<noteq> Ph_in_flight"
proof -
  let ?rows = "snapshot_in_flight_identities (w_db w)"
  let ?ps = "map (recovery_payload ts) ?rows"
  have "queue_legal interrupts (db_queue (w_db w)) (db_queue (w_db w')) \<and> w_tmux w' = w_tmux w \<and>
    audit_ok (se_max_pending se) (w_audit w') (w_db w') \<and>
    (res = Inr k \<longrightarrow> r \<in> set (db_queue (w_db w')) \<longrightarrow> phase r \<noteq> Ph_in_flight)"
  proof (cases "?rows = []")
    case True
    with run have w': "w' = w" by (simp add: run_recovery_pass_def Let_def)
    have "\<not> in_flight r" if "r \<in> set (db_queue (w_db w))"
      using True that by (auto simp: snapshot_in_flight_identities_def filter_empty_conv)
    then show ?thesis using wf ok in_flight_phase queue_wf_row_ok [OF wf] by (auto simp: w')
  next
    case False
    obtain c d1 where c: "recover_in_flight_rows busy ts (\<lambda>_. insert_transitions_in_tx ?ps) (w_db w) = (c, d1)"
      by fastforce
    note leg = recovery_audit.recover_legal [OF wf c]
    show ?thesis
    proof (cases c)
      case (Inl e)
      with c have "d1 = w_db w" by (auto simp: recover_in_flight_rows_def)
      with run c Inl False wf ok show ?thesis by (auto simp: run_recovery_pass_def Let_def)
    next
      case (Inr kx)
      obtain k1 xs where kx: "kx = (k1, xs)" by fastforce
      obtain a' d' where app: "append_all (se_max_pending se) je we ts 0 xs (w_audit w, d1) = (a', d')"
        by fastforce
      with run c False have w': "w' = w\<lparr>w_db := d', w_audit := a'\<rparr>"
        by (auto simp: run_recovery_pass_def Let_def Inr kx)
      note s = recovery_success [OF wf c [unfolded Inr kx]]
      from s(3) obtain rows where ins: "insert_transitions_in_tx ?ps (w_db w\<lparr>db_queue := rows\<rparr>) = Inr (xs, d1)"
        by blast
      have "audit_ok (se_max_pending se) (w_audit w) (w_db w\<lparr>db_queue := rows\<rparr>)"
        using ok by (simp add: audit_ok_def audit_wf_def watermark_ok_def events_wf_def)
      note f = insert_transitions_facts [OF ins this]
      have "audit_ok (se_max_pending se) a' d' \<and> db_queue d' = db_queue d1"
      proof (rule append_all_ok [OF _ _ _ app])
        show "audit_ok (se_max_pending se) (w_audit w) d1" using f by simp
        show "distinct (map fst xs)" using f by simp
        show "e < db_next_event_id d1 \<and> e \<notin> jsonl_ids (w_audit w) \<and>
            e \<notin> pj_event_id ` set (au_pending (w_audit w))" if "e \<in> fst ` set xs" for e
        proof -
          have "e \<in> set (map fst xs)" using that by simp
          then have "db_next_event_id (w_db w) \<le> e" "e < db_next_event_id d1" using f by auto
          then show ?thesis
            using ok by (auto simp: audit_ok_def audit_wf_def list_all_iff jsonl_ids_def)
        qed
      qed
      then show ?thesis using leg s(1) by (auto simp: w')
    qed
  qed
  then show "queue_legal interrupts (db_queue (w_db w)) (db_queue (w_db w'))" "w_tmux w' = w_tmux w"
    "audit_ok (se_max_pending se) (w_audit w') (w_db w')"
    "res = Inr k \<Longrightarrow> r \<in> set (db_queue (w_db w')) \<Longrightarrow> phase r \<noteq> Ph_in_flight" by auto
qed

lemma append_all_keeps:
  assumes "append_all n je we ts i xs (a, d) = (a', d')"
  shows "db_queue d' = db_queue d"
  using assms
proof (induction xs arbitrary: a d i)
  case (Cons x xs)
  obtain e p where x: "x = (e, p)" by fastforce
  obtain a1 d1 where app: "append_jsonl_then_watermark n (je i) (we i) e p ts (a, d) = (a1, d1)"
    by fastforce
  then show ?case using Cons append_jsonl_keeps(1) [OF app] by (simp add: x)
qed simp

text \<open>Exactly which rows a completed pass changes, and how.\<close>

lemma recovery_pass_rows:
  assumes run: "run_recovery_pass se busy ts je we w = (Inr k, w')"
  shows "k = length (filter in_flight (db_queue (w_db w)))"
    and "db_queue (w_db w') = map (\<lambda>r. if in_flight r then r\<lparr>mq_state := Failed,
      mq_failure_reason := Some Attempt_interrupted, mq_failed_at := Some ts,
      mq_last_updated_at := ts\<rparr> else r) (db_queue (w_db w))"
    and "w_tmux w' = w_tmux w"
proof -
  let ?rows = "snapshot_in_flight_identities (w_db w)"
  let ?ps = "map (recovery_payload ts) ?rows"
  let ?f = "\<lambda>r. r\<lparr>mq_state := Failed, mq_failure_reason := Some Attempt_interrupted,
    mq_failed_at := Some ts, mq_last_updated_at := ts\<rparr>"
  have "k = length (filter in_flight (db_queue (w_db w))) \<and> w_tmux w' = w_tmux w \<and>
    db_queue (w_db w') = update_where in_flight ?f (db_queue (w_db w))"
  proof (cases "?rows = []")
    case True
    then have "filter in_flight (db_queue (w_db w)) = []"
      by (simp add: snapshot_in_flight_identities_def)
    with run True show ?thesis
      by (auto simp: run_recovery_pass_def update_where_def filter_empty_conv intro!: map_idI [symmetric])
  next
    case False
    then obtain xs d1 where c: "recover_in_flight_rows busy ts (\<lambda>_. insert_transitions_in_tx ?ps) (w_db w)
        = (Inr (k, xs), d1)"
      and w': "w_tmux w' = w_tmux w" "db_queue (w_db w') = db_queue d1"
      using run append_all_keeps
      by (auto simp: run_recovery_pass_def Let_def split: sum.splits prod.splits)
    from c have q: "k = rowcount in_flight (db_queue (w_db w))"
      "insert_transitions_in_tx ?ps ((w_db w)\<lparr>db_queue := update_where in_flight ?f (db_queue (w_db w))\<rparr>)
        = Inr (xs, d1)"
      unfolding recover_in_flight_rows_def
      by (auto dest!: locked_tx_ok elim!: tx_bind_InrE mq_update_InrE)
    show ?thesis using q(1) w' recovery_audit.audit_keeps [OF q(2)] by (simp add: rowcount_def)
  qed
  then show "k = length (filter in_flight (db_queue (w_db w)))" "w_tmux w' = w_tmux w"
    "db_queue (w_db w') = map (\<lambda>r. if in_flight r then ?f r else r) (db_queue (w_db w))"
    by (simp_all add: update_where_def)
qed

subsection \<open>The kill switch and the worker\<close>

text \<open>
  With routing disabled and a cache that is empty or up to date, the worker picks no row, and a
  row it had already picked is blocked at the re-check, before any tmux call.
\<close>

lemma disabled_switch_stops_worker:
  assumes "cache_coherent (w_cache w, w_db w)" "flag_value (w_db w) = Some ''disabled''"
  shows "fst (pick_row pick_raises w) = Inr Idle \<and>
    (\<exists>reason. fst (recheck_row se re row w) = Inr (Block row reason))"
proof -
  have "fst (check_enabled w) = Inr False"
    using is_enabled_coherent(2) [OF assms(1) _ assms(2)]
    by (auto simp: check_enabled_def split: prod.splits)
  then obtain w1 where ce: "check_enabled w = (Inr False, w1)" by (metis prod.collapse)
  show ?thesis
    by (auto simp: pick_row_def recheck_row_def recheck_target_only_def ce split: option.splits)
qed

end
