(* ===== verification/Queue_System.thy ===== *)
theory Queue_System
  imports Delivery
begin

text \<open>
  The message queue as a concurrent system: senders, operator requests (read and commit as two
  steps), kill switch toggles, the delivery worker segment by segment, the audit drain, crashes at
  any point and the recovery pass at boot. The invariant relates the phase of every row to the
  tmux calls made for it; it is kept by every step.
\<close>

subsection \<open>States and steps\<close>

datatype request =
    Approve_request string string queue_row
  | Delay_request string string queue_row
  | Cancel_request string string "queue_row option"

record system =
  sy_world :: world
  sy_pc :: worker_pc
  sy_requests :: "request list"
  sy_up :: bool

definition empty_audit :: audit_state where
  "empty_audit = \<lparr>au_pending = [], au_degraded_exc_class = None, au_jsonl = []\<rparr>"

text \<open>A fresh installation: the migrated, empty tables with the seeded flag.\<close>

definition system_init :: "system \<Rightarrow> bool" where
  "system_init s \<longleftrightarrow>
     db_queue (w_db (sy_world s)) = [] \<and> db_events (w_db (sy_world s)) = [] \<and>
     flag_value (w_db (sy_world s)) = Some ''enabled'' \<and> w_audit (sy_world s) = empty_audit \<and>
     w_cache (sy_world s) = None \<and> w_tmux (sy_world s) = [] \<and>
     sy_pc s = Idle \<and> sy_requests s = [] \<and> sy_up s"

text \<open>A crash keeps the database and the JSONL file and loses everything in memory.\<close>

definition crash_world :: "world \<Rightarrow> world" where
  "crash_world w =
     w\<lparr>w_cache := None, w_audit := (w_audit w)\<lparr>au_pending := [], au_degraded_exc_class := None\<rparr>\<rparr>"

inductive system_step :: "nat \<Rightarrow> system \<Rightarrow> system \<Rightarrow> bool" for n where
  send: "sy_up s \<Longrightarrow> se_max_pending se = n \<Longrightarrow>
    enqueue_message se ce sender target body og route_id event_id (sy_world s) = (res, w') \<Longrightarrow>
    system_step n s (s\<lparr>sy_world := w'\<rparr>)"
| approve_begin: "sy_up s \<Longrightarrow> approve_read m (sy_world s) = (Inr row, w') \<Longrightarrow>
    system_step n s (s\<lparr>sy_world := w', sy_requests := Approve_request m operator row # sy_requests s\<rparr>)"
| approve_refused: "sy_up s \<Longrightarrow> approve_read m (sy_world s) = (Inl e, w') \<Longrightarrow>
    system_step n s (s\<lparr>sy_world := w'\<rparr>)"
| approve_end: "sy_up s \<Longrightarrow> se_max_pending se = n \<Longrightarrow> Approve_request m operator row \<in> set (sy_requests s) \<Longrightarrow>
    approve_commit se ce m operator row (sy_world s) = (res, w') \<Longrightarrow>
    system_step n s (s\<lparr>sy_world := w',
      sy_requests := remove1 (Approve_request m operator row) (sy_requests s)\<rparr>)"
| delay_begin: "sy_up s \<Longrightarrow> delay_read m (sy_world s) = Inr row \<Longrightarrow>
    system_step n s (s\<lparr>sy_requests := Delay_request m operator row # sy_requests s\<rparr>)"
| delay_end: "sy_up s \<Longrightarrow> se_max_pending se = n \<Longrightarrow> Delay_request m operator row \<in> set (sy_requests s) \<Longrightarrow>
    delay_commit se ce m operator row (sy_world s) = (res, w') \<Longrightarrow>
    system_step n s (s\<lparr>sy_world := w',
      sy_requests := remove1 (Delay_request m operator row) (sy_requests s)\<rparr>)"
| cancel_begin: "sy_up s \<Longrightarrow>
    system_step n s (s\<lparr>sy_requests :=
      Cancel_request m operator (get_row_by_id m (w_db (sy_world s))) # sy_requests s\<rparr>)"
| cancel_end: "sy_up s \<Longrightarrow> se_max_pending se = n \<Longrightarrow> Cancel_request m operator pre \<in> set (sy_requests s) \<Longrightarrow>
    cancel_commit se ce m operator pre (sy_world s) = (res, w') \<Longrightarrow>
    system_step n s (s\<lparr>sy_world := w',
      sy_requests := remove1 (Cancel_request m operator pre) (sy_requests s)\<rparr>)"
| toggle: "sy_up s \<Longrightarrow> se_max_pending se = n \<Longrightarrow>
    routing_toggle se ce gate value (sy_world s) = (tres, w') \<Longrightarrow> system_step n s (s\<lparr>sy_world := w'\<rparr>)"
| drain: "sy_up s \<Longrightarrow> sy_pc s = Idle \<Longrightarrow>
    drain_pending je we (w_audit (sy_world s), w_db (sy_world s)) = (k, a, d) \<Longrightarrow>
    system_step n s (s\<lparr>sy_world := (sy_world s)\<lparr>w_audit := a, w_db := d\<rparr>\<rparr>)"
| worker: "sy_up s \<Longrightarrow> dw_step n (sy_pc s, sy_world s) (pc', w') \<Longrightarrow>
    system_step n s (s\<lparr>sy_world := w', sy_pc := pc'\<rparr>)"
| crash: "system_step n s (s\<lparr>sy_world := crash_world (sy_world s), sy_pc := Idle, sy_requests := [],
    sy_up := False\<rparr>)"
| boot: "\<not> sy_up s \<Longrightarrow> se_max_pending se = n \<Longrightarrow>
    run_recovery_pass se busy ts jes wes (sy_world s) = (Inr k, w') \<Longrightarrow>
    system_step n s (s\<lparr>sy_world := w', sy_up := True\<rparr>)"
| boot_failed: "\<not> sy_up s \<Longrightarrow> se_max_pending se = n \<Longrightarrow>
    run_recovery_pass se busy ts jes wes (sy_world s) = (Inl e, w') \<Longrightarrow>
    system_step n s (s\<lparr>sy_world := w'\<rparr>)"

abbreviation reachable :: "nat \<Rightarrow> system \<Rightarrow> bool" where
  "reachable n \<equiv> reach system_init (system_step n)"

subsection \<open>Traces of tmux calls\<close>

definition trace :: "string \<Rightarrow> world \<Rightarrow> (tmux_call \<times> tmux_result) list" where
  "trace m w = map snd (filter (\<lambda>e. fst e = m) (w_tmux w))"

text \<open>A context that addresses the container and the pane captured in the row.\<close>

definition ctx_for :: "queue_row \<Rightarrow> delivery_context \<Rightarrow> bool" where
  "ctx_for row ctx \<longleftrightarrow>
     dc_container_id ctx = mq_target_container_id row \<and> dc_pane_id ctx = mq_target_pane_id row"

definition loaded_trace :: "queue_row \<Rightarrow> delivery_context \<Rightarrow> (tmux_call \<times> tmux_result) list" where
  "loaded_trace row ctx = [(Load_buffer ctx (buffer_name row) (mq_envelope_body row), Tmux_ok)]"

definition pasted_trace :: "queue_row \<Rightarrow> delivery_context \<Rightarrow> (tmux_call \<times> tmux_result) list" where
  "pasted_trace row ctx = loaded_trace row ctx @ [(Paste_buffer ctx (buffer_name row), Tmux_ok)]"

definition submitted_trace :: "queue_row \<Rightarrow> delivery_context \<Rightarrow> (tmux_call \<times> tmux_result) list" where
  "submitted_trace row ctx = pasted_trace row ctx @ [(Send_keys ctx ''Enter'', Tmux_ok)]"

definition delivered_trace :: "queue_row \<Rightarrow> (tmux_call \<times> tmux_result) list \<Rightarrow> bool" where
  "delivered_trace row t \<longleftrightarrow>
     (\<exists>ctx res. ctx_for row ctx \<and> t = submitted_trace row ctx @ [(Delete_buffer ctx (buffer_name row), res)])"

text \<open>The calls an attempt has made when it stops, at any point.\<close>

inductive attempt_trace :: "queue_row \<Rightarrow> (tmux_call \<times> tmux_result) list \<Rightarrow> bool" for row where
  no_call: "attempt_trace row []"
| load_failed: "ctx_for row ctx \<Longrightarrow>
    attempt_trace row [(Load_buffer ctx (buffer_name row) (mq_envelope_body row), Tmux_error e)]"
| loaded: "ctx_for row ctx \<Longrightarrow> attempt_trace row (loaded_trace row ctx)"
| paste_failed: "ctx_for row ctx \<Longrightarrow>
    attempt_trace row (loaded_trace row ctx @ [(Paste_buffer ctx (buffer_name row), Tmux_error e)])"
| paste_failed_cleaned: "ctx_for row ctx \<Longrightarrow>
    attempt_trace row (loaded_trace row ctx @ [(Paste_buffer ctx (buffer_name row), Tmux_error e),
      (Delete_buffer ctx (buffer_name row), res)])"
| pasted: "ctx_for row ctx \<Longrightarrow> attempt_trace row (pasted_trace row ctx)"
| submit_failed: "ctx_for row ctx \<Longrightarrow>
    attempt_trace row (pasted_trace row ctx @ [(Send_keys ctx ''Enter'', Tmux_error e)])"
| submit_failed_cleaned: "ctx_for row ctx \<Longrightarrow>
    attempt_trace row (pasted_trace row ctx @ [(Send_keys ctx ''Enter'', Tmux_error e),
      (Delete_buffer ctx (buffer_name row), res)])"
| submitted: "ctx_for row ctx \<Longrightarrow> attempt_trace row (submitted_trace row ctx)"
| completed: "delivered_trace row t \<Longrightarrow> attempt_trace row t"

lemmas trace_defs = ctx_for_def buffer_name_def loaded_trace_def pasted_trace_def submitted_trace_def
  delivered_trace_def

definition row_trace_ok :: "queue_row \<Rightarrow> (tmux_call \<times> tmux_result) list \<Rightarrow> bool" where
  "row_trace_ok row t =
     (case phase row of
        Ph_in_flight \<Rightarrow> attempt_trace row t
      | Ph_failed _ \<Rightarrow> attempt_trace row t
      | Ph_delivered \<Rightarrow> delivered_trace row t
      | _ \<Rightarrow> t = [])"

definition traces_ok :: "world \<Rightarrow> bool" where
  "traces_ok w \<longleftrightarrow>
     (\<forall>r \<in> set (db_queue (w_db w)). row_trace_ok r (trace (mq_message_id r) w)) \<and>
     (\<forall>m. m \<notin> mq_message_id ` set (db_queue (w_db w)) \<longrightarrow> trace m w = [])"

definition known :: "queue_row \<Rightarrow> world \<Rightarrow> bool" where
  "known row w \<longleftrightarrow> (\<exists>r \<in> set (db_queue (w_db w)). frozen r = frozen row)"

definition flying :: "queue_row \<Rightarrow> world \<Rightarrow> bool" where
  "flying row w \<longleftrightarrow>
     (\<exists>r \<in> set (db_queue (w_db w)). frozen r = frozen row \<and> phase r = Ph_in_flight)"

fun pc_ok :: "worker_pc \<Rightarrow> world \<Rightarrow> bool" where
  "pc_ok Idle w = True"
| "pc_ok (Picked row) w = known row w"
| "pc_ok (Block row reason) w = known row w"
| "pc_ok (Ready row ctx) w = (known row w \<and> ctx_for row ctx)"
| "pc_ok (Stamped row ctx body) w =
     (flying row w \<and> ctx_for row ctx \<and> body = mq_envelope_body row \<and> trace (mq_message_id row) w = [])"
| "pc_ok (Loaded row ctx body) w =
     (flying row w \<and> ctx_for row ctx \<and> body = mq_envelope_body row \<and>
      trace (mq_message_id row) w = loaded_trace row ctx)"
| "pc_ok (Pasted row ctx body) w =
     (flying row w \<and> ctx_for row ctx \<and> trace (mq_message_id row) w = pasted_trace row ctx)"
| "pc_ok (Submitted row ctx body) w =
     (flying row w \<and> ctx_for row ctx \<and> trace (mq_message_id row) w = submitted_trace row ctx)"
| "pc_ok (Cleanup row ctx reason) w =
     (flying row w \<and> ctx_for row ctx \<and>
      (\<exists>e. trace (mq_message_id row) w = loaded_trace row ctx @ [(Paste_buffer ctx (buffer_name row), Tmux_error e)] \<or>
           trace (mq_message_id row) w = pasted_trace row ctx @ [(Send_keys ctx ''Enter'', Tmux_error e)]))"
| "pc_ok (Failing row reason) w = flying row w"
| "pc_ok (Committing row body) w = (flying row w \<and> delivered_trace row (trace (mq_message_id row) w))"

definition worker_inv :: "nat \<Rightarrow> worker_pc \<Rightarrow> world \<Rightarrow> bool" where
  "worker_inv n pc w \<longleftrightarrow>
     queue_wf (db_queue (w_db w)) \<and> traces_ok w \<and> pc_ok pc w \<and> audit_ok n (w_audit w) (w_db w)"

definition system_inv :: "nat \<Rightarrow> system \<Rightarrow> bool" where
  "system_inv n s \<longleftrightarrow> worker_inv n (sy_pc s) (sy_world s) \<and> (sy_up s \<or> sy_pc s = Idle)"

subsection \<open>Frozen columns determine the traces\<close>

lemma frozenD:
  assumes "frozen r' = frozen r"
  shows "mq_message_id r' = mq_message_id r" "mq_envelope_body r' = mq_envelope_body r"
    "ctx_for r' = ctx_for r" "buffer_name r' = buffer_name r"
  using assms by (auto simp: frozen_def ctx_for_def buffer_name_def fun_eq_iff)

lemma frozen_traces:
  assumes "frozen r' = frozen r"
  shows "loaded_trace r' = loaded_trace r" "pasted_trace r' = pasted_trace r"
    "submitted_trace r' = submitted_trace r" "delivered_trace r' = delivered_trace r"
    "attempt_trace r' = attempt_trace r"
proof -
  note f = frozenD [OF assms]
  show l: "loaded_trace r' = loaded_trace r" by (simp add: fun_eq_iff loaded_trace_def f)
  show p: "pasted_trace r' = pasted_trace r" by (simp add: fun_eq_iff pasted_trace_def f l)
  show s: "submitted_trace r' = submitted_trace r" by (simp add: fun_eq_iff submitted_trace_def p)
  show d: "delivered_trace r' = delivered_trace r" by (simp add: fun_eq_iff delivered_trace_def f s)
  show "attempt_trace r' = attempt_trace r"
    by (simp add: fun_eq_iff attempt_trace.simps f l p s d)
qed
subsection \<open>Evolution of the table\<close>

lemma list_all2_in2: "list_all2 P xs ys \<Longrightarrow> y \<in> set ys \<Longrightarrow> \<exists>x \<in> set xs. P x y"
  by (induction rule: list_all2_induct) auto

lemma list_all2_in1: "list_all2 P xs ys \<Longrightarrow> x \<in> set xs \<Longrightarrow> \<exists>y \<in> set ys. P x y"
  by (induction rule: list_all2_induct) auto

lemma row_evolves_frozen: "row_evolves A r r' \<Longrightarrow> frozen r' = frozen r"
  by (auto simp: row_evolves_def)

lemma row_evolves_id: "row_evolves A r r' \<Longrightarrow> mq_message_id r' = mq_message_id r"
  by (auto dest!: row_evolves_frozen frozenD(1))

lemma legal_forward:
  assumes "queue_legal A rows rows'" "r \<in> set rows"
  shows "\<exists>r' \<in> set rows'. row_evolves A r r'"
  using assms list_all2_in1 unfolding queue_legal_def queue_evolves_def by fastforce

lemma legal_backward:
  assumes "queue_legal A rows rows'" "r' \<in> set rows'"
  shows "(\<exists>r \<in> set rows. row_evolves A r r') \<or> (fresh_row r' \<and> mq_message_id r' \<notin> mq_message_id ` set rows)"
proof -
  from assms(1) obtain kept new where k: "rows' = kept @ new" "list_all2 (row_evolves A) rows kept"
    "list_all fresh_row new" "distinct (map mq_message_id (kept @ new))"
    by (auto simp: queue_legal_def queue_evolves_def queue_wf_def)
  have ids: "mq_message_id ` set rows \<subseteq> mq_message_id ` set kept"
  proof (rule image_subsetI)
    fix r assume "r \<in> set rows"
    from list_all2_in1 [OF k(2) this] show "mq_message_id r \<in> mq_message_id ` set kept"
      by (auto dest!: row_evolves_id intro: rev_image_eqI)
  qed
  show ?thesis
  proof (cases "r' \<in> set kept")
    case True
    then show ?thesis using list_all2_in2 [OF k(2)] by blast
  next
    case False
    then have "r' \<in> set new" using assms(2) k(1) by simp
    then show ?thesis using k(3,4) ids by (auto simp: list_all_iff)
  qed
qed

lemma legal_ids:
  assumes "queue_legal A rows rows'"
  shows "mq_message_id ` set rows \<subseteq> mq_message_id ` set rows'"
proof (rule image_subsetI)
  fix r assume "r \<in> set rows"
  from legal_forward [OF assms this] show "mq_message_id r \<in> mq_message_id ` set rows'"
    by (auto dest!: row_evolves_id intro: rev_image_eqI)
qed

lemma trace_same: "w_tmux w' = w_tmux w \<Longrightarrow> trace m w' = trace m w"
  by (simp add: trace_def)

lemma fresh_row_trace: "fresh_row r \<Longrightarrow> row_trace_ok r []"
  by (auto simp: fresh_row_def row_trace_ok_def)

lemma traces_ok_legal:
  assumes leg: "queue_legal A (db_queue (w_db w)) (db_queue (w_db w'))" and ok: "traces_ok w"
    and tm: "w_tmux w' = w_tmux w"
    and mv: "\<And>r r'. r \<in> set (db_queue (w_db w)) \<Longrightarrow> A r r' \<Longrightarrow> frozen r' = frozen r \<Longrightarrow>
      row_trace_ok r (trace (mq_message_id r) w) \<Longrightarrow> row_trace_ok r' (trace (mq_message_id r) w)"
  shows "traces_ok w'"
  unfolding traces_ok_def trace_same [OF tm]
proof (intro conjI ballI allI impI)
  fix r' assume "r' \<in> set (db_queue (w_db w'))"
  from legal_backward [OF leg this]
  show "row_trace_ok r' (trace (mq_message_id r') w)"
  proof
    assume "\<exists>r \<in> set (db_queue (w_db w)). row_evolves A r r'"
    then obtain r where r: "r \<in> set (db_queue (w_db w))" "row_evolves A r r'" by blast
    then show ?thesis
      using ok mv [OF r(1)] row_evolves_id [OF r(2)] by (auto simp: row_evolves_def traces_ok_def)
  next
    assume "fresh_row r' \<and> mq_message_id r' \<notin> mq_message_id ` set (db_queue (w_db w))"
    then show ?thesis using ok fresh_row_trace by (auto simp: traces_ok_def)
  qed
next
  fix m assume "m \<notin> mq_message_id ` set (db_queue (w_db w'))"
  then have "m \<notin> mq_message_id ` set (db_queue (w_db w))" using legal_ids [OF leg] by blast
  then show "trace m w = []" using ok unfolding traces_ok_def by blast
qed

lemma known_legal:
  assumes "queue_legal A (db_queue (w_db w)) (db_queue (w_db w'))" "known row w"
  shows "known row w'"
  using assms legal_forward row_evolves_frozen unfolding known_def by metis

lemma flying_legal:
  assumes "queue_legal A (db_queue (w_db w)) (db_queue (w_db w'))" "flying row w"
    and "\<And>r r'. A r r' \<Longrightarrow> phase r \<noteq> Ph_in_flight"
  shows "flying row w'"
proof -
  from assms(2) obtain r where r: "r \<in> set (db_queue (w_db w))" "frozen r = frozen row" "phase r = Ph_in_flight"
    by (auto simp: flying_def)
  from legal_forward [OF assms(1) r(1)] obtain r' where "r' \<in> set (db_queue (w_db w'))" "row_evolves A r r'"
    by blast
  then show ?thesis using r assms(3) by (auto simp: row_evolves_def flying_def)
qed

lemma pc_ok_legal:
  assumes "queue_legal A (db_queue (w_db w)) (db_queue (w_db w'))" "w_tmux w' = w_tmux w"
    and "\<And>r r'. A r r' \<Longrightarrow> phase r \<noteq> Ph_in_flight"
    and "pc_ok pc w"
  shows "pc_ok pc w'"
  using assms(4) known_legal [OF assms(1)] flying_legal [OF assms(1) _ assms(3)]
  by (cases pc) (simp_all add: trace_same [OF assms(2)])

text \<open>Moves between the phases in which no call has been made.\<close>

definition quiet :: "(queue_row \<Rightarrow> queue_row \<Rightarrow> bool) \<Rightarrow> bool" where
  "quiet A \<longleftrightarrow> (\<forall>r r'. A r r' \<longrightarrow>
     phase r \<in> {Ph_queued} \<union> range Ph_blocked \<and> phase r' \<in> {Ph_queued, Ph_canceled} \<union> range Ph_blocked)"

lemma quiet_moves [simp]:
  "quiet (\<lambda>_ _. False)" "quiet (approves m)" "quiet (blocks m b)" "quiet (cancels m)"
  by (auto simp: quiet_def approves_def blocks_def cancels_def)

lemma quiet_world_moves:
  assumes "world_moves n A w w'" "quiet A" "traces_ok w" "pc_ok pc w" "audit_ok n (w_audit w) (w_db w)"
  shows "queue_wf (db_queue (w_db w')) \<and> traces_ok w' \<and> pc_ok pc w' \<and> audit_ok n (w_audit w') (w_db w')"
proof -
  have leg: "queue_legal A (db_queue (w_db w)) (db_queue (w_db w'))" and tm: "w_tmux w' = w_tmux w"
    and aud: "audit_ok n (w_audit w') (w_db w')"
    using assms(1,5) by (auto simp: world_moves_def)
  have "row_trace_ok r' t" if "A r r'" "row_trace_ok r t" for r r' t
    using assms(2) that by (fastforce simp: quiet_def row_trace_ok_def)
  then have "traces_ok w'" using traces_ok_legal [OF leg assms(3) tm] by blast
  moreover have "pc_ok pc w'"
    by (rule pc_ok_legal [OF leg tm _ assms(4)]) (use assms(2) in \<open>fastforce simp: quiet_def\<close>)
  ultimately show ?thesis using queue_legal_wf [OF leg] aud by simp
qed
subsection \<open>The worker keeps the invariant\<close>

lemma worker_inv_quiet:
  assumes "worker_inv n pc w" "world_moves n A w w'" "quiet A"
  shows "worker_inv n pc w'"
  using quiet_world_moves [OF assms(2,3)] assms(1) unfolding worker_inv_def by blast

lemma worker_inv_pc: "worker_inv n pc w \<Longrightarrow> pc_ok pc' w \<Longrightarrow> worker_inv n pc' w"
  by (simp add: worker_inv_def)

lemma worker_inv_same:
  assumes "worker_inv n pc w" "w_db w' = w_db w" "w_audit w' = w_audit w" "w_tmux w' = w_tmux w"
  shows "worker_inv n pc w'"
  by (rule worker_inv_quiet [OF assms(1) _ quiet_moves(1)])
     (use assms in \<open>auto simp: worker_inv_def intro: world_moves_refl\<close>)

lemma trace_log_tmux:
  "trace m (log_tmux row c res w) = trace m w @ (if mq_message_id row = m then [(c, res)] else [])"
  by (simp add: trace_def log_tmux_def)

lemma flying_log_tmux [simp]: "flying row' (log_tmux row c res w) = flying row' w"
  by (simp add: flying_def log_tmux_def)

lemma flying_row:
  assumes "flying row w" "queue_wf (db_queue (w_db w))" "r \<in> set (db_queue (w_db w))"
    "mq_message_id r = mq_message_id row"
  shows "phase r = Ph_in_flight \<and> frozen r = frozen row"
proof -
  from assms(1) obtain r0 where r0: "r0 \<in> set (db_queue (w_db w))" "frozen r0 = frozen row"
    "phase r0 = Ph_in_flight" by (auto simp: flying_def)
  have "r = r0"
    using assms(2-4) r0 frozenD(1) [OF r0(2)] by (auto simp: queue_wf_def distinct_map inj_on_def)
  then show ?thesis using r0 by simp
qed

text \<open>A tmux call for a row in flight, when the calls made so far allow it.\<close>

lemma worker_inv_call:
  assumes inv: "worker_inv n pc w" and fly: "flying row w"
    and att: "attempt_trace row (trace (mq_message_id row) w @ [(c, res)])"
    and pc': "pc_ok pc' (log_tmux row c res w)"
  shows "worker_inv n pc' (log_tmux row c res w)"
proof -
  have wf: "queue_wf (db_queue (w_db w))" and ok: "traces_ok w" using inv by (auto simp: worker_inv_def)
  have db: "w_db (log_tmux row c res w) = w_db w" "w_audit (log_tmux row c res w) = w_audit w"
    by (simp_all add: log_tmux_def)
  have "traces_ok (log_tmux row c res w)"
    unfolding traces_ok_def db trace_log_tmux
  proof (intro conjI ballI allI impI)
    fix r assume r: "r \<in> set (db_queue (w_db w))"
    show "row_trace_ok r (trace (mq_message_id r) w @
        (if mq_message_id row = mq_message_id r then [(c, res)] else []))"
    proof (cases "mq_message_id row = mq_message_id r")
      case True
      with flying_row [OF fly wf r] have f: "phase r = Ph_in_flight" "frozen r = frozen row" by auto
      then show ?thesis using True att frozen_traces(5) [OF f(2)] by (simp add: row_trace_ok_def)
    next
      case False
      then show ?thesis using ok r by (simp add: traces_ok_def)
    qed
  next
    fix m assume m: "m \<notin> mq_message_id ` set (db_queue (w_db w))"
    have "mq_message_id row \<in> mq_message_id ` set (db_queue (w_db w))"
      using fly frozenD(1) unfolding flying_def by (metis imageI)
    with m show "trace m w @ (if mq_message_id row = m then [(c, res)] else []) = []"
      using ok by (auto simp: traces_ok_def)
  qed
  then show ?thesis using inv pc' by (simp add: worker_inv_def db)
qed

lemma worker_inv_finish:
  assumes inv: "worker_inv n pc w" and mv: "world_moves n (finishes m tw) w w'"
    and del: "\<And>row. tw = Write_delivered \<Longrightarrow> row \<in> set (db_queue (w_db w)) \<Longrightarrow> mq_message_id row = m \<Longrightarrow>
      delivered_trace row (trace m w)"
  shows "worker_inv n Idle w'"
proof -
  have leg: "queue_legal (finishes m tw) (db_queue (w_db w)) (db_queue (w_db w'))"
    and tm: "w_tmux w' = w_tmux w" and aud: "audit_ok n (w_audit w') (w_db w')" and ok: "traces_ok w"
    using mv inv by (auto simp: world_moves_def worker_inv_def)
  have "traces_ok w'"
  proof (rule traces_ok_legal [OF leg ok tm])
    fix r r' assume r: "r \<in> set (db_queue (w_db w))" "finishes m tw r r'" "frozen r' = frozen r"
      "row_trace_ok r (trace (mq_message_id r) w)"
    then show "row_trace_ok r' (trace (mq_message_id r) w)"
      using del frozen_traces [OF r(3)]
      by (cases tw) (auto simp: finishes_def row_trace_ok_def)
  qed
  then show ?thesis using aud queue_legal_wf [OF leg] by (simp add: worker_inv_def)
qed

lemma pick_row_known:
  assumes "pick_row pr w = (Inr (Picked row), w')"
  shows "known row w'"
proof -
  from assms have "pick_next_ready_row (w_db w') = Some row"
    by (auto simp: pick_row_def split: prod.splits sum.splits if_splits option.splits)
  then have "row \<in> set (order_rows (filter ready (db_queue (w_db w'))))"
    by (auto simp: pick_next_ready_row_def split: list.splits)
  then show ?thesis by (auto simp: order_rows_def known_def)
qed

lemma pick_row_inv:
  assumes "worker_inv n Idle w" "pick_row pr w = (r, w')"
  shows "worker_inv n (pc_of r) w'"
proof -
  have "w_db w' = w_db w" "w_audit w' = w_audit w" "w_tmux w' = w_tmux w"
    using assms(2) by (auto simp: pick_row_def split: prod.splits sum.splits if_splits option.splits
        dest: check_enabled_keeps)
  then have "worker_inv n Idle w'" using worker_inv_same assms(1) by blast
  moreover have "r = Inr Idle \<or> (\<exists>e. r = Inl e) \<or> (\<exists>row. r = Inr (Picked row))"
    using assms(2) by (auto simp: pick_row_def split: prod.splits sum.splits if_splits option.splits)
  then have "pc_ok (pc_of r) w'" using assms(2) pick_row_known by (auto simp: pc_of_def)
  ultimately show ?thesis by (rule worker_inv_pc)
qed

lemma resolve_context_for: "resolve_context re row = Inr ctx \<Longrightarrow> ctx_for row ctx"
  by (auto simp: resolve_context_def ctx_for_def Let_def split: option.splits)

lemma recheck_row_inv:
  assumes "worker_inv n (Picked row) w" "recheck_row se re row w = (r, w')"
  shows "worker_inv n (pc_of r) w'"
proof -
  have db: "w_db w' = w_db w" "w_audit w' = w_audit w" "w_tmux w' = w_tmux w"
    using assms(2) by (auto simp: recheck_row_def split: prod.splits sum.splits option.splits
        dest: check_enabled_keeps)
  then have "worker_inv n (Picked row) w'" using worker_inv_same assms(1) by blast
  moreover have "known row w'" using assms(1) db(1) by (simp add: worker_inv_def known_def)
  then have "pc_ok (pc_of r) w'"
    using assms(2) resolve_context_for
    by (auto simp: recheck_row_def pc_of_def split: prod.splits sum.splits option.splits)
  ultimately show ?thesis by (rule worker_inv_pc)
qed

lemma stamp_row_inv:
  assumes inv: "worker_inv n (Ready row ctx) w" and run: "stamp_row busy ts row ctx w = (r, w')"
  shows "worker_inv n (pc_of r) w'"
proof -
  have wf: "queue_wf (db_queue (w_db w))" and ok: "traces_ok w" and kn: "known row w" "ctx_for row ctx"
    using inv by (auto simp: worker_inv_def)
  note mv = stamp_row_moves [OF wf run]
  have tr: "traces_ok w'"
    by (rule traces_ok_legal [OF mv(1) ok mv(2)])
       (auto simp: claims_def row_trace_ok_def intro: attempt_trace.intros)
  have aud: "audit_ok n (w_audit w') (w_db w')"
    using inv mv(3,4,5)
    by (simp add: worker_inv_def audit_ok_def audit_wf_def watermark_ok_def events_wf_def)
  have "pc_ok (pc_of r) w'"
  proof (cases "\<exists>row' ctx' body. r = Inr (Stamped row' ctx' body)")
    case False
    then show ?thesis using run by (auto simp: pc_of_def elim: stamp_row_pcs split: sum.splits)
  next
    case True
    then obtain row' ctx' body where r: "r = Inr (Stamped row' ctx' body)" by blast
    note s = stamp_row_success [OF wf run [unfolded r]]
    from s(3) obtain q q' where q: "q \<in> set (db_queue (w_db w))" "q' \<in> set (db_queue (w_db w'))"
      "mq_message_id q = mq_message_id row" "frozen q' = frozen q" "phase q' = Ph_in_flight"
      "body = mq_envelope_body q" "phase q = Ph_queued" by blast
    from kn(1) obtain q0 where q0: "q0 \<in> set (db_queue (w_db w))" "frozen q0 = frozen row"
      by (auto simp: known_def)
    have "q = q0"
      using wf q q0 frozenD(1) [OF q0(2)] by (auto simp: queue_wf_def distinct_map inj_on_def)
    then have f: "frozen q = frozen row" using q0 by simp
    have "row_trace_ok q (trace (mq_message_id row) w)" using ok q(1,3) by (auto simp: traces_ok_def)
    then have "trace (mq_message_id row) w' = []"
      using q(7) trace_same [OF mv(2)] by (simp add: row_trace_ok_def)
    moreover have "flying row w'" using q f by (auto simp: flying_def)
    ultimately show ?thesis using kn(2) q(6) frozenD(2) [OF f] s(1,2) by (simp add: r pc_of_def)
  qed
  then show ?thesis using tr aud queue_legal_wf [OF mv(1)] by (simp add: worker_inv_def)
qed

lemma delivered_flying:
  assumes "worker_inv n (Committing row body) w" "r \<in> set (db_queue (w_db w))"
    "mq_message_id r = mq_message_id row"
  shows "delivered_trace r (trace (mq_message_id row) w)"
proof -
  have "flying row w" "queue_wf (db_queue (w_db w))" "delivered_trace row (trace (mq_message_id row) w)"
    using assms(1) by (auto simp: worker_inv_def)
  with flying_row [OF this(1,2) assms(2,3)] show ?thesis using frozen_traces(4) [of r row] by simp
qed

lemma commit_delivered_lock:
  "commit_delivered se ce row body w = (Inr (Failing row' reason), w') \<Longrightarrow>
     w_db w' = w_db w \<and> row' = row"
  by (auto simp: commit_delivered_def transition_queued_to_delivered_def
      terminal_transition_from_in_flight_def split: sum.splits prod.splits if_splits)

lemma load_row_inv:
  assumes inv: "worker_inv n (Stamped row ctx body) w" and run: "load_row row ctx body res w = (pc', w')"
  shows "worker_inv n pc' w'"
proof -
  have pc: "flying row w" "ctx_for row ctx" "body = mq_envelope_body row" "trace (mq_message_id row) w = []"
    using inv by (auto simp: worker_inv_def)
  let ?c = "Load_buffer ctx (buffer_name row) body"
  have w': "w' = log_tmux row ?c res w" using run by (simp add: load_row_def)
  show ?thesis unfolding w'
  proof (rule worker_inv_call [OF inv pc(1)])
    show "attempt_trace row (trace (mq_message_id row) w @ [(?c, res)])"
      using attempt_trace.load_failed [OF pc(2)] attempt_trace.loaded [OF pc(2)] pc(3,4)
      by (cases res) (auto simp: loaded_trace_def)
    show "pc_ok pc' (log_tmux row ?c res w)"
      using run pc by (cases res) (auto simp: load_row_def trace_log_tmux loaded_trace_def)
  qed
qed

lemma paste_row_inv:
  assumes inv: "worker_inv n (Loaded row ctx body) w" and run: "paste_row row ctx body res w = (pc', w')"
  shows "worker_inv n pc' w'"
proof -
  have pc: "flying row w" "ctx_for row ctx" "trace (mq_message_id row) w = loaded_trace row ctx"
    using inv by (auto simp: worker_inv_def)
  let ?c = "Paste_buffer ctx (buffer_name row)"
  have w': "w' = log_tmux row ?c res w" using run by (simp add: paste_row_def)
  show ?thesis unfolding w'
  proof (rule worker_inv_call [OF inv pc(1)])
    show "attempt_trace row (trace (mq_message_id row) w @ [(?c, res)])"
      using attempt_trace.paste_failed [OF pc(2)] attempt_trace.pasted [OF pc(2)] pc(3)
      by (cases res) (auto simp: pasted_trace_def)
    show "pc_ok pc' (log_tmux row ?c res w)"
      using run pc by (cases res) (auto simp: paste_row_def trace_log_tmux pasted_trace_def)
  qed
qed

lemma submit_row_inv:
  assumes inv: "worker_inv n (Pasted row ctx body) w" and run: "submit_row row ctx body res w = (pc', w')"
  shows "worker_inv n pc' w'"
proof -
  have pc: "flying row w" "ctx_for row ctx" "trace (mq_message_id row) w = pasted_trace row ctx"
    using inv by (auto simp: worker_inv_def)
  let ?c = "Send_keys ctx ''Enter''"
  have w': "w' = log_tmux row ?c res w" using run by (simp add: submit_row_def)
  show ?thesis unfolding w'
  proof (rule worker_inv_call [OF inv pc(1)])
    show "attempt_trace row (trace (mq_message_id row) w @ [(?c, res)])"
      using attempt_trace.submit_failed [OF pc(2)] attempt_trace.submitted [OF pc(2)] pc(3)
      by (cases res) (auto simp: submitted_trace_def)
    show "pc_ok pc' (log_tmux row ?c res w)"
      using run pc by (cases res) (auto simp: submit_row_def trace_log_tmux submitted_trace_def)
  qed
qed

lemma delete_row_inv:
  assumes inv: "worker_inv n (Submitted row ctx body) w" and run: "delete_row row ctx body res w = (pc', w')"
  shows "worker_inv n pc' w'"
proof -
  have pc: "flying row w" "ctx_for row ctx" "trace (mq_message_id row) w = submitted_trace row ctx"
    using inv by (auto simp: worker_inv_def)
  let ?c = "Delete_buffer ctx (buffer_name row)"
  have w': "w' = log_tmux row ?c res w" "pc' = Committing row body" using run by (auto simp: delete_row_def)
  have d: "delivered_trace row (trace (mq_message_id row) w @ [(?c, res)])"
    using pc by (auto simp: delivered_trace_def)
  show ?thesis unfolding w'
    by (rule worker_inv_call [OF inv pc(1)])
       (use d pc(1) in \<open>auto simp: trace_log_tmux intro: attempt_trace.completed\<close>)
qed

lemma cleanup_row_inv:
  assumes inv: "worker_inv n (Cleanup row ctx reason) w"
    and run: "cleanup_row row ctx reason res w = (pc', w')"
  shows "worker_inv n pc' w'"
proof -
  let ?c = "Delete_buffer ctx (buffer_name row)"
  obtain e where pc: "flying row w" "ctx_for row ctx"
    "trace (mq_message_id row) w = loaded_trace row ctx @ [(Paste_buffer ctx (buffer_name row), Tmux_error e)] \<or>
     trace (mq_message_id row) w = pasted_trace row ctx @ [(Send_keys ctx ''Enter'', Tmux_error e)]"
    using inv by (auto simp: worker_inv_def)
  have w': "w' = log_tmux row ?c res w" "pc' = Failing row reason" using run by (auto simp: cleanup_row_def)
  have "attempt_trace row (trace (mq_message_id row) w @ [(?c, res)])"
    using pc(3) attempt_trace.paste_failed_cleaned [OF pc(2)] attempt_trace.submit_failed_cleaned [OF pc(2)]
    by auto
  then show ?thesis unfolding w' by (rule worker_inv_call [OF inv pc(1)]) (use pc(1) in simp)
qed

lemma commit_delivered_inv:
  assumes inv: "worker_inv n (Committing row body) w" and n: "se_max_pending se = n"
    and run: "commit_delivered se ce row body w = (r, w')"
  shows "worker_inv n (pc_of r) w'"
proof -
  have fly: "flying row w" and wf: "queue_wf (db_queue (w_db w))" using inv by (auto simp: worker_inv_def)
  have idle: "worker_inv n Idle w'"
    by (rule worker_inv_finish [OF inv commit_delivered_moves [OF wf run, unfolded n]])
       (use delivered_flying [OF inv] in auto)
  have "pc_ok (pc_of r) w'"
  proof (cases "\<exists>row' reason. r = Inr (Failing row' reason)")
    case True
    then show ?thesis using run fly commit_delivered_lock
      by (fastforce simp: pc_of_def flying_def)
  next
    case False
    then show ?thesis using run by (cases r) (auto simp: pc_of_def elim: commit_delivered_pcs)
  qed
  with idle show ?thesis by (rule worker_inv_pc)
qed

lemma block_row_inv:
  assumes inv: "worker_inv n (Block row reason) w" and n: "se_max_pending se = n"
    and run: "transition_to_blocked_re_check se ce row reason w = (r, w')"
  shows "worker_inv n Idle w'"
proof -
  have "queue_wf (db_queue (w_db w))" using inv by (simp add: worker_inv_def)
  from worker_inv_quiet [OF inv block_moves [OF this run, unfolded n]]
  have "worker_inv n (Block row reason) w'" by simp
  then show ?thesis by (rule worker_inv_pc) simp
qed

lemma failing_row_inv:
  assumes inv: "worker_inv n (Failing row reason) w" and n: "se_max_pending se = n"
    and run: "transition_to_failed se ce row reason w = (r, w')"
  shows "worker_inv n Idle w'"
proof -
  have "queue_wf (db_queue (w_db w))" using inv by (simp add: worker_inv_def)
  from worker_inv_finish [OF inv failed_moves [OF this run, unfolded n]] show ?thesis by simp
qed

lemma dw_step_inv:
  assumes "dw_step n (pc, w) (pc', w')" "worker_inv n pc w"
  shows "worker_inv n pc' w'"
  using assms(1)
proof (cases rule: dw_step.cases)
  case pick
  then show ?thesis using pick_row_inv assms(2) by blast
next
  case recheck
  then show ?thesis using recheck_row_inv assms(2) by blast
next
  case block
  then show ?thesis using block_row_inv assms(2) by blast
next
  case stamp
  then show ?thesis using stamp_row_inv assms(2) by blast
next
  case load
  then show ?thesis using load_row_inv assms(2) by blast
next
  case paste
  then show ?thesis using paste_row_inv assms(2) by blast
next
  case submit
  then show ?thesis using submit_row_inv assms(2) by blast
next
  case delete
  then show ?thesis using delete_row_inv assms(2) by blast
next
  case cleanup
  then show ?thesis using cleanup_row_inv assms(2) by blast
next
  case failing
  then show ?thesis using failing_row_inv assms(2) by blast
next
  case commit
  then show ?thesis using commit_delivered_inv assms(2) by blast
qed

subsection \<open>The invariant of the system\<close>

lemma approve_read_keeps:
  assumes "approve_read m w = (r, w')"
  shows "w_db w' = w_db w" "w_audit w' = w_audit w" "w_tmux w' = w_tmux w"
  using assms
  by (auto simp: approve_read_def check_approve_applicable_def split: option.splits if_splits
      prod.splits sum.splits bool.splits dest: check_enabled_keeps)

lemma init_inv: "system_init s \<Longrightarrow> system_inv n s"
  by (simp add: system_init_def system_inv_def worker_inv_def queue_wf_def traces_ok_def trace_def
      audit_ok_def audit_wf_def watermark_ok_def events_wf_def empty_audit_def)

lemma crash_inv:
  assumes "worker_inv n pc w"
  shows "worker_inv n Idle (crash_world w)"
  using assms
  by (simp add: worker_inv_def crash_world_def traces_ok_def trace_def audit_ok_def audit_wf_def
      watermark_ok_def jsonl_ids_def)

lemma recovery_inv:
  assumes inv: "worker_inv n Idle w" and n: "se_max_pending se = n"
    and run: "run_recovery_pass se busy ts je we w = (res, w')"
  shows "worker_inv n Idle w'"
proof -
  have wf: "queue_wf (db_queue (w_db w))" and ok: "traces_ok w"
    and aud: "audit_ok (se_max_pending se) (w_audit w) (w_db w)"
    using inv n by (auto simp: worker_inv_def)
  note mv = recovery_moves [OF wf run aud]
  have "traces_ok w'"
  proof (rule traces_ok_legal [OF mv(1) ok mv(2)])
    fix r r' t assume r: "interrupts r r'" "frozen r' = frozen r"
      "row_trace_ok r (trace (mq_message_id r) w)"
    then show "row_trace_ok r' (trace (mq_message_id r) w)"
      using frozen_traces(5) [OF r(2)] by (simp add: interrupts_def row_trace_ok_def)
  qed
  then show ?thesis using queue_legal_wf [OF mv(1)] mv(3) n by (simp add: worker_inv_def)
qed

lemma drain_keeps:
  assumes "drain_pending je we (a, d) = (k, a', d')"
  shows "db_queue d' = db_queue d" "map ev_event_id (db_events d') = map ev_event_id (db_events d)"
    "db_next_event_id d' = db_next_event_id d"
proof -
  from assms obtain p j x where l: "drain_loop je we 0 (au_pending a) (au_jsonl a)
      (au_degraded_exc_class a) d = (k, p, j, x, d')"
    by (auto simp: drain_pending_def split: prod.splits)
  show "db_queue d' = db_queue d" "db_next_event_id d' = db_next_event_id d"
    using drain_loop_keeps [OF l] by simp_all
  have "map ev_event_id (db_events d') = map ev_event_id (db_events d)"
    if "drain_loop je we i ps js deg d = (k, p, j, x, d')" for i ps js deg d k
    using that
    by (induction ps arbitrary: i js deg d k)
       (auto simp: Let_def map_ids_mark_jsonl_appended split: prod.splits if_splits)
  then show "map ev_event_id (db_events d') = map ev_event_id (db_events d)" using l by blast
qed

lemma drain_inv:
  assumes "worker_inv n pc w" "drain_pending je we (w_audit w, w_db w) = (k, a, d)"
  shows "worker_inv n pc (w\<lparr>w_audit := a, w_db := d\<rparr>)"
proof -
  note k = drain_keeps [OF assms(2)]
  have "events_wf d"
    using assms(1) k(2,3) by (simp add: worker_inv_def audit_ok_def events_wf_ids)
  moreover have "audit_wf n (a, d) \<and> watermark_ok (a, d)"
    using drain_audit_wf [OF _ _ assms(2)] assms(1) unfolding worker_inv_def audit_ok_def by blast
  ultimately have "audit_ok n a d" by (simp add: audit_ok_def)
  moreover have "traces_ok (w\<lparr>w_audit := a, w_db := d\<rparr>)"
    using assms(1) k(1) by (simp add: worker_inv_def traces_ok_def trace_def)
  moreover have "pc_ok pc (w\<lparr>w_audit := a, w_db := d\<rparr>)"
    by (rule pc_ok_legal [of "\<lambda>_ _. False" w])
       (use assms(1) k(1) in \<open>auto simp: worker_inv_def\<close>)
  ultimately show ?thesis using assms(1) k(1) by (simp add: worker_inv_def)
qed

lemma worker_inv_wf: "worker_inv n pc w \<Longrightarrow> queue_wf (db_queue (w_db w))"
  by (simp add: worker_inv_def)

lemma step_inv:
  assumes "system_step n s t" "system_inv n s"
  shows "system_inv n t"
  using assms(1)
proof (cases rule: system_step.cases)
  have inv: "worker_inv n (sy_pc s) (sy_world s)" and wf: "queue_wf (db_queue (w_db (sy_world s)))"
    using assms(2) by (auto simp: system_inv_def worker_inv_def)
  note q = worker_inv_quiet [OF inv] and m = quiet_moves
  have I: "system_inv n (s\<lparr>sy_world := w', sy_requests := rs\<rparr>)"
    if "worker_inv n (sy_pc s) w'" for w' rs
    using that assms(2) by (simp add: system_inv_def)
  have I0: "system_inv n (s\<lparr>sy_world := w'\<rparr>)" if "worker_inv n (sy_pc s) w'" for w'
    using that assms(2) by (simp add: system_inv_def)
  {
    case send
    then show ?thesis using enqueue_message_moves [OF wf] q [OF _ m(1)] I0 by blast
  next
    case approve_begin
    then show ?thesis using approve_read_keeps worker_inv_same [OF inv] I by blast
  next
    case approve_refused
    then show ?thesis using approve_read_keeps worker_inv_same [OF inv] I0 by blast
  next
    case approve_end
    then show ?thesis using approve_commit_moves [OF wf] q [OF _ m(2)] I by blast
  next
    case delay_begin
    then show ?thesis using assms(2) by (simp add: system_inv_def)
  next
    case delay_end
    then show ?thesis using delay_commit_moves [OF wf] q [OF _ m(3)] I by blast
  next
    case cancel_begin
    then show ?thesis using assms(2) by (simp add: system_inv_def)
  next
    case cancel_end
    then show ?thesis using cancel_commit_moves [OF wf] q [OF _ m(4)] I by blast
  next
    case toggle
    then show ?thesis using routing_toggle_moves [OF wf] q [OF _ m(1)] I0 by blast
  next
    case drain
    then show ?thesis using drain_inv [OF inv] I0 by blast
  next
    case worker
    then show ?thesis using dw_step_inv [OF _ inv] by (simp add: system_inv_def)
  next
    case crash
    then show ?thesis using crash_inv [OF inv] by (simp add: system_inv_def)
  next
    case boot
    then show ?thesis using recovery_inv assms(2) by (auto simp: system_inv_def)
  next
    case boot_failed
    then show ?thesis using recovery_inv assms(2) by (auto simp: system_inv_def)
  }
qed

lemma reachable_inv: "reachable n s \<Longrightarrow> system_inv n s"
  by (induction rule: reach_invariant) (auto intro: init_inv step_inv)

subsection \<open>Consequences for the tmux calls\<close>

fun is_paste :: "tmux_call \<Rightarrow> bool" where
  "is_paste (Paste_buffer _ _) = True"
| "is_paste _ = False"

lemma attempt_trace_pastes:
  assumes "attempt_trace row t"
  shows "length (filter (\<lambda>e. is_paste (fst e)) t) \<le> 1"
  using assms by (cases rule: attempt_trace.cases) (auto simp: trace_defs)

lemma attempt_trace_paste_prefix:
  assumes "attempt_trace row t" "(Paste_buffer ctx b, res) \<in> set t"
  shows "ctx_for row ctx \<and> b = buffer_name row \<and>
    take 2 t = [(Load_buffer ctx b (mq_envelope_body row), Tmux_ok), (Paste_buffer ctx b, res)]"
  using assms by (cases rule: attempt_trace.cases) (auto simp: trace_defs)

lemma row_trace_attempt: "row_trace_ok row t \<Longrightarrow> attempt_trace row t"
  by (auto simp: row_trace_ok_def intro: attempt_trace.no_call attempt_trace.completed
      split: msg_phase.splits)

lemma trace_attempt:
  assumes "system_inv n s" "trace m (sy_world s) \<noteq> []"
  shows "\<exists>row \<in> set (db_queue (w_db (sy_world s))). mq_message_id row = m \<and>
    attempt_trace row (trace m (sy_world s)) \<and> mq_delivery_attempt_started_at row \<noteq> None"
proof -
  have ok: "traces_ok (sy_world s)" and wf: "queue_wf (db_queue (w_db (sy_world s)))"
    using assms(1) by (auto simp: system_inv_def worker_inv_def)
  have "m \<in> mq_message_id ` set (db_queue (w_db (sy_world s)))"
    using ok assms(2) unfolding traces_ok_def by metis
  then obtain row where row: "row \<in> set (db_queue (w_db (sy_world s)))" "mq_message_id row = m"
    by auto
  then have r: "row_trace_ok row (trace m (sy_world s))" using ok by (auto simp: traces_ok_def)
  moreover have "mq_delivery_attempt_started_at row \<noteq> None"
    using r assms(2) queue_wf_row_ok [OF wf row(1)]
    by (cases "mq_state row") (auto simp: row_trace_ok_def phase_def row_ok_defs split: if_splits)
  ultimately show ?thesis using row row_trace_attempt by blast
qed

lemma in_trace_iff: "(c, res) \<in> set (trace m w) \<longleftrightarrow> (m, c, res) \<in> set (w_tmux w)"
  by (force simp: trace_def)

subsection \<open>Every step refines the specification\<close>

lemma step_legal:
  assumes "system_step n s t" "system_inv n s"
  shows "queue_legal spec_step (db_queue (w_db (sy_world s))) (db_queue (w_db (sy_world t)))"
  using assms(1)
proof (cases rule: system_step.cases)
  have inv: "worker_inv n (sy_pc s) (sy_world s)" and wf: "queue_wf (db_queue (w_db (sy_world s)))"
    using assms(2) by (auto simp: system_inv_def worker_inv_def)
  have leg: "queue_legal spec_step (db_queue (w_db w)) (db_queue (w_db w'))"
    if "world_moves k A w w'" "\<And>r r'. A r r' \<Longrightarrow> spec_step r r'" for k A w w'
    using that queue_legal_mono by (auto simp: world_moves_def)
  note T = transitions_spec_step
  have same: "queue_legal spec_step (db_queue (w_db (sy_world s))) (db_queue (w_db w'))"
    if "w_db w' = w_db (sy_world s)" for w'
    using wf that by simp
  {
    case send
    then show ?thesis using leg [OF enqueue_message_moves [OF wf, where A = "\<lambda>_ _. False"]] by simp
  next
    case approve_begin
    then show ?thesis using wf approve_read_keeps(1) by simp
  next
    case approve_refused
    then show ?thesis using wf approve_read_keeps(1) by simp
  next
    case approve_end
    then show ?thesis using leg [OF approve_commit_moves [OF wf] T(4)] by simp
  next
    case delay_begin
    then show ?thesis using wf by simp
  next
    case delay_end
    then show ?thesis using leg [OF delay_commit_moves [OF wf] T(3)] by simp
  next
    case cancel_begin
    then show ?thesis using wf by simp
  next
    case cancel_end
    then show ?thesis using leg [OF cancel_commit_moves [OF wf] T(5)] by simp
  next
    case toggle
    then show ?thesis using leg [OF routing_toggle_moves [OF wf, where A = "\<lambda>_ _. False"]] by simp
  next
    case drain
    then show ?thesis using drain_keeps(1) wf by simp
  next
    case (worker pc' w')
    from worker(3) have "queue_legal spec_step (db_queue (w_db (sy_world s))) (db_queue (w_db w'))"
    proof (cases rule: dw_step.cases)
      case pick
      then show ?thesis using same
        by (auto simp: pick_row_def split: prod.splits sum.splits if_splits option.splits
            dest: check_enabled_keeps)
    next
      case recheck
      then show ?thesis using same
        by (auto simp: recheck_row_def split: prod.splits sum.splits option.splits
            dest: check_enabled_keeps)
    next
      case block
      then show ?thesis using leg [OF block_moves [OF wf] T(3)] by simp
    next
      case stamp
      then show ?thesis using queue_legal_mono [OF stamp_row_moves(1) [OF wf] T(1)] by simp
    next
      case failing
      then show ?thesis using leg [OF failed_moves [OF wf] T(2)] by simp
    next
      case commit
      then show ?thesis using leg [OF commit_delivered_moves [OF wf] T(2)] by simp
    qed (auto intro!: same simp: load_row_def paste_row_def submit_row_def delete_row_def
        cleanup_row_def log_tmux_def)
    then show ?thesis using worker by simp
  next
    case crash
    then show ?thesis using wf by (simp add: crash_world_def)
  next
    case boot
    then show ?thesis
      using queue_legal_mono [OF recovery_moves(1) [OF wf] T(6)] inv by (simp add: worker_inv_def)
  next
    case boot_failed
    then show ?thesis
      using queue_legal_mono [OF recovery_moves(1) [OF wf] T(6)] inv by (simp add: worker_inv_def)
  }
qed

lemma legal_terminal_kept:
  assumes "queue_legal spec_step rows rows'" "row \<in> set rows" "terminal (mq_state row)"
  shows "row \<in> set rows'"
proof -
  from legal_forward [OF assms(1,2)] obtain row' where r: "row' \<in> set rows'" "row_evolves spec_step row row'"
    by blast
  have "mq_state row = Delivered \<or> mq_state row = Failed \<or> mq_state row = Canceled"
    using assms(3) terminal_iff by blast
  then have "\<not> spec_step row row'" by (elim disjE; simp add: spec_step_def phase_def [of row])
  with r show ?thesis by (auto simp: row_evolves_def)
qed

subsection \<open>Worker paths inside the system\<close>

lemma worker_path_reachable:
  assumes "dw_path n (pc, w) (pc', w')"
    and "reachable n (s\<lparr>sy_world := w, sy_pc := pc\<rparr>)" "sy_up s"
  shows "reachable n (s\<lparr>sy_world := w', sy_pc := pc'\<rparr>)"
  using assms(1)
proof (induction "(pc', w')" arbitrary: pc' w' rule: rtranclp_induct)
  case base
  then show ?case using assms(2) by simp
next
  case (step y)
  obtain pc1 w1 where y: "y = (pc1, w1)" by fastforce
  have "system_step n (s\<lparr>sy_world := w1, sy_pc := pc1\<rparr>) (s\<lparr>sy_world := w', sy_pc := pc'\<rparr>)"
    using system_step.worker [of "s\<lparr>sy_world := w1, sy_pc := pc1\<rparr>" n pc' w'] step(2) y assms(3) by simp
  then show ?case using step(3) [OF y] by (auto intro: reach_step)
qed

lemma loop_iteration_reachable:
  assumes "reachable n s" "sy_up s" "sy_pc s = Idle" "se_max_pending se = n"
    and run: "run_loop_once se de je we pr (sy_world s) = (r, w')"
  shows "reachable n (s\<lparr>sy_world := w'\<rparr>)"
proof -
  obtain k a d where dr: "drain_pending je we (w_audit (sy_world s), w_db (sy_world s)) = (k, a, d)"
    by (metis prod_cases3)
  define w0 where "w0 = (sy_world s)\<lparr>w_audit := a, w_db := d\<rparr>"
  have r0: "reachable n (s\<lparr>sy_world := w0\<rparr>)"
    unfolding w0_def by (rule reach_step [OF assms(1) system_step.drain [OF assms(2,3) dr]])
  obtain p w1 where pk: "pick_row pr w0 = (p, w1)" by fastforce
  have step1: "dw_path n (Idle, w0) (pc_of p, w1)" using dw_step.pick [OF pk] by blast
  have "p = Inr Idle \<or> (\<exists>e. p = Inl e) \<or> (\<exists>row. p = Inr (Picked row))"
    using pk by (auto simp: pick_row_def split: prod.splits sum.splits if_splits option.splits)
  then have "dw_path n (Idle, w0) (Idle, w')"
  proof (elim disjE exE)
    fix row assume p: "p = Inr (Picked row)"
    have "snd (deliver_one se de row w1) = w'"
      using run by (simp add: run_loop_once_def dr w0_def [symmetric] pk p)
    then have "dw_path n (Picked row, w1) (Idle, w')"
      by (intro deliver_one_path [OF assms(4)]) (auto intro: prod.collapse [symmetric])
    then show ?thesis using step1 by (simp add: p pc_of_def)
  qed (use run step1 in \<open>simp_all add: run_loop_once_def dr w0_def [symmetric] pk pc_of_def\<close>)
  moreover have idle: "s\<lparr>sy_world := v, sy_pc := Idle\<rparr> = s\<lparr>sy_world := v\<rparr>" for v
    using assms(3) by (cases s) simp
  ultimately show ?thesis
    using worker_path_reachable [of n Idle w0 Idle w' s] r0 assms(2) by (simp add: idle)
qed

end
