(* ===== verification/Queue_Contract.thy ===== *)
theory Queue_Contract
  imports Queue_Dao "HOL-Library.Multiset"
begin

text \<open>
  What the operations of \<open>MessageQueueDao\<close> (\<open>routing/dao.py\<close>) promise, as equations: the operator and
  worker transitions against specifications on the phase of the message, atomicity of every write
  with its audit callback, the order of the ready queue and of listings.
\<close>

subsection \<open>Outcomes of the operator transitions\<close>

text \<open>
  The contract of the operator actions on a phase: the error code they refuse with, or nothing.
\<close>

fun operator_refusal :: "operator_action \<Rightarrow> msg_phase \<Rightarrow> string option" where
  "operator_refusal _ Ph_in_flight = Some ''delivery_in_progress''"
| "operator_refusal _ Ph_delivered = Some ''terminal_state_cannot_change''"
| "operator_refusal _ (Ph_failed _) = Some ''terminal_state_cannot_change''"
| "operator_refusal _ Ph_canceled = Some ''terminal_state_cannot_change''"
| "operator_refusal Act_approved Ph_queued = Some ''approval_not_applicable''"
| "operator_refusal Act_delayed (Ph_blocked _) = Some ''delay_not_applicable''"
| "operator_refusal _ _ = None"

fun operator_update :: "operator_action \<Rightarrow> string \<Rightarrow> timestamp \<Rightarrow> queue_row \<Rightarrow> queue_row" where
  "operator_update Act_approved operator ts = operator_write operator ts Blocked Queued Act_approved None"
| "operator_update Act_delayed operator ts =
     operator_write operator ts Queued Blocked Act_delayed (Some Operator_delayed)"
| "operator_update Act_canceled operator ts = cancel_write operator ts"

text \<open>What the actions do: refuse, or update the one row and run the callback, all or nothing.\<close>

definition operator_spec ::
  "operator_action \<Rightarrow> string \<Rightarrow> string \<Rightarrow> timestamp \<Rightarrow> 'p tx \<Rightarrow> 'p tx" where
  "operator_spec act m operator ts cb d =
     (case mq_select m d of
        None \<Rightarrow> Inl (QueueServiceError ''message_id_not_found'')
      | Some r \<Rightarrow>
          (case operator_refusal act (phase r) of
             Some code \<Rightarrow> Inl (QueueServiceError code)
           | None \<Rightarrow> cb (d\<lparr>db_queue :=
               update_where (\<lambda>r'. mq_message_id r' = m) (operator_update act operator ts) (db_queue d)\<rparr>)))"

lemma update_or_raise_row:
  assumes wf: "queue_wf (db_queue d)" and sel: "mq_select m d = Some r"
    and "p r" "\<And>r'. r' \<in> set (db_queue d) \<Longrightarrow> p r' \<Longrightarrow> mq_message_id r' = m" "queue_row_checks (f r)"
  shows "update_or_raise p f e cb d = cb (d\<lparr>db_queue := update_where (\<lambda>r'. mq_message_id r' = m) f (db_queue d)\<rparr>)"
proof -
  have r: "r \<in> set (db_queue d)" "mq_message_id r = m" using mq_select_SomeD [OF sel] by auto
  have p: "p r' \<longleftrightarrow> mq_message_id r' = m" if "r' \<in> set (db_queue d)" for r'
    using mq_select_same [OF wf sel that] assms(3) assms(4) [OF that] by auto
  have "update_where p f (db_queue d) = update_where (\<lambda>r'. mq_message_id r' = m) f (db_queue d)"
    using p by (simp add: update_where_def)
  moreover have "rowcount p (db_queue d) \<noteq> 0"
    using r assms(3) by (auto simp: rowcount_def filter_empty_conv)
  moreover have "\<forall>r' \<in> set (db_queue d). p r' \<longrightarrow> queue_row_checks (f r')"
    using p mq_select_same [OF wf sel] assms(5) by blast
  ultimately show ?thesis by (simp add: update_or_raise_def tx_bind_def mq_update_def list_all_iff)
qed

lemma operator_write_checks:
  assumes "queue_row_ok r"
  shows "mq_state r = Blocked \<Longrightarrow> queue_row_checks (operator_write operator ts Blocked Queued Act_approved None r)"
    and "ready r \<Longrightarrow>
      queue_row_checks (operator_write operator ts Queued Blocked Act_delayed (Some Operator_delayed) r)"
    and "mq_state r = Blocked \<or> ready r \<Longrightarrow> queue_row_checks (cancel_write operator ts r)"
  using assms by (auto simp: row_ok_defs operator_write_def cancel_write_def ready_def)

lemma precheck_None: "mq_select m d = None \<Longrightarrow>
    operator_precheck m k d = Inl (QueueServiceError ''message_id_not_found'')"
  by (simp add: operator_precheck_def)

lemma precheck_Some: "mq_select m d = Some r \<Longrightarrow>
    operator_precheck m k d =
      (if terminal (mq_state r) then Inl (QueueServiceError ''terminal_state_cannot_change'')
       else if in_flight r then Inl (QueueServiceError ''delivery_in_progress'') else k r d)"
  by (simp add: operator_precheck_def)

lemma phase_cases:
  assumes "queue_row_ok r"
  obtains (terminal) "terminal (mq_state r)" "operator_refusal act (phase r) = Some ''terminal_state_cannot_change''"
  | (flight) "\<not> terminal (mq_state r)" "in_flight r" "phase r = Ph_in_flight"
  | (queued) "\<not> terminal (mq_state r)" "\<not> in_flight r" "mq_state r = Queued" "ready r" "phase r = Ph_queued"
  | (blocked) b where "\<not> terminal (mq_state r)" "\<not> in_flight r" "mq_state r = Blocked" "phase r = Ph_blocked b"
proof (cases "mq_state r")
  case Queued
  show thesis
  proof (cases "in_flight r")
    case True
    then show thesis using flight in_flight_phase [OF assms] Queued by (simp add: terminal_iff)
  next
    case False
    then show thesis
      using queued not_in_flight_ready [OF assms] ready_phase Queued by (simp add: terminal_iff)
  qed
next
  case Blocked
  then have "\<not> in_flight r" using in_flight_phase [OF assms] by (simp add: phase_def)
  then show thesis using blocked Blocked by (simp add: terminal_iff phase_def)
qed (use terminal in \<open>simp_all add: terminal_iff phase_def\<close>)

lemma approve_body:
  assumes wf: "queue_wf (db_queue d)"
  shows "operator_precheck m
        (\<lambda>row. if mq_state row \<noteq> Blocked
           then tx_raise (QueueServiceError (not_applicable_code Act_approved))
           else update_or_raise (\<lambda>r. mq_message_id r = m \<and> mq_state r = Blocked)
             (operator_write operator ts Blocked Queued Act_approved None)
             (QueueServiceError (not_applicable_code Act_approved)) cb) d =
    operator_spec Act_approved m operator ts cb d"
proof (cases "mq_select m d")
  case None
  then show ?thesis by (simp add: precheck_None operator_spec_def)
next
  case (Some r)
  have ok: "queue_row_ok r" and id: "mq_message_id r = m"
    using mq_select_SomeD [OF Some] queue_wf_row_ok [OF wf] by auto
  show ?thesis
    using ok
  proof (cases rule: phase_cases [where act = Act_approved])
    case (blocked b)
    then show ?thesis
      using id operator_write_checks(1) [OF ok] 
      by (simp add: Some precheck_Some operator_spec_def) (rule update_or_raise_row [OF wf Some]; simp)
  qed (simp_all add: Some precheck_Some operator_spec_def)
qed

lemma delay_body:
  assumes wf: "queue_wf (db_queue d)"
  shows "operator_precheck m
        (\<lambda>row. if mq_state row \<noteq> Queued
           then tx_raise (QueueServiceError (not_applicable_code Act_delayed))
           else update_or_raise (\<lambda>r. mq_message_id r = m \<and> mq_state r = Queued)
             (operator_write operator ts Queued Blocked Act_delayed (Some Operator_delayed))
             (QueueServiceError (not_applicable_code Act_delayed)) cb) d =
    operator_spec Act_delayed m operator ts cb d"
proof (cases "mq_select m d")
  case None
  then show ?thesis by (simp add: precheck_None operator_spec_def)
next
  case (Some r)
  have ok: "queue_row_ok r" and id: "mq_message_id r = m"
    using mq_select_SomeD [OF Some] queue_wf_row_ok [OF wf] by auto
  show ?thesis
    using ok
  proof (cases rule: phase_cases [where act = Act_delayed])
    case queued
    then show ?thesis
      using id operator_write_checks(2) [OF ok]
      by (simp add: Some precheck_Some operator_spec_def) (rule update_or_raise_row [OF wf Some]; simp)
  qed (simp_all add: Some precheck_Some operator_spec_def)
qed

lemma cancel_body:
  assumes wf: "queue_wf (db_queue d)"
  shows "operator_precheck m
          (\<lambda>_. update_or_raise
             (\<lambda>r. mq_message_id r = m \<and> (mq_state r = Queued \<or> mq_state r = Blocked))
             (cancel_write operator ts) (QueueServiceError ''message_id_not_found'') cb) d =
    operator_spec Act_canceled m operator ts cb d"
proof (cases "mq_select m d")
  case None
  then show ?thesis by (simp add: precheck_None operator_spec_def)
next
  case (Some r)
  have ok: "queue_row_ok r" and id: "mq_message_id r = m"
    using mq_select_SomeD [OF Some] queue_wf_row_ok [OF wf] by auto
  show ?thesis
    using ok
  proof (cases rule: phase_cases [where act = Act_canceled])
    case queued
    then show ?thesis
      using id operator_write_checks(3) [OF ok]
      by (simp add: Some precheck_Some operator_spec_def) (rule update_or_raise_row [OF wf Some]; simp)
  next
    case blocked
    then show ?thesis
      using id operator_write_checks(3) [OF ok]
      by (simp add: Some precheck_Some operator_spec_def) (rule update_or_raise_row [OF wf Some]; simp)
  qed (simp_all add: Some precheck_Some operator_spec_def)
qed

definition atomic_with :: "'p tx \<Rightarrow> db \<Rightarrow> (exc + 'p) \<times> db \<Rightarrow> bool" where
  "atomic_with audit_callback d outcome \<longleftrightarrow>
     (case outcome of
        (Inl e, d') \<Rightarrow> d' = d
      | (Inr p, d') \<Rightarrow> hook_ran audit_callback p d d')"

lemma atomic_withI:
  assumes "\<And>e d1. outcome = (Inl e, d1) \<Longrightarrow> d1 = d"
    and "\<And>p d1. outcome = (Inr p, d1) \<Longrightarrow> hook_ran cb p d d1"
  shows "atomic_with cb d outcome"
  using assms by (cases outcome; cases "fst outcome") (auto simp: atomic_with_def)

lemma locked_tx_atomic:
  assumes "\<And>p d'. body d = Inr (p, d') \<Longrightarrow> hook_ran cb p d d'"
  shows "atomic_with cb d (locked_tx busy body d)"
  by (rule atomic_withI) (auto intro: assms)

text \<open>A table with one blocked and one queued row, to evaluate the transitions on.\<close>

definition example_table :: db where
  "example_table =
     (let master = \<lparr>id_agent_id = ''agt_0123456789ab'', id_label = ''boss'', id_role = ''master'',
                     id_capability = Some ''codex''\<rparr>;
          slave = \<lparr>id_agent_id = ''agt_ba9876543210'', id_label = ''worker-1'', id_role = ''slave'',
                    id_capability = None\<rparr>
      in \<lparr>db_queue =
            [new_queue_row ''m1'' Blocked (Some Operator_delayed) master slave ''c1'' ''%3'' [104] ''sha'' 99 ''t1''
               Direct None None,
             new_queue_row ''m2'' Queued None master slave ''c1'' ''%3'' [105] ''sha'' 99 ''t2'' Direct None None],
          db_events = [], db_next_event_id = 1, db_flag = None, db_routes = []\<rparr>)"

lemma example_table_wf: "queue_wf (db_queue example_table)"
  by code_simp

text \<open>
  C29: the operator contract. On a well-formed table, and with an audit callback that raises no lock
  error, \<open>approve\<close>, \<open>delay\<close> and \<open>cancel\<close> behave as \<open>operator_spec\<close> says: an unknown id, a message in
  flight, a terminal message and a message in the wrong phase are refused, each with its own code
  and without a change; otherwise exactly the row of that id is updated, no \<open>CHECK\<close> constraint can
  fail, and the update is kept only if the callback succeeds. A database that stays locked gives
  \<open>SqliteLockConflict\<close> and no change.
\<close>

theorem operator_transitions_meet_contract:
  assumes "queue_wf (db_queue d)" "\<And>d1 e. cb d1 = Inl e \<Longrightarrow> \<not> is_lock_error e"
  shows "transition_blocked_to_queued_approve busy m operator ts cb d =
      (if all_busy busy then (Inl SqliteLockConflict, d)
       else case operator_spec Act_approved m operator ts cb d of
              Inl e \<Rightarrow> (Inl e, d) | Inr (p, d') \<Rightarrow> (Inr p, d')) \<and>
    transition_queued_to_blocked_delay busy m operator ts cb d =
      (if all_busy busy then (Inl SqliteLockConflict, d)
       else case operator_spec Act_delayed m operator ts cb d of
              Inl e \<Rightarrow> (Inl e, d) | Inr (p, d') \<Rightarrow> (Inr p, d')) \<and>
    transition_to_canceled busy m operator ts cb d =
      (if all_busy busy then (Inl SqliteLockConflict, d)
       else case operator_spec Act_canceled m operator ts cb d of
              Inl e \<Rightarrow> (Inl e, d) | Inr (p, d') \<Rightarrow> (Inr p, d'))"
proof -
  have nl: "\<not> is_lock_error e" if "operator_spec act m operator ts cb d = Inl e" for act e
    using that assms(2) by (auto simp: operator_spec_def split: option.splits)
  show ?thesis
    unfolding transition_blocked_to_queued_approve_def transition_queued_to_blocked_delay_def
      operator_transition_def transition_to_canceled_def
    by (intro conjI; subst locked_tx_eq)
       (auto simp: approve_body [OF assms(1)] delay_body [OF assms(1)] cancel_body [OF assms(1)] dest: nl)
qed

theorem operator_transitions_meet_contract_witness:
  "queue_wf (db_queue example_table) \<and>
   (case operator_spec Act_approved ''m1'' ''op'' ''t9'' (tx_return ()) example_table of
      Inl e \<Rightarrow> False | Inr (p, d') \<Rightarrow>
        map mq_state (db_queue d') = [Queued, Queued] \<and>
        transition_blocked_to_queued_approve (\<lambda>_. False) ''m1'' ''op'' ''t9'' (tx_return ()) example_table
          = (Inr p, d'))"
proof -
  have "case operator_spec Act_approved ''m1'' ''op'' ''t9'' (tx_return ()) example_table of
      Inl e \<Rightarrow> False | Inr (p, d') \<Rightarrow> map mq_state (db_queue d') = [Queued, Queued]" by code_simp
  then show ?thesis
    using operator_transitions_meet_contract [OF example_table_wf, of "tx_return ()" "\<lambda>_. False" "''m1''" "''op''" "''t9''"]
      example_table_wf
    by (simp split: sum.splits prod.splits)
qed

subsection \<open>Outcomes of the worker transitions\<close>

text \<open>
  The contract of the worker's updates: the row of the given id is updated if it is in the phase
  the update starts from, otherwise the call fails with the code and nothing changes.
\<close>

definition guarded_spec ::
  "string \<Rightarrow> msg_phase \<Rightarrow> (queue_row \<Rightarrow> queue_row) \<Rightarrow> string \<Rightarrow> 'p tx \<Rightarrow> 'p tx" where
  "guarded_spec m ph f code cb d =
     (case mq_select m d of
        None \<Rightarrow> Inl (QueueServiceError code)
      | Some r \<Rightarrow>
          if phase r = ph
          then cb (d\<lparr>db_queue := update_where (\<lambda>r'. mq_message_id r' = m) f (db_queue d)\<rparr>)
          else Inl (QueueServiceError code))"

lemma mq_select_None_iff: "mq_select m d = None \<longleftrightarrow> m \<notin> mq_message_id ` set (db_queue d)"
  by (auto simp: mq_select_def lookup_row_None_iff)

lemma guarded_update:
  assumes wf: "queue_wf (db_queue d)"
    and guard: "\<And>r. queue_row_ok r \<Longrightarrow> p r \<longleftrightarrow> mq_message_id r = m \<and> phase r = ph"
    and checks: "\<And>r. queue_row_ok r \<Longrightarrow> p r \<Longrightarrow> queue_row_checks (f r)"
  shows "update_or_raise p f (QueueServiceError code) cb d = guarded_spec m ph f code cb d"
proof (cases "\<exists>r \<in> set (db_queue d). p r")
  case True
  then obtain r where r: "r \<in> set (db_queue d)" "p r" by blast
  have ok: "queue_row_ok r" using queue_wf_row_ok [OF wf r(1)] .
  obtain r0 where r0: "mq_select m d = Some r0"
    using r guard [OF ok] mq_select_None_iff [of m d] by (cases "mq_select m d") auto
  with r guard [OF ok] have sel: "mq_select m d = Some r" using mq_select_same [OF wf r0] by auto
  have "update_or_raise p f (QueueServiceError code) cb d =
      cb (d\<lparr>db_queue := update_where (\<lambda>r'. mq_message_id r' = m) f (db_queue d)\<rparr>)"
    using r(2) guard queue_wf_row_ok [OF wf] checks [OF ok] by (intro update_or_raise_row [OF wf sel]) auto
  then show ?thesis using r(2) guard [OF ok] by (simp add: guarded_spec_def sel)
next
  case False
  then have "update_or_raise p f (QueueServiceError code) cb d = Inl (QueueServiceError code)"
    by (auto simp: update_or_raise_def tx_bind_def mq_update_def list_all_iff rowcount_def filter_empty_conv)
  moreover have "guarded_spec m ph f code cb d = Inl (QueueServiceError code)"
    using False guard queue_wf_row_ok [OF wf]
    by (auto simp: guarded_spec_def split: option.splits dest!: mq_select_SomeD)
  ultimately show ?thesis by simp
qed

text \<open>
  The worker contract. On a well-formed table the delivery stamp succeeds exactly on a queued
  message and the commit of \<open>delivered\<close> or \<open>failed\<close> exactly on a message in flight, each changing
  that row only; the re-check block succeeds exactly on a queued message. Everything else is
  refused without a change, so a canceled, delayed or already delivered message can never be
  stamped and a message can never be delivered without its stamp.
\<close>

lemma worker_transitions_meet_contract:
  assumes "queue_wf (db_queue d)" "\<not> all_busy busy" "\<And>d1 e. cb d1 = Inl e \<Longrightarrow> \<not> is_lock_error e"
  shows "stamp_delivery_attempt_started busy m ts d =
      (case guarded_spec m Ph_queued (\<lambda>r. r\<lparr>mq_delivery_attempt_started_at := Some ts,
              mq_last_updated_at := ts\<rparr>) ''delivery_in_progress'' (tx_return ()) d of
         Inl e \<Rightarrow> (Inl e, d) | Inr (p, d') \<Rightarrow> (Inr p, d')) \<and>
    transition_queued_to_delivered busy m ts cb d =
      (case guarded_spec m Ph_in_flight (\<lambda>r. r\<lparr>mq_state := Delivered, mq_delivered_at := Some ts,
              mq_last_updated_at := ts\<rparr>) ''message_id_not_found'' cb d of
         Inl e \<Rightarrow> (Inl e, d) | Inr (p, d') \<Rightarrow> (Inr p, d')) \<and>
    transition_queued_to_failed busy m reason ts cb d =
      (case guarded_spec m Ph_in_flight (\<lambda>r. r\<lparr>mq_state := Failed, mq_failed_at := Some ts,
              mq_last_updated_at := ts, mq_failure_reason := Some reason\<rparr>) ''message_id_not_found'' cb d of
         Inl e \<Rightarrow> (Inl e, d) | Inr (p, d') \<Rightarrow> (Inr p, d')) \<and>
    transition_queued_to_blocked_re_check busy m br ts cb d =
      (case guarded_spec m Ph_queued (\<lambda>r. r\<lparr>mq_state := Blocked, mq_block_reason := Some br,
              mq_last_updated_at := ts\<rparr>) ''message_id_not_found'' cb d of
         Inl e \<Rightarrow> (Inl e, d) | Inr (p, d') \<Rightarrow> (Inr p, d'))"
proof -
  have wt: "write_terminal Write_delivered ts = (\<lambda>r. r\<lparr>mq_state := Delivered, mq_delivered_at := Some ts,
      mq_last_updated_at := ts\<rparr>)"
    "write_terminal (Write_failed reason) ts = (\<lambda>r. r\<lparr>mq_state := Failed, mq_failed_at := Some ts,
      mq_last_updated_at := ts, mq_failure_reason := Some reason\<rparr>)" by auto
  have nl: "\<not> is_lock_error e" if "guarded_spec m ph f code cb' d = Inl e"
    "\<And>d1 e. cb' d1 = Inl e \<Longrightarrow> \<not> is_lock_error e" for ph f code e and cb' :: "'q tx"
    using that by (auto simp: guarded_spec_def split: option.splits if_splits)
  have tx: "locked_tx busy body d = (case guarded_spec m ph f code cb' d of
      Inl e \<Rightarrow> (Inl e, d) | Inr (p, d') \<Rightarrow> (Inr p, d'))"
    if "body d = guarded_spec m ph f code cb' d" "\<And>d1 e. cb' d1 = Inl e \<Longrightarrow> \<not> is_lock_error e"
    for body ph f code and cb' :: "'q tx"
    by (subst locked_tx_eq) (use nl [of ph f code cb'] that assms(2) in auto)
  have fl: "(mq_message_id r = m \<and> mq_state r = Queued \<and> in_flight r) \<longleftrightarrow>
      mq_message_id r = m \<and> phase r = Ph_in_flight" if "queue_row_ok r" for r
    using in_flight_phase [OF that] in_flight_queued [OF that] by auto
  have ck: "queue_row_checks (write_terminal w ts r)" if "queue_row_ok r" "in_flight r" for w r
    using write_terminal_step(1) [OF that(1) in_flight_queued [OF that] that(2)]
    by (simp add: queue_row_ok_def)
  show ?thesis
    unfolding stamp_delivery_attempt_started_def transition_queued_to_delivered_def
      transition_queued_to_failed_def terminal_transition_from_in_flight_def
      transition_queued_to_blocked_re_check_def wt [symmetric]
  proof (intro conjI tx guarded_update [OF assms(1)])
    show "queue_row_checks (r\<lparr>mq_delivery_attempt_started_at := Some ts, mq_last_updated_at := ts\<rparr>)"
      if "queue_row_ok r" "mq_message_id r = m \<and> ready r" for r
      using stamp_step(1) that by (simp add: queue_row_ok_def)
    show "queue_row_checks (r\<lparr>mq_state := Blocked, mq_block_reason := Some br, mq_last_updated_at := ts\<rparr>)"
      if "queue_row_ok r" "mq_message_id r = m \<and> ready r" for r
      using block_step(1) that by (simp add: queue_row_ok_def)
    show "queue_row_checks (write_terminal Write_delivered ts r)"
      "queue_row_checks (write_terminal (Write_failed reason) ts r)"
      if "queue_row_ok r" "mq_message_id r = m \<and> mq_state r = Queued \<and> in_flight r" for r
      using ck that by blast+
  qed (simp_all only: ready_phase fl assms(3) tx_return_simp sum.distinct not_False_eq_True)
qed

text \<open>
  Atomicity of the queue writes. Whatever the callback and the lock contention, a write that
  raises leaves the database as it found it, and a write that returns has committed exactly what its
  audit callback made of a database that differs from the old one in \<open>message_queue\<close> only: the
  transition and its audit row commit together or not at all.
\<close>

lemma dao_writes_atomic:
  "atomic_with cb d (insert_queued busy m s t c pn b sha n enq cb og rid eid d) \<and>
   atomic_with cb d (insert_blocked busy m s t c pn b sha n enq br cb og rid eid d) \<and>
   atomic_with cb d (transition_queued_to_delivered busy m ts cb d) \<and>
   atomic_with cb d (transition_queued_to_failed busy m reason ts cb d) \<and>
   atomic_with cb d (transition_queued_to_blocked_re_check busy m br ts cb d) \<and>
   atomic_with cb d (transition_blocked_to_queued_approve busy m operator ts cb d) \<and>
   atomic_with cb d (transition_queued_to_blocked_delay busy m operator ts cb d) \<and>
   atomic_with cb d (transition_to_canceled busy m operator ts cb d)"
  unfolding transition_queued_to_delivered_def transition_queued_to_failed_def
    transition_blocked_to_queued_approve_def transition_queued_to_blocked_delay_def
    insert_queued_def insert_blocked_def terminal_transition_from_in_flight_def
    transition_queued_to_blocked_re_check_def operator_transition_def transition_to_canceled_def
  by (intro conjI; rule locked_tx_atomic)
     (auto intro: insert_row_hook update_or_raise_hook elim!: operator_precheck_InrE split: if_splits)

text \<open>
  The worker takes the oldest ready message. \<open>pick_next_ready_row\<close> returns \<open>None\<close> exactly when no
  row is ready, and otherwise a ready row that no other ready row precedes in the order by enqueue
  time and then message id.
\<close>

lemma pick_is_oldest_ready:
  "case pick_next_ready_row d of
     None \<Rightarrow> filter ready (db_queue d) = []
   | Some r \<Rightarrow> r \<in> set (filter ready (db_queue d)) \<and>
       list_all (\<lambda>r'. (mq_enqueued_at r, mq_message_id r) \<le> (mq_enqueued_at r', mq_message_id r'))
         (filter ready (db_queue d))"
proof (cases "order_rows (filter ready (db_queue d))")
  case Nil
  then have "set (order_rows (filter ready (db_queue d))) = {}" by simp
  then show ?thesis using Nil by (auto simp: pick_next_ready_row_def order_rows_def filter_empty_conv)
next
  case (Cons r rs)
  have s: "sorted (map (\<lambda>r. (mq_enqueued_at r, mq_message_id r)) (r # rs))"
    using sorted_sort_key [of "\<lambda>r. (mq_enqueued_at r, mq_message_id r)"]
    by (metis Cons order_rows_def)
  have set_eq: "set (filter ready (db_queue d)) = set (r # rs)"
    by (metis Cons order_rows_def set_sort)
  show ?thesis
    using s unfolding pick_next_ready_row_def Cons list_all_iff set_eq list.case option.case by simp
qed

text \<open>
  The listing \<open>list_rows\<close>. An unknown \<open>origin\<close> filter is a \<open>ValueError\<close>; otherwise the result is the first
  rows, in the order by enqueue time and message id, of those that match every given filter,
  and there are as many as match up to the limit, which is clamped to 1..1000 and 100 by default.
\<close>

lemma list_rows_ordered_page:
  "list_rows f d = Inl ValueError \<and> qf_origin f \<notin> {None, Some ''direct'', Some ''route''} \<or>
   (\<exists>rows rest. list_rows f d = Inr rows \<and>
      mset (rows @ rest) = mset (filter (row_matches f) (db_queue d)) \<and>
      sorted (map (\<lambda>r. (mq_enqueued_at r, mq_message_id r)) (rows @ rest)) \<and>
      int (length rows) = min (max 1 (min (case qf_limit f of None \<Rightarrow> 100 | Some n \<Rightarrow> n) 1000))
        (int (length (filter (row_matches f) (db_queue d)))))"
proof (cases "filter_clause (qf_origin f) (\<lambda>g. g = ''direct'' \<or> g = ''route'')")
  case True
  let ?xs = "order_rows (filter (row_matches f) (db_queue d))"
  have "list_rows f d = Inr (take (list_limit (qf_limit f)) ?xs)" using True by (simp add: list_rows_def)
  moreover have "mset (take (list_limit (qf_limit f)) ?xs @ drop (list_limit (qf_limit f)) ?xs) =
      mset (filter (row_matches f) (db_queue d))"
    by (simp add: order_rows_def del: mset_append)
  moreover have "sorted (map (\<lambda>r. (mq_enqueued_at r, mq_message_id r))
      (take (list_limit (qf_limit f)) ?xs @ drop (list_limit (qf_limit f)) ?xs))"
    unfolding append_take_drop_id by (simp add: order_rows_def)
  moreover have "int (length (take (list_limit (qf_limit f)) ?xs)) =
      min (max 1 (min (case qf_limit f of None \<Rightarrow> 100 | Some n \<Rightarrow> n) 1000))
        (int (length (filter (row_matches f) (db_queue d))))"
    by (simp add: order_rows_def list_limit_def)
  ultimately show ?thesis by blast
next
  case False
  then show ?thesis by (auto simp: list_rows_def filter_clause_def split: option.splits)
qed

end
