(* ===== verification/Samples.thy ===== *)
theory Samples
  imports Queue_System Queue_Contract
begin

text \<open>
  A concrete installation and a run of it, for evaluating the model: a master sends two bytes to a
  slave by label, and the worker delivers the message.
\<close>

subsection \<open>A run\<close>

definition sample_agent :: "string \<Rightarrow> string \<Rightarrow> string \<Rightarrow> agent" where
  "sample_agent agent_id label role =
     \<lparr>ag_agent_id = agent_id, ag_container_id = ''c1'', ag_tmux_socket_path = ''/tmp/tmux-0/default'',
      ag_tmux_session_name = ''main'', ag_tmux_window_index = 0, ag_tmux_pane_index = 0,
      ag_tmux_pane_id = ''%3'', ag_role = role, ag_capability = ''codex'', ag_label = label,
      ag_project_path = ''/work'', ag_parent_agent_id = None,
      ag_effective_permissions = \<lparr>can_send = role = ''master'', can_receive = role = ''slave'',
        can_send_to_roles = (if role = ''master'' then [''slave'', ''swarm''] else [])\<rparr>, ag_created_at = ''t0'',
      ag_last_registered_at = ''t0'', ag_last_seen_at = None, ag_active = True\<rparr>"

definition sample_master :: agent where
  "sample_master = sample_agent ''agt_0123456789ab'' ''boss'' ''master''"

definition sample_slave :: agent where
  "sample_slave = sample_agent ''agt_ba9876543210'' ''worker-1'' ''slave''"

definition sample_env :: service_env where
  "sample_env =
     \<lparr>se_agents = [sample_master, sample_slave], se_container_active = (\<lambda>c. c = ''c1''),
      se_pane_resolvable = (\<lambda>c p. p = ''%3''), se_redactor = Some, se_sha256 = (\<lambda>_. ''sha''),
      se_envelope_max_bytes = 65536, se_max_pending = 1024\<rparr>"

definition sample_call :: "string \<Rightarrow> timestamp \<Rightarrow> call_env" where
  "sample_call uuid now =
     \<lparr>ce_now = now, ce_uuid = uuid, ce_busy = (\<lambda>_. False), ce_jsonl_exc = None,
      ce_watermark_exc = None\<rparr>"

definition sample_delivery :: delivery_env where
  "sample_delivery =
     \<lparr>de_resolver = \<lparr>re_config_user = (\<lambda>_. Some (Some ''dev'')), re_socket_path = (\<lambda>_ _. Some ''/s'')\<rparr>,
      de_block = sample_call '''' ''t2'', de_stamp_busy = (\<lambda>_. False), de_stamp_ts = ''t2'',
      de_load = Tmux_ok, de_paste = Tmux_ok, de_submit = Tmux_ok, de_delete = Tmux_ok,
      de_fail = sample_call '''' ''t3'', de_commit = sample_call '''' ''t3''\<rparr>"

definition sample_world :: world where
  "sample_world =
     \<lparr>w_db = \<lparr>db_queue = [], db_events = [], db_next_event_id = 1,
              db_flag = Some \<lparr>fl_value = ''enabled'', fl_last_updated_at = ''t0'',
                              fl_last_updated_by = ''(daemon-init)''\<rparr>,
              db_routes = []\<rparr>,
      w_audit = empty_audit, w_cache = None, w_tmux = []\<rparr>"

definition sample_sent :: world where
  "sample_sent = snd (send_input sample_env (sample_call ''m1'' ''t1'') sample_master ''worker-1'' [104, 105]
     False None no_wait Direct None None sample_world)"

definition sample_row :: queue_row where
  "sample_row = hd (db_queue (w_db sample_sent))"

definition sample_delivered :: world where
  "sample_delivered = snd (deliver_one sample_env sample_delivery sample_row sample_sent)"

text \<open>The worker has claimed the row and then the daemon dies.\<close>

definition sample_claimed :: world where
  "sample_claimed = snd (stamp_row (\<lambda>_. False) ''t2'' sample_row
     \<lparr>dc_container_id = ''c1'', dc_bench_user = ''dev'', dc_socket_path = ''/s'', dc_pane_id = ''%3''\<rparr>
     sample_sent)"

lemma sample_sent_state: "map mq_state (db_queue (w_db sample_sent)) = [Queued]"
  by code_simp

lemma sample_delivered_state: "map mq_state (db_queue (w_db sample_delivered)) = [Delivered]"
  by code_simp

definition sample_system :: "worker_pc \<Rightarrow> world \<Rightarrow> system" where
  "sample_system pc w = \<lparr>sy_world = w, sy_pc = pc, sy_requests = [], sy_up = True\<rparr>"

lemma sample_init: "system_init (sample_system Idle sample_world)"
  by (simp add: system_init_def sample_system_def sample_world_def flag_value_def)

lemma sample_pick: "pick_row False sample_sent = (Inr (Picked sample_row), sample_sent)"
  by code_simp

lemma sample_sent_reachable: "reachable 1024 (sample_system Idle sample_sent)"
proof -
  obtain res where "enqueue_message sample_env (sample_call ''m1'' ''t1'') sample_master ''worker-1''
      [104, 105] Direct None None (sy_world (sample_system Idle sample_world)) = (res, sample_sent)"
    by (auto simp: sample_sent_def send_input_world sample_system_def intro: prod.collapse [symmetric])
  from system_step.send [OF _ _ this, of 1024]
  have "system_step 1024 (sample_system Idle sample_world) (sample_system Idle sample_sent)"
    by (simp add: sample_system_def sample_env_def)
  with sample_init show ?thesis by (blast intro: reach_init reach_step)
qed

lemma sample_delivered_reachable: "reachable 1024 (sample_system Idle sample_delivered)"
proof -
  have "dw_path 1024 (Idle, sample_sent) (Picked sample_row, sample_sent)"
    using dw_step.pick [OF sample_pick, of 1024] by (simp add: pc_of_def r_into_rtranclp)
  also have "dw_path 1024 (Picked sample_row, sample_sent) (Idle, sample_delivered)"
    by (rule deliver_one_path [of sample_env _ sample_delivery]) 
       (auto simp: sample_env_def sample_delivered_def intro: prod.collapse [symmetric])
  finally show ?thesis
    using worker_path_reachable [of 1024 Idle sample_sent Idle sample_delivered "sample_system Idle sample_sent"]
      sample_sent_reachable by (simp add: sample_system_def)
qed

text \<open>The message is delayed by an operator after the send.\<close>

definition sample_delayed :: world where
  "sample_delayed = snd (delay_commit sample_env (sample_call '''' ''t5'') ''m1'' ''op2'' sample_row sample_sent)"

lemma sample_max_pending [simp]: "se_max_pending sample_env = 1024"
  by (simp add: sample_env_def)

subsection \<open>Witnesses on the sample installation\<close>

theorem enqueue_creates_one_row_witness:
  "\<exists>row w'. enqueue_message sample_env (sample_call ''m1'' ''t1'') sample_master ''worker-1'' [104, 105]
       Direct None None sample_world = (Inr row, w') \<and>
     db_queue (w_db w') = [row] \<and> mq_state row = Queued \<and> mq_envelope_body row = [104, 105]"
proof -
  let ?e = "enqueue_message sample_env (sample_call ''m1'' ''t1'') sample_master ''worker-1'' [104, 105]
       Direct None None sample_world"
  have "case fst ?e of Inl _ \<Rightarrow> False | Inr row \<Rightarrow> mq_state row = Queued \<and> mq_envelope_body row = [104, 105]"
    by code_simp
  then obtain row where row: "fst ?e = Inr row" "mq_state row = Queued" "mq_envelope_body row = [104, 105]"
    by (auto split: sum.splits)
  then have e: "?e = (Inr row, snd ?e)" by (simp add: prod_eq_iff)
  from enqueue_creates_one_row [OF e] have "db_queue (w_db (snd ?e)) = db_queue (w_db sample_world) @ [row]"
    by auto
  then have "db_queue (w_db (snd ?e)) = [row]" by (simp add: sample_world_def)
  with e row show ?thesis by blast
qed

definition sample_disabled :: world where
  "sample_disabled = sample_sent\<lparr>w_cache := None, w_db := (w_db sample_sent)\<lparr>db_flag :=
     Some \<lparr>fl_value = ''disabled'', fl_last_updated_at = ''t1'', fl_last_updated_by = ''host-operator''\<rparr>\<rparr>\<rparr>"

end
