(* ===== verification/Routes_Dao.thy ===== *)
theory Routes_Dao
  imports Lock_Retry
begin

text \<open>
  Storage of the routes (\<open>routing/routes_dao.py\<close>): inserting, flipping, deleting, the monotone
  cursor, and the reads, as statements of a transaction on the tables of \<open>Schema\<close>.
\<close>

subsection \<open>Statements\<close>

definition insert_route :: "route_row \<Rightarrow> string tx" where
  "insert_route row d =
     (if route_row_checks row \<and> rt_route_id row \<notin> rt_route_id ` set (db_routes d)
      then Inr (rt_route_id row, d\<lparr>db_routes := db_routes d @ [row]\<rparr>)
      else Inl IntegrityError)"

definition update_enabled :: "string \<Rightarrow> bool \<Rightarrow> timestamp \<Rightarrow> bool tx" where
  "update_enabled route_id enabled updated_at d =
     (let p = (\<lambda>r. rt_route_id r = route_id \<and> rt_enabled r \<noteq> enabled) in
      Inr (0 < rowcount p (db_routes d),
           d\<lparr>db_routes := update_where p (\<lambda>r. r\<lparr>rt_enabled := enabled, rt_updated_at := updated_at\<rparr>)
                (db_routes d)\<rparr>))"

definition delete_route :: "string \<Rightarrow> bool tx" where
  "delete_route route_id d =
     Inr (0 < rowcount (\<lambda>r. rt_route_id r = route_id) (db_routes d),
          d\<lparr>db_routes := filter (\<lambda>r. rt_route_id r \<noteq> route_id) (db_routes d)\<rparr>)"

definition advance_cursor :: "string \<Rightarrow> nat \<Rightarrow> timestamp \<Rightarrow> unit tx" where
  "advance_cursor route_id event_id updated_at d =
     Inr ((), d\<lparr>db_routes :=
       update_where (\<lambda>r. rt_route_id r = route_id \<and> rt_last_consumed_event_id r < event_id)
         (\<lambda>r. r\<lparr>rt_last_consumed_event_id := event_id, rt_updated_at := updated_at\<rparr>) (db_routes d)\<rparr>)"

subsection \<open>Reads\<close>

definition select_route :: "string \<Rightarrow> db \<Rightarrow> route_row option" where
  "select_route route_id d = lookup_row rt_route_id route_id (db_routes d)"

definition list_routes :: "bool \<Rightarrow> db \<Rightarrow> route_row list" where
  "list_routes enabled_only d =
     sort_key (\<lambda>r. (rt_created_at r, rt_route_id r))
       (if enabled_only then filter rt_enabled (db_routes d) else db_routes d)"

definition select_max_event_id :: "db \<Rightarrow> nat" where
  "select_max_event_id d = fold max (map ev_event_id (db_events d)) 0"

subsection \<open>Facts\<close>

text \<open>The routes table: unique ids and rows that satisfy the \<open>CHECK\<close>s.\<close>

definition routes_wf :: "db \<Rightarrow> bool" where
  "routes_wf d \<longleftrightarrow> distinct (map rt_route_id (db_routes d)) \<and> list_all route_row_checks (db_routes d)"

lemma fold_max_ge: "a \<le> fold max xs (a :: nat) \<and> list_all (\<lambda>x. x \<le> fold max xs a) xs"
proof (induction xs arbitrary: a)
  case (Cons x xs)
  have "max x a \<le> fold max xs (max x a) \<and> list_all (\<lambda>y. y \<le> fold max xs (max x a)) xs" by (rule Cons.IH)
  then show ?case by simp
qed simp

lemma select_max_event_id_ge: "e \<in> set (db_events d) \<Longrightarrow> ev_event_id e \<le> select_max_event_id d"
  using fold_max_ge [of 0 "map ev_event_id (db_events d)"]
  by (simp add: select_max_event_id_def list_all_iff)

lemma select_route_unique:
  "routes_wf d \<Longrightarrow> r \<in> set (db_routes d) \<Longrightarrow> select_route (rt_route_id r) d = Some r"
  by (simp add: routes_wf_def select_route_def lookup_row_unique)

lemma select_route_SomeD: "select_route i d = Some r \<Longrightarrow> r \<in> set (db_routes d) \<and> rt_route_id r = i"
  unfolding select_route_def by (rule lookup_row_SomeD)

lemma set_list_routes: "set (list_routes only d) = {r \<in> set (db_routes d). only \<longrightarrow> rt_enabled r}"
  by (auto simp: list_routes_def)

lemma sorted_list_routes: "sorted (map (\<lambda>r. (rt_created_at r, rt_route_id r)) (list_routes only d))"
  by (simp add: list_routes_def)

lemma distinct_list_routes: "routes_wf d \<Longrightarrow> distinct (map rt_route_id (list_routes only d))"
proof -
  assume "routes_wf d"
  then have "distinct (map rt_route_id (if only then filter rt_enabled (db_routes d) else db_routes d))"
    by (simp add: routes_wf_def distinct_map_filter)
  then show ?thesis unfolding list_routes_def
    by (simp only: distinct_map distinct_sort set_sort)
qed

lemma select_route_advance:
  "select_route i (d\<lparr>db_routes := update_where (\<lambda>r. rt_route_id r = k \<and> rt_last_consumed_event_id r < e)
      (\<lambda>r. r\<lparr>rt_last_consumed_event_id := e, rt_updated_at := t\<rparr>) (db_routes d)\<rparr>) =
   map_option (\<lambda>r. if i = k \<and> rt_last_consumed_event_id r < e
      then r\<lparr>rt_last_consumed_event_id := e, rt_updated_at := t\<rparr> else r) (select_route i d)"
proof (cases "lookup_row rt_route_id i (db_routes d)")
  case (Some r)
  then have "rt_route_id r = i" by (rule lookup_row_SomeD [THEN conjunct2])
  then show ?thesis using Some by (auto simp: select_route_def lookup_row_update_where)
qed (simp add: select_route_def lookup_row_update_where)

text \<open>A row keeps its identity and definition, and its cursor only moves forward.\<close>

definition route_advances :: "route_row \<Rightarrow> route_row \<Rightarrow> bool" where
  "route_advances r r' \<longleftrightarrow>
     r'\<lparr>rt_enabled := rt_enabled r, rt_last_consumed_event_id := rt_last_consumed_event_id r,
        rt_updated_at := rt_updated_at r\<rparr> = r \<and>
     rt_last_consumed_event_id r \<le> rt_last_consumed_event_id r'"

definition routes_evolve :: "db \<Rightarrow> db \<Rightarrow> bool" where
  "routes_evolve d d' \<longleftrightarrow>
     (\<forall>i r r'. select_route i d = Some r \<longrightarrow> select_route i d' = Some r' \<longrightarrow> route_advances r r')"

lemma route_advances_simps [simp]:
  "route_advances r r"
  "route_advances r (r\<lparr>rt_enabled := on, rt_updated_at := t\<rparr>)"
  "rt_last_consumed_event_id r \<le> c \<Longrightarrow> route_advances r (r\<lparr>rt_last_consumed_event_id := c, rt_updated_at := t\<rparr>)"
  by (simp_all add: route_advances_def)

lemma routes_evolve_refl [simp]: "db_routes d' = db_routes d \<Longrightarrow> routes_evolve d d'"
  by (auto simp: routes_evolve_def select_route_def)

lemma route_advances_checks:
  assumes "route_advances r r'"
  shows "route_row_checks r' = route_row_checks r"
proof -
  let ?r = "r'\<lparr>rt_enabled := rt_enabled r, rt_last_consumed_event_id := rt_last_consumed_event_id r,
    rt_updated_at := rt_updated_at r\<rparr>"
  have "?r = r" using assms unfolding route_advances_def by (rule conjunct1)
  then have a: "route_row_checks ?r = route_row_checks r" by (rule arg_cong)
  have b: "route_row_checks ?r = route_row_checks r'" by (simp add: route_row_checks_def)
  show ?thesis by (rule trans [OF b [symmetric] a])
qed

lemma update_routes_evolve:
  assumes "\<And>r. p r \<Longrightarrow> route_advances r (f r)" "\<And>r. rt_route_id (f r) = rt_route_id r"
  shows "routes_evolve d (d\<lparr>db_routes := update_where p f (db_routes d)\<rparr>)"
    and "routes_wf d \<Longrightarrow> routes_wf (d\<lparr>db_routes := update_where p f (db_routes d)\<rparr>)"
proof -
  show "routes_evolve d (d\<lparr>db_routes := update_where p f (db_routes d)\<rparr>)"
    using assms by (auto simp: routes_evolve_def select_route_def lookup_row_update_where)
  show "routes_wf d \<Longrightarrow> routes_wf (d\<lparr>db_routes := update_where p f (db_routes d)\<rparr>)"
    using assms(2) route_advances_checks [OF assms(1)]
    by (auto simp: routes_wf_def map_key_update_where list_all_iff set_update_where)
qed

lemma advance_cursor_evolves:
  assumes "advance_cursor i e t d = Inr (u, d')"
  shows "routes_evolve d d'" "routes_wf d \<Longrightarrow> routes_wf d'" "db_queue d' = db_queue d" "db_events d' = db_events d"
    "select_route j d' = map_option (\<lambda>r. if j = i \<and> rt_last_consumed_event_id r < e
      then r\<lparr>rt_last_consumed_event_id := e, rt_updated_at := t\<rparr> else r) (select_route j d)"
proof -
  have d': "d' = d\<lparr>db_routes := update_where (\<lambda>r. rt_route_id r = i \<and> rt_last_consumed_event_id r < e)
      (\<lambda>r. r\<lparr>rt_last_consumed_event_id := e, rt_updated_at := t\<rparr>) (db_routes d)\<rparr>"
    using assms by (simp add: advance_cursor_def)
  show "db_queue d' = db_queue d" "db_events d' = db_events d" by (simp_all add: d')
  show "routes_evolve d d'" "routes_wf d \<Longrightarrow> routes_wf d'"
    unfolding d' by ((rule update_routes_evolve(1); simp), (rule update_routes_evolve(2); simp))
  show "select_route j d' = map_option (\<lambda>r. if j = i \<and> rt_last_consumed_event_id r < e
      then r\<lparr>rt_last_consumed_event_id := e, rt_updated_at := t\<rparr> else r) (select_route j d)"
    unfolding d' by (rule select_route_advance)
qed

lemma update_enabled_evolves:
  assumes "update_enabled i on t d = Inr (changed, d')"
  shows "routes_evolve d d'" "routes_wf d \<Longrightarrow> routes_wf d'"
proof -
  have d': "d' = d\<lparr>db_routes := update_where (\<lambda>r. rt_route_id r = i \<and> rt_enabled r \<noteq> on)
      (\<lambda>r. r\<lparr>rt_enabled := on, rt_updated_at := t\<rparr>) (db_routes d)\<rparr>"
    using assms by (simp add: update_enabled_def Let_def)
  show "routes_evolve d d'" "routes_wf d \<Longrightarrow> routes_wf d'"
    unfolding d' by ((rule update_routes_evolve(1); simp), (rule update_routes_evolve(2); simp))
qed

end
