(* ===== verification/Routes_Audit.thy ===== *)
theory Routes_Audit
  imports Schema "HOL-Library.Multiset"
begin

text \<open>
  The audit trail of the routes (\<open>routing/routes_audit.py\<close>): six kinds of JSONL records without
  \<open>events\<close> rows, a bounded retry buffer for appends that raise \<open>OSError\<close>, and the drain at the
  start of a routing cycle. Whether an append raises is a choice of the environment.

  \<open>ra_dropped\<close> is the counter that the daemon's \<open>on_buffer_drop\<close> callback increments
  (\<open>audit_buffer_dropped\<close> of the shared routing state). The path of the file is fixed per daemon.
\<close>

subsection \<open>Records and state\<close>

datatype route_record =
    Route_matched (rr_emitted_at: timestamp) (rr_event_id: nat) (rr_route_id: string)
      (rm_winner: string) (rm_target: string) (rm_target_label: string) (rr_excerpt: string)
  | Route_skipped (rr_emitted_at: timestamp) (rr_event_id: nat) (rr_route_id: string)
      (rs_winner: "string option") (rs_target: "string option") (rs_target_label: "string option")
      (rs_reason: string) (rs_sub_reason: "string option") (rr_excerpt: string)
  | Route_created (rr_emitted_at: timestamp) (rr_route_id: string) (rc_event_type_subscribed: string)
      (rc_source_scope_kind: string) (rc_source_scope_value: "string option") (rc_target_rule: string)
      (rc_target_value: "string option") (rc_master_rule: string) (rc_master_value: "string option")
      (rc_template: string) (rc_created_by: "string option") (rc_cursor_at_creation: nat)
  | Route_updated (rr_emitted_at: timestamp) (rr_route_id: string) (ru_enabled: bool)
      (ru_updated_by: "string option")
  | Route_deleted (rr_emitted_at: timestamp) (rr_route_id: string) (rd_deleted_by: "string option")
  | Routing_worker_heartbeat (rr_emitted_at: timestamp) (rh_interval_seconds: nat) (rh_cycles: nat)
      (rh_events_consumed: nat) (rh_skips: nat) (rh_degraded: bool)

record routes_audit =
  ra_pending :: "route_record list"
  ra_jsonl :: "route_record list"
  ra_dropped :: nat

definition default_audit_buffer_max_rows :: nat where
  "default_audit_buffer_max_rows = 10000"

definition routes_audit_init :: routes_audit where
  "routes_audit_init = \<lparr>ra_pending = [], ra_jsonl = [], ra_dropped = 0\<rparr>"

definition has_pending :: "routes_audit \<Rightarrow> bool" where
  "has_pending a \<longleftrightarrow> 0 < length (ra_pending a)"

definition route_pending_count :: "routes_audit \<Rightarrow> nat" where
  "route_pending_count a = length (ra_pending a)"

subsection \<open>Emitting and draining\<close>

definition enqueue_pending :: "nat \<Rightarrow> route_record \<Rightarrow> routes_audit \<Rightarrow> routes_audit" where
  "enqueue_pending max_rows entry a =
     (let was_full = max_rows \<le> length (ra_pending a) in
      a\<lparr>ra_pending := bounded_append max_rows (ra_pending a) entry,
        ra_dropped := ra_dropped a + (if was_full then 1 else 0)\<rparr>)"

definition append_route_record :: "route_record \<Rightarrow> routes_audit \<Rightarrow> routes_audit" where
  "append_route_record r a = a\<lparr>ra_jsonl := ra_jsonl a @ [r]\<rparr>"

definition emit :: "nat \<Rightarrow> bool \<Rightarrow> route_record \<Rightarrow> routes_audit \<Rightarrow> routes_audit" where
  "emit max_rows os_error r a =
     (if os_error then enqueue_pending max_rows r a else append_route_record r a)"

text \<open>The retries in order; \<open>os_error i\<close> says whether the \<open>i\<close>-th append raises.\<close>

fun retry_entries ::
  "(nat \<Rightarrow> bool) \<Rightarrow> nat \<Rightarrow> route_record list \<Rightarrow> routes_audit \<Rightarrow> nat \<times> route_record list \<times> routes_audit" where
  "retry_entries os_error i [] a = (0, [], a)"
| "retry_entries os_error i (entry # snapshot) a =
     (if os_error i
      then (case retry_entries os_error (Suc i) snapshot a of
              (drained, survivors, a') \<Rightarrow> (drained, entry # survivors, a'))
      else (case retry_entries os_error (Suc i) snapshot (append_route_record entry a) of
              (drained, survivors, a') \<Rightarrow> (Suc drained, survivors, a')))"

definition drain_pending_routes :: "nat \<Rightarrow> (nat \<Rightarrow> bool) \<Rightarrow> routes_audit \<Rightarrow> nat \<times> routes_audit" where
  "drain_pending_routes max_rows os_error a =
     (case retry_entries os_error 0 (ra_pending a) (a\<lparr>ra_pending := []\<rparr>) of
        (drained, survivors, a') \<Rightarrow> (drained, fold (enqueue_pending max_rows) survivors a'))"

definition emit_route_matched ::
  "nat \<Rightarrow> bool \<Rightarrow> timestamp \<Rightarrow> nat \<Rightarrow> string \<Rightarrow> string \<Rightarrow> string \<Rightarrow> string \<Rightarrow> string \<Rightarrow> routes_audit \<Rightarrow> routes_audit" where
  "emit_route_matched max_rows os_error emitted_at event_id route_id winner target target_label excerpt =
     emit max_rows os_error (Route_matched emitted_at event_id route_id winner target target_label excerpt)"

definition emit_route_skipped ::
  "nat \<Rightarrow> bool \<Rightarrow> timestamp \<Rightarrow> nat \<Rightarrow> string \<Rightarrow> string option \<Rightarrow> string option \<Rightarrow> string option \<Rightarrow> string \<Rightarrow>
   string option \<Rightarrow> string \<Rightarrow> routes_audit \<Rightarrow> routes_audit" where
  "emit_route_skipped max_rows os_error emitted_at event_id route_id winner target target_label reason
     sub_reason excerpt =
     emit max_rows os_error
       (Route_skipped emitted_at event_id route_id winner target target_label reason sub_reason excerpt)"

definition emit_route_created ::
  "nat \<Rightarrow> bool \<Rightarrow> timestamp \<Rightarrow> route_row \<Rightarrow> routes_audit \<Rightarrow> routes_audit" where
  "emit_route_created max_rows os_error emitted_at row =
     emit max_rows os_error
       (Route_created emitted_at (rt_route_id row) (rt_event_type row) (rt_source_scope_kind row)
          (rt_source_scope_value row) (rt_target_rule row) (rt_target_value row) (rt_master_rule row)
          (rt_master_value row) (rt_template row) (rt_created_by_agent_id row)
          (rt_last_consumed_event_id row))"

definition emit_route_updated ::
  "nat \<Rightarrow> bool \<Rightarrow> timestamp \<Rightarrow> string \<Rightarrow> bool \<Rightarrow> string option \<Rightarrow> routes_audit \<Rightarrow> routes_audit" where
  "emit_route_updated max_rows os_error emitted_at route_id enabled updated_by =
     emit max_rows os_error (Route_updated emitted_at route_id enabled updated_by)"

definition emit_route_deleted ::
  "nat \<Rightarrow> bool \<Rightarrow> timestamp \<Rightarrow> string \<Rightarrow> string option \<Rightarrow> routes_audit \<Rightarrow> routes_audit" where
  "emit_route_deleted max_rows os_error emitted_at route_id deleted_by =
     emit max_rows os_error (Route_deleted emitted_at route_id deleted_by)"

definition emit_routing_worker_heartbeat ::
  "nat \<Rightarrow> bool \<Rightarrow> timestamp \<Rightarrow> nat \<Rightarrow> nat \<Rightarrow> nat \<Rightarrow> nat \<Rightarrow> bool \<Rightarrow> routes_audit \<Rightarrow> routes_audit" where
  "emit_routing_worker_heartbeat max_rows os_error emitted_at interval cycles events_consumed skips degraded =
     emit max_rows os_error
       (Routing_worker_heartbeat emitted_at interval cycles events_consumed skips degraded)"

lemmas emit_defs = emit_route_matched_def emit_route_skipped_def emit_route_created_def
  emit_route_updated_def emit_route_deleted_def emit_routing_worker_heartbeat_def

subsection \<open>Runs of the writer\<close>

datatype audit_op = Emit bool route_record | Drain "nat \<Rightarrow> bool"

fun run_op :: "nat \<Rightarrow> audit_op \<Rightarrow> routes_audit \<Rightarrow> routes_audit" where
  "run_op max_rows (Emit os_error r) a = emit max_rows os_error r a"
| "run_op max_rows (Drain os_error) a = snd (drain_pending_routes max_rows os_error a)"

fun op_records :: "audit_op \<Rightarrow> route_record list" where
  "op_records (Emit os_error r) = [r]"
| "op_records (Drain os_error) = []"

subsection \<open>Facts\<close>

text \<open>\<open>accounts a rs\<close>: the records \<open>rs\<close> are in the file, in the buffer, or were dropped and counted.\<close>

definition accounts :: "nat \<Rightarrow> routes_audit \<Rightarrow> route_record multiset \<Rightarrow> bool" where
  "accounts max_rows a rs \<longleftrightarrow>
     (\<exists>lost. rs = mset (ra_jsonl a) + mset (ra_pending a) + lost \<and> size lost = ra_dropped a) \<and>
     length (ra_pending a) \<le> max_rows"

lemma accounts_append: "accounts m a rs \<Longrightarrow> accounts m (append_route_record r a) (add_mset r rs)"
  by (auto simp: accounts_def append_route_record_def)

lemma bounded_append_split:
  "length xs \<le> n \<Longrightarrow>
   mset xs + {#x#} = mset (bounded_append n xs x) + (if n \<le> length xs then {#hd (xs @ [x])#} else {#})"
proof (cases "n \<le> length xs")
  case True
  assume "length xs \<le> n"
  with True have n: "n = length xs" by simp
  have "bounded_append n xs x = tl (xs @ [x])" by (cases xs) (simp_all add: bounded_append_def n)
  then show ?thesis using True by (cases xs) auto
qed (simp add: bounded_append_room)

lemma accounts_enqueue:
  assumes "accounts m a rs"
  shows "accounts m (enqueue_pending m r a) (add_mset r rs)"
proof -
  obtain lost where rs: "rs = mset (ra_jsonl a) + mset (ra_pending a) + lost" "size lost = ra_dropped a"
    and len: "length (ra_pending a) \<le> m" using assms by (auto simp: accounts_def)
  let ?out = "if m \<le> length (ra_pending a) then {#hd (ra_pending a @ [r])#} else {#}"
  have "add_mset r rs = mset (ra_jsonl a) + mset (bounded_append m (ra_pending a) r) + (?out + lost)"
    using bounded_append_split [OF len, of r] by (simp add: rs)
  then show ?thesis using rs(2) len
    by (auto simp: accounts_def enqueue_pending_def Let_def length_bounded_append intro!: exI [of _ "?out + lost"])
qed

lemma accounts_emit: "accounts m a rs \<Longrightarrow> accounts m (emit m os_error r a) (add_mset r rs)"
  by (simp add: emit_def accounts_append accounts_enqueue)

lemma accounts_rebuffer:
  "accounts m a rs \<Longrightarrow> accounts m (fold (enqueue_pending m) es a) (mset es + rs)"
proof (induction es arbitrary: a rs)
  case (Cons e es)
  have "accounts m (fold (enqueue_pending m) es (enqueue_pending m e a)) (mset es + add_mset e rs)"
    by (rule Cons.IH) (rule accounts_enqueue [OF Cons.prems])
  then show ?case by simp
qed simp

lemma retry_entries_spec:
  "retry_entries os_error i es a = (n, survivors, a') \<Longrightarrow>
   \<exists>written. ra_jsonl a' = ra_jsonl a @ written \<and> mset es = mset written + mset survivors \<and>
     n = length written \<and> ra_pending a' = ra_pending a \<and> ra_dropped a' = ra_dropped a"
proof (induction os_error i es a arbitrary: n survivors a' rule: retry_entries.induct)
  case (2 os_error i entry snapshot a)
  show ?case
  proof (cases "os_error i")
    case True
    then obtain sv where "retry_entries os_error (Suc i) snapshot a = (n, sv, a')" "survivors = entry # sv"
      using 2(3) by (auto split: prod.splits)
    with 2(1) [OF True] show ?thesis by force
  next
    case False
    then obtain k where "retry_entries os_error (Suc i) snapshot (append_route_record entry a) = (k, survivors, a')"
      "n = Suc k" using 2(3) by (auto split: prod.splits)
    with 2(2) [OF False] obtain written where
      "ra_jsonl a' = ra_jsonl (append_route_record entry a) @ written" "mset snapshot = mset written + mset survivors"
      "k = length written" "ra_pending a' = ra_pending a" "ra_dropped a' = ra_dropped a"
      by (auto simp: append_route_record_def)
    then show ?thesis using \<open>n = Suc k\<close>
      by (intro exI [of _ "entry # written"]) (simp add: append_route_record_def)
  qed
qed simp

lemma accounts_drain:
  assumes "accounts m a rs"
  shows "accounts m (snd (drain_pending_routes m os_error a)) rs"
proof -
  obtain n survivors a' where r: "retry_entries os_error 0 (ra_pending a) (a\<lparr>ra_pending := []\<rparr>) = (n, survivors, a')"
    by (cases "retry_entries os_error 0 (ra_pending a) (a\<lparr>ra_pending := []\<rparr>)") auto
  from retry_entries_spec [OF r] obtain written where
    w: "ra_jsonl a' = ra_jsonl a @ written" "mset (ra_pending a) = mset written + mset survivors"
      "ra_pending a' = []" "ra_dropped a' = ra_dropped a" by auto
  obtain lost where rs: "rs = mset (ra_jsonl a) + mset (ra_pending a) + lost" "size lost = ra_dropped a"
    using assms by (auto simp: accounts_def)
  have "accounts m a' (mset (ra_jsonl a) + mset written + lost)"
    using w rs(2) by (auto simp: accounts_def intro!: exI [of _ lost])
  from accounts_rebuffer [OF this, of survivors] show ?thesis
    by (simp add: drain_pending_routes_def r rs(1) w(2) ac_simps)
qed

lemma accounts_run_op: "accounts m a rs \<Longrightarrow> accounts m (run_op m x a) (mset (op_records x) + rs)"
  by (cases x) (simp_all add: accounts_emit accounts_drain)


end
