(* ===== verification/Routing_State.thy ===== *)
theory Routing_State
  imports Routes_Audit
begin

text \<open>
  In-memory state around the routing worker: the shared counters (\<open>routing/worker.py\<close>), the sliding
  window of skips (\<open>routing/skip_counter.py\<close>) and the heartbeat thread (\<open>routing/heartbeat.py\<close>).
\<close>

subsection \<open>Shared state\<close>

text \<open>\<open>audit_buffer_dropped\<close> is kept with the audit writer, whose callback is its only writer.\<close>

record shared_state =
  sh_cycles_since_last_heartbeat :: nat
  sh_events_consumed_since_last_heartbeat :: nat
  sh_skips_since_last_heartbeat :: nat
  sh_events_consumed_total :: nat
  sh_skips_by_reason :: "string \<Rightarrow> nat option"
  sh_last_routing_cycle_at :: "timestamp option"
  sh_routing_worker_degraded :: bool
  sh_last_skip_per_route :: "string \<Rightarrow> (string \<times> timestamp) option"

definition shared_init :: shared_state where
  "shared_init =
     \<lparr>sh_cycles_since_last_heartbeat = 0, sh_events_consumed_since_last_heartbeat = 0,
      sh_skips_since_last_heartbeat = 0, sh_events_consumed_total = 0, sh_skips_by_reason = (\<lambda>_. None),
      sh_last_routing_cycle_at = None, sh_routing_worker_degraded = False,
      sh_last_skip_per_route = (\<lambda>_. None)\<rparr>"

text \<open>The three updates of the worker: an event consumed, a skip, the end of a cycle.\<close>

definition count_consumed :: "shared_state \<Rightarrow> shared_state" where
  "count_consumed sh =
     sh\<lparr>sh_events_consumed_total := sh_events_consumed_total sh + 1,
        sh_events_consumed_since_last_heartbeat := sh_events_consumed_since_last_heartbeat sh + 1\<rparr>"

definition count_skip :: "string \<Rightarrow> string \<Rightarrow> timestamp \<Rightarrow> shared_state \<Rightarrow> shared_state" where
  "count_skip route_id reason ts sh =
     sh\<lparr>sh_skips_since_last_heartbeat := sh_skips_since_last_heartbeat sh + 1,
        sh_skips_by_reason := (sh_skips_by_reason sh)
          (reason \<mapsto> (case sh_skips_by_reason sh reason of None \<Rightarrow> 0 | Some n \<Rightarrow> n) + 1),
        sh_last_skip_per_route := (sh_last_skip_per_route sh)(route_id \<mapsto> (reason, ts))\<rparr>"

definition count_cycle :: "timestamp \<Rightarrow> bool \<Rightarrow> bool \<Rightarrow> shared_state \<Rightarrow> shared_state" where
  "count_cycle ts had_failure audit_clean sh =
     sh\<lparr>sh_cycles_since_last_heartbeat := sh_cycles_since_last_heartbeat sh + 1,
        sh_last_routing_cycle_at := Some ts,
        sh_routing_worker_degraded := (had_failure \<or> \<not> audit_clean)\<rparr>"

subsection \<open>The window of skips\<close>

definition window_ms :: int where
  "window_ms = 300000"

definition skip_maxlen :: nat where
  "skip_maxlen = 10000"

definition record_skip :: "int \<Rightarrow> int list \<Rightarrow> int list" where
  "record_skip now_ms entries = bounded_append skip_maxlen entries now_ms"

definition in_window :: "int \<Rightarrow> int \<Rightarrow> bool" where
  "in_window now_ms entry_ms \<longleftrightarrow> now_ms - window_ms < entry_ms \<and> entry_ms \<le> now_ms"

definition count_in_window :: "int \<Rightarrow> int list \<Rightarrow> nat" where
  "count_in_window now_ms entries = length (filter (in_window now_ms) entries)"

definition reset_skips :: "int list \<Rightarrow> int list" where
  "reset_skips entries = []"

subsection \<open>Heartbeats\<close>

definition heartbeat_interval_bounds :: "nat \<times> nat" where
  "heartbeat_interval_bounds = (10, 3600)"

definition check_heartbeat_interval :: "nat \<Rightarrow> exc + nat" where
  "check_heartbeat_interval interval_seconds =
     (if fst heartbeat_interval_bounds \<le> interval_seconds \<and> interval_seconds \<le> snd heartbeat_interval_bounds
      then Inr interval_seconds else Inl ValueError)"

text \<open>Snapshot and reset under the lock; the record is emitted after the lock is released.\<close>

definition heartbeat_snapshot :: "timestamp \<Rightarrow> nat \<Rightarrow> shared_state \<Rightarrow> route_record \<times> shared_state" where
  "heartbeat_snapshot emitted_at interval_seconds sh =
     (Routing_worker_heartbeat emitted_at interval_seconds (sh_cycles_since_last_heartbeat sh)
        (sh_events_consumed_since_last_heartbeat sh) (sh_skips_since_last_heartbeat sh)
        (sh_routing_worker_degraded sh),
      sh\<lparr>sh_cycles_since_last_heartbeat := 0, sh_events_consumed_since_last_heartbeat := 0,
         sh_skips_since_last_heartbeat := 0\<rparr>)"

text \<open>
  What happens around the heartbeat thread, in order: the worker's updates, and the ends of the
  thread's waits, with the shutdown flag they saw and whether the append that follows raises.
\<close>

datatype beat_event =
    Consumed
  | Skipped string string timestamp
  | Cycle_end timestamp bool bool
  | Wait_end bool bool timestamp

record beat_state =
  bs_shared :: shared_state
  bs_audit :: routes_audit
  bs_running :: bool

fun heartbeat_run :: "nat \<Rightarrow> nat \<Rightarrow> beat_event list \<Rightarrow> beat_state \<Rightarrow> beat_state" where
  "heartbeat_run max_rows interval [] s = s"
| "heartbeat_run max_rows interval (Consumed # es) s =
     heartbeat_run max_rows interval es (s\<lparr>bs_shared := count_consumed (bs_shared s)\<rparr>)"
| "heartbeat_run max_rows interval (Skipped route_id reason ts # es) s =
     heartbeat_run max_rows interval es (s\<lparr>bs_shared := count_skip route_id reason ts (bs_shared s)\<rparr>)"
| "heartbeat_run max_rows interval (Cycle_end ts failure clean # es) s =
     heartbeat_run max_rows interval es (s\<lparr>bs_shared := count_cycle ts failure clean (bs_shared s)\<rparr>)"
| "heartbeat_run max_rows interval (Wait_end shutdown os_error ts # es) s =
     (if \<not> bs_running s then heartbeat_run max_rows interval es s
      else if shutdown then heartbeat_run max_rows interval es (s\<lparr>bs_running := False\<rparr>)
      else (case heartbeat_snapshot ts interval (bs_shared s) of
              (r, sh) \<Rightarrow>
                heartbeat_run max_rows interval es
                  (s\<lparr>bs_shared := sh, bs_audit := emit max_rows os_error r (bs_audit s)\<rparr>)))"

subsection \<open>Facts\<close>

lemma fold_record_skip: "fold record_skip ts [] = drop (length ts - skip_maxlen) ts"
proof (induction ts rule: rev_induct)
  case (snoc t ts)
  have "0 < skip_maxlen" by (simp add: skip_maxlen_def)
  then have "record_skip t (drop (length ts - skip_maxlen) ts) = drop (length (ts @ [t]) - skip_maxlen) (ts @ [t])"
    by (cases "length ts < skip_maxlen") (auto simp: record_skip_def bounded_append_def Suc_diff_le not_less)
  then show ?case using snoc.IH by simp
qed simp

lemma window_suffix:
  "sorted ts \<Longrightarrow> list_all (\<lambda>t. t \<le> now) ts \<Longrightarrow>
   length (filter (in_window now) (drop n ts)) = min (length ts - n) (length (filter (in_window now) ts))"
proof (induction ts arbitrary: n)
  case (Cons t ts)
  show ?case
  proof (cases n)
    case 0
    then show ?thesis using length_filter_le [of "in_window now" "t # ts"] by (simp add: min_def)
  next
    case (Suc m)
    have IH: "length (filter (in_window now) (drop m ts)) = min (length ts - m) (length (filter (in_window now) ts))"
      using Cons by simp
    have "filter (in_window now) ts = ts" if "in_window now t"
      using that Cons.prems by (auto simp: in_window_def list_all_iff intro!: filter_True)
    then show ?thesis using IH Suc by auto
  qed
qed simp

text \<open>
  The skip counter of the dashboard. The skips are recorded with a clock that does not run
  backwards; the count is the number of recorded skips in the last five minutes, the instant exactly
  five minutes ago excluded, up to the capacity of the buffer, where it saturates.
\<close>

lemma skip_count_saturates:
  assumes "sorted ts" "list_all (\<lambda>t. t \<le> now) ts"
  shows "count_in_window now (fold record_skip ts []) =
    min skip_maxlen (length (filter (in_window now) ts))"
proof -
  have "length (filter (in_window now) ts) \<le> length ts" by simp
  moreover have "length ts - (length ts - skip_maxlen) = min (length ts) skip_maxlen" by simp
  ultimately show ?thesis using window_suffix [OF assms, of "length ts - skip_maxlen"]
    by (auto simp: count_in_window_def fold_record_skip min_def)
qed

subsection \<open>Heartbeat totals\<close>

fun beat_cycles :: "route_record \<Rightarrow> nat" where
  "beat_cycles (Routing_worker_heartbeat _ _ c _ _ _) = c"
| "beat_cycles _ = 0"

fun beat_consumed :: "route_record \<Rightarrow> nat" where
  "beat_consumed (Routing_worker_heartbeat _ _ _ e _ _) = e"
| "beat_consumed _ = 0"

fun beat_skips :: "route_record \<Rightarrow> nat" where
  "beat_skips (Routing_worker_heartbeat _ _ _ _ k _) = k"
| "beat_skips _ = 0"

fun is_cycle_end :: "beat_event \<Rightarrow> bool" where
  "is_cycle_end (Cycle_end _ _ _) = True"
| "is_cycle_end _ = False"

fun is_consumed :: "beat_event \<Rightarrow> bool" where
  "is_consumed Consumed = True"
| "is_consumed _ = False"

fun is_skipped :: "beat_event \<Rightarrow> bool" where
  "is_skipped (Skipped _ _ _) = True"
| "is_skipped _ = False"

text \<open>What the emitted heartbeats report and what is still in the counters, together.\<close>

definition reported :: "(route_record \<Rightarrow> nat) \<Rightarrow> (shared_state \<Rightarrow> nat) \<Rightarrow> beat_state \<Rightarrow> nat" where
  "reported in_beat counter s =
     sum_list (map in_beat (ra_jsonl (bs_audit s))) + sum_list (map in_beat (ra_pending (bs_audit s))) +
     counter (bs_shared s)"

lemma emit_sum:
  assumes "length (ra_pending a) < max_rows"
  shows "sum_list (map f (ra_jsonl (emit max_rows x r a))) + sum_list (map f (ra_pending (emit max_rows x r a))) =
    sum_list (map f (ra_jsonl a)) + sum_list (map f (ra_pending a)) + (f r :: nat)"
  using assms by (simp add: emit_def append_route_record_def enqueue_pending_def bounded_append_room)

lemma emit_dropped_mono: "ra_dropped a \<le> ra_dropped (emit max_rows x r a)"
  by (simp add: emit_def append_route_record_def enqueue_pending_def)

lemma heartbeat_dropped_mono:
  "ra_dropped (bs_audit s) \<le> ra_dropped (bs_audit (heartbeat_run max_rows interval es s))"
proof (induction max_rows interval es s rule: heartbeat_run.induct)
  case (5 max_rows interval shutdown os_error ts es s)
  show ?case
  proof (cases "bs_running s \<and> \<not> shutdown")
    case True
    have "ra_dropped (bs_audit s) \<le> ra_dropped (emit max_rows os_error (fst (heartbeat_snapshot ts interval (bs_shared s))) (bs_audit s))"
      by (rule emit_dropped_mono)
    also have "\<dots> \<le> ra_dropped (bs_audit (heartbeat_run max_rows interval (Wait_end shutdown os_error ts # es) s))"
      using 5(3) True by (simp add: heartbeat_snapshot_def)
    finally show ?thesis .
  qed (use 5 in auto)
qed auto

lemma emit_no_drop:
  assumes "ra_dropped (emit max_rows x r a) = ra_dropped a" "x"
  shows "length (ra_pending a) < max_rows"
  using assms by (auto simp: emit_def enqueue_pending_def Let_def split: if_splits)

lemma emit_reported:
  assumes "ra_dropped (emit max_rows x r a) = ra_dropped a"
  shows "sum_list (map f (ra_jsonl (emit max_rows x r a))) + sum_list (map f (ra_pending (emit max_rows x r a))) =
    sum_list (map f (ra_jsonl a)) + sum_list (map f (ra_pending a)) + (f r :: nat)"
proof (cases x)
  case True
  with assms have "length (ra_pending a) < max_rows" using emit_no_drop by blast
  then show ?thesis by (rule emit_sum)
qed (simp add: emit_def append_route_record_def)

lemma heartbeat_reported:
  assumes "\<And>ts i sh. f (fst (heartbeat_snapshot ts i sh)) + c (snd (heartbeat_snapshot ts i sh)) = c sh"
    and "\<And>sh. c (count_consumed sh) = c sh + n1"
    and "\<And>i r ts sh. c (count_skip i r ts sh) = c sh + n2"
    and "\<And>ts b1 b2 sh. c (count_cycle ts b1 b2 sh) = c sh + n3"
    and "ra_dropped (bs_audit (heartbeat_run max_rows interval es s)) = ra_dropped (bs_audit s)"
  shows "reported f c (heartbeat_run max_rows interval es s) =
    reported f c s + n1 * length (filter is_consumed es) + n2 * length (filter is_skipped es) +
    n3 * length (filter is_cycle_end es)"
  using assms(5)
proof (induction max_rows interval es s rule: heartbeat_run.induct)
  case (5 max_rows interval shutdown os_error ts es s)
  show ?case
  proof (cases "bs_running s \<and> \<not> shutdown")
    case True
    obtain r sh where snap: "heartbeat_snapshot ts interval (bs_shared s) = (r, sh)" by fastforce
    let ?a = "emit max_rows os_error r (bs_audit s)" and ?s = "s\<lparr>bs_shared := sh, bs_audit := emit max_rows os_error r (bs_audit s)\<rparr>"
    have run: "heartbeat_run max_rows interval (Wait_end shutdown os_error ts # es) s = heartbeat_run max_rows interval es ?s"
      using True snap by simp
    have "ra_dropped (bs_audit s) \<le> ra_dropped ?a" "ra_dropped ?a \<le> ra_dropped (bs_audit (heartbeat_run max_rows interval es ?s))"
      using emit_dropped_mono heartbeat_dropped_mono [of ?s max_rows interval es] by simp_all
    then have eq: "ra_dropped ?a = ra_dropped (bs_audit s)"
      "ra_dropped (bs_audit (heartbeat_run max_rows interval es ?s)) = ra_dropped (bs_audit ?s)"
      using 5(4) run by simp_all
    have "f r + c sh = c (bs_shared s)" using assms(1) [of ts interval "bs_shared s"] snap by simp
    then have "reported f c ?s = reported f c s"
      using emit_reported [OF eq(1), of f] by (simp add: reported_def)
    then show ?thesis using 5(3) True snap eq(2) run by simp
  qed (use 5 in \<open>auto simp: reported_def\<close>)
qed (use assms in \<open>auto simp: reported_def\<close>)

text \<open>
  Heartbeats lose no counts. Whatever the interleaving of the worker's updates and the heartbeat
  thread, and whatever appends fail, as long as the audit buffer has not overflowed the cycles, events
  and skips reported by all heartbeats, plus what is still in the counters, are those that happened.
\<close>

lemma heartbeat_totals:
  assumes "s = heartbeat_run max_rows interval es
      \<lparr>bs_shared = shared_init, bs_audit = routes_audit_init, bs_running = True\<rparr>"
    and "ra_dropped (bs_audit s) = 0"
  shows "reported beat_cycles sh_cycles_since_last_heartbeat s = length (filter is_cycle_end es) \<and>
    reported beat_consumed sh_events_consumed_since_last_heartbeat s = length (filter is_consumed es) \<and>
    reported beat_skips sh_skips_since_last_heartbeat s = length (filter is_skipped es)"
proof -
  let ?s0 = "\<lparr>bs_shared = shared_init, bs_audit = routes_audit_init, bs_running = True\<rparr>"
  have drop: "ra_dropped (bs_audit (heartbeat_run max_rows interval es ?s0)) = ra_dropped (bs_audit ?s0)"
    using assms by (simp add: routes_audit_init_def)
  note defs = heartbeat_snapshot_def count_consumed_def count_skip_def count_cycle_def
  have zero: "reported f c ?s0 = c shared_init" for f c by (simp add: reported_def routes_audit_init_def)
  have "reported beat_cycles sh_cycles_since_last_heartbeat s = length (filter is_cycle_end es)"
    using heartbeat_reported [of beat_cycles sh_cycles_since_last_heartbeat 0 0 1, OF _ _ _ _ drop]
    by (simp add: defs assms(1) zero) (simp add: shared_init_def)
  moreover have "reported beat_consumed sh_events_consumed_since_last_heartbeat s = length (filter is_consumed es)"
    using heartbeat_reported [of beat_consumed sh_events_consumed_since_last_heartbeat 1 0 0, OF _ _ _ _ drop]
    by (simp add: defs assms(1) zero) (simp add: shared_init_def)
  moreover have "reported beat_skips sh_skips_since_last_heartbeat s = length (filter is_skipped es)"
    using heartbeat_reported [of beat_skips sh_skips_since_last_heartbeat 0 1 0, OF _ _ _ _ drop]
    by (simp add: defs assms(1) zero) (simp add: shared_init_def)
  ultimately show ?thesis by blast
qed

definition example_beats :: "beat_event list" where
  "example_beats = [Consumed, Cycle_end ''t1'' False True, Wait_end False True ''t2'', Consumed,
     Skipped ''r1'' ''no_eligible_master'' ''t3'', Wait_end False False ''t4'', Consumed, Wait_end True False ''t5'']"

end
