(* ===== verification/Source_Scope.thy ===== *)
theory Source_Scope
  imports Agents
begin

text \<open>
  The grammar \<open>role:<role>[,capability:<cap>]\<close>, the parser of a route's source scope and the match
  of an event's source against it (\<open>routing/source_scope.py\<close>).
\<close>

subsection \<open>Parsing\<close>

definition token_char :: "char \<Rightarrow> bool" where
  "token_char c \<longleftrightarrow>
     (let n = (of_char c :: nat)
      in (48 \<le> n \<and> n \<le> 57) \<or> (65 \<le> n \<and> n \<le> 90) \<or> (97 \<le> n \<and> n \<le> 122) \<or> n = 95 \<or> n = 45)"

text \<open>\<open>_TOKEN_RE.fullmatch\<close>.\<close>

definition token :: "string \<Rightarrow> bool" where
  "token s \<longleftrightarrow> s \<noteq> [] \<and> list_all token_char s"

definition parse_role_capability :: "string \<Rightarrow> exc + (string \<times> string option)" where
  "parse_role_capability raw =
     (if raw = [] then Inl ValueError
      else
        let parts = py_split (CHR '','') raw in
        if length parts > 2 then Inl ValueError
        else if \<not> py_startswith (hd parts) ''role:'' then Inl ValueError
        else
          let role = drop 5 (hd parts) in
          if \<not> token role then Inl ValueError
          else if length parts = 2 then
            let cap_part = parts ! 1 in
            if \<not> py_startswith cap_part ''capability:'' then Inl ValueError
            else
              let capability = drop 11 cap_part in
              if \<not> token capability then Inl ValueError
              else Inr (role, Some capability)
          else Inr (role, None))"

record parsed_source_scope =
  ps_kind :: string
  ps_agent_id :: "string option"
  ps_role :: "string option"
  ps_capability :: "string option"

definition source_scope_kinds :: "string list" where
  "source_scope_kinds = [''any'', ''agent_id'', ''role'']"

definition parse_source_scope_value :: "string option \<Rightarrow> string \<Rightarrow> exc + parsed_source_scope" where
  "parse_source_scope_value raw kind =
     (let invalid = RouteError ''route_source_scope_invalid'' in
      if kind \<notin> set source_scope_kinds then Inl invalid
      else if kind = ''any'' then
        (if raw \<noteq> None then Inl invalid
         else Inr \<lparr>ps_kind = kind, ps_agent_id = None, ps_role = None, ps_capability = None\<rparr>)
      else
        (case raw of
           None \<Rightarrow> Inl invalid
         | Some v \<Rightarrow>
             if v = [] then Inl invalid
             else if kind = ''agent_id'' then
               (if \<not> agent_id_re v then Inl invalid
                else Inr \<lparr>ps_kind = kind, ps_agent_id = Some v, ps_role = None, ps_capability = None\<rparr>)
             else
               (case parse_role_capability v of
                  Inl _ \<Rightarrow> Inl invalid
                | Inr (role, capability) \<Rightarrow>
                    Inr \<lparr>ps_kind = kind, ps_agent_id = None, ps_role = Some role,
                         ps_capability = capability\<rparr>)))"

subsection \<open>Matching\<close>

definition scope_matches :: "parsed_source_scope \<Rightarrow> string \<Rightarrow> string \<Rightarrow> string option \<Rightarrow> bool" where
  "scope_matches parsed event_source_agent_id event_source_role event_source_capability =
     (if ps_kind parsed = ''any'' then True
      else if ps_kind parsed = ''agent_id'' then Some event_source_agent_id = ps_agent_id parsed
      else if Some event_source_role \<noteq> ps_role parsed then False
      else (case ps_capability parsed of
              None \<Rightarrow> True
            | Some c \<Rightarrow> event_source_capability = Some c))"

subsection \<open>The grammar\<close>

text \<open>The text a parsed value stands for.\<close>

definition role_capability_text :: "string \<Rightarrow> string option \<Rightarrow> string" where
  "role_capability_text role capability =
     ''role:'' @ role @ (case capability of None \<Rightarrow> '''' | Some c \<Rightarrow> CHR '','' # ''capability:'' @ c)"

lemma token_no_comma: "token s \<Longrightarrow> CHR '','' \<notin> set s"
  by (auto simp: token_def token_char_def list_all_iff)

lemma py_startswith_drop: "py_startswith s p \<Longrightarrow> length p = n \<Longrightarrow> s = p @ drop n s"
  unfolding py_startswith_def by (metis append_take_drop_id)

lemmas startswith_role = py_startswith_drop [of _ "''role:''" 5, simplified]
lemmas startswith_capability = py_startswith_drop [of _ "''capability:''" 11, simplified]

lemma role_text_split:
  assumes "token r" "case c of None \<Rightarrow> True | Some x \<Rightarrow> token x"
  shows "py_split (CHR '','') (role_capability_text r c) =
    (case c of None \<Rightarrow> [''role:'' @ r] | Some x \<Rightarrow> [''role:'' @ r, ''capability:'' @ x])"
proof -
  have "CHR '','' \<notin> set (''role:'' @ r)" using token_no_comma [OF assms(1)] by simp
  moreover have "CHR '','' \<notin> set (''capability:'' @ x)" if "c = Some x" for x
    using token_no_comma [of x] assms(2) that by simp
  ultimately show ?thesis
    using py_split_single [of "CHR '',''" "''role:'' @ r"]
      py_split_append_sep [of "CHR '',''" "''role:'' @ r" "''capability:'' @ the c"]
      py_split_single [of "CHR '',''" "''capability:'' @ the c"]
    by (cases c) (simp_all add: role_capability_text_def del: py_split.simps append_Cons)
qed

text \<open>
  The role grammar is parsed exactly. \<open>parse_role_capability\<close> returns a role and a capability if
  and only if both are tokens and the input is the text they are written as; every other input is
  a \<open>ValueError\<close>.
\<close>

lemma role_capability_round_trip:
  "parse_role_capability s = Inr (r, c) \<longleftrightarrow>
     s = role_capability_text r c \<and> token r \<and> (case c of None \<Rightarrow> True | Some x \<Rightarrow> token x)"
proof
  assume "s = role_capability_text r c \<and> token r \<and> (case c of None \<Rightarrow> True | Some x \<Rightarrow> token x)"
  moreover from this have "s \<noteq> []" by (simp add: role_capability_text_def)
  ultimately show "parse_role_capability s = Inr (r, c)"
    using role_text_split [of r c]
    by (cases c) (simp_all add: parse_role_capability_def py_startswith_def)
next
  assume p: "parse_role_capability s = Inr (r, c)"
  let ?parts = "py_split (CHR '','') s"
  have join: "py_join '','' ?parts = s" by (rule py_join_py_split)
  from p have h: "length ?parts \<le> 2" "hd ?parts = ''role:'' @ r" "token r"
    by (auto simp: parse_role_capability_def Let_def dest: startswith_role split: if_splits)
  show "s = role_capability_text r c \<and> token r \<and> (case c of None \<Rightarrow> True | Some x \<Rightarrow> token x)"
  proof (cases ?parts)
    case Nil
    then show ?thesis by simp
  next
    case (Cons a rest)
    show ?thesis
    proof (cases rest)
      case Nil
      then show ?thesis
        using p h join Cons by (auto simp: parse_role_capability_def role_capability_text_def Let_def split: if_splits)
    next
      case (Cons b rest')
      then have parts: "?parts = [''role:'' @ r, b]" using h \<open>?parts = a # rest\<close> by auto
      then obtain x where "c = Some x" "b = ''capability:'' @ x" "token x"
        using p by (auto simp: parse_role_capability_def Let_def dest: startswith_capability split: if_splits)
      then show ?thesis using h(3) join by (simp add: parts role_capability_text_def)
    qed
  qed
qed

end
