(* ===== verification/Template.thy ===== *)
theory Template
  imports Excerpt
begin

text \<open>
  Route templates (\<open>routing/template.py\<close>): the placeholder scan and the whitelist check at
  route-add time, and rendering with \<open>str.format_map\<close>, redaction of the event excerpt and the
  body checks.

  Braces and field names are ASCII, so the scans work on the UTF-8 bytes. Of the language of
  \<open>str.format_map\<close> the model has literal text, doubled braces and plain field names in full; a
  replacement field with an attribute, an index, a conversion or a format specification is
  evaluated by the parameter \<open>rich\<close>, which gets the text after the opening brace and returns the
  rendered text and the number of characters it consumed, or an exception.
\<close>

subsection \<open>Placeholders\<close>

definition allowed_template_fields :: "string list" where
  "allowed_template_fields =
     [''event_id'', ''event_type'', ''source_agent_id'', ''source_label'', ''source_role'',
      ''source_capability'', ''event_excerpt'', ''observed_at'']"

definition ascii_digit :: "char \<Rightarrow> bool" where
  "ascii_digit c \<longleftrightarrow> 48 \<le> (of_char c :: nat) \<and> (of_char c :: nat) \<le> 57"

definition ident_start :: "char \<Rightarrow> bool" where
  "ident_start c \<longleftrightarrow>
     (let n = (of_char c :: nat) in (65 \<le> n \<and> n \<le> 90) \<or> (97 \<le> n \<and> n \<le> 122) \<or> n = 95)"

definition ident_char :: "char \<Rightarrow> bool" where
  "ident_char c \<longleftrightarrow> ident_start c \<or> ascii_digit c"

text \<open>
  \<open>([A-Za-z_][A-Za-z0-9_]*)\}(?!\})\<close> at the start of the text: the name and what follows the brace.
\<close>

definition placeholder_at :: "string \<Rightarrow> (string \<times> string) option" where
  "placeholder_at s =
     (let name = takeWhile ident_char s; rest = dropWhile ident_char s in
      case (name, rest) of
        (n # _, b # after) \<Rightarrow>
          if ident_start n \<and> b = CHR ''}'' \<and> (after = [] \<or> hd after \<noteq> CHR ''}'')
          then Some (name, after) else None
      | _ \<Rightarrow> None)"

lemma placeholder_at_length: "placeholder_at s = Some (name, rest) \<Longrightarrow> length rest < length s"
proof -
  assume "placeholder_at s = Some (name, rest)"
  then obtain b where "dropWhile ident_char s = b # rest"
    by (auto simp: placeholder_at_def Let_def split: list.splits if_splits)
  then have "length (b # rest) \<le> length s" using length_dropWhile_le [of ident_char s] by simp
  then show ?thesis by simp
qed

text \<open>\<open>findall\<close> from left to right; the flag says that the previous character is an opening brace.\<close>

function placeholders :: "bool \<Rightarrow> string \<Rightarrow> string list" where
  "placeholders after_brace [] = []"
| "placeholders after_brace (c # s) =
     (if c = CHR ''{'' \<and> \<not> after_brace then
        (case placeholder_at s of
           Some (name, rest) \<Rightarrow> name # placeholders False rest
         | None \<Rightarrow> placeholders True s)
      else placeholders (c = CHR ''{'') s)"
  by pat_completeness auto

termination
  by (relation "measure (\<lambda>(_, s). length s)") (auto dest: placeholder_at_length)

definition extract_template_fields :: "string \<Rightarrow> string list" where
  "extract_template_fields template = remdups (placeholders False template)"

definition validate_template_string :: "string \<Rightarrow> exc + string list" where
  "validate_template_string template =
     (if template = [] then Inl (RouteError ''route_template_invalid'')
      else if list_ex (\<lambda>f. f \<notin> set allowed_template_fields) (extract_template_fields template)
      then Inl (RouteError ''route_template_invalid'')
      else Inr (sort (extract_template_fields template)))"

subsection \<open>Rendering\<close>

type_synonym rich_field = "(string \<Rightarrow> string option) \<Rightarrow> string \<Rightarrow> exc + (string \<times> nat)"

text \<open>The characters that end a plain field name.\<close>

definition field_delimiter :: "char \<Rightarrow> bool" where
  "field_delimiter c \<longleftrightarrow> c \<in> set ''{}[:!.''"

text \<open>
  The replacement field that starts after a single opening brace: the rendered text and the rest of
  the template. A number or an empty name refers to positional arguments, of which there are none.
\<close>

definition replacement_field :: "rich_field \<Rightarrow> (string \<Rightarrow> string option) \<Rightarrow> string \<Rightarrow> exc + (string \<times> string)" where
  "replacement_field rich sub_map s =
     (let name = takeWhile (\<lambda>c. \<not> field_delimiter c) s;
          rest = dropWhile (\<lambda>c. \<not> field_delimiter c) s in
      case rest of
        [] \<Rightarrow> Inl ValueError
      | d # after \<Rightarrow>
          if d = CHR ''{'' then Inl ValueError
          else if d = CHR ''}'' then
            (if list_all ascii_digit name then Inl ValueError
             else (case sub_map name of None \<Rightarrow> Inl KeyError | Some v \<Rightarrow> Inr (v, after)))
          else (case rich sub_map s of Inl e \<Rightarrow> Inl e | Inr (v, n) \<Rightarrow> Inr (v, drop n s)))"

fun prepend :: "string \<Rightarrow> exc + string \<Rightarrow> exc + string" where
  "prepend v (Inl e) = Inl e"
| "prepend v (Inr s) = Inr (v @ s)"

lemma replacement_field_length:
  "replacement_field rich sub_map s = Inr (v, rest) \<Longrightarrow> length rest \<le> length s"
proof -
  have "length (dropWhile (\<lambda>c. \<not> field_delimiter c) s) \<le> length s" by (rule length_dropWhile_le)
  then show "replacement_field rich sub_map s = Inr (v, rest) \<Longrightarrow> length rest \<le> length s"
    by (auto simp: replacement_field_def Let_def split: list.splits if_splits option.splits sum.splits)
qed

function format_map :: "rich_field \<Rightarrow> (string \<Rightarrow> string option) \<Rightarrow> string \<Rightarrow> exc + string" where
  "format_map rich sub_map [] = Inr []"
| "format_map rich sub_map (c # s) =
     (if c = CHR ''{'' then
        (case s of
           [] \<Rightarrow> Inl ValueError
         | c' # s' \<Rightarrow>
             if c' = CHR ''{'' then prepend ''{'' (format_map rich sub_map s')
             else (case replacement_field rich sub_map s of
                     Inl e \<Rightarrow> Inl e
                   | Inr (v, rest) \<Rightarrow>
                       prepend v (format_map rich sub_map rest)))
      else if c = CHR ''}'' then
        (case s of
           [] \<Rightarrow> Inl ValueError
         | c' # s' \<Rightarrow>
             if c' = CHR ''}'' then prepend ''}'' (format_map rich sub_map s')
             else Inl ValueError)
      else prepend [c] (format_map rich sub_map s))"
  by pat_completeness auto

termination
  by (relation "measure (\<lambda>(_, _, s). length s)") (auto dest: replacement_field_length)

definition template_sub_map ::
  "string \<Rightarrow> (string \<Rightarrow> string option) \<Rightarrow> string \<Rightarrow> redactor \<Rightarrow> string \<Rightarrow> string option" where
  "template_sub_map template field_values raw_event_excerpt redactor =
     (if ''event_excerpt'' \<in> set (extract_template_fields template)
      then field_values(''event_excerpt'' \<mapsto>
        string_of_codepoints (render_excerpt redactor default_excerpt_cap (bytes_of_string raw_event_excerpt)))
      else field_values)"

text \<open>\<open>render_excerpt\<close> does not raise, so the \<open>redactor_failure\<close> branch has no case here.\<close>

definition render_template ::
  "rich_field \<Rightarrow> string \<Rightarrow> (string \<Rightarrow> string option) \<Rightarrow> string \<Rightarrow> redactor \<Rightarrow> exc + bytes" where
  "render_template rich template field_values raw_event_excerpt redactor =
     (case format_map rich (template_sub_map template field_values raw_event_excerpt redactor) template of
        Inl e \<Rightarrow> Inl (if e = KeyError then RouteTemplateRenderError ''missing_field'' else e)
      | Inr rendered \<Rightarrow>
          let body = bytes_of_string rendered in
          (case validate_body body of
             Inl e \<Rightarrow> Inl (RouteTemplateRenderError (exc_code e))
           | Inr _ \<Rightarrow>
               if default_envelope_body_max_bytes < length body
               then Inl (RouteTemplateRenderError ''body_too_large'')
               else Inr body))"

subsection \<open>Templates as segments\<close>

datatype segment = Literal string | Placeholder string

fun escape_braces :: "string \<Rightarrow> string" where
  "escape_braces [] = []"
| "escape_braces (c # s) = (if c = CHR ''{'' \<or> c = CHR ''}'' then [c, c] else [c]) @ escape_braces s"

fun print_segment :: "segment \<Rightarrow> string" where
  "print_segment (Literal l) = escape_braces l"
| "print_segment (Placeholder f) = ''{'' @ f @ ''}''"

definition print_template :: "segment list \<Rightarrow> string" where
  "print_template segs = concat (map print_segment segs)"

fun segment_value :: "(string \<Rightarrow> string option) \<Rightarrow> segment \<Rightarrow> string option" where
  "segment_value vals (Literal l) = Some l"
| "segment_value vals (Placeholder f) = vals f"

fun segment_fields :: "segment list \<Rightarrow> string list" where
  "segment_fields [] = []"
| "segment_fields (Literal _ # ss) = segment_fields ss"
| "segment_fields (Placeholder f # ss) = f # segment_fields ss"

text \<open>No placeholder touches a doubled brace; the flag says that the text before ends in one.\<close>

fun separated :: "bool \<Rightarrow> segment list \<Rightarrow> bool" where
  "separated after_brace [] = True"
| "separated after_brace (Literal l # ss) =
     separated (if l = [] then after_brace else last l = CHR ''{'') ss"
| "separated after_brace (Placeholder f # ss) =
     (\<not> after_brace \<and> (print_template ss = [] \<or> hd (print_template ss) \<noteq> CHR ''}'') \<and> separated False ss)"

subsection \<open>Facts\<close>

lemma print_template_simps [simp]:
  "print_template [] = []"
  "print_template (g # gs) = print_segment g @ print_template gs"
  by (simp_all add: print_template_def)

lemma prepend_prepend [simp]: "prepend a (prepend b r) = prepend (a @ b) r"
  by (cases r) auto

lemma prepend_Nil [simp]: "prepend [] r = r"
  by (cases r) auto

definition is_identifier :: "string \<Rightarrow> bool" where
  "is_identifier f \<longleftrightarrow> f \<noteq> [] \<and> ident_start (hd f) \<and> list_all ident_char f"

lemma ident_char_no_delimiter: "ident_char c \<Longrightarrow> \<not> field_delimiter c"
  by (auto simp: ident_char_def ident_start_def ascii_digit_def field_delimiter_def Let_def)

lemma ident_start_not_digit: "ident_start c \<Longrightarrow> \<not> ascii_digit c"
  by (auto simp: ident_start_def ascii_digit_def Let_def)

lemma brace_not_ident [simp]: "\<not> ident_char CHR ''{''" "\<not> ident_char CHR ''}''"
  "field_delimiter CHR ''{''" "field_delimiter CHR ''}''"
  by (code_simp, code_simp, code_simp, code_simp)

lemma takeWhile_all_then: "list_all P xs \<Longrightarrow> \<not> P y \<Longrightarrow> takeWhile P (xs @ y # ys) = xs \<and> dropWhile P (xs @ y # ys) = y # ys"
  by (induction xs) auto

lemma placeholder_at_identifier:
  "is_identifier f \<Longrightarrow> rest = [] \<or> hd rest \<noteq> CHR ''}'' \<Longrightarrow> placeholder_at (f @ CHR ''}'' # rest) = Some (f, rest)"
  using takeWhile_all_then [of ident_char f "CHR ''}''" rest]
  by (cases f) (auto simp: placeholder_at_def is_identifier_def)

lemma placeholder_at_brace [simp]: "placeholder_at (CHR ''{'' # s) = None"
  by (simp add: placeholder_at_def)

lemma placeholders_literal:
  "placeholders b (escape_braces l @ rest) =
     placeholders (if l = [] then b else last l = CHR ''{'') rest"
proof (induction l arbitrary: b)
  case (Cons c l)
  have "placeholders b (escape_braces (c # l) @ rest) = placeholders (c = CHR ''{'') (escape_braces l @ rest)"
    by simp
  then show ?case using Cons.IH by simp
qed simp

lemma placeholders_printed:
  "separated b segs \<Longrightarrow> list_all is_identifier (segment_fields segs) \<Longrightarrow>
   placeholders b (print_template segs) = segment_fields segs"
proof (induction segs arbitrary: b rule: segment_fields.induct)
  case (2 l ss)
  then show ?case by (simp add: placeholders_literal)
next
  case (3 f ss)
  then show ?case by (simp add: placeholder_at_identifier)
qed simp

lemma format_map_literal: "format_map rich vals (escape_braces l @ rest) = prepend l (format_map rich vals rest)"
  by (induction l) auto

lemma replacement_field_identifier:
  assumes "is_identifier f"
  shows "replacement_field rich vals (f @ CHR ''}'' # rest) =
    (case vals f of None \<Rightarrow> Inl KeyError | Some v \<Rightarrow> Inr (v, rest))"
proof -
  have "list_all (\<lambda>c. \<not> field_delimiter c) f"
    using assms ident_char_no_delimiter by (auto simp: is_identifier_def list_all_iff)
  moreover have "\<not> list_all ascii_digit f"
    using assms ident_start_not_digit by (cases f) (auto simp: is_identifier_def)
  ultimately show ?thesis
    using takeWhile_all_then [of "\<lambda>c. \<not> field_delimiter c" f "CHR ''}''" rest]
    by (simp add: replacement_field_def)
qed

lemma format_map_placeholder:
  assumes "is_identifier f"
  shows "format_map rich vals (CHR ''{'' # f @ CHR ''}'' # rest) =
    (case vals f of None \<Rightarrow> Inl KeyError | Some v \<Rightarrow> prepend v (format_map rich vals rest))"
proof (cases f)
  case (Cons c cs)
  then have "c \<noteq> CHR ''{''" using assms brace_not_ident(1) by (auto simp: is_identifier_def)
  then have "format_map rich vals (CHR ''{'' # f @ CHR ''}'' # rest) =
     (case replacement_field rich vals (f @ CHR ''}'' # rest) of
        Inl e \<Rightarrow> Inl e | Inr (v, rest) \<Rightarrow> prepend v (format_map rich vals rest))"
    using Cons by simp
  then show ?thesis by (simp only: replacement_field_identifier [OF assms]) (simp split: option.split)
qed (use assms in \<open>simp add: is_identifier_def\<close>)

lemma format_map_printed:
  "list_all is_identifier (segment_fields segs) \<Longrightarrow> list_all (\<lambda>f. vals f \<noteq> None) (segment_fields segs) \<Longrightarrow>
   format_map rich vals (print_template segs) = Inr (concat (map (the \<circ> segment_value vals) segs))"
proof (induction segs rule: segment_fields.induct)
  case (3 f ss)
  then show ?case by (auto simp: format_map_placeholder simp del: format_map.simps(2))
qed (auto simp: format_map_literal)

lemma allowed_identifier: "f \<in> set allowed_template_fields \<Longrightarrow> is_identifier f"
proof -
  have "list_all is_identifier allowed_template_fields" by code_simp
  then show "f \<in> set allowed_template_fields \<Longrightarrow> is_identifier f" by (simp add: list_all_iff)
qed

text \<open>What the worker passes as values: every whitelisted field but the excerpt.\<close>

definition supplies_fields :: "(string \<Rightarrow> string option) \<Rightarrow> bool" where
  "supplies_fields field_values \<longleftrightarrow>
     list_all (\<lambda>f. f = ''event_excerpt'' \<or> field_values f \<noteq> None) allowed_template_fields"

definition rendered_values ::
  "(string \<Rightarrow> string option) \<Rightarrow> string \<Rightarrow> redactor \<Rightarrow> string \<Rightarrow> string option" where
  "rendered_values field_values raw_event_excerpt redactor =
     field_values(''event_excerpt'' \<mapsto>
        string_of_codepoints (render_excerpt redactor default_excerpt_cap (bytes_of_string raw_event_excerpt)))"

lemma template_values_agree:
  assumes "separated False segs" "list_all (\<lambda>f. f \<in> set allowed_template_fields) (segment_fields segs)"
    "f \<in> set (segment_fields segs)"
  shows "template_sub_map (print_template segs) field_values raw redactor f =
    rendered_values field_values raw redactor f"
proof -
  have "list_all is_identifier (segment_fields segs)"
    using assms(2) allowed_identifier by (auto simp: list_all_iff)
  then have "set (extract_template_fields (print_template segs)) = set (segment_fields segs)"
    using placeholders_printed [OF assms(1)] by (simp add: extract_template_fields_def)
  then show ?thesis using assms(3) by (auto simp: template_sub_map_def rendered_values_def)
qed

lemma segment_values_cong:
  "(\<And>f. f \<in> set (segment_fields segs) \<Longrightarrow> u f = v f) \<Longrightarrow>
   map (the \<circ> segment_value u) segs = map (the \<circ> segment_value v) segs"
  by (induction segs rule: segment_fields.induct) auto


definition example_template :: "segment list" where
  "example_template = [Literal ''{'', Literal ''ev '', Placeholder ''event_type'', Literal '': '',
     Placeholder ''event_excerpt'']"

definition example_fields :: "string \<Rightarrow> string option" where
  "example_fields = map_of (map (\<lambda>f. (f, ''{'' @ f @ ''}'')) (removeAll ''event_excerpt'' allowed_template_fields))"


text \<open>
  Templates that pass validation and never render. The scan accepts a text without placeholders
  whatever its braces: a lone opening brace is stored and raises \<open>ValueError\<close> at every rendering,
  which is not one of the sub-reasons. A placeholder inside doubled braces is not seen by the scan but
  is one for \<open>format_map\<close>: the excerpt is then never supplied and the rendering always fails with
  \<open>missing_field\<close>, and a field outside the whitelist is accepted.
\<close>

lemma validated_templates_that_never_render:
  "validate_template_string ''{'' = Inr [] \<and>
   render_template rich ''{'' field_values raw redactor = Inl ValueError \<and>
   validate_template_string ''{{{event_excerpt}}}'' = Inr [] \<and>
   render_template rich ''{{{event_excerpt}}}'' (field_values(''event_excerpt'' := None)) raw redactor =
     Inl (RouteTemplateRenderError ''missing_field'') \<and>
   validate_template_string ''{{{secret}}}'' = Inr []"
proof -
  have e: "extract_template_fields ''{{{event_excerpt}}}'' = []" by code_simp
  have f: "''{{{event_excerpt}}}'' = escape_braces ''{'' @ CHR ''{'' # ''event_excerpt'' @ CHR ''}'' # ''}}''"
    by code_simp
  have "is_identifier ''event_excerpt''" by code_simp
  then have "format_map rich (field_values(''event_excerpt'' := None)) ''{{{event_excerpt}}}'' = Inl KeyError"
    unfolding f format_map_literal by (simp only: format_map_placeholder) simp
  then have "render_template rich ''{{{event_excerpt}}}'' (field_values(''event_excerpt'' := None)) raw redactor =
     Inl (RouteTemplateRenderError ''missing_field'')"
    unfolding render_template_def template_sub_map_def e by simp
  moreover have "render_template rich ''{'' field_values raw redactor = Inl ValueError"
    by (simp add: render_template_def)
  moreover have "validate_template_string ''{'' = Inr [] \<and> validate_template_string ''{{{event_excerpt}}}'' = Inr [] \<and>
     validate_template_string ''{{{secret}}}'' = Inr []" by code_simp
  ultimately show ?thesis by blast
qed

end
