(* ===== verification/Arbitration.thy ===== *)
theory Arbitration
  imports Agents
begin

text \<open>
  Master arbitration (\<open>routing/arbitration.py\<close>): the winner for a route, or the reason to skip.
\<close>

datatype arbitration_result = MasterWon agent | MasterSkip string

definition master_rules :: "string list" where
  "master_rules = [''auto'', ''explicit'']"

definition pick_auto :: "agent list \<Rightarrow> arbitration_result" where
  "pick_auto candidates =
     (let eligible = filter (\<lambda>c. ag_role c = ''master'' \<and> ag_active c) candidates in
      case sort_key ag_agent_id eligible of
        [] \<Rightarrow> MasterSkip ''no_eligible_master''
      | winner # _ \<Rightarrow> MasterWon winner)"

fun pick_explicit :: "agent list \<Rightarrow> string \<Rightarrow> arbitration_result" where
  "pick_explicit [] master_value = MasterSkip ''master_not_found''"
| "pick_explicit (c # cs) master_value =
     (if ag_agent_id c = master_value then
        (if ag_role c = ''master'' \<and> ag_active c then MasterWon c else MasterSkip ''master_inactive'')
      else pick_explicit cs master_value)"

definition pick_master :: "string \<Rightarrow> string option \<Rightarrow> agent list \<Rightarrow> exc + arbitration_result" where
  "pick_master master_rule master_value active_masters =
     (if master_rule \<notin> set master_rules then Inl (RouteError ''route_master_rule_invalid'')
      else if master_rule = ''auto'' then Inr (pick_auto active_masters)
      else (case master_value of
              None \<Rightarrow> Inl (RouteError ''route_master_rule_invalid'')
            | Some v \<Rightarrow> Inr (pick_explicit active_masters v)))"

subsection \<open>Facts\<close>

lemma sort_key_hd:
  assumes "sort_key k xs = w # ws"
  shows "w \<in> set xs" "\<And>x. x \<in> set xs \<Longrightarrow> k w \<le> k x"
proof -
  have s: "sorted (map k (w # ws))" using sorted_sort_key [of k xs] assms by simp
  have e: "set (w # ws) = set xs" using set_sort [of k xs] assms by simp
  show "w \<in> set xs" using e by auto
  show "k w \<le> k x" if "x \<in> set xs" for x
  proof -
    have "x \<in> set (w # ws)" using that e by simp
    then show ?thesis using s by auto
  qed
qed

lemma sort_key_Nil_iff: "sort_key k xs = [] \<longleftrightarrow> xs = []"
  by (metis length_0_conv length_sort)

lemma pick_explicit_cases:
  "pick_explicit cs v =
     (case lookup_row ag_agent_id v cs of
        None \<Rightarrow> MasterSkip ''master_not_found''
      | Some c \<Rightarrow> if ag_role c = ''master'' \<and> ag_active c then MasterWon c
                  else MasterSkip ''master_inactive'')"
  by (induction cs) (auto simp: lookup_row_def)

definition active_master :: "agent list \<Rightarrow> agent \<Rightarrow> bool" where
  "active_master agents a \<longleftrightarrow> a \<in> set agents \<and> ag_active a \<and> ag_role a = ''master''"

text \<open>
  Arbitration over the active masters of the registry. With rule \<open>auto\<close> the winner is an active
  master that no active master precedes in the order of agent ids, so with distinct ids it does not
  depend on the order of the registry, and the route is skipped with \<open>no_eligible_master\<close> exactly when
  there is none. With rule \<open>explicit\<close> the named agent wins exactly when it is an active master, and is
  reported as not found otherwise: \<open>master_inactive\<close> never occurs.
\<close>

lemma arbitration_outcome:
  assumes "list_active_masters agents = Inr ms" "distinct (map ag_agent_id agents)"
  shows "(pick_master ''auto'' mv ms = Inr (MasterWon w) \<longleftrightarrow>
      active_master agents w \<and> (\<forall>a. active_master agents a \<longrightarrow> ag_agent_id w \<le> ag_agent_id a)) \<and>
    (pick_master ''auto'' mv ms = Inr (MasterSkip reason) \<longleftrightarrow>
      reason = ''no_eligible_master'' \<and> (\<forall>a. \<not> active_master agents a)) \<and>
    (pick_master ''explicit'' (Some v) ms = Inr (MasterWon w) \<longleftrightarrow>
      active_master agents w \<and> ag_agent_id w = v) \<and>
    (pick_master ''explicit'' (Some v) ms = Inr (MasterSkip reason) \<longleftrightarrow>
      reason = ''master_not_found'' \<and> (\<forall>a. active_master agents a \<longrightarrow> ag_agent_id a \<noteq> v))"
proof -
  have ms: "set ms = {a. active_master agents a}"
    using assms(1) by (auto simp: list_active_masters_def list_agents_no_container order_agents_def active_master_def)
  have all: "filter (\<lambda>c. ag_role c = ''master'' \<and> ag_active c) ms = ms"
    using ms by (auto simp: active_master_def intro!: filter_True)
  have inj: "a = b" if "active_master agents a" "active_master agents b" "ag_agent_id a = ag_agent_id b" for a b
    using assms(2) that by (auto simp: active_master_def distinct_map inj_on_def)
  have auto1: "pick_auto ms = MasterWon w \<longleftrightarrow>
      active_master agents w \<and> (\<forall>a. active_master agents a \<longrightarrow> ag_agent_id w \<le> ag_agent_id a)"
  proof (cases "sort_key ag_agent_id ms")
    case Nil
    then show ?thesis using ms by (auto simp: pick_auto_def all sort_key_Nil_iff)
  next
    case (Cons x xs)
    note hd = sort_key_hd [OF Cons]
    have x: "active_master agents x" using hd(1) ms by simp
    have "pick_auto ms = MasterWon x" by (simp add: pick_auto_def all Cons)
    moreover have "ag_agent_id x \<le> ag_agent_id a" if "active_master agents a" for a using hd(2) ms that by simp
    ultimately show ?thesis using x inj by (metis arbitration_result.inject(1) order_antisym)
  qed
  have auto2: "pick_auto ms = MasterSkip reason \<longleftrightarrow> reason = ''no_eligible_master'' \<and> (\<forall>a. \<not> active_master agents a)"
    using ms sort_key_hd(1) [of ag_agent_id ms]
    by (auto simp: pick_auto_def all sort_key_Nil_iff split: list.splits)
  have "(pick_explicit ms v = MasterWon w \<longleftrightarrow> active_master agents w \<and> ag_agent_id w = v) \<and>
    (pick_explicit ms v = MasterSkip reason \<longleftrightarrow>
      reason = ''master_not_found'' \<and> (\<forall>a. active_master agents a \<longrightarrow> ag_agent_id a \<noteq> v))"
  proof (cases "lookup_row ag_agent_id v ms")
    case None
    then have "\<forall>a. active_master agents a \<longrightarrow> ag_agent_id a \<noteq> v"
      using ms by (auto simp: lookup_row_None_iff)
    then show ?thesis by (auto simp: pick_explicit_cases None)
  next
    case (Some c)
    then have c: "active_master agents c" "ag_agent_id c = v" using ms by (auto dest: lookup_row_SomeD)
    then have "pick_explicit ms v = MasterWon c" by (simp add: pick_explicit_cases Some active_master_def)
    then show ?thesis using c inj by auto
  qed
  then show ?thesis using auto1 auto2 by (simp add: pick_master_def master_rules_def)
qed

definition example_masters :: "agent list" where
  "example_masters = [(example_agent ''agt_2'' ''b'')\<lparr>ag_role := ''master''\<rparr>,
     (example_agent ''agt_1'' ''a'')\<lparr>ag_role := ''master''\<rparr>]"

end
