(* ===== verification/Routes_Service.thy ===== *)
theory Routes_Service
  imports Routes_Dao Routing_State Source_Scope Template Arbitration
begin

text \<open>
  The routes service (\<open>routing/routes_service.py\<close>): adding a route after validation, removing,
  enabling and disabling, the reads, and the figures of \<open>agenttower status\<close>. What a call does not
  choose (clock, \<open>uuid4\<close>, lock contention, a failing JSONL append) is the record \<open>route_call\<close>.
\<close>

subsection \<open>Requests and environment\<close>

record route_request =
  rq_event_type :: string
  rq_source_scope_kind :: string
  rq_source_scope_value :: "string option"
  rq_target_rule :: string
  rq_target_value :: "string option"
  rq_master_rule :: string
  rq_master_value :: "string option"
  rq_template_string :: string
  rq_created_by_agent_id :: "string option"

record route_call =
  rv_now :: timestamp
  rv_emitted_at :: timestamp
  rv_uuid :: string
  rv_busy :: "nat \<Rightarrow> bool"
  rv_os_error :: bool
  rv_max_rows :: nat

definition allowed_event_types :: "string list" where
  "allowed_event_types =
     [''activity'', ''waiting_for_input'', ''completed'', ''error'', ''test_failed'', ''test_passed'',
      ''manual_review_needed'', ''long_running'', ''pane_exited'', ''swarm_member_reported'']"

definition allowed_target_rules :: "string list" where
  "allowed_target_rules = [''explicit'', ''source'', ''role'']"

definition receive_permitted_roles :: "string list" where
  "receive_permitted_roles = [''slave'', ''swarm'']"

text \<open>Python's truth value of \<open>str | None\<close>.\<close>

definition given_value :: "string option \<Rightarrow> bool" where
  "given_value v \<longleftrightarrow> v \<noteq> None \<and> v \<noteq> Some []"

subsection \<open>Adding a route\<close>

definition validate_route :: "route_request \<Rightarrow> exc + unit" where
  "validate_route q =
     (if rq_event_type q \<notin> set allowed_event_types then Inl (RouteError ''route_event_type_invalid'')
      else if rq_master_rule q \<notin> set master_rules then Inl (RouteError ''route_master_rule_invalid'')
      else if rq_master_rule q = ''explicit'' \<and> \<not> given_value (rq_master_value q)
      then Inl (RouteError ''route_master_rule_invalid'')
      else if rq_master_rule q = ''auto'' \<and> rq_master_value q \<noteq> None
      then Inl (RouteError ''route_master_rule_invalid'')
      else if rq_target_rule q \<notin> set allowed_target_rules then Inl (RouteError ''route_target_rule_invalid'')
      else if rq_target_rule q = ''source'' \<and> rq_target_value q \<noteq> None
      then Inl (RouteError ''route_target_rule_invalid'')
      else if rq_target_rule q \<noteq> ''source'' \<and> \<not> given_value (rq_target_value q)
      then Inl (RouteError ''route_target_rule_invalid'')
      else
        (case parse_source_scope_value (rq_source_scope_value q) (rq_source_scope_kind q) of
           Inl e \<Rightarrow> Inl e
         | Inr _ \<Rightarrow>
             (case (if rq_target_rule q = ''role''
                    then (case parse_role_capability (the (rq_target_value q)) of
                            Inl _ \<Rightarrow> Inl (RouteError ''route_target_rule_invalid'')
                          | Inr (role, _) \<Rightarrow>
                              if role \<notin> set receive_permitted_roles
                              then Inl (RouteError ''route_target_rule_invalid'') else Inr ())
                    else Inr ()) of
                Inl e \<Rightarrow> Inl e
              | Inr _ \<Rightarrow>
                  (case validate_template_string (rq_template_string q) of
                     Inl e \<Rightarrow> Inl e
                   | Inr _ \<Rightarrow> Inr ()))))"

definition route_of_request :: "route_call \<Rightarrow> nat \<Rightarrow> route_request \<Rightarrow> route_row" where
  "route_of_request rv cursor_at_creation q =
     \<lparr>rt_route_id = rv_uuid rv, rt_event_type = rq_event_type q,
      rt_source_scope_kind = rq_source_scope_kind q, rt_source_scope_value = rq_source_scope_value q,
      rt_target_rule = rq_target_rule q, rt_target_value = rq_target_value q,
      rt_master_rule = rq_master_rule q, rt_master_value = rq_master_value q,
      rt_template = rq_template_string q, rt_enabled = True,
      rt_last_consumed_event_id = cursor_at_creation, rt_created_at = rv_now rv,
      rt_updated_at = rv_now rv, rt_created_by_agent_id = rq_created_by_agent_id q\<rparr>"

text \<open>
  The cursor is read before the transaction; \<open>add_route_commit\<close> is what follows, on the tables as
  they are then.
\<close>

definition add_route_commit ::
  "route_call \<Rightarrow> route_row \<Rightarrow> db \<times> routes_audit \<Rightarrow> (exc + route_row) \<times> db \<times> routes_audit" where
  "add_route_commit rv row s =
     (case s of (d, a) \<Rightarrow>
        (case locked_tx (rv_busy rv) (insert_route row) d of
           (Inl e, d') \<Rightarrow>
             (Inl (if e = IntegrityError then RouteError ''route_creation_failed'' else e), d', a)
         | (Inr _, d') \<Rightarrow>
             (Inr row, d', emit_route_created (rv_max_rows rv) (rv_os_error rv) (rv_emitted_at rv) row a)))"

definition add_route ::
  "route_call \<Rightarrow> route_request \<Rightarrow> db \<times> routes_audit \<Rightarrow> (exc + route_row) \<times> db \<times> routes_audit" where
  "add_route rv q s =
     (case validate_route q of
        Inl e \<Rightarrow> (Inl e, s)
      | Inr _ \<Rightarrow> add_route_commit rv (route_of_request rv (select_max_event_id (fst s)) q) s)"

subsection \<open>Removing and flipping\<close>

definition remove_route ::
  "route_call \<Rightarrow> string \<Rightarrow> string option \<Rightarrow> db \<times> routes_audit \<Rightarrow> (exc + unit) \<times> db \<times> routes_audit" where
  "remove_route rv route_id deleted_by s =
     (case s of (d, a) \<Rightarrow>
        (case locked_tx (rv_busy rv) (delete_route route_id) d of
           (Inl e, d') \<Rightarrow> (Inl e, d', a)
         | (Inr deleted, d') \<Rightarrow>
             if \<not> deleted then (Inl (RouteError ''route_id_not_found''), d', a)
             else (Inr (), d', emit_route_deleted (rv_max_rows rv) (rv_os_error rv) (rv_emitted_at rv)
                                 route_id deleted_by a)))"

text \<open>The existence check runs before the update and outside its transaction.\<close>

definition flip_commit ::
  "route_call \<Rightarrow> string \<Rightarrow> bool \<Rightarrow> string option \<Rightarrow> db \<times> routes_audit \<Rightarrow> (exc + bool) \<times> db \<times> routes_audit" where
  "flip_commit rv route_id enabled updated_by s =
     (case s of (d, a) \<Rightarrow>
        (case locked_tx (rv_busy rv) (update_enabled route_id enabled (rv_now rv)) d of
           (Inl e, d') \<Rightarrow> (Inl e, d', a)
         | (Inr changed, d') \<Rightarrow>
             (Inr changed, d',
              if changed then emit_route_updated (rv_max_rows rv) (rv_os_error rv) (rv_emitted_at rv)
                                route_id enabled updated_by a
              else a)))"

definition flip_enabled ::
  "route_call \<Rightarrow> string \<Rightarrow> bool \<Rightarrow> string option \<Rightarrow> db \<times> routes_audit \<Rightarrow> (exc + bool) \<times> db \<times> routes_audit" where
  "flip_enabled rv route_id enabled updated_by s =
     (case select_route route_id (fst s) of
        None \<Rightarrow> (Inl (RouteError ''route_id_not_found''), s)
      | Some _ \<Rightarrow> flip_commit rv route_id enabled updated_by s)"

definition enable_route ::
  "route_call \<Rightarrow> string \<Rightarrow> string option \<Rightarrow> db \<times> routes_audit \<Rightarrow> (exc + bool) \<times> db \<times> routes_audit" where
  "enable_route rv route_id updated_by = flip_enabled rv route_id True updated_by"

definition disable_route ::
  "route_call \<Rightarrow> string \<Rightarrow> string option \<Rightarrow> db \<times> routes_audit \<Rightarrow> (exc + bool) \<times> db \<times> routes_audit" where
  "disable_route rv route_id updated_by = flip_enabled rv route_id False updated_by"

subsection \<open>Showing a route\<close>

record route_runtime =
  rn_last_routing_cycle_at :: "timestamp option"
  rn_events_consumed :: nat
  rn_last_skip_reason :: "string option"
  rn_last_skip_at :: "timestamp option"

definition build_runtime :: "shared_state option \<Rightarrow> string \<Rightarrow> route_runtime" where
  "build_runtime shared route_id =
     (case shared of
        None \<Rightarrow> \<lparr>rn_last_routing_cycle_at = None, rn_events_consumed = 0, rn_last_skip_reason = None,
                 rn_last_skip_at = None\<rparr>
      | Some sh \<Rightarrow>
          let last_skip = sh_last_skip_per_route sh route_id in
          \<lparr>rn_last_routing_cycle_at = sh_last_routing_cycle_at sh,
           rn_events_consumed = sh_events_consumed_total sh,
           rn_last_skip_reason = map_option fst last_skip,
           rn_last_skip_at = map_option snd last_skip\<rparr>)"

definition show_route :: "shared_state option \<Rightarrow> string \<Rightarrow> db \<Rightarrow> exc + (route_row \<times> route_runtime)" where
  "show_route shared route_id d =
     (case select_route route_id d of
        None \<Rightarrow> Inl (RouteError ''route_id_not_found'')
      | Some row \<Rightarrow> Inr (row, build_runtime shared route_id))"

subsection \<open>Status figures\<close>

definition route_lag :: "db \<Rightarrow> route_row \<Rightarrow> nat" where
  "route_lag d r =
     rowcount (\<lambda>e. rt_last_consumed_event_id r < ev_event_id e \<and> ev_event_type e = rt_event_type r) (db_events d)"

fun stalled_leader :: "db \<Rightarrow> (string \<times> nat) option \<Rightarrow> route_row list \<Rightarrow> (string \<times> nat) option" where
  "stalled_leader d leader [] = leader"
| "stalled_leader d leader (route # routes) =
     (let lag = route_lag d route in
      if lag \<le> 0 then stalled_leader d leader routes
      else if leader = None \<or> snd (the leader) < lag
      then stalled_leader d (Some (rt_route_id route, lag)) routes
      else stalled_leader d leader routes)"

definition compute_most_stalled :: "db \<Rightarrow> (string \<times> nat) option" where
  "compute_most_stalled d = stalled_leader d None (list_routes True d)"

definition compute_route_counts :: "db \<Rightarrow> nat \<times> nat \<times> nat" where
  "compute_route_counts d =
     (let total = length (db_routes d); enabled = rowcount rt_enabled (db_routes d)
      in (total, enabled, total - enabled))"

subsection \<open>Facts\<close>

lemma parse_source_scope_shape:
  assumes "parse_source_scope_value raw kind = Inr p"
  shows "kind \<in> set source_scope_kinds" "kind = ''any'' \<longleftrightarrow> raw = None"
  using assms by (auto simp: parse_source_scope_value_def Let_def split: if_splits option.splits)

lemma validate_route_checks:
  assumes "validate_route q = Inr ()"
  shows "route_row_checks (route_of_request rv c q)"
proof -
  obtain p where p: "parse_source_scope_value (rq_source_scope_value q) (rq_source_scope_kind q) = Inr p"
    using assms by (auto simp: validate_route_def split: if_splits sum.splits)
  have "rq_event_type q \<in> set allowed_event_types" "rq_master_rule q \<in> set master_rules"
    "rq_target_rule q \<in> set allowed_target_rules"
    "rq_master_rule q = ''explicit'' \<longrightarrow> rq_master_value q \<noteq> None"
    "rq_master_rule q = ''auto'' \<longrightarrow> rq_master_value q = None"
    "rq_target_rule q = ''source'' \<longleftrightarrow> rq_target_value q = None"
    using assms by (auto simp: validate_route_def given_value_def split: if_splits)
  moreover have "allowed_event_types = classifier_event_types"
    by (simp only: allowed_event_types_def classifier_event_types_def)
  ultimately show ?thesis using parse_source_scope_shape [OF p]
    by (auto simp: route_row_checks_def route_of_request_def source_scope_kinds_def master_rules_def
        allowed_target_rules_def)
qed


lemma stalled_leader_keeps:
  "list_all (\<lambda>r. route_lag d r \<le> (case leader of None \<Rightarrow> 0 | Some l \<Rightarrow> snd l)) routes \<Longrightarrow>
   stalled_leader d leader routes = leader"
  by (induction routes) (auto simp: Let_def split: option.splits)

lemma stalled_leader_first_max:
  assumes "(case leader of None \<Rightarrow> 0 | Some l \<Rightarrow> snd l) < route_lag d r"
    "list_all (\<lambda>x. route_lag d x < route_lag d r) pre" "list_all (\<lambda>x. route_lag d x \<le> route_lag d r) post"
  shows "stalled_leader d leader (pre @ r # post) = Some (rt_route_id r, route_lag d r)"
  using assms(1,2)
proof (induction pre arbitrary: leader)
  case Nil
  then show ?case using stalled_leader_keeps [of d "Some (rt_route_id r, route_lag d r)" post] assms(3)
    by (auto simp: Let_def split: option.splits)
next
  case (Cons x pre)
  then show ?case by (auto simp: Let_def split: option.splits)
qed

lemma first_max_split:
  assumes "\<not> list_all (\<lambda>r. f r = (0 :: nat)) rs"
  obtains pre r post where "rs = pre @ r # post" "0 < f r"
    "list_all (\<lambda>x. f x < f r) pre" "list_all (\<lambda>x. f x \<le> f r) post"
proof -
  define m where "m = Max (f ` set rs)"
  have ne: "rs \<noteq> []" using assms by auto
  have le: "f x \<le> m" if "x \<in> set rs" for x using that by (simp add: m_def)
  have "m \<in> f ` set rs" unfolding m_def by (rule Max_in) (simp_all add: ne)
  then have "\<exists>x \<in> set rs. f x = m" by auto
  from split_list_first_prop [OF this] obtain pre r post where
    s: "rs = pre @ r # post" "f r = m" "\<forall>x \<in> set pre. f x \<noteq> m" by blast
  obtain x where "x \<in> set rs" "0 < f x" using assms by (auto simp: list_all_iff)
  then have "0 < m" using le [of x] by simp
  then have "0 < f r" by (simp add: s(2))
  moreover have "list_all (\<lambda>x. f x < f r) pre" using s le by (force simp: list_all_iff order_less_le)
  moreover have "list_all (\<lambda>x. f x \<le> f r) post" using s le by (simp add: list_all_iff)
  ultimately show ?thesis by (rule that [OF s(1)])
qed

text \<open>
  The most stalled route of the status report. None is reported exactly when no enabled route has
  an unconsumed event of its type. A reported route is enabled, has the reported positive lag, no
  enabled route has a larger one, and every enabled route before it in the order of creation time and
  id has a smaller one.
\<close>

lemma most_stalled_is_first_max:
  "(compute_most_stalled d = None \<longleftrightarrow> list_all (\<lambda>r. route_lag d r = 0) (list_routes True d)) \<and>
   (compute_most_stalled d = Some (i, n) \<longleftrightarrow>
      (\<exists>pre r post. list_routes True d = pre @ r # post \<and> rt_route_id r = i \<and> route_lag d r = n \<and> 0 < n \<and>
        list_all (\<lambda>x. route_lag d x < n) pre \<and> list_all (\<lambda>x. route_lag d x \<le> n) post))"
proof (cases "list_all (\<lambda>r. route_lag d r = 0) (list_routes True d)")
  case True
  then have "compute_most_stalled d = None" by (simp add: compute_most_stalled_def stalled_leader_keeps)
  then show ?thesis using True by (auto simp: list_all_iff)
next
  case False
  have some: "compute_most_stalled d = Some (rt_route_id r, route_lag d r)"
    if "list_routes True d = pre @ r # post" "0 < route_lag d r"
      "list_all (\<lambda>x. route_lag d x < route_lag d r) pre" "list_all (\<lambda>x. route_lag d x \<le> route_lag d r) post" for pre r post
    using stalled_leader_first_max [of None d r pre post] that by (simp add: compute_most_stalled_def)
  from first_max_split [OF False] obtain pre r post where
    split: "list_routes True d = pre @ r # post" "0 < route_lag d r"
    "list_all (\<lambda>x. route_lag d x < route_lag d r) pre" "list_all (\<lambda>x. route_lag d x \<le> route_lag d r) post" .
  show ?thesis
  proof (intro conjI)
    show "compute_most_stalled d = None \<longleftrightarrow> list_all (\<lambda>r. route_lag d r = 0) (list_routes True d)"
      using some [OF split] False by simp
    show "compute_most_stalled d = Some (i, n) \<longleftrightarrow>
      (\<exists>pre r post. list_routes True d = pre @ r # post \<and> rt_route_id r = i \<and> route_lag d r = n \<and> 0 < n \<and>
        list_all (\<lambda>x. route_lag d x < n) pre \<and> list_all (\<lambda>x. route_lag d x \<le> n) post)"
    proof
      assume "compute_most_stalled d = Some (i, n)"
      then show "\<exists>pre r post. list_routes True d = pre @ r # post \<and> rt_route_id r = i \<and> route_lag d r = n \<and> 0 < n \<and>
        list_all (\<lambda>x. route_lag d x < n) pre \<and> list_all (\<lambda>x. route_lag d x \<le> n) post"
        using some [OF split] split by (intro exI [of _ pre] exI [of _ r] exI [of _ post]) simp
    qed (use some in blast)
  qed
qed

lemma new_route_lag: "route_lag d (route_of_request rv (select_max_event_id d) q) = 0"
  using select_max_event_id_ge [of _ d]
  by (auto simp: route_lag_def rowcount_0_iff route_of_request_def not_less)

lemma insert_route_cases:
  assumes "route_row_checks row"
  shows "locked_tx busy (insert_route row) d =
    (if all_busy busy then (Inl SqliteLockConflict, d)
     else if rt_route_id row \<in> rt_route_id ` set (db_routes d) then (Inl IntegrityError, d)
     else (Inr (rt_route_id row), d\<lparr>db_routes := db_routes d @ [row]\<rparr>))"
proof -
  have "locked_tx busy (insert_route row) d =
    (if all_busy busy then (Inl SqliteLockConflict, d)
     else case insert_route row d of Inl e \<Rightarrow> (Inl e, d) | Inr (r, d') \<Rightarrow> (Inr r, d'))"
    by (rule locked_tx_eq) (auto simp: insert_route_def split: if_splits)
  then show ?thesis using assms by (auto simp: insert_route_def)
qed

text \<open>
  Adding a route. A request is rejected with the first error of the validation and nothing
  changes. A validated request never violates a constraint of the table: it fails only while the
  database stays locked or if the new id is taken. Otherwise exactly the requested row is appended,
  enabled, one \<open>route_created\<close> record is emitted, and no event stored so far is left for the route to
  consume: it does not replay history.
\<close>

lemma add_route_outcome:
  "add_route rv q (d, a) =
     (case validate_route q of
        Inl e \<Rightarrow> (Inl e, d, a)
      | Inr _ \<Rightarrow>
          let row = route_of_request rv (select_max_event_id d) q in
          if all_busy (rv_busy rv) then (Inl SqliteLockConflict, d, a)
          else if rv_uuid rv \<in> rt_route_id ` set (db_routes d)
          then (Inl (RouteError ''route_creation_failed''), d, a)
          else (Inr row, d\<lparr>db_routes := db_routes d @ [row]\<rparr>,
                emit_route_created (rv_max_rows rv) (rv_os_error rv) (rv_emitted_at rv) row a)) \<and>
   route_lag d (route_of_request rv (select_max_event_id d) q) = 0"
proof (cases "validate_route q")
  case (Inr u)
  have "rt_route_id (route_of_request rv c q) = rv_uuid rv" for c by (simp add: route_of_request_def)
  then show ?thesis
    using insert_route_cases [OF validate_route_checks, of q "rv_busy rv" rv "select_max_event_id d" d] Inr
    by (auto simp: add_route_def add_route_commit_def new_route_lag Let_def)
qed (simp add: add_route_def new_route_lag)

subsection \<open>Every operation keeps the table well-formed\<close>

lemma insert_route_keeps:
  assumes "insert_route row d = Inr (i, d')" "routes_wf d"
  shows "routes_wf d'" "routes_evolve d d'" "db_queue d' = db_queue d" "db_events d' = db_events d"
proof -
  have row: "route_row_checks row" "rt_route_id row \<notin> rt_route_id ` set (db_routes d)"
    and d': "d' = d\<lparr>db_routes := db_routes d @ [row]\<rparr>"
    using assms(1) by (auto simp: insert_route_def split: if_splits)
  show "routes_wf d'" using assms(2) row by (auto simp: routes_wf_def d')
  show "routes_evolve d d'"
    by (auto simp: routes_evolve_def select_route_def d' lookup_row_append)
  show "db_queue d' = db_queue d" "db_events d' = db_events d" by (simp_all add: d')
qed

lemma delete_route_keeps:
  assumes "delete_route i d = Inr (x, d')" "routes_wf d"
  shows "routes_wf d'" "routes_evolve d d'" "db_queue d' = db_queue d" "db_events d' = db_events d"
proof -
  have d': "d' = d\<lparr>db_routes := filter (\<lambda>r. rt_route_id r \<noteq> i) (db_routes d)\<rparr>"
    using assms(1) by (simp add: delete_route_def)
  show wf: "routes_wf d'" using assms(2) by (auto simp: routes_wf_def d' distinct_map_filter list_all_iff)
  show "db_queue d' = db_queue d" "db_events d' = db_events d" by (simp_all add: d')
  have "r' = r" if "select_route j d = Some r" "select_route j d' = Some r'" for j r r'
  proof -
    have "r' \<in> set (db_routes d)" "rt_route_id r' = j" using select_route_SomeD [OF that(2)] by (auto simp: d')
    then show ?thesis using select_route_unique [OF assms(2)] that(1) by force
  qed
  then show "routes_evolve d d'" unfolding routes_evolve_def using route_advances_simps(1) by metis
qed

text \<open>The operations of the service as steps on the tables and the audit.\<close>

inductive routes_step :: "db \<times> routes_audit \<Rightarrow> db \<times> routes_audit \<Rightarrow> bool" where
  add: "add_route rv q s = (r, s') \<Longrightarrow> routes_step s s'"
| remove: "remove_route rv i who s = (r', s') \<Longrightarrow> routes_step s s'"
| flip: "flip_enabled rv i on who s = (r'', s') \<Longrightarrow> routes_step s s'"

lemma routes_step_keeps:
  assumes "routes_step (d, a) (d', a')" "routes_wf d"
  shows "routes_wf d'" "routes_evolve d d'"
proof -
  have "d' = d \<or> (\<exists>row i. insert_route row d = Inr (i, d')) \<or> (\<exists>i x. delete_route i d = Inr (x, d')) \<or>
      (\<exists>i on t x. update_enabled i on t d = Inr (x, d'))"
    using assms(1)
  proof (cases rule: routes_step.cases)
    case (add rv q r)
    then show ?thesis
      by (auto simp: add_route_def add_route_commit_def split: sum.splits prod.splits dest!: locked_tx_ok locked_tx_error)
  next
    case (remove rv i who r)
    then show ?thesis
      by (auto simp: remove_route_def split: sum.splits prod.splits if_splits dest!: locked_tx_ok locked_tx_error)
  next
    case (flip rv i on who r)
    then show ?thesis
      by (auto simp: flip_enabled_def flip_commit_def split: sum.splits prod.splits option.splits
          dest!: locked_tx_ok locked_tx_error)
  qed
  then show "routes_wf d'" "routes_evolve d d'"
    using assms(2) insert_route_keeps delete_route_keeps update_enabled_evolves by (metis routes_evolve_refl)+
qed

end
