(* ===== verification/Routing_Worker.thy ===== *)
theory Routing_Worker
  imports Routes_Service Queue_Service
begin

text \<open>
  The routing worker (\<open>routing/worker.py\<close>): one cycle drains the audit buffer, lists the enabled
  routes and processes a batch of events for each; an event is enqueued through the queue service or
  skipped with a reason, and the route's cursor advances.

  The state is the world of the queue service, the audit writer of the routes, the shared counters and
  the window of skips. What the code does not choose is in records: the settings of the worker, the
  outcomes around one event, and what happened before an event (the shutdown flag and the changes made
  by other threads since the previous one).
\<close>

subsection \<open>State and environment\<close>

record routing_world =
  rw_world :: world
  rw_audit :: routes_audit
  rw_shared :: shared_state
  rw_skips :: "int list"

abbreviation rw_db :: "routing_world \<Rightarrow> db" where
  "rw_db rw \<equiv> w_db (rw_world rw)"

record worker_settings =
  wk_batch_size :: nat
  wk_max_rows :: nat
  wk_rich :: rich_field
  wk_fault_inject_at :: string

definition batch_size_bounds :: "nat \<times> nat" where
  "batch_size_bounds = (1, 10000)"

text \<open>
  The cursor transaction commits, or its \<open>BEGIN\<close> raises \<open>OperationalError\<close>, or a later statement
  does.
\<close>

datatype cursor_outcome = Cursor_committed | Begin_raised string | Statement_raised string

record event_env =
  ee_service :: service_env
  ee_call :: call_env
  ee_cursor :: cursor_outcome
  ee_advanced_at :: timestamp
  ee_emitted_at :: timestamp
  ee_skipped_at :: timestamp
  ee_os_error :: bool
  ee_monotonic_ms :: int

record event_snapshot =
  es_event_id :: nat
  es_event_type :: string
  es_source_agent_id :: string
  es_excerpt :: string
  es_observed_at :: timestamp

definition select_events_after_cursor :: "nat \<Rightarrow> string \<Rightarrow> nat \<Rightarrow> db \<Rightarrow> event_snapshot list" where
  "select_events_after_cursor cursor event_type limit d =
     map (\<lambda>e. \<lparr>es_event_id = ev_event_id e, es_event_type = ev_event_type e,
                es_source_agent_id = ev_agent_id e, es_excerpt = ev_excerpt e,
                es_observed_at = ev_observed_at e\<rparr>)
       (take limit (sort_key ev_event_id
          (filter (\<lambda>e. cursor < ev_event_id e \<and> ev_event_type e = event_type) (db_events d))))"

text \<open>\<open>excerpt[:240]\<close>, on code points.\<close>

definition excerpt_head :: "string \<Rightarrow> string" where
  "excerpt_head s =
     (case codepoints_of_string s of
        None \<Rightarrow> s
      | Some cs \<Rightarrow> string_of_codepoints (take 240 cs))"

subsection \<open>Advancing the cursor\<close>

text \<open>
  After a failing \<open>BEGIN\<close> there is no transaction, and the handler's \<open>ROLLBACK\<close> raises in place of
  the exception it handles.
\<close>

definition advance_cursor_only ::
  "event_env \<Rightarrow> string \<Rightarrow> nat \<Rightarrow> routing_world \<Rightarrow> (exc + unit) \<times> routing_world" where
  "advance_cursor_only ee route_id event_id rw =
     (case ee_cursor ee of
        Begin_raised msg \<Rightarrow> (Inl (OperationalError ''cannot rollback - no transaction is active''), rw)
      | Statement_raised msg \<Rightarrow>
          (Inl (if py_contains ''database is locked'' (py_lower msg)
                then RoutingTransientError ''routing_sqlite_locked'' else OperationalError msg), rw)
      | Cursor_committed \<Rightarrow>
          (case advance_cursor route_id event_id (ee_advanced_at ee) (rw_db rw) of
             Inl e \<Rightarrow> (Inl e, rw)
           | Inr (_, d) \<Rightarrow> (Inr (), rw\<lparr>rw_world := (rw_world rw)\<lparr>w_db := d\<rparr>\<rparr>)))"

subsection \<open>One event\<close>

definition skip ::
  "worker_settings \<Rightarrow> event_env \<Rightarrow> route_row \<Rightarrow> event_snapshot \<Rightarrow> agent option \<Rightarrow> agent option \<Rightarrow> string \<Rightarrow>
   string option \<Rightarrow> routing_world \<Rightarrow> (exc + unit) \<times> routing_world" where
  "skip wk ee route ev winner target reason sub_reason rw =
     (case advance_cursor_only ee (rt_route_id route) (es_event_id ev) rw of
        (Inl e, rw') \<Rightarrow> (Inl e, rw')
      | (Inr _, rw') \<Rightarrow>
          (Inr (),
           rw'\<lparr>rw_audit := emit_route_skipped (wk_max_rows wk) (ee_os_error ee) (ee_emitted_at ee)
                  (es_event_id ev) (rt_route_id route) (map_option ag_agent_id winner)
                  (map_option ag_agent_id target) (map_option ag_label target) reason sub_reason
                  (excerpt_head (es_excerpt ev)) (rw_audit rw'),
               rw_skips := record_skip (ee_monotonic_ms ee) (rw_skips rw'),
               rw_shared := count_skip (rt_route_id route) reason (ee_skipped_at ee) (rw_shared rw')\<rparr>))"

datatype target_outcome = Target agent | Target_skip string | Target_raises exc

definition resolve_route_target :: "agent list \<Rightarrow> route_row \<Rightarrow> agent \<Rightarrow> target_outcome" where
  "resolve_route_target agents route source_agent =
     (let rule = rt_target_rule route; value = rt_target_value route in
      if rule = ''explicit'' then
        (case value of
           None \<Rightarrow> Target_raises AssertionError
         | Some v \<Rightarrow>
             (case resolve_target (get_agent_by_id agents) (find_agents_by_label agents) v of
                Inr a \<Rightarrow> Target a
              | Inl (TargetResolveError _) \<Rightarrow> Target_skip ''target_not_found''
              | Inl e \<Rightarrow> Target_raises e))
      else if rule = ''source'' then
        (if \<not> ag_active source_agent then Target_skip ''target_not_active'' else Target source_agent)
      else if rule = ''role'' then
        (case value of
           None \<Rightarrow> Target_raises AssertionError
         | Some v \<Rightarrow>
             (case parse_role_capability v of
                Inl e \<Rightarrow> Target_raises e
              | Inr (role, capability) \<Rightarrow>
                  (case list_active_by_role agents role capability of
                     Inl e \<Rightarrow> Target_raises e
                   | Inr matches \<Rightarrow>
                       (case sort_key ag_agent_id matches of
                          [] \<Rightarrow> Target_skip ''no_eligible_target''
                        | a # _ \<Rightarrow> Target a))))
      else Target_skip ''target_not_found'')"

definition build_template_fields :: "event_snapshot \<Rightarrow> agent \<Rightarrow> string \<Rightarrow> string option" where
  "build_template_fields ev source_agent =
     map_of [(''event_id'', py_str (es_event_id ev)), (''event_type'', es_event_type ev),
       (''source_agent_id'', es_source_agent_id ev), (''source_label'', ag_label source_agent),
       (''source_role'', ag_role source_agent), (''source_capability'', ag_capability source_agent),
       (''observed_at'', es_observed_at ev)]"

text \<open>Steps 5 and 6: the cursor, then the \<open>route_matched\<close> record and the counters.\<close>

definition finish_matched ::
  "worker_settings \<Rightarrow> event_env \<Rightarrow> route_row \<Rightarrow> event_snapshot \<Rightarrow> agent \<Rightarrow> agent \<Rightarrow> routing_world \<Rightarrow>
   (exc + unit) \<times> routing_world" where
  "finish_matched wk ee route ev winner target rw =
     (case advance_cursor_only ee (rt_route_id route) (es_event_id ev) rw of
        (Inl e, rw') \<Rightarrow> (Inl e, rw')
      | (Inr _, rw') \<Rightarrow>
          (Inr (),
           rw'\<lparr>rw_audit := emit_route_matched (wk_max_rows wk) (ee_os_error ee) (ee_emitted_at ee)
                  (es_event_id ev) (rt_route_id route) (ag_agent_id winner) (ag_agent_id target)
                  (ag_label target) (excerpt_head (es_excerpt ev)) (rw_audit rw'),
               rw_shared := count_consumed (rw_shared rw')\<rparr>))"

text \<open>Step 4: the insert, between the two points where a fault can be injected.\<close>

definition enqueue_event ::
  "worker_settings \<Rightarrow> event_env \<Rightarrow> route_row \<Rightarrow> event_snapshot \<Rightarrow> agent \<Rightarrow> agent \<Rightarrow> bytes \<Rightarrow> routing_world \<Rightarrow>
   (exc + unit) \<times> routing_world" where
  "enqueue_event wk ee route ev winner target body rw =
     (if wk_fault_inject_at wk = ''before_commit'' then (Inl (SystemExit 137), rw)
      else
        (case enqueue_route_message (ee_service ee) (ee_call ee) winner (ag_agent_id target) body
                (rt_route_id route) (es_event_id ev) (rw_world rw) of
           (r, w) \<Rightarrow>
             let rw' = rw\<lparr>rw_world := w\<rparr> in
             (case r of
                Some (Inl e) \<Rightarrow>
                  if is_queue_service_error e
                  then skip wk ee route ev (Some winner) (Some target) (exc_code e) None rw'
                  else
                    (case e of
                       IntegrityError \<Rightarrow> finish_matched wk ee route ev winner target rw'
                     | OperationalError msg \<Rightarrow>
                         (Inl (if py_contains ''database is locked'' (py_lower msg)
                               then RoutingTransientError ''routing_sqlite_locked'' else e), rw')
                     | _ \<Rightarrow> (Inl e, rw'))
              | _ \<Rightarrow>
                  if wk_fault_inject_at wk = ''after_commit'' then (Inl (SystemExit 137), rw')
                  else finish_matched wk ee route ev winner target rw')))"

definition process_one_event ::
  "worker_settings \<Rightarrow> event_env \<Rightarrow> route_row \<Rightarrow> event_snapshot \<Rightarrow> agent \<Rightarrow> routing_world \<Rightarrow>
   (exc + unit) \<times> routing_world" where
  "process_one_event wk ee route ev source_agent rw =
     (let agents = se_agents (ee_service ee) in
      case list_active_masters agents of
        Inl e \<Rightarrow> (Inl e, rw)
      | Inr active_masters \<Rightarrow>
          (case pick_master (rt_master_rule route) (rt_master_value route) active_masters of
             Inl e \<Rightarrow> (Inl e, rw)
           | Inr (MasterSkip reason) \<Rightarrow> skip wk ee route ev None None reason None rw
           | Inr (MasterWon winner) \<Rightarrow>
               (case resolve_route_target agents route source_agent of
                  Target_raises e \<Rightarrow> (Inl e, rw)
                | Target_skip reason \<Rightarrow> skip wk ee route ev (Some winner) None reason None rw
                | Target target \<Rightarrow>
                    (case render_template (wk_rich wk) (rt_template route)
                            (build_template_fields ev source_agent) (es_excerpt ev)
                            (se_redactor (ee_service ee)) of
                       Inl (RouteTemplateRenderError sub_reason) \<Rightarrow>
                         skip wk ee route ev (Some winner) (Some target) ''template_render_error''
                           (Some sub_reason) rw
                     | Inl _ \<Rightarrow> (Inl (RoutingTransientError ''routing_internal_render_failure''), rw)
                     | Inr body \<Rightarrow> enqueue_event wk ee route ev winner target body rw))))"

subsection \<open>A batch\<close>

text \<open>
  Before an event: whether shutdown has been requested, and what other threads did to the state since
  the previous event of the batch.
\<close>

record batch_env =
  be_shutdown :: bool
  be_others :: "routing_world \<Rightarrow> routing_world"
  be_event :: event_env

text \<open>One candidate: a source that is unknown or out of scope only moves the cursor.\<close>

definition handle_candidate ::
  "worker_settings \<Rightarrow> route_row \<Rightarrow> parsed_source_scope \<Rightarrow> event_env \<Rightarrow> event_snapshot \<Rightarrow> routing_world \<Rightarrow>
   (exc + unit) \<times> routing_world" where
  "handle_candidate wk route scope ee ev rw =
     (case get_agent_by_id (se_agents (ee_service ee)) (es_source_agent_id ev) of
        None \<Rightarrow> advance_cursor_only ee (rt_route_id route) (es_event_id ev) rw
      | Some source_agent \<Rightarrow>
          if \<not> scope_matches scope (es_source_agent_id ev) (ag_role source_agent)
                 (Some (ag_capability source_agent))
          then advance_cursor_only ee (rt_route_id route) (es_event_id ev) rw
          else process_one_event wk ee route ev source_agent rw)"

fun batch_loop ::
  "worker_settings \<Rightarrow> route_row \<Rightarrow> parsed_source_scope \<Rightarrow> (nat \<Rightarrow> batch_env) \<Rightarrow> nat \<Rightarrow> event_snapshot list \<Rightarrow>
   bool \<Rightarrow> routing_world \<Rightarrow> (exc + bool) \<times> routing_world" where
  "batch_loop wk route scope envs i [] any_advanced rw = (Inr any_advanced, rw)"
| "batch_loop wk route scope envs i (ev # candidates) any_advanced rw =
     (let be = envs i; rw0 = be_others be rw in
      if be_shutdown be then (Inr any_advanced, rw0)
      else
        (case select_route (rt_route_id route) (rw_db rw0) of
           None \<Rightarrow> (Inr any_advanced, rw0)
         | Some refreshed \<Rightarrow>
             if \<not> rt_enabled refreshed then (Inr any_advanced, rw0)
             else
               (case handle_candidate wk route scope (be_event be) ev rw0 of
                  (Inl e, rw') \<Rightarrow> (Inl e, rw')
                | (Inr _, rw') \<Rightarrow> batch_loop wk route scope envs (Suc i) candidates True rw')))"

definition process_route_batch ::
  "worker_settings \<Rightarrow> (nat \<Rightarrow> batch_env) \<Rightarrow> route_row \<Rightarrow> routing_world \<Rightarrow> (exc + bool) \<times> routing_world" where
  "process_route_batch wk envs route rw =
     (case parse_source_scope_value (rt_source_scope_value route) (rt_source_scope_kind route) of
        Inl e \<Rightarrow> (Inl e, rw)
      | Inr scope \<Rightarrow>
          batch_loop wk route scope envs 0
            (select_events_after_cursor (rt_last_consumed_event_id route) (rt_event_type route)
               (wk_batch_size wk) (rw_db rw)) False rw)"

subsection \<open>A cycle\<close>

text \<open>An exception the \<open>except Exception\<close> clauses catch; \<open>SystemExit\<close> is none.\<close>

fun is_exception :: "exc \<Rightarrow> bool" where
  "is_exception (SystemExit _) = False"
| "is_exception _ = True"

record cycle_env =
  cy_drain_os_error :: "nat \<Rightarrow> bool"
  cy_list_raises :: "exc option"
  cy_shutdown :: "nat \<Rightarrow> bool"
  cy_batch :: "nat \<Rightarrow> nat \<Rightarrow> batch_env"
  cy_now :: timestamp

fun routes_loop ::
  "worker_settings \<Rightarrow> cycle_env \<Rightarrow> nat \<Rightarrow> route_row list \<Rightarrow> bool \<Rightarrow> routing_world \<Rightarrow> (exc + bool) \<times> routing_world" where
  "routes_loop wk cy i [] had_failure rw = (Inr had_failure, rw)"
| "routes_loop wk cy i (route # routes) had_failure rw =
     (if cy_shutdown cy i then (Inr had_failure, rw)
      else
        (case process_route_batch wk (cy_batch cy i) route rw of
           (Inr _, rw') \<Rightarrow> routes_loop wk cy (Suc i) routes had_failure rw'
         | (Inl e, rw') \<Rightarrow>
             if is_exception e then routes_loop wk cy (Suc i) routes True rw' else (Inl e, rw')))"

definition run_one_cycle :: "worker_settings \<Rightarrow> cycle_env \<Rightarrow> routing_world \<Rightarrow> (exc + unit) \<times> routing_world" where
  "run_one_cycle wk cy rw =
     (let rw0 = rw\<lparr>rw_audit := snd (drain_pending_routes (wk_max_rows wk) (cy_drain_os_error cy) (rw_audit rw))\<rparr> in
      case cy_list_raises cy of
        Some e \<Rightarrow> (Inl e, rw0)
      | None \<Rightarrow>
          (case routes_loop wk cy 0 (list_routes True (rw_db rw0)) False rw0 of
             (Inl e, rw') \<Rightarrow> (Inl e, rw')
           | (Inr had_failure, rw') \<Rightarrow>
               (Inr (), rw'\<lparr>rw_shared := count_cycle (cy_now cy) had_failure
                              (\<not> has_pending (rw_audit rw')) (rw_shared rw')\<rparr>)))"

text \<open>
  The run loop over the cycles until shutdown is requested; a cycle that raises marks the worker
  degraded, and \<open>SystemExit\<close> ends the thread.
\<close>

fun run_worker :: "worker_settings \<Rightarrow> (bool \<times> cycle_env) list \<Rightarrow> routing_world \<Rightarrow> routing_world" where
  "run_worker wk [] rw = rw"
| "run_worker wk ((shutdown, cy) # cycles) rw =
     (if shutdown then rw
      else
        (case run_one_cycle wk cy rw of
           (Inr _, rw') \<Rightarrow> run_worker wk cycles rw'
         | (Inl e, rw') \<Rightarrow>
             if is_exception e
             then run_worker wk cycles
                    (rw'\<lparr>rw_shared := (rw_shared rw')\<lparr>sh_routing_worker_degraded := True\<rparr>\<rparr>)
             else rw'))"

subsection \<open>What an event does\<close>

definition cursor_of :: "string \<Rightarrow> routing_world \<Rightarrow> nat option" where
  "cursor_of route_id rw = map_option rt_last_consumed_event_id (select_route route_id (rw_db rw))"

text \<open>The cursor of the route has moved to the event and nothing else in the tables has changed.\<close>

definition advanced :: "event_env \<Rightarrow> string \<Rightarrow> nat \<Rightarrow> db \<Rightarrow> db \<Rightarrow> bool" where
  "advanced ee route_id event_id d d' \<longleftrightarrow> advance_cursor route_id event_id (ee_advanced_at ee) d = Inr ((), d')"

lemma advance_cursor_only_cases:
  assumes "advance_cursor_only ee i e rw = (r, rw')"
  shows "(\<exists>x. r = Inl x \<and> rw' = rw) \<or>
    (r = Inr () \<and> (\<exists>d. advanced ee i e (rw_db rw) d \<and> rw' = rw\<lparr>rw_world := (rw_world rw)\<lparr>w_db := d\<rparr>\<rparr>))"
  using assms by (auto simp: advance_cursor_only_def advanced_def split: cursor_outcome.splits sum.splits)

text \<open>An event that was skipped, and one that was matched once the tables were \<open>d1\<close>.\<close>

definition event_skipped where
  "event_skipped wk ee route ev rw rw' \<longleftrightarrow>
     advanced ee (rt_route_id route) (es_event_id ev) (rw_db rw) (rw_db rw') \<and>
     (\<exists>winner target label reason sub. rw_audit rw' = emit (wk_max_rows wk) (ee_os_error ee)
       (Route_skipped (ee_emitted_at ee) (es_event_id ev) (rt_route_id route) winner target label reason
          sub (excerpt_head (es_excerpt ev))) (rw_audit rw))"

definition event_matched where
  "event_matched wk ee route ev rw d1 rw' \<longleftrightarrow>
     advanced ee (rt_route_id route) (es_event_id ev) d1 (rw_db rw') \<and>
     (\<exists>winner target label. rw_audit rw' = emit (wk_max_rows wk) (ee_os_error ee)
       (Route_matched (ee_emitted_at ee) (es_event_id ev) (rt_route_id route) winner target label
          (excerpt_head (es_excerpt ev))) (rw_audit rw))"

lemma event_skippedI:
  "advanced ee (rt_route_id route) (es_event_id ev) (rw_db rw) (rw_db rw') \<Longrightarrow>
   rw_audit rw' = emit (wk_max_rows wk) (ee_os_error ee)
     (Route_skipped (ee_emitted_at ee) (es_event_id ev) (rt_route_id route) winner target label reason
        sub (excerpt_head (es_excerpt ev))) (rw_audit rw) \<Longrightarrow> event_skipped wk ee route ev rw rw'"
  unfolding event_skipped_def by blast

lemma event_matchedI:
  "advanced ee (rt_route_id route) (es_event_id ev) d1 (rw_db rw') \<Longrightarrow>
   rw_audit rw' = emit (wk_max_rows wk) (ee_os_error ee)
     (Route_matched (ee_emitted_at ee) (es_event_id ev) (rt_route_id route) winner target label
        (excerpt_head (es_excerpt ev))) (rw_audit rw) \<Longrightarrow> event_matched wk ee route ev rw d1 rw'"
  unfolding event_matched_def by blast

lemma skip_cases:
  assumes "skip wk ee route ev winner target reason sub_reason rw = (r, rw')"
  shows "(\<exists>x. r = Inl x \<and> rw' = rw) \<or> (r = Inr () \<and> event_skipped wk ee route ev rw rw')"
proof (cases "advance_cursor_only ee (rt_route_id route) (es_event_id ev) rw")
  case (Pair a rw1)
  from advance_cursor_only_cases [OF Pair] show ?thesis
    using assms by (auto simp: skip_def Pair emit_defs intro!: event_skippedI)
qed

lemma finish_matched_cases:
  assumes "finish_matched wk ee route ev winner target rw = (r, rw')"
  shows "(\<exists>x. r = Inl x \<and> rw' = rw) \<or> (r = Inr () \<and> event_matched wk ee route ev rw (rw_db rw) rw')"
proof (cases "advance_cursor_only ee (rt_route_id route) (es_event_id ev) rw")
  case (Pair a rw1)
  from advance_cursor_only_cases [OF Pair] show ?thesis
    using assms by (auto simp: finish_matched_def Pair emit_defs intro!: event_matchedI)
qed

lemma event_world:
  "w_db w = rw_db rw \<Longrightarrow> event_skipped wk ee route ev (rw\<lparr>rw_world := w\<rparr>) rw' = event_skipped wk ee route ev rw rw'"
  "event_matched wk ee route ev (rw\<lparr>rw_world := w\<rparr>) d rw' = event_matched wk ee route ev rw d rw'"
  by (simp_all add: event_skipped_def event_matched_def)

text \<open>
  What one event can do: nothing and raise; skip; have its row in the queue and match; or raise after
  its row was inserted. \<open>d1\<close> is the database after the insert, if any.
\<close>

definition enqueued :: "string \<Rightarrow> nat \<Rightarrow> db \<Rightarrow> db \<Rightarrow> bool" where
  "enqueued route_id event_id d d1 \<longleftrightarrow>
     db_routes d1 = db_routes d \<and> list_all (\<lambda>r. \<not> routed route_id event_id r) (db_queue d) \<and>
     (\<exists>row. db_queue d1 = db_queue d @ [row] \<and> routed route_id event_id row) \<and>
     (\<forall>ty. ty \<noteq> ''queue_message_enqueued'' \<longrightarrow> event_ids ty d1 = event_ids ty d)"

definition collides :: "event_env \<Rightarrow> string \<Rightarrow> nat \<Rightarrow> db \<Rightarrow> bool" where
  "collides ee route_id event_id d \<longleftrightarrow>
     ce_uuid (ee_call ee) \<in> mq_message_id ` set (db_queue d) \<or> list_ex (routed route_id event_id) (db_queue d)"

lemma enqueue_event_cases:
  assumes "enqueue_event wk ee route ev winner target body rw = (r, rw')"
  obtains (raised) e where "r = Inl e" "rw_db rw' = rw_db rw" "rw_audit rw' = rw_audit rw"
  | (skipped) "r = Inr ()" "event_skipped wk ee route ev rw rw'"
  | (duplicate) "r = Inr ()" "collides ee (rt_route_id route) (es_event_id ev) (rw_db rw)"
      "event_matched wk ee route ev rw (rw_db rw) rw'"
  | (matched) d1 where "r = Inr ()" "enqueued (rt_route_id route) (es_event_id ev) (rw_db rw) d1"
      "event_matched wk ee route ev rw d1 rw'"
  | (interrupted) e where "r = Inl e" "enqueued (rt_route_id route) (es_event_id ev) (rw_db rw) (rw_db rw')"
      "rw_audit rw' = rw_audit rw"
proof (cases "wk_fault_inject_at wk = ''before_commit''")
  case True
  with assms show ?thesis by (intro raised [of "SystemExit 137"]) (simp_all add: enqueue_event_def)
next
  case nofault: False
  obtain res w where run: "enqueue_message (ee_service ee) (ee_call ee) winner (ag_agent_id target) body Route
      (Some (rt_route_id route)) (Some (es_event_id ev)) (rw_world rw) = (res, w)" by fastforce
  note eff = enqueue_route_effect [OF run]
  let ?rw = "rw\<lparr>rw_world := w\<rparr>"
  show ?thesis
  proof (cases res)
    case (Inl e)
    have d: "w_db w = rw_db rw" using eff(2) [OF Inl] .
    show ?thesis
    proof (cases "is_queue_service_error e")
      case True
      then have "skip wk ee route ev (Some winner) (Some target) (exc_code e) None ?rw = (r, rw')"
        using assms nofault run Inl by (simp add: enqueue_event_def enqueue_route_message_eq)
      from skip_cases [OF this] show ?thesis
        using d raised skipped by (auto simp: event_world)
    next
      case False
      show ?thesis
      proof (cases "e = IntegrityError")
        case True
        then have "finish_matched wk ee route ev winner target ?rw = (r, rw')"
          using assms nofault run Inl by (simp add: enqueue_event_def enqueue_route_message_eq)
        from finish_matched_cases [OF this] show ?thesis
          using d raised duplicate eff(4) Inl True by (auto simp: event_world collides_def)
      next
        case other: False
        then have "\<exists>x. r = Inl x \<and> rw' = ?rw"
          using assms nofault run Inl False
          by (cases e) (auto simp: enqueue_event_def enqueue_route_message_eq split: if_splits)
        then show ?thesis using d raised by auto
      qed
    qed
  next
    case (Inr row)
    have enq: "enqueued (rt_route_id route) (es_event_id ev) (rw_db rw) (w_db w)"
      using eff(1) eff(3) [OF Inr] enqueue_message_event_ids [OF run] by (auto simp: enqueued_def)
    show ?thesis
    proof (cases "wk_fault_inject_at wk = ''after_commit''")
      case True
      then have "r = Inl (SystemExit 137)" "rw' = ?rw"
        using assms nofault run Inr by (auto simp: enqueue_event_def enqueue_route_message_eq)
      then show ?thesis using enq by (intro interrupted) simp_all
    next
      case False
      then have "finish_matched wk ee route ev winner target ?rw = (r, rw')"
        using assms nofault run Inr by (simp add: enqueue_event_def enqueue_route_message_eq)
      from finish_matched_cases [OF this] show ?thesis
        using enq interrupted matched [of "w_db w"] by (auto simp: event_world)
    qed
  qed
qed

lemma process_one_event_cases:
  assumes "process_one_event wk ee route ev source_agent rw = (r, rw')"
  obtains (raised) e where "r = Inl e" "rw_db rw' = rw_db rw" "rw_audit rw' = rw_audit rw"
  | (skipped) "r = Inr ()" "event_skipped wk ee route ev rw rw'"
  | (duplicate) "r = Inr ()" "collides ee (rt_route_id route) (es_event_id ev) (rw_db rw)"
      "event_matched wk ee route ev rw (rw_db rw) rw'"
  | (matched) d1 where "r = Inr ()" "enqueued (rt_route_id route) (es_event_id ev) (rw_db rw) d1"
      "event_matched wk ee route ev rw d1 rw'"
  | (interrupted) e where "r = Inl e" "enqueued (rt_route_id route) (es_event_id ev) (rw_db rw) (rw_db rw')"
      "rw_audit rw' = rw_audit rw"
proof -
  have "(\<exists>e. r = Inl e \<and> rw' = rw) \<or>
      (\<exists>winner target reason sub. skip wk ee route ev winner target reason sub rw = (r, rw')) \<or>
      (\<exists>winner target body. enqueue_event wk ee route ev winner target body rw = (r, rw'))"
    using assms unfolding process_one_event_def Let_def
    by (auto split: sum.splits arbitration_result.splits target_outcome.splits exc.splits)
  then consider (a) e where "r = Inl e" "rw' = rw"
    | (b) winner target reason sub where "skip wk ee route ev winner target reason sub rw = (r, rw')"
    | (c) winner target body where "enqueue_event wk ee route ev winner target body rw = (r, rw')" by blast
  then show ?thesis
  proof cases
    case a
    then show ?thesis by (intro raised) simp_all
  next
    case b
    from skip_cases [OF b] show ?thesis using raised skipped by auto
  next
    case c
    then show ?thesis by (cases rule: enqueue_event_cases) (fact raised skipped duplicate matched interrupted)+
  qed
qed

lemma advanced_effect:
  assumes "advanced ee i e d d'"
  shows "db_queue d' = db_queue d" "db_events d' = db_events d"
    "select_route j d' = map_option (\<lambda>r. if j = i \<and> rt_last_consumed_event_id r < e
      then r\<lparr>rt_last_consumed_event_id := e, rt_updated_at := ee_advanced_at ee\<rparr> else r) (select_route j d)"
  using advance_cursor_evolves [OF assms [unfolded advanced_def]] by blast+

lemma advanced_cursor:
  assumes "advanced ee i e d (rw_db rw')" "db_routes d = db_routes (rw_db rw)"
  shows "cursor_of i rw' = map_option (max e) (cursor_of i rw)"
    "j \<noteq> i \<Longrightarrow> select_route j (rw_db rw') = select_route j (rw_db rw)"
proof -
  have "select_route k d = select_route k (rw_db rw)" for k using assms(2) by (simp add: select_route_def)
  then show "cursor_of i rw' = map_option (max e) (cursor_of i rw)"
    "j \<noteq> i \<Longrightarrow> select_route j (rw_db rw') = select_route j (rw_db rw)"
    using advanced_effect(3) [OF assms(1)]
    by (auto simp: cursor_of_def option.map_comp option.map_ident comp_def max_def not_less intro!: option.map_cong0)
qed

definition emitted :: "worker_settings \<Rightarrow> event_env \<Rightarrow> route_row \<Rightarrow> event_snapshot \<Rightarrow> route_record \<Rightarrow> routing_world \<Rightarrow> routing_world \<Rightarrow> bool" where
  "emitted wk ee route ev rec rw rw' \<longleftrightarrow>
     rw_audit rw' = emit (wk_max_rows wk) (ee_os_error ee) rec (rw_audit rw) \<and>
     rr_event_id rec = es_event_id ev \<and> rr_route_id rec = rt_route_id route"

lemma event_skipped_emits:
  "event_skipped wk ee route ev rw rw' \<Longrightarrow> \<exists>rec. emitted wk ee route ev rec rw rw' \<and> is_Route_skipped rec"
proof -
  assume "event_skipped wk ee route ev rw rw'"
  then obtain winner target label reason sub where
    "rw_audit rw' = emit (wk_max_rows wk) (ee_os_error ee)
       (Route_skipped (ee_emitted_at ee) (es_event_id ev) (rt_route_id route) winner target label reason
          sub (excerpt_head (es_excerpt ev))) (rw_audit rw)" unfolding event_skipped_def by blast
  then show ?thesis unfolding emitted_def
    by (intro exI [of _ "Route_skipped (ee_emitted_at ee) (es_event_id ev) (rt_route_id route) winner target
        label reason sub (excerpt_head (es_excerpt ev))"]) simp
qed

lemma event_matched_emits:
  "event_matched wk ee route ev rw d1 rw' \<Longrightarrow> \<exists>rec. emitted wk ee route ev rec rw rw' \<and> is_Route_matched rec"
proof -
  assume "event_matched wk ee route ev rw d1 rw'"
  then obtain winner target label where
    "rw_audit rw' = emit (wk_max_rows wk) (ee_os_error ee)
       (Route_matched (ee_emitted_at ee) (es_event_id ev) (rt_route_id route) winner target label
          (excerpt_head (es_excerpt ev))) (rw_audit rw)" unfolding event_matched_def by blast
  then show ?thesis unfolding emitted_def
    by (intro exI [of _ "Route_matched (ee_emitted_at ee) (es_event_id ev) (rt_route_id route) winner target
        label (excerpt_head (es_excerpt ev))"]) simp
qed

text \<open>
  C11: the decision on an event. If processing it raises, the routes table and the audit are as before,
  so the event is selected again. Otherwise the route's cursor is at or past the event, no other route
  has changed, and exactly one audit record about this route and event has been emitted: a
  \<open>route_matched\<close>, and then the queue holds a message of this route for this event, or a
  \<open>route_skipped\<close>, and then the queue is unchanged.
\<close>

theorem event_decided_or_retried:
  assumes "process_one_event wk ee route ev source_agent rw = (r, rw')"
    and "ce_uuid (ee_call ee) \<notin> mq_message_id ` set (db_queue (rw_db rw))"
  shows "case r of
     Inl e \<Rightarrow> db_routes (rw_db rw') = db_routes (rw_db rw) \<and> rw_audit rw' = rw_audit rw
   | Inr _ \<Rightarrow>
       cursor_of (rt_route_id route) rw' = map_option (max (es_event_id ev)) (cursor_of (rt_route_id route) rw) \<and>
       (\<forall>j. j \<noteq> rt_route_id route \<longrightarrow> select_route j (rw_db rw') = select_route j (rw_db rw)) \<and>
       (\<exists>rec. emitted wk ee route ev rec rw rw' \<and>
          (is_Route_matched rec \<and> list_ex (routed (rt_route_id route) (es_event_id ev)) (db_queue (rw_db rw')) \<or>
           is_Route_skipped rec \<and> db_queue (rw_db rw') = db_queue (rw_db rw)))"
  using assms(1)
proof (cases rule: process_one_event_cases)
  case (raised e)
  then show ?thesis by simp
next
  case (interrupted e)
  then show ?thesis by (simp add: enqueued_def)
next
  case skipped
  then have adv: "advanced ee (rt_route_id route) (es_event_id ev) (rw_db rw) (rw_db rw')"
    by (simp add: event_skipped_def)
  show ?thesis
    using advanced_cursor [OF adv refl] advanced_effect(1) [OF adv] event_skipped_emits [OF skipped(2)] skipped(1)
    by auto
next
  case duplicate
  then have adv: "advanced ee (rt_route_id route) (es_event_id ev) (rw_db rw) (rw_db rw')"
    by (simp add: event_matched_def)
  have "list_ex (routed (rt_route_id route) (es_event_id ev)) (db_queue (rw_db rw))"
    using duplicate(2) assms(2) by (simp add: collides_def)
  then show ?thesis
    using advanced_cursor [OF adv refl] advanced_effect(1) [OF adv] event_matched_emits [OF duplicate(3)] duplicate(1)
    by auto
next
  case (matched d1)
  then have adv: "advanced ee (rt_route_id route) (es_event_id ev) d1 (rw_db rw')"
    and routes: "db_routes d1 = db_routes (rw_db rw)" by (simp_all add: event_matched_def enqueued_def)
  have "list_ex (routed (rt_route_id route) (es_event_id ev)) (db_queue d1)"
    using matched(2) by (auto simp: enqueued_def)
  then show ?thesis
    using advanced_cursor [OF adv routes] advanced_effect(1) [OF adv] event_matched_emits [OF matched(3)] matched(1)
    by auto
qed

text \<open>How many rows the queue holds for an event of a route.\<close>

definition routed_rows :: "string \<Rightarrow> nat \<Rightarrow> routing_world \<Rightarrow> nat" where
  "routed_rows route_id event_id rw = rowcount (routed route_id event_id) (db_queue (rw_db rw))"

lemma enqueued_rows:
  assumes "enqueued i e d d1"
  shows "rowcount (routed i e) (db_queue d) = 0" "rowcount (routed i e) (db_queue d1) = 1"
  using assms by (auto simp: enqueued_def rowcount_def list_all_iff filter_empty_conv)

lemma process_event_rows:
  assumes "process_one_event wk ee route ev source_agent rw = (r, rw')"
  shows "routed_rows (rt_route_id route) (es_event_id ev) rw' =
      routed_rows (rt_route_id route) (es_event_id ev) rw \<or>
    routed_rows (rt_route_id route) (es_event_id ev) rw = 0 \<and>
    routed_rows (rt_route_id route) (es_event_id ev) rw' = 1"
  using assms
proof (cases rule: process_one_event_cases)
  case skipped
  then show ?thesis by (auto simp: event_skipped_def routed_rows_def dest!: advanced_effect(1))
next
  case duplicate
  then show ?thesis by (auto simp: event_matched_def routed_rows_def dest!: advanced_effect(1))
next
  case (matched d1)
  then have "db_queue (rw_db rw') = db_queue d1" by (auto simp: event_matched_def dest!: advanced_effect(1))
  then show ?thesis using enqueued_rows [OF matched(2)] by (simp add: routed_rows_def)
next
  case (interrupted e)
  then show ?thesis using enqueued_rows [OF interrupted(2)] by (simp add: routed_rows_def)
qed (simp add: routed_rows_def)

subsection \<open>SystemExit comes from fault injection only\<close>

lemma enqueue_message_no_exit:
  assumes "enqueue_message se ce sender target_input body og rid eid w = (Inl (SystemExit n), w')"
  shows False
  using assms
proof (cases rule: enqueue_message_cases)
  case (early e)
  have "resolve_target (get_agent_by_id (se_agents se)) (find_agents_by_label (se_agents se)) target_input \<noteq> Inl (SystemExit n)"
    using registry.resolve_error [of "se_agents se" target_input "SystemExit n"] by auto
  moreover have "fst (check_enabled w) \<noteq> Inl (SystemExit n)"
    by (auto simp: check_enabled_def is_enabled_def read_routing_flag_def split: option.splits prod.splits)
  ultimately show ?thesis using early(1,5) by (auto dest!: serialize_error_codes)
next
  case (insert target rendered enabled w1 decision)
  have pos: "0 < length rendered"
    using serialize_InrD(1) [OF insert(2)] render_headers_not_Nil by (auto simp: render_envelope_def)
  show ?thesis
    using insert(8) enqueue_outcome_eq [OF pos, of "w_db w1" se ce "ce_uuid ce" "agent_ident sender" "agent_ident target"
        target body decision og rid eid]
    by (auto simp: finish_transition_def split: prod.splits sum.splits option.splits if_splits)
qed

lemma advance_no_exit: "advance_cursor_only ee i e rw \<noteq> (Inl (SystemExit n), rw')"
  by (auto simp: advance_cursor_only_def advance_cursor_def split: cursor_outcome.splits)

lemma skip_no_exit: "skip wk ee route ev winner target reason sub rw \<noteq> (Inl (SystemExit n), rw')"
  using advance_no_exit [of ee "rt_route_id route" "es_event_id ev" rw n]
  by (auto simp: skip_def split: prod.splits sum.splits)

lemma finish_matched_no_exit: "finish_matched wk ee route ev winner target rw \<noteq> (Inl (SystemExit n), rw')"
  using advance_no_exit [of ee "rt_route_id route" "es_event_id ev" rw n]
  by (auto simp: finish_matched_def split: prod.splits sum.splits)

lemma resolve_route_target_no_exit: "resolve_route_target agents route source_agent \<noteq> Target_raises (SystemExit n)"
proof -
  have "parse_role_capability v \<noteq> Inl (SystemExit n)" for v
    by (auto simp: parse_role_capability_def Let_def)
  moreover have "list_active_by_role agents role cap \<noteq> Inl (SystemExit n)" for role cap
    by (cases cap) (simp_all add: list_active_by_role_def list_agents_no_container)
  moreover have "resolve_target (get_agent_by_id agents) (find_agents_by_label agents) v \<noteq> Inl (SystemExit n)" for v
    using registry.resolve_error [of agents v "SystemExit n"] by auto
  ultimately show ?thesis
    by (auto simp: resolve_route_target_def Let_def split: option.splits sum.splits list.splits exc.splits)
qed

lemma enqueue_event_exit:
  assumes "enqueue_event wk ee route ev winner target body rw = (Inl (SystemExit n), rw')"
  shows "wk_fault_inject_at wk = ''before_commit'' \<or>
    (wk_fault_inject_at wk = ''after_commit'' \<and> enqueued (rt_route_id route) (es_event_id ev) (rw_db rw) (rw_db rw'))"
proof (rule ccontr)
  assume no: "\<not> ?thesis"
  obtain res w where run: "enqueue_message (ee_service ee) (ee_call ee) winner (ag_agent_id target) body Route
      (Some (rt_route_id route)) (Some (es_event_id ev)) (rw_world rw) = (res, w)" by fastforce
  note eff = enqueue_route_effect [OF run]
  show False
  proof (cases res)
    case (Inl e)
    moreover have "e \<noteq> SystemExit n" using run Inl enqueue_message_no_exit by blast
    ultimately show False
      using assms no run skip_no_exit finish_matched_no_exit
      by (auto simp: enqueue_event_def enqueue_route_message_eq Let_def split: if_splits exc.splits)
  next
    case (Inr row)
    have "enqueued (rt_route_id route) (es_event_id ev) (rw_db rw) (w_db w)"
      using eff(1) eff(3) [OF Inr] enqueue_message_event_ids [OF run] by (auto simp: enqueued_def)
    then show False
      using assms no run Inr finish_matched_no_exit
      by (auto simp: enqueue_event_def enqueue_route_message_eq Let_def split: if_splits)
  qed
qed

lemma process_one_event_exit:
  assumes "process_one_event wk ee route ev source_agent rw = (Inl (SystemExit n), rw')"
  shows "wk_fault_inject_at wk = ''before_commit'' \<or>
    (wk_fault_inject_at wk = ''after_commit'' \<and> enqueued (rt_route_id route) (es_event_id ev) (rw_db rw) (rw_db rw'))"
proof -
  have "list_active_masters agents \<noteq> Inl e" for agents e
    by (simp add: list_active_masters_def list_agents_no_container)
  moreover have "pick_master mr mv ms \<noteq> Inl (SystemExit n)" for mr mv ms
    by (auto simp: pick_master_def split: option.splits)
  ultimately have "\<exists>winner target body. enqueue_event wk ee route ev winner target body rw = (Inl (SystemExit n), rw')"
    using assms skip_no_exit resolve_route_target_no_exit unfolding process_one_event_def Let_def
    by (auto split: sum.splits arbitration_result.splits target_outcome.splits exc.splits)
  then show ?thesis using enqueue_event_exit by blast
qed

text \<open>
  C12: a crash between the insert and the cursor. If the daemon dies right after the message of an
  event was committed, exactly one message of this route and event is in the queue, the cursor still
  points before the event and nothing was audited. When the event is processed again, in whatever
  environment, no second message is inserted.
\<close>

theorem crash_replay_single_message:
  assumes "process_one_event (wk\<lparr>wk_fault_inject_at := ''after_commit''\<rparr>) ee route ev source_agent rw =
      (Inl (SystemExit 137), rw1)"
    and "process_one_event wk' ee' route ev source_agent' rw1 = (r2, rw2)"
  shows "cursor_of (rt_route_id route) rw1 = cursor_of (rt_route_id route) rw \<and> rw_audit rw1 = rw_audit rw \<and>
    routed_rows (rt_route_id route) (es_event_id ev) rw1 = 1 \<and>
    routed_rows (rt_route_id route) (es_event_id ev) rw2 = 1"
proof -
  have enq: "enqueued (rt_route_id route) (es_event_id ev) (rw_db rw) (rw_db rw1)"
    using process_one_event_exit [OF assms(1)] by simp
  then have one: "routed_rows (rt_route_id route) (es_event_id ev) rw1 = 1"
    using enqueued_rows(2) by (simp add: routed_rows_def)
  moreover have "rw_audit rw1 = rw_audit rw"
    using assms(1) by (cases rule: process_one_event_cases) auto
  moreover have "cursor_of (rt_route_id route) rw1 = cursor_of (rt_route_id route) rw"
    using enq by (simp add: cursor_of_def select_route_def enqueued_def)
  ultimately show ?thesis using process_event_rows [OF assms(2)] by auto
qed

subsection \<open>What a batch does\<close>

lemma handle_candidate_advances:
  assumes "handle_candidate wk route scope ee ev rw = (Inr u, rw')"
  shows "\<exists>d1. advanced ee (rt_route_id route) (es_event_id ev) d1 (rw_db rw') \<and>
    db_routes d1 = db_routes (rw_db rw) \<and>
    (\<forall>ty. ty \<noteq> ''queue_message_enqueued'' \<longrightarrow> event_ids ty d1 = event_ids ty (rw_db rw))"
proof -
  have adv: ?thesis if "advance_cursor_only ee (rt_route_id route) (es_event_id ev) rw = (Inr u, rw')"
    using advance_cursor_only_cases [OF that] by auto
  have ev: ?thesis if "process_one_event wk ee route ev source_agent rw = (Inr u, rw')" for source_agent
    using that
  proof (cases rule: process_one_event_cases)
    case skipped
    then show ?thesis by (auto simp: event_skipped_def)
  next
    case duplicate
    then show ?thesis by (auto simp: event_matched_def)
  next
    case (matched d1)
    then show ?thesis by (auto simp: event_matched_def enqueued_def)
  qed auto
  show ?thesis
    using assms adv ev by (auto simp: handle_candidate_def split: option.splits if_splits)
qed

definition undisturbed :: "(nat \<Rightarrow> batch_env) \<Rightarrow> bool" where
  "undisturbed envs \<longleftrightarrow> (\<forall>i. \<not> be_shutdown (envs i) \<and> be_others (envs i) = id)"

lemma batch_loop_consumes:
  assumes "undisturbed envs" "ty \<noteq> ''queue_message_enqueued''"
    and "batch_loop wk route scope envs i candidates any_advanced rw = (Inr b, rw')"
    and "select_route (rt_route_id route) (rw_db rw) = Some r" "rt_enabled r"
    and "sorted_wrt (<) (rt_last_consumed_event_id r # map es_event_id candidates)"
  shows "\<exists>r'. select_route (rt_route_id route) (rw_db rw') = Some r' \<and> rt_event_type r' = rt_event_type r \<and>
    rt_last_consumed_event_id r' = last (rt_last_consumed_event_id r # map es_event_id candidates) \<and>
    event_ids ty (rw_db rw') = event_ids ty (rw_db rw)"
  using assms(3-6)
proof (induction candidates arbitrary: i any_advanced rw r)
  case (Cons ev candidates)
  let ?ee = "be_event (envs i)"
  obtain rw1 where step: "handle_candidate wk route scope ?ee ev rw = (Inr (), rw1)"
    and rest: "batch_loop wk route scope envs (Suc i) candidates True rw1 = (Inr b, rw')"
    using Cons.prems(1-3) assms(1) by (auto simp: undisturbed_def split: prod.splits sum.splits)
  from handle_candidate_advances [OF step] obtain d1 where
    adv: "advanced ?ee (rt_route_id route) (es_event_id ev) d1 (rw_db rw1)"
    and d1: "db_routes d1 = db_routes (rw_db rw)" "event_ids ty d1 = event_ids ty (rw_db rw)"
    using assms(2) by blast
  let ?r = "r\<lparr>rt_last_consumed_event_id := es_event_id ev, rt_updated_at := ee_advanced_at ?ee\<rparr>"
  have "select_route (rt_route_id route) d1 = Some r" using d1(1) Cons.prems(2) by (simp add: select_route_def)
  then have r: "select_route (rt_route_id route) (rw_db rw1) = Some ?r"
    using advanced_effect(3) [OF adv, of "rt_route_id route"] Cons.prems(4) by simp
  have "event_ids ty (rw_db rw1) = event_ids ty (rw_db rw)"
    using advanced_effect(2) [OF adv] d1(2) by (simp add: event_ids_def)
  then show ?case using Cons.IH [OF rest r] Cons.prems(3,4) by simp
qed simp

lemma map_sort_key: "map f (sort_key f xs) = sort (map f xs)"
  by (rule properties_for_sort [symmetric]) simp_all

lemma filter_last_take:
  assumes "sorted xs" "distinct xs" "0 < k" "xs \<noteq> []"
  shows "filter (\<lambda>x. last (take k xs) < x) xs = drop k (xs :: nat list)"
proof -
  let ?t = "take k xs" and ?d = "drop k xs"
  have app: "xs = ?t @ ?d" by simp
  have "?t \<noteq> []" using assms(3,4) by simp
  then have l: "last ?t \<in> set ?t" by simp
  have "sorted (?t @ ?d)" "distinct (?t @ ?d)" using assms(1,2) by simp_all
  then have "\<forall>x \<in> set ?t. \<forall>y \<in> set ?d. x < y"
    by (metis (no_types, lifting) append_take_drop_id disjoint_iff distinct_append order_le_less sorted_append)
  then have d: "filter (\<lambda>x. last ?t < x) ?d = ?d" using l by (auto intro!: filter_True)
  have "sorted ?t" using assms(1) by (simp add: sorted_wrt_take)
  then have "\<forall>x \<in> set ?t. x \<le> last ?t" by (cases ?t rule: rev_cases) (auto simp: sorted_append)
  then have "filter (\<lambda>x. last ?t < x) ?t = []" by (auto simp: filter_empty_conv not_less)
  then have "filter (\<lambda>x. last ?t < x) (?t @ ?d) = ?d" using d by (simp only: filter_append append_Nil)
  then show ?thesis by simp
qed

lemma route_lag_ids: "route_lag d r = length (filter (\<lambda>i. rt_last_consumed_event_id r < i) (event_ids (rt_event_type r) d))"
  by (simp add: route_lag_def rowcount_def event_ids_def filter_map comp_def conj_commute)

lemma candidate_ids:
  "map es_event_id (select_events_after_cursor c ty k d) = take k (sort (filter (\<lambda>i. c < i) (event_ids ty d)))"
proof -
  have "map es_event_id (select_events_after_cursor c ty k d) =
      take k (map ev_event_id (sort_key ev_event_id (filter (\<lambda>e. c < ev_event_id e \<and> ev_event_type e = ty) (db_events d))))"
    by (simp add: select_events_after_cursor_def take_map comp_def)
  then show ?thesis by (simp add: map_sort_key event_ids_def filter_map comp_def conj_commute)
qed

lemma lag_after:
  assumes "distinct (ids :: nat list)"
  shows "length (filter (\<lambda>i. last (c # take k (sort (filter (\<lambda>i. c < i) ids))) < i) ids) =
    length (filter (\<lambda>i. c < i) ids) - (k :: nat)"
proof (cases "k = 0 \<or> filter (\<lambda>i. c < i) ids = []")
  case True
  then show ?thesis by auto
next
  case False
  let ?S = "sort (filter (\<lambda>i. c < i) ids)"
  have ne: "?S \<noteq> []" using False by (metis length_0_conv length_sort)
  let ?l = "last (take k ?S)"
  have "?l \<in> set (take k ?S)" using ne False by (intro last_in_set) simp
  then have "c < ?l" by (auto dest: in_set_takeD)
  then have "filter (\<lambda>i. ?l < i) ids = filter (\<lambda>i. ?l < i) (filter (\<lambda>i. c < i) ids)"
    by (auto intro!: filter_cong)
  also have "length \<dots> = length (filter (\<lambda>i. ?l < i) ?S)"
    by (metis mset_filter mset_sort size_mset)
  also have "filter (\<lambda>i. ?l < i) ?S = drop k ?S"
    using assms False ne by (intro filter_last_take) simp_all
  finally show ?thesis using ne False by simp
qed

text \<open>
  C27: progress of a route. A batch that returns, without shutdown and without other threads in
  between, on an enabled route shortens the route's backlog by exactly the batch size, down to zero:
  every selected event has been decided, in the order of the event ids, and none is selected twice.
\<close>

theorem batch_shrinks_backlog:
  assumes "routes_wf (rw_db rw)" "distinct (map ev_event_id (db_events (rw_db rw)))"
    and "route \<in> set (db_routes (rw_db rw))" "rt_enabled route" "undisturbed envs"
    and "process_route_batch wk envs route rw = (Inr any_advanced, rw')"
  shows "\<exists>route'. select_route (rt_route_id route) (rw_db rw') = Some route' \<and>
    route_lag (rw_db rw') route' = route_lag (rw_db rw) route - wk_batch_size wk"
proof -
  let ?ty = "rt_event_type route" and ?c = "rt_last_consumed_event_id route"
  let ?cand = "select_events_after_cursor ?c ?ty (wk_batch_size wk) (rw_db rw)"
  have sel: "select_route (rt_route_id route) (rw_db rw) = Some route"
    by (rule select_route_unique [OF assms(1,3)])
  have ids: "distinct (event_ids ?ty (rw_db rw))"
    using assms(2) by (simp add: event_ids_def distinct_map_filter)
  have "?ty \<in> set classifier_event_types"
    using assms(1,3) by (auto simp: routes_wf_def list_all_iff route_row_checks_def)
  then have ty: "?ty \<noteq> ''queue_message_enqueued''" by (auto simp: classifier_event_types_def)
  obtain scope where run: "batch_loop wk route scope envs 0 ?cand False rw = (Inr any_advanced, rw')"
    using assms(6) by (auto simp: process_route_batch_def split: sum.splits)
  have "sorted_wrt (<) (?c # map es_event_id ?cand)"
    using ids by (auto simp: candidate_ids strict_sorted_iff sorted_wrt_take dest: in_set_takeD)
  from batch_loop_consumes [OF assms(5) ty run sel assms(4) this] obtain route' where
    "select_route (rt_route_id route) (rw_db rw') = Some route'" "rt_event_type route' = ?ty"
    "rt_last_consumed_event_id route' = last (?c # map es_event_id ?cand)"
    "event_ids ?ty (rw_db rw') = event_ids ?ty (rw_db rw)" by blast
  then show ?thesis using lag_after [OF ids, of ?c "wk_batch_size wk"]
    by (simp add: route_lag_ids candidate_ids)
qed

subsection \<open>What a cycle does\<close>

text \<open>The batches of a cycle, one per route, each on the state the previous one left.\<close>

fun batches ::
  "worker_settings \<Rightarrow> cycle_env \<Rightarrow> nat \<Rightarrow> route_row list \<Rightarrow> routing_world \<Rightarrow> (exc + bool) list \<times> routing_world" where
  "batches wk cy i [] rw = ([], rw)"
| "batches wk cy i (route # routes) rw =
     (case process_route_batch wk (cy_batch cy i) route rw of
        (r, rw') \<Rightarrow> (case batches wk cy (Suc i) routes rw' of (rs, rw'') \<Rightarrow> (r # rs, rw'')))"

lemma batch_loop_no_exit:
  assumes "wk_fault_inject_at wk = ''''"
  shows "fst (batch_loop wk route scope envs i candidates any_advanced rw) \<noteq> Inl (SystemExit n)"
proof (induction candidates arbitrary: i any_advanced rw)
  case (Cons ev candidates)
  have "handle_candidate wk route scope ee ev rw0 \<noteq> (Inl (SystemExit n), rw')" for ee rw0 rw'
    using assms advance_no_exit process_one_event_exit
    by (force simp: handle_candidate_def split: option.splits if_splits)
  then show ?case using Cons.IH
    by (auto simp: Let_def split: option.splits prod.splits sum.splits)
qed simp

lemma process_route_batch_no_exit:
  assumes "wk_fault_inject_at wk = ''''"
  shows "fst (process_route_batch wk envs route rw) \<noteq> Inl (SystemExit n)"
proof -
  have "parse_source_scope_value raw kind \<noteq> Inl (SystemExit n)" for raw kind
    by (auto simp: parse_source_scope_value_def Let_def split: option.splits sum.splits)
  then show ?thesis using batch_loop_no_exit [OF assms]
    by (auto simp: process_route_batch_def split: sum.splits)
qed

lemma routes_loop_batches:
  assumes "wk_fault_inject_at wk = ''''" "\<forall>i. \<not> cy_shutdown cy i"
  shows "routes_loop wk cy i routes had_failure rw =
    (case batches wk cy i routes rw of (rs, rw') \<Rightarrow> (Inr (had_failure \<or> list_ex isl rs), rw'))"
proof (induction routes arbitrary: i had_failure rw)
  case (Cons route routes)
  obtain r rw' where step: "process_route_batch wk (cy_batch cy i) route rw = (r, rw')" by fastforce
  have "is_exception e" if "r = Inl e" for e
    using process_route_batch_no_exit [OF assms(1), of "cy_batch cy i" route rw] step that by (cases e) auto
  then show ?case using assms(2) Cons.IH [of "Suc i"] step
    by (cases r) (auto split: prod.splits)
qed simp

lemma length_batches: "length (fst (batches wk cy i routes rw)) = length routes"
  by (induction routes arbitrary: i rw) (simp_all add: case_prod_beta)

text \<open>
  A cycle survives its failures. Without shutdown and fault injection, a cycle whose list of routes
  could be read returns: every enabled route gets exactly one batch, in the order of creation time and
  id, whatever the batches before it raised, and afterwards the worker is marked degraded exactly when
  some batch raised or audit records are still waiting.
\<close>

lemma cycle_survives_failures:
  assumes "wk_fault_inject_at wk = ''''" "\<forall>i. \<not> cy_shutdown cy i" "cy_list_raises cy = None"
    and "rw0 = rw\<lparr>rw_audit := snd (drain_pending_routes (wk_max_rows wk) (cy_drain_os_error cy) (rw_audit rw))\<rparr>"
    and "batches wk cy 0 (list_routes True (rw_db rw)) rw0 = (results, rw1)"
  shows "length results = length (list_routes True (rw_db rw)) \<and>
    run_one_cycle wk cy rw =
      (Inr (), rw1\<lparr>rw_shared := count_cycle (cy_now cy) (list_ex isl results)
                      (\<not> has_pending (rw_audit rw1)) (rw_shared rw1)\<rparr>)"
proof
  show "length results = length (list_routes True (rw_db rw))"
    using length_batches [of wk cy 0 "list_routes True (rw_db rw)" rw0] assms(5) by simp
  have "rw_db rw0 = rw_db rw" by (simp add: assms(4))
  then show "run_one_cycle wk cy rw =
      (Inr (), rw1\<lparr>rw_shared := count_cycle (cy_now cy) (list_ex isl results)
                      (\<not> has_pending (rw_audit rw1)) (rw_shared rw1)\<rparr>)"
    using routes_loop_batches [OF assms(1,2), of 0 "list_routes True (rw_db rw)" False rw0] assms(3,5)
    by (simp add: run_one_cycle_def Let_def assms(4))
qed

end
