(* ===== verification/Routing_Samples.thy ===== *)
theory Routing_Samples
  imports Samples Routing_Worker
begin

text \<open>
  The sample installation with a route: the slave has completed something, and the route sends a
  message about it back to its source. The witnesses of the worker's theorems evaluate this run.
\<close>

definition sample_route :: route_row where
  "sample_route =
     \<lparr>rt_route_id = ''r1'', rt_event_type = ''completed'', rt_source_scope_kind = ''any'',
      rt_source_scope_value = None, rt_target_rule = ''source'', rt_target_value = None,
      rt_master_rule = ''auto'', rt_master_value = None, rt_template = ''{event_id}: {event_excerpt}'',
      rt_enabled = True, rt_last_consumed_event_id = 0, rt_created_at = ''t0'', rt_updated_at = ''t0'',
      rt_created_by_agent_id = None\<rparr>"

definition sample_event :: "nat \<Rightarrow> event_row" where
  "sample_event n =
     \<lparr>ev_event_id = n, ev_event_type = ''completed'', ev_agent_id = ''agt_ba9876543210'',
      ev_observed_at = ''t1'', ev_excerpt = ''done'', ev_jsonl_appended_at = Some ''t1'', ev_log = None\<rparr>"

definition sample_snapshot :: event_snapshot where
  "sample_snapshot =
     \<lparr>es_event_id = 1, es_event_type = ''completed'', es_source_agent_id = ''agt_ba9876543210'',
      es_excerpt = ''done'', es_observed_at = ''t1''\<rparr>"

definition sample_routing :: routing_world where
  "sample_routing =
     \<lparr>rw_world = sample_world\<lparr>w_db := (w_db sample_world)\<lparr>db_routes := [sample_route],
         db_events := [sample_event 1, sample_event 2, sample_event 3], db_next_event_id := 4\<rparr>\<rparr>,
      rw_audit = routes_audit_init, rw_shared = shared_init, rw_skips = []\<rparr>"

definition sample_worker :: worker_settings where
  "sample_worker = \<lparr>wk_batch_size = 2, wk_max_rows = 10, wk_rich = (\<lambda>_ _. Inl ValueError), wk_fault_inject_at = ''''\<rparr>"

definition sample_event_env :: "string \<Rightarrow> event_env" where
  "sample_event_env uuid =
     \<lparr>ee_service = sample_env, ee_call = sample_call uuid ''t2'', ee_cursor = Cursor_committed,
      ee_advanced_at = ''t2'', ee_emitted_at = ''t2'', ee_skipped_at = ''t2'', ee_os_error = False,
      ee_monotonic_ms = 0\<rparr>"

definition sample_batch :: "nat \<Rightarrow> batch_env" where
  "sample_batch i =
     \<lparr>be_shutdown = False, be_others = id, be_event = sample_event_env (''m'' @ py_str i)\<rparr>"

definition sample_cycle :: cycle_env where
  "sample_cycle =
     \<lparr>cy_drain_os_error = (\<lambda>_. False), cy_list_raises = None, cy_shutdown = (\<lambda>_. False),
      cy_batch = (\<lambda>_. sample_batch), cy_now = ''t3''\<rparr>"

theorem event_decided_or_retried_witness:
  "case process_one_event sample_worker (sample_event_env ''m1'') sample_route sample_snapshot sample_slave sample_routing of
     (Inr _, rw') \<Rightarrow> cursor_of ''r1'' rw' = Some 1 \<and>
       (\<exists>rec. emitted sample_worker (sample_event_env ''m1'') sample_route sample_snapshot rec sample_routing rw' \<and>
          (is_Route_matched rec \<and> list_ex (routed ''r1'' 1) (db_queue (rw_db rw')) \<or> is_Route_skipped rec))
   | (Inl _, _) \<Rightarrow> False"
proof -
  let ?p = "process_one_event sample_worker (sample_event_env ''m1'') sample_route sample_snapshot sample_slave sample_routing"
  have ok: "fst ?p = Inr ()" by code_simp
  have q: "db_queue (rw_db sample_routing) = []" by (simp add: sample_routing_def sample_world_def)
  have c: "cursor_of ''r1'' sample_routing = Some 0" by code_simp
  have n: "rt_route_id sample_route = ''r1''" "es_event_id sample_snapshot = 1"
    by (simp_all add: sample_route_def sample_snapshot_def)
  have p: "?p = (Inr (), snd ?p)" using ok by (simp add: prod_eq_iff)
  have "ce_uuid (ee_call (sample_event_env ''m1'')) \<notin> mq_message_id ` set (db_queue (rw_db sample_routing))"
    by (simp add: q)
  from event_decided_or_retried [OF p this] have
    "cursor_of ''r1'' (snd ?p) = Some 1 \<and>
     (\<exists>rec. emitted sample_worker (sample_event_env ''m1'') sample_route sample_snapshot rec sample_routing (snd ?p) \<and>
        (is_Route_matched rec \<and> list_ex (routed ''r1'' 1) (db_queue (rw_db (snd ?p))) \<or> is_Route_skipped rec))"
    unfolding n c sum.case by auto
  then show ?thesis by (subst p) (simp only: prod.case sum.case)
qed

theorem crash_replay_single_message_witness:
  "routed_rows ''r1'' 1 (snd (process_one_event sample_worker (sample_event_env ''m2'') sample_route sample_snapshot
     sample_slave (snd (process_one_event (sample_worker\<lparr>wk_fault_inject_at := ''after_commit''\<rparr>)
       (sample_event_env ''m1'') sample_route sample_snapshot sample_slave sample_routing)))) = 1"
proof -
  let ?p = "process_one_event (sample_worker\<lparr>wk_fault_inject_at := ''after_commit''\<rparr>)
       (sample_event_env ''m1'') sample_route sample_snapshot sample_slave sample_routing"
  let ?q = "process_one_event sample_worker (sample_event_env ''m2'') sample_route sample_snapshot sample_slave (snd ?p)"
  have "fst ?p = Inl (SystemExit 137)" by code_simp
  then have p: "?p = (Inl (SystemExit 137), snd ?p)" by (simp add: prod_eq_iff)
  have q: "?q = (fst ?q, snd ?q)" by simp
  have n: "rt_route_id sample_route = ''r1''" "es_event_id sample_snapshot = 1"
    by (simp_all add: sample_route_def sample_snapshot_def)
  from crash_replay_single_message [OF p q] show ?thesis unfolding n by blast
qed

theorem batch_shrinks_backlog_witness:
  "route_lag (rw_db sample_routing) sample_route = 3 \<and>
   (\<exists>route'. select_route ''r1'' (rw_db (snd (process_route_batch sample_worker sample_batch sample_route sample_routing))) =
      Some route' \<and>
    route_lag (rw_db (snd (process_route_batch sample_worker sample_batch sample_route sample_routing))) route' = 1)"
proof -
  let ?p = "process_route_batch sample_worker sample_batch sample_route sample_routing"
  have lag: "route_lag (rw_db sample_routing) sample_route = 3" by code_simp
  have "fst ?p = Inr True" by code_simp
  then have p: "?p = (Inr True, snd ?p)" by (simp add: prod_eq_iff)
  have wf: "routes_wf (rw_db sample_routing)" "distinct (map ev_event_id (db_events (rw_db sample_routing)))"
    by (code_simp, code_simp)
  have r: "sample_route \<in> set (db_routes (rw_db sample_routing))" "rt_enabled sample_route"
    by (simp_all add: sample_routing_def sample_route_def)
  have q: "undisturbed sample_batch" by (simp add: undisturbed_def sample_batch_def)
  have n: "rt_route_id sample_route = ''r1''" "wk_batch_size sample_worker = 2"
    by (simp_all add: sample_route_def sample_worker_def)
  from batch_shrinks_backlog [OF wf r q p] show ?thesis unfolding n lag by simp
qed

text \<open>
  C40: an event is lost to lock contention. When the database stays locked through the retries of the
  insert, the queue service raises \<open>SqliteLockConflict\<close>; it is a \<open>QueueServiceError\<close>, so the worker
  takes it for a decision: the cursor moves past the event, no message exists, and the reason recorded
  is none of the documented skip reasons. With the lock free the same event is delivered.
\<close>

theorem lock_conflict_loses_event:
  "\<exists>wk ee route ev source_agent rw rw'.
     all_busy (ce_busy (ee_call ee)) \<and>
     process_one_event wk ee route ev source_agent rw = (Inr (), rw') \<and>
     cursor_of (rt_route_id route) rw \<noteq> cursor_of (rt_route_id route) rw' \<and>
     cursor_of (rt_route_id route) rw' = Some (es_event_id ev) \<and>
     routed_rows (rt_route_id route) (es_event_id ev) rw' = 0 \<and>
     map rs_reason (ra_jsonl (rw_audit rw')) = [''sqlite_lock_conflict''] \<and>
     ''sqlite_lock_conflict'' \<notin> set skip_reasons \<and>
     routed_rows (rt_route_id route) (es_event_id ev) (snd (process_one_event wk
       (ee\<lparr>ee_call := (ee_call ee)\<lparr>ce_busy := (\<lambda>_. False)\<rparr>\<rparr>) route ev source_agent rw)) = 1"
proof -
  let ?ee = "(sample_event_env ''m1'')\<lparr>ee_call := (sample_call ''m1'' ''t2'')\<lparr>ce_busy := (\<lambda>_. True)\<rparr>\<rparr>"
  let ?p = "process_one_event sample_worker ?ee sample_route sample_snapshot sample_slave sample_routing"
  have "fst ?p = Inr ()" by code_simp
  then have p: "?p = (Inr (), snd ?p)" by (simp add: prod_eq_iff)
  have "all_busy (ce_busy (ee_call ?ee))" by code_simp
  moreover have "cursor_of (rt_route_id sample_route) sample_routing \<noteq> cursor_of (rt_route_id sample_route) (snd ?p)"
    by code_simp
  moreover have "cursor_of (rt_route_id sample_route) (snd ?p) = Some (es_event_id sample_snapshot)" by code_simp
  moreover have "routed_rows (rt_route_id sample_route) (es_event_id sample_snapshot) (snd ?p) = 0" by code_simp
  moreover have "map rs_reason (ra_jsonl (rw_audit (snd ?p))) = [''sqlite_lock_conflict'']" by code_simp
  moreover have "''sqlite_lock_conflict'' \<notin> set skip_reasons" by code_simp
  moreover have "routed_rows (rt_route_id sample_route) (es_event_id sample_snapshot) (snd (process_one_event sample_worker
       (?ee\<lparr>ee_call := (ee_call ?ee)\<lparr>ce_busy := (\<lambda>_. False)\<rparr>\<rparr>) sample_route sample_snapshot sample_slave sample_routing)) = 1"
    by code_simp
  ultimately show ?thesis using p
    by (intro exI [of _ sample_worker] exI [of _ ?ee] exI [of _ sample_route] exI [of _ sample_snapshot]
        exI [of _ sample_slave] exI [of _ sample_routing] exI [of _ "snd ?p"] conjI)
qed

end
