(* ===== verification/Json.thy ===== *)
theory Json
  imports Prelude
begin

text \<open>
  Parameters of a socket request and the contents of a cursor: the values \<open>json.loads\<close> builds. An object
  is its list of keys and values. A float is its value in thousandths, \<open>None\<close> when it is infinite or not
  a number (the decoder accepts both).
\<close>

datatype json =
    JNull
  | JBool bool
  | JInt int
  | JFloat "int option"
  | JStr string
  | JList "json list"
  | JObj "(string \<times> json) list"

type_synonym json_object = "(string \<times> json) list"

text \<open>\<open>obj.get(key)\<close>.\<close>

definition json_get :: "json_object \<Rightarrow> string \<Rightarrow> json" where
  "json_get obj k = (case map_of obj k of None \<Rightarrow> JNull | Some v \<Rightarrow> v)"

text \<open>Python's truth value, for \<open>x or default\<close>.\<close>

fun truthy :: "json \<Rightarrow> bool" where
  "truthy JNull = False"
| "truthy (JBool b) = b"
| "truthy (JInt i) = (i \<noteq> 0)"
| "truthy (JFloat x) = (x \<noteq> Some 0)"
| "truthy (JStr s) = (s \<noteq> [])"
| "truthy (JList xs) = (xs \<noteq> [])"
| "truthy (JObj xs) = (xs \<noteq> [])"

fun str_value :: "json \<Rightarrow> string option" where
  "str_value (JStr s) = Some s"
| "str_value _ = None"

lemma str_value_iff: "str_value j = Some s \<longleftrightarrow> j = JStr s"
  by (cases j) auto

lemma json_get_simps [simp]:
  "json_get [] k = JNull"
  "json_get ((k', v) # obj) k = (if k' = k then v else json_get obj k)"
  by (simp_all add: json_get_def)

end
