(* ===== verification/Events_Dao.thy ===== *)
theory Events_Dao
  imports Audit_Writer Json
begin

text \<open>
  The durable event log as the classifier writes and the clients read it (\<open>events/dao.py\<close>): the
  validated insert, the retry queue of rows without a watermark, and the listing by pages. A cursor is
  the JSON object its token carries; the base64 text around it is not modelled.
\<close>

subsection \<open>Insert\<close>

text \<open>
  \<open>insert_event\<close> takes a row whose classifier columns are all present (a row without them is an audit
  row and is refused).
\<close>

definition event_ranges_ok :: "log_cols \<Rightarrow> bool" where
  "event_ranges_ok c \<longleftrightarrow>
     0 \<le> lc_byte_range_start c \<and> lc_byte_range_start c \<le> lc_byte_range_end c \<and>
     0 \<le> lc_line_offset_start c \<and> lc_line_offset_start c \<le> lc_line_offset_end c \<and>
     1 \<le> lc_debounce_collapsed_count c"

definition insert_event :: "event_row \<Rightarrow> nat tx" where
  "insert_event row =
     (if ev_event_type row \<notin> set classifier_event_types then tx_raise ValueError
      else case ev_log row of
        None \<Rightarrow> tx_raise ValueError
      | Some c \<Rightarrow>
          if \<not> event_ranges_ok c then tx_raise ValueError
          else events_insert (ev_event_type row) (ev_agent_id row) (ev_observed_at row) (ev_excerpt row)
                 (ev_jsonl_appended_at row) (Some c))"

subsection \<open>Cursors\<close>

text \<open>The JSON object inside a token.\<close>

type_synonym cursor_payload = json_object

definition max_safe_cursor_event_id :: int where
  "max_safe_cursor_event_id = 2 ^ 53 - 1"

definition encode_cursor :: "int \<Rightarrow> bool \<Rightarrow> timestamp option \<Rightarrow> int option \<Rightarrow> exc + cursor_payload" where
  "encode_cursor event_id reverse observed_at byte_range_start =
     (if event_id \<le> 0 then Inl CursorError
      else if event_id > max_safe_cursor_event_id then Inl CursorError
      else case (observed_at, byte_range_start) of
        (None, None) \<Rightarrow> Inr [(''e'', JInt event_id), (''r'', JBool reverse)]
      | (Some t, Some b) \<Rightarrow>
          if t = [] then Inl CursorError
          else if b < -1 then Inl CursorError
          else Inr [(''e'', JInt event_id), (''r'', JBool reverse), (''o'', JStr t), (''b'', JInt b)]
      | _ \<Rightarrow> Inl CursorError)"

definition decode_cursor_base :: "cursor_payload \<Rightarrow> exc + (int \<times> bool)" where
  "decode_cursor_base obj =
     (case (map_of obj ''e'', map_of obj ''r'') of
        (Some (JInt e), Some r) \<Rightarrow>
          if e \<le> 0 then Inl CursorError
          else if e > max_safe_cursor_event_id then Inl CursorError
          else (case r of JBool r' \<Rightarrow> Inr (e, r') | _ \<Rightarrow> Inl CursorError)
      | _ \<Rightarrow> Inl CursorError)"

definition decode_cursor_details :: "cursor_payload \<Rightarrow> exc + (int \<times> bool \<times> (timestamp \<times> int) option)" where
  "decode_cursor_details obj =
     (case decode_cursor_base obj of
        Inl e \<Rightarrow> Inl e
      | Inr (event_id, reverse) \<Rightarrow>
          (case (json_get obj ''o'', json_get obj ''b'') of
             (JNull, JNull) \<Rightarrow> Inr (event_id, reverse, None)
           | (JStr t, JInt b) \<Rightarrow>
               if t = [] then Inl CursorError
               else if b < -1 then Inl CursorError
               else Inr (event_id, reverse, Some (t, b))
           | _ \<Rightarrow> Inl CursorError))"

subsection \<open>Queries\<close>

record event_filter =
  ef_target_agent_id :: "string option"
  ef_types :: "string list"
  ef_since_iso :: "timestamp option"
  ef_until_iso :: "timestamp option"

definition filter_matches :: "event_filter \<Rightarrow> event_row \<Rightarrow> bool" where
  "filter_matches f e \<longleftrightarrow>
     (case ef_target_agent_id f of None \<Rightarrow> True | Some a \<Rightarrow> ev_agent_id e = a) \<and>
     (ef_types f = [] \<or> ev_event_type e \<in> set (ef_types f)) \<and>
     (case ef_since_iso f of None \<Rightarrow> True | Some t \<Rightarrow> t \<le> ev_observed_at e) \<and>
     (case ef_until_iso f of None \<Rightarrow> True | Some t \<Rightarrow> ev_observed_at e < t)"

text \<open>\<open>COALESCE(byte_range_start, -1)\<close> and the sort key.\<close>

definition byte_key :: "event_row \<Rightarrow> int" where
  "byte_key e = (case ev_log e of None \<Rightarrow> -1 | Some c \<Rightarrow> lc_byte_range_start c)"

definition sort_key_of :: "event_row \<Rightarrow> timestamp \<times> int \<times> nat" where
  "sort_key_of e = (ev_observed_at e, byte_key e, ev_event_id e)"

definition past_cursor :: "int \<times> bool \<times> (timestamp \<times> int) option \<Rightarrow> event_row \<Rightarrow> bool" where
  "past_cursor c e =
     (case c of
        (i, reverse, Some (t, b)) \<Rightarrow>
          if reverse
          then ev_observed_at e < t \<or> ev_observed_at e = t \<and> byte_key e < b \<or>
               ev_observed_at e = t \<and> byte_key e = b \<and> int (ev_event_id e) < i
          else ev_observed_at e > t \<or> ev_observed_at e = t \<and> byte_key e > b \<or>
               ev_observed_at e = t \<and> byte_key e = b \<and> int (ev_event_id e) > i
      | (i, reverse, None) \<Rightarrow> if reverse then int (ev_event_id e) < i else int (ev_event_id e) > i)"

definition ordered_events :: "bool \<Rightarrow> event_row list \<Rightarrow> event_row list" where
  "ordered_events reverse es = (if reverse then rev (sort_key sort_key_of es) else sort_key sort_key_of es)"

text \<open>The \<open>SELECT\<close> with its \<open>WHERE\<close>, \<open>ORDER BY\<close> and \<open>LIMIT limit + 1\<close>.\<close>

definition events_query ::
  "event_filter \<Rightarrow> (int \<times> bool \<times> (timestamp \<times> int) option) option \<Rightarrow> nat \<Rightarrow> bool \<Rightarrow> db \<Rightarrow> event_row list" where
  "events_query f cur n reverse d =
     take n (ordered_events reverse
       (filter (\<lambda>e. filter_matches f e \<and> (case cur of None \<Rightarrow> True | Some c \<Rightarrow> past_cursor c e)) (db_events d)))"

definition events_page :: "event_row list \<Rightarrow> nat \<Rightarrow> bool \<Rightarrow> exc + (event_row list \<times> cursor_payload option)" where
  "events_page rows limit reverse =
     (let page = take limit rows in
      if limit < length rows \<and> page \<noteq> []
      then (let e = last page in
            case encode_cursor (int (ev_event_id e)) reverse (Some (ev_observed_at e)) (Some (byte_key e)) of
              Inl x \<Rightarrow> Inl x
            | Inr c \<Rightarrow> Inr (page, Some c))
      else Inr (page, None))"

definition select_events ::
  "event_filter \<Rightarrow> cursor_payload option \<Rightarrow> int \<Rightarrow> bool \<Rightarrow> db \<Rightarrow> exc + (event_row list \<times> cursor_payload option)" where
  "select_events f cur limit reverse d =
     (if limit \<le> 0 then Inl ValueError
      else case cur of
        None \<Rightarrow> events_page (events_query f None (Suc (nat limit)) reverse d) (nat limit) reverse
      | Some obj \<Rightarrow>
          (case decode_cursor_details obj of
             Inl e \<Rightarrow> Inl e
           | Inr (i, cursor_reverse, key) \<Rightarrow>
               if cursor_reverse \<noteq> reverse then Inl CursorError
               else events_page (events_query f (Some (i, cursor_reverse, key)) (Suc (nat limit)) reverse d)
                      (nat limit) reverse))"

definition select_pending_jsonl :: "int \<Rightarrow> db \<Rightarrow> exc + event_row list" where
  "select_pending_jsonl limit d =
     (if limit \<le> 0 then Inl ValueError
      else Inr (take (nat limit) (sort_key ev_event_id
             (filter (\<lambda>e. ev_jsonl_appended_at e = None \<and> ev_event_type e \<in> set classifier_event_types)
                (db_events d)))))"

definition select_event_by_id :: "nat \<Rightarrow> db \<Rightarrow> event_row option" where
  "select_event_by_id event_id d = lookup_row ev_event_id event_id (db_events d)"

subsection \<open>Facts about the insert\<close>

lemma insert_event_outcome:
  "insert_event row d =
     (case ev_log row of
        Some c \<Rightarrow>
          if ev_event_type row \<in> set classifier_event_types \<and> event_ranges_ok c
          then Inr (db_next_event_id d,
            d\<lparr>db_events := db_events d @ [row\<lparr>ev_event_id := db_next_event_id d\<rparr>],
              db_next_event_id := Suc (db_next_event_id d)\<rparr>)
          else Inl ValueError
      | None \<Rightarrow> Inl ValueError)"
proof (cases "ev_log row")
  case (Some c)
  have "\<lparr>ev_event_id = n, ev_event_type = ev_event_type row, ev_agent_id = ev_agent_id row,
      ev_observed_at = ev_observed_at row, ev_excerpt = ev_excerpt row,
      ev_jsonl_appended_at = ev_jsonl_appended_at row, ev_log = Some c\<rparr> = row\<lparr>ev_event_id := n\<rparr>" for n
    using Some by (cases row) simp
  then show ?thesis using Some by (simp add: insert_event_def events_insert_def event_row_checks_def Let_def)
qed (simp add: insert_event_def)

subsection \<open>Paging\<close>

text \<open>A cursor that was encoded is decoded to the values it was made from.\<close>

lemma cursor_roundtrip:
  assumes "encode_cursor i r t b = Inr obj"
  shows "decode_cursor_base obj = Inr (i, r)"
    and "decode_cursor_details obj = Inr (i, r, case (t, b) of (Some t', Some b') \<Rightarrow> Some (t', b') | _ \<Rightarrow> None)"
  using assms
  by (auto simp: encode_cursor_def decode_cursor_base_def decode_cursor_details_def
      split: option.splits if_splits)

text \<open>A client that follows the cursors until there is none, with a bound on the number of pages.\<close>

fun all_pages :: "nat \<Rightarrow> event_filter \<Rightarrow> cursor_payload option \<Rightarrow> int \<Rightarrow> bool \<Rightarrow> db \<Rightarrow> event_row list option" where
  "all_pages 0 f cur limit reverse d = None"
| "all_pages (Suc n) f cur limit reverse d =
     (case select_events f cur limit reverse d of
        Inl _ \<Rightarrow> None
      | Inr (page, None) \<Rightarrow> Some page
      | Inr (page, Some c) \<Rightarrow> map_option ((@) page) (all_pages n f (Some c) limit reverse d))"

definition matching_events :: "event_filter \<Rightarrow> bool \<Rightarrow> db \<Rightarrow> event_row list" where
  "matching_events f reverse d = ordered_events reverse (filter (filter_matches f) (db_events d))"

text \<open>What the schema and the inserts guarantee of the rows a cursor is made from.\<close>

definition row_addressable :: "event_row \<Rightarrow> bool" where
  "row_addressable e \<longleftrightarrow> 0 < ev_event_id e \<and> int (ev_event_id e) \<le> max_safe_cursor_event_id \<and>
     ev_observed_at e \<noteq> [] \<and> -1 \<le> byte_key e"

definition rows_addressable :: "db \<Rightarrow> bool" where
  "rows_addressable d \<longleftrightarrow> distinct (map ev_event_id (db_events d)) \<and> list_all row_addressable (db_events d)"

definition key_before :: "bool \<Rightarrow> event_row \<Rightarrow> event_row \<Rightarrow> bool" where
  "key_before reverse a b \<longleftrightarrow> (if reverse then sort_key_of b < sort_key_of a else sort_key_of a < sort_key_of b)"

lemma past_cursor_of_row:
  "past_cursor (int (ev_event_id a), reverse, Some (ev_observed_at a, byte_key a)) e \<longleftrightarrow> key_before reverse a e"
  by (auto simp: past_cursor_def key_before_def sort_key_of_def less_prod_def)

lemma ordered_events_filter: "ordered_events reverse (filter P es) = filter P (ordered_events reverse es)"
  by (simp add: ordered_events_def filter_sort flip: rev_filter)

lemma set_ordered_events [simp]: "set (ordered_events reverse es) = set es"
  by (simp add: ordered_events_def)

lemma ordered_events_sorted:
  assumes "distinct (map ev_event_id es)"
  shows "sorted_wrt (key_before reverse) (ordered_events reverse es)"
proof -
  have "distinct (map ev_event_id (sort_key sort_key_of es))"
    using assms by (metis distinct_map distinct_sort set_sort)
  then have "distinct (map sort_key_of (sort_key sort_key_of es))"
    by (auto simp: distinct_map inj_on_def sort_key_of_def)
  then have "sorted_wrt (<) (map sort_key_of (sort_key sort_key_of es))"
    by (simp add: strict_sorted_iff)
  then have "sorted_wrt (\<lambda>a b. sort_key_of a < sort_key_of b) (sort_key sort_key_of es)"
    by (simp add: sorted_wrt_map)
  then show ?thesis
    by (cases reverse) (simp_all add: ordered_events_def key_before_def [abs_def] sorted_wrt_rev)
qed

text \<open>After the last row of a page come exactly the rows that were not on it.\<close>

lemma sorted_wrt_after:
  assumes "sorted_wrt R xs" "\<And>x y. R x y \<Longrightarrow> \<not> R y x" "\<And>x. \<not> R x x" "xs = us @ a # vs"
  shows "filter (R a) xs = vs"
proof -
  have "filter (R a) us = []" "filter (R a) vs = vs"
    using assms by (auto simp: sorted_wrt_append filter_empty_conv filter_id_conv)
  then show ?thesis using assms(3,4) by simp
qed

lemma key_before_asym: "key_before r x y \<Longrightarrow> \<not> key_before r y x" "\<not> key_before r x x"
  by (auto simp: key_before_def)

definition cursor_of_row :: "bool \<Rightarrow> event_row \<Rightarrow> cursor_payload" where
  "cursor_of_row reverse e =
     [(''e'', JInt (int (ev_event_id e))), (''r'', JBool reverse), (''o'', JStr (ev_observed_at e)), (''b'', JInt (byte_key e))]"

lemma encode_row:
  assumes "row_addressable e"
  shows "encode_cursor (int (ev_event_id e)) reverse (Some (ev_observed_at e)) (Some (byte_key e)) = Inr (cursor_of_row reverse e)"
  using assms by (simp add: encode_cursor_def row_addressable_def cursor_of_row_def)

text \<open>One request: the rows after the cursor's row, cut at the limit.\<close>

lemma select_events_first:
  assumes "rows_addressable d" "0 < limit"
  shows "select_events f None limit reverse d =
    (let m = matching_events f reverse d in
     Inr (take (nat limit) m, if nat limit < length m then Some (cursor_of_row reverse (last (take (nat limit) m))) else None))"
  and "matching_events f reverse d = us @ a # vs \<Longrightarrow> row_addressable a \<Longrightarrow>
    select_events f (Some (cursor_of_row reverse a)) limit reverse d =
     Inr (take (nat limit) vs, if nat limit < length vs then Some (cursor_of_row reverse (last (take (nat limit) vs))) else None)"
proof -
  have page: "events_page (take (Suc (nat limit)) m) (nat limit) reverse =
      Inr (take (nat limit) m, if nat limit < length m then Some (cursor_of_row reverse (last (take (nat limit) m))) else None)"
    if "set m \<subseteq> set (db_events d)" for m
  proof (cases "nat limit < length m")
    case True
    then have "take (nat limit) m \<noteq> []" using assms(2) by auto
    then have "last (take (nat limit) m) \<in> set m" by (meson in_set_takeD last_in_set)
    then have "row_addressable (last (take (nat limit) m))"
      using that assms(1) by (auto simp: rows_addressable_def list_all_iff)
    then show ?thesis using True \<open>take (nat limit) m \<noteq> []\<close>
      by (simp add: events_page_def encode_row min_def Let_def)
  qed (simp add: events_page_def min_def Let_def)
  have sub: "set (matching_events f reverse d) \<subseteq> set (db_events d)" by (auto simp: matching_events_def)
  show "select_events f None limit reverse d =
    (let m = matching_events f reverse d in
     Inr (take (nat limit) m, if nat limit < length m then Some (cursor_of_row reverse (last (take (nat limit) m))) else None))"
    using assms(2) page [OF sub] by (simp add: select_events_def events_query_def matching_events_def Let_def)
  assume m: "matching_events f reverse d = us @ a # vs" and a: "row_addressable a"
  have "sorted_wrt (key_before reverse) (matching_events f reverse d)"
    using assms(1) unfolding matching_events_def rows_addressable_def
    by (intro ordered_events_sorted) (simp add: distinct_map_filter)
  then have "filter (key_before reverse a) (matching_events f reverse d) = vs"
    by (rule sorted_wrt_after [OF _ key_before_asym m])
  then have "events_query f (Some (int (ev_event_id a), reverse, Some (ev_observed_at a, byte_key a))) (Suc (nat limit)) reverse d
      = take (Suc (nat limit)) vs"
    by (simp add: events_query_def past_cursor_of_row matching_events_def ordered_events_filter [symmetric] conj_commute)
  moreover have "set vs \<subseteq> set (db_events d)" using sub m by auto
  ultimately show "select_events f (Some (cursor_of_row reverse a)) limit reverse d =
     Inr (take (nat limit) vs, if nat limit < length vs then Some (cursor_of_row reverse (last (take (nat limit) vs))) else None)"
    using assms(2) page cursor_roundtrip(2) [OF encode_row [OF a, of reverse]] by (simp add: select_events_def)
qed

lemma take_drop_last: "take n xs \<noteq> [] \<Longrightarrow> xs = butlast (take n xs) @ last (take n xs) # drop n xs"
  by (metis append.assoc append_Cons append_Nil append_butlast_last_id append_take_drop_id)

lemma pages_after:
  assumes "rows_addressable d" "0 < limit" "length vs < n" "matching_events f reverse d = us @ a # vs"
  shows "all_pages n f (Some (cursor_of_row reverse a)) limit reverse d = Some vs"
  using assms(3,4)
proof (induction n arbitrary: us a vs)
  case (Suc n)
  have sub: "set (us @ a # vs) \<subseteq> set (db_events d)"
    unfolding Suc.prems(2) [symmetric] by (auto simp: matching_events_def)
  then have "row_addressable a" using assms(1) by (auto simp: rows_addressable_def list_all_iff)
  note sel = select_events_first(2) [OF assms(1,2) Suc.prems(2) this]
  show ?case
  proof (cases "nat limit < length vs")
    case True
    let ?p = "take (nat limit) vs"
    have "?p \<noteq> []" using assms(2) True by auto
    then have "vs = butlast ?p @ last ?p # drop (nat limit) vs" by (rule take_drop_last)
    then have "all_pages n f (Some (cursor_of_row reverse (last ?p))) limit reverse d = Some (drop (nat limit) vs)"
      using Suc.prems assms(2) True by (intro Suc.IH [of _ "us @ a # butlast ?p"]) auto
    then show ?thesis using sel True by simp
  qed (use sel in simp)
qed simp

text \<open>
  C17: paging through the event log. A client that starts without a cursor and follows the cursors it is
  given, with any page size and in either direction, gets every event that matches its filter exactly
  once, in the order of observation time, byte position and id, and stops after at most one page more
  than there are matching events.
\<close>

theorem paging_enumerates_events:
  assumes "rows_addressable d" "0 < limit" "length (matching_events f reverse d) < n"
  shows "all_pages n f None limit reverse d = Some (matching_events f reverse d)"
proof -
  let ?m = "matching_events f reverse d"
  let ?p = "take (nat limit) ?m"
  obtain k where n: "n = Suc k" using assms(3) by (cases n) auto
  note sel = select_events_first(1) [OF assms(1,2), of f reverse]
  show ?thesis
  proof (cases "nat limit < length ?m")
    case True
    have "?p \<noteq> []" using assms(2) True by auto
    then have "?m = butlast ?p @ last ?p # drop (nat limit) ?m" by (rule take_drop_last)
    moreover have "length (drop (nat limit) ?m) < k" using assms(2,3) True n by auto
    ultimately have "all_pages k f (Some (cursor_of_row reverse (last ?p))) limit reverse d = Some (drop (nat limit) ?m)"
      using pages_after [OF assms(1,2)] by blast
    then show ?thesis using sel True by (simp add: n Let_def)
  qed (use sel in \<open>simp add: n Let_def\<close>)
qed


text \<open>Three rows at two times, one of them an audit row, read two at a time from the newest.\<close>

definition sample_page_event :: "nat \<Rightarrow> string \<Rightarrow> event_row" where
  "sample_page_event i t = \<lparr>ev_event_id = i, ev_event_type = ''routing_toggled'', ev_agent_id = ''host-operator'',
     ev_observed_at = t, ev_excerpt = ''x'', ev_jsonl_appended_at = None, ev_log = None\<rparr>"

definition sample_events_db :: db where
  "sample_events_db = \<lparr>db_queue = [], db_events = [sample_page_event 1 ''b'', sample_page_event 2 ''b'', sample_page_event 3 ''a''],
     db_next_event_id = 4, db_flag = None,
     db_routes = []\<rparr>"

theorem paging_enumerates_events_witness:
  "map_option (map ev_event_id) (all_pages 4 \<lparr>ef_target_agent_id = None, ef_types = [], ef_since_iso = None, ef_until_iso = None\<rparr>
      None 2 True sample_events_db) = Some [2, 1, 3]"
proof -
  let ?f = "\<lparr>ef_target_agent_id = None, ef_types = [], ef_since_iso = None, ef_until_iso = None\<rparr>"
  have "rows_addressable sample_events_db" by code_simp
  moreover have "length (matching_events ?f True sample_events_db) < 4" by code_simp
  ultimately have "all_pages 4 ?f None 2 True sample_events_db = Some (matching_events ?f True sample_events_db)"
    by (intro paging_enumerates_events) simp_all
  moreover have "map ev_event_id (matching_events ?f True sample_events_db) = [2, 1, 3]" by code_simp
  ultimately show ?thesis by simp
qed

end
