(* ===== verification/Follow_Sessions.thy ===== *)
theory Follow_Sessions
  imports Events_Dao Agents "HOL-Library.AList"
begin

text \<open>
  Following the event log: the registry of sessions (\<open>events/session_registry.py\<close>) and the socket methods
  over the log (\<open>_events_*\<close> of \<open>socket_api/methods.py\<close>). The sessions are a Python dictionary, here an
  association list in insertion order; \<open>fs_wakeups\<close> counts the \<open>notify_all\<close> calls on a session's condition.
  Clock readings are milliseconds and arguments. A method returns the code of its error envelope or its
  result; messages are not modelled.
\<close>

subsection \<open>The registry\<close>

record follow_session =
  fs_session_id :: string
  fs_target_agent_id :: "string option"
  fs_type_filter :: "string list"
  fs_since_iso :: "timestamp option"
  fs_last_emitted_event_id :: nat
  fs_live_starting_event_id :: nat
  fs_expires_at_monotonic :: int
  fs_wakeups :: nat

record follow_registry =
  fr_sessions :: "(string \<times> follow_session) list"
  fr_bad_lookup_count :: nat
  fr_bad_lookup_window_start :: int

definition bad_lookup_threshold :: nat where
  "bad_lookup_threshold = 100"

definition bad_lookup_window_ms :: int where
  "bad_lookup_window_ms = 10000"

definition matches_filter :: "string option \<Rightarrow> string list \<Rightarrow> string \<Rightarrow> string \<Rightarrow> bool" where
  "matches_filter target_agent_id type_filter event_agent_id event_type =
     (if target_agent_id \<noteq> None \<and> Some event_agent_id \<noteq> target_agent_id then False
      else if type_filter \<noteq> [] \<and> event_type \<notin> set type_filter then False
      else True)"

text \<open>The type filter is a \<open>frozenset\<close>: the list without repetitions.\<close>

definition fs_open ::
  "string \<Rightarrow> string option \<Rightarrow> string list \<Rightarrow> timestamp option \<Rightarrow> nat \<Rightarrow> int \<Rightarrow> follow_registry \<Rightarrow>
   follow_session \<times> follow_registry" where
  "fs_open new_id target types since live_starting expires_at r =
     (let s = \<lparr>fs_session_id = new_id, fs_target_agent_id = target, fs_type_filter = remdups types,
               fs_since_iso = since, fs_last_emitted_event_id = 0, fs_live_starting_event_id = live_starting,
               fs_expires_at_monotonic = expires_at, fs_wakeups = 0\<rparr>
      in (s, r\<lparr>fr_sessions := AList.update new_id s (fr_sessions r)\<rparr>))"

definition fs_get :: "string \<Rightarrow> follow_registry \<Rightarrow> follow_session option" where
  "fs_get session_id r = map_of (fr_sessions r) session_id"

definition is_rate_limited :: "int \<Rightarrow> follow_registry \<Rightarrow> bool \<times> follow_registry" where
  "is_rate_limited now r =
     (if now - fr_bad_lookup_window_start r \<ge> bad_lookup_window_ms
      then (False, r\<lparr>fr_bad_lookup_window_start := now, fr_bad_lookup_count := 1\<rparr>)
      else let n = fr_bad_lookup_count r + 1 in (n > bad_lookup_threshold, r\<lparr>fr_bad_lookup_count := n\<rparr>))"

definition fs_close :: "string \<Rightarrow> follow_registry \<Rightarrow> bool \<times> follow_registry" where
  "fs_close session_id r =
     (case map_of (fr_sessions r) session_id of
        None \<Rightarrow> (False, r)
      | Some _ \<Rightarrow> (True, r\<lparr>fr_sessions := AList.delete session_id (fr_sessions r)\<rparr>))"

definition refresh_expiration :: "string \<Rightarrow> int \<Rightarrow> follow_registry \<Rightarrow> bool \<times> follow_registry" where
  "refresh_expiration session_id new_expires_at r =
     (case map_of (fr_sessions r) session_id of
        None \<Rightarrow> (False, r)
      | Some s \<Rightarrow> (True, r\<lparr>fr_sessions :=
          AList.update session_id (s\<lparr>fs_expires_at_monotonic := new_expires_at\<rparr>) (fr_sessions r)\<rparr>))"

definition gc_expired :: "int \<Rightarrow> follow_registry \<Rightarrow> string list \<times> follow_registry" where
  "gc_expired now r =
     (map fst (filter (\<lambda>(_, s). fs_expires_at_monotonic s < now) (fr_sessions r)),
      r\<lparr>fr_sessions := filter (\<lambda>(_, s). \<not> fs_expires_at_monotonic s < now) (fr_sessions r)\<rparr>)"

definition notify :: "string \<Rightarrow> string \<Rightarrow> follow_registry \<Rightarrow> follow_registry" where
  "notify agent_id event_type r =
     r\<lparr>fr_sessions := map (\<lambda>(i, s).
         (i, if matches_filter (fs_target_agent_id s) (fs_type_filter s) agent_id event_type
             then s\<lparr>fs_wakeups := fs_wakeups s + 1\<rparr> else s)) (fr_sessions r)\<rparr>"

definition session_count :: "follow_registry \<Rightarrow> nat" where
  "session_count r = length (fr_sessions r)"

definition session_lag_snapshot :: "nat \<Rightarrow> follow_registry \<Rightarrow> (string \<times> nat \<times> nat \<times> nat) list" where
  "session_lag_snapshot current_max_event_id r =
     map (\<lambda>(_, s). (fs_session_id s, fs_last_emitted_event_id s, fs_live_starting_event_id s,
        current_max_event_id - max (fs_last_emitted_event_id s) (fs_live_starting_event_id s))) (fr_sessions r)"

subsection \<open>Validation of a request\<close>

definition events_default_types :: "string list" where
  "events_default_types = sort classifier_event_types"

text \<open>
  \<open>datetime.fromisoformat\<close> and the conversion to UTC: \<open>None\<close> if the text does not parse or has no offset.
\<close>

type_synonym iso_parser = "string \<Rightarrow> int option"

definition parse_bound :: "iso_parser \<Rightarrow> json \<Rightarrow> string + int option" where
  "parse_bound from_iso v =
     (case v of
        JNull \<Rightarrow> Inr None
      | JStr s \<Rightarrow> (case from_iso s of None \<Rightarrow> Inl ''events_filter_invalid'' | Some t \<Rightarrow> Inr (Some t))
      | _ \<Rightarrow> Inl ''events_filter_invalid'')"

definition list_field :: "json \<Rightarrow> json list option" where
  "list_field v = (if \<not> truthy v then Some [] else case v of JList xs \<Rightarrow> Some xs | _ \<Rightarrow> None)"

definition events_validate_filter :: "iso_parser \<Rightarrow> json_object \<Rightarrow> string option" where
  "events_validate_filter from_iso params =
     (case list_field (json_get params ''types'') of
        None \<Rightarrow> Some ''events_filter_invalid''
      | Some ts \<Rightarrow>
          if \<not> list_all (\<lambda>t. case t of JStr s \<Rightarrow> s \<in> set classifier_event_types | _ \<Rightarrow> False) ts
          then Some ''events_filter_invalid''
          else case (parse_bound from_iso (json_get params ''since''), parse_bound from_iso (json_get params ''until'')) of
            (Inr since, Inr until) \<Rightarrow>
              if (case (since, until) of (Some a, Some b) \<Rightarrow> a > b | _ \<Rightarrow> False) then Some ''events_filter_invalid''
              else if (case map_of params ''reverse'' of None \<Rightarrow> False | Some (JBool _) \<Rightarrow> False | _ \<Rightarrow> True)
              then Some ''events_filter_invalid''
              else (case json_get params ''limit'' of
                      JNull \<Rightarrow> None
                    | JInt i \<Rightarrow> if i \<le> 0 then Some ''events_filter_invalid'' else None
                    | _ \<Rightarrow> Some ''events_filter_invalid'')
          | _ \<Rightarrow> Some ''events_filter_invalid'')"

text \<open>The registered agents, \<open>None\<close> when the daemon has no agent service.\<close>

definition events_resolve_target :: "agent list option \<Rightarrow> string option \<Rightarrow> string option" where
  "events_resolve_target agents target =
     (case target of
        None \<Rightarrow> None
      | Some t \<Rightarrow>
          (case agents of
             None \<Rightarrow> Some ''internal_error''
           | Some as \<Rightarrow>
               (case list_agents [] None False None as of
                  Inl _ \<Rightarrow> Some ''internal_error''
                | Inr rows \<Rightarrow> if t \<in> set (map ag_agent_id rows) then None else Some ''agent_not_found'')))"

definition target_field :: "json_object \<Rightarrow> string + string option" where
  "target_field params =
     (case json_get params ''target'' of
        JNull \<Rightarrow> Inr None | JStr s \<Rightarrow> Inr (Some s) | _ \<Rightarrow> Inl ''events_filter_invalid'')"

definition types_field :: "json_object \<Rightarrow> string list" where
  "types_field params =
     (case list_field (json_get params ''types'') of
        Some (t # ts) \<Rightarrow> concat (map (\<lambda>v. case v of JStr s \<Rightarrow> [s] | _ \<Rightarrow> []) (t # ts))
      | _ \<Rightarrow> events_default_types)"

subsection \<open>\<open>events.list\<close>\<close>

record events_config =
  ec_default_page_size :: int
  ec_max_page_size :: int
  ec_follow_idle_timeout_ms :: int
  ec_follow_long_poll_max_ms :: int

definition default_events_config :: events_config where
  "default_events_config = \<lparr>ec_default_page_size = 50, ec_max_page_size = 50,
     ec_follow_idle_timeout_ms = 300000, ec_follow_long_poll_max_ms = 30000\<rparr>"

text \<open>
  \<open>cursor\<close> is the JSON object inside the token, \<open>Some None\<close> a token from which no object can be decoded.
  A \<open>ValueError\<close> of the query is not caught by the method.
\<close>

definition events_list ::
  "events_config \<Rightarrow> iso_parser \<Rightarrow> agent list option \<Rightarrow> json_object \<Rightarrow> cursor_payload option option \<Rightarrow> db \<Rightarrow>
   exc + (string + (event_row list \<times> cursor_payload option))" where
  "events_list cfg from_iso agents params cur d =
     (case target_field params of
        Inl code \<Rightarrow> Inr (Inl code)
      | Inr target \<Rightarrow>
          (case events_validate_filter from_iso params of
             Some code \<Rightarrow> Inr (Inl code)
           | None \<Rightarrow>
               (case events_resolve_target agents target of
                  Some code \<Rightarrow> Inr (Inl code)
                | None \<Rightarrow>
                    let requested = (case json_get params ''limit'' of JInt i \<Rightarrow> i | _ \<Rightarrow> ec_default_page_size cfg);
                        limit = min requested (ec_max_page_size cfg);
                        reverse = (json_get params ''reverse'' = JBool True);
                        f = \<lparr>ef_target_agent_id = target, ef_types = types_field params,
                             ef_since_iso = str_value (json_get params ''since''),
                             ef_until_iso = str_value (json_get params ''until'')\<rparr>
                    in case (if limit \<le> 0 then Inl ValueError
                             else if cur = Some None then Inl CursorError
                             else select_events f (case cur of None \<Rightarrow> None | Some c \<Rightarrow> c) limit reverse d) of
                         Inl CursorError \<Rightarrow> Inr (Inl ''events_invalid_cursor'')
                       | Inl e \<Rightarrow> Inl e
                       | Inr page \<Rightarrow> Inr (Inr page))))"

subsection \<open>\<open>events.follow_open\<close>\<close>

definition max_event_id :: "db \<Rightarrow> nat" where
  "max_event_id d = fold max (map ev_event_id (db_events d)) 0"

definition events_follow_open ::
  "events_config \<Rightarrow> iso_parser \<Rightarrow> agent list option \<Rightarrow> json_object \<Rightarrow> string \<Rightarrow> int \<Rightarrow> db \<Rightarrow>
   follow_registry option \<Rightarrow>
   (exc + (string + (string \<times> event_row list \<times> nat))) \<times> follow_registry option" where
  "events_follow_open cfg from_iso agents params new_id now d registry =
     (case target_field params of
        Inl code \<Rightarrow> (Inr (Inl code), registry)
      | Inr target \<Rightarrow>
          (case events_validate_filter from_iso params of
             Some code \<Rightarrow> (Inr (Inl code), registry)
           | None \<Rightarrow>
               (case events_resolve_target agents target of
                  Some code \<Rightarrow> (Inr (Inl code), registry)
                | None \<Rightarrow>
                    (case registry of
                       None \<Rightarrow> (Inr (Inl ''internal_error''), registry)
                     | Some r \<Rightarrow>
                         let types = types_field params; since = str_value (json_get params ''since'');
                             live = max_event_id d;
                             backlog = (case since of
                                 None \<Rightarrow> Inr []
                               | Some t \<Rightarrow> map_sum id fst (select_events
                                   \<lparr>ef_target_agent_id = target, ef_types = types, ef_since_iso = Some t, ef_until_iso = None\<rparr>
                                   None (ec_default_page_size cfg) False d))
                         in case backlog of
                              Inl e \<Rightarrow> (Inl e, registry)
                            | Inr rows \<Rightarrow>
                                (case fs_open new_id target types since live (now + ec_follow_idle_timeout_ms cfg) r of
                                   (s, r') \<Rightarrow> (Inr (Inr (fs_session_id s, rows, live)), Some r'))))))"

subsection \<open>\<open>events.follow_next\<close>\<close>

text \<open>The query of one round of the long poll, and the update of the session after a round with rows.\<close>

definition follow_query :: "events_config \<Rightarrow> follow_session \<Rightarrow> db \<Rightarrow> exc + event_row list" where
  "follow_query cfg s d =
     (let lower_bound = max (fs_last_emitted_event_id s) (fs_live_starting_event_id s);
          cur = (if 0 < lower_bound then map_sum id Some (encode_cursor (int lower_bound) False None None) else Inr None)
      in case cur of
           Inl e \<Rightarrow> Inl e
         | Inr c \<Rightarrow> map_sum id fst (select_events
             \<lparr>ef_target_agent_id = fs_target_agent_id s,
              ef_types = (if fs_type_filter s = [] then events_default_types else fs_type_filter s),
              ef_since_iso = None, ef_until_iso = None\<rparr> c (ec_default_page_size cfg) False d))"

definition follow_emit :: "string \<Rightarrow> event_row list \<Rightarrow> int \<Rightarrow> follow_registry \<Rightarrow> follow_registry" where
  "follow_emit session_id rows new_expires_at r =
     snd (refresh_expiration session_id new_expires_at
       (r\<lparr>fr_sessions := (case map_of (fr_sessions r) session_id of
            None \<Rightarrow> fr_sessions r
          | Some s \<Rightarrow> AList.update session_id (s\<lparr>fs_last_emitted_event_id := ev_event_id (last rows)\<rparr>)
              (fr_sessions r))\<rparr>))"

definition max_wait_field :: "events_config \<Rightarrow> json \<Rightarrow> string + int" where
  "max_wait_field cfg v =
     (case (case v of
              JNull \<Rightarrow> Some (Some (ec_follow_long_poll_max_ms cfg))
            | JInt i \<Rightarrow> Some (Some (1000 * i))
            | JFloat x \<Rightarrow> Some x
            | _ \<Rightarrow> None) of
        Some (Some ms) \<Rightarrow>
          if ms \<le> 0 then Inl ''events_filter_invalid'' else Inr (min ms (ec_follow_long_poll_max_ms cfg))
      | _ \<Rightarrow> Inl ''events_filter_invalid'')"

text \<open>
  A round of the poll as the environment shows it: the log at the query, the clock at the check of the
  deadline and at the refresh, and whether the session was removed while the thread waited.
\<close>

record poll_round =
  pr_db :: db
  pr_now :: int
  pr_now_refresh :: int
  pr_removed :: bool

text \<open>The loop; \<open>None\<close> means that it still waits after the rounds given.\<close>

fun follow_poll ::
  "events_config \<Rightarrow> string \<Rightarrow> follow_session \<Rightarrow> int \<Rightarrow> poll_round list \<Rightarrow> follow_registry \<Rightarrow>
   ((exc + (event_row list \<times> bool)) \<times> follow_registry) option" where
  "follow_poll cfg session_id s deadline [] r = None"
| "follow_poll cfg session_id s deadline (p # ps) r =
     (case follow_query cfg s (pr_db p) of
        Inl e \<Rightarrow> Some (Inl e, r)
      | Inr rows \<Rightarrow>
          if rows \<noteq> [] then
            Some (Inr (rows, True), follow_emit session_id rows (pr_now_refresh p + ec_follow_idle_timeout_ms cfg) r)
          else if deadline - pr_now p \<le> 0 then
            Some (Inr ([], True), snd (refresh_expiration session_id (pr_now_refresh p + ec_follow_idle_timeout_ms cfg) r))
          else let r' = (if pr_removed p then snd (fs_close session_id r) else r) in
            if fs_get session_id r' = None then Some (Inr ([], False), r')
            else follow_poll cfg session_id s deadline ps r')"

definition events_follow_next ::
  "events_config \<Rightarrow> json_object \<Rightarrow> int \<Rightarrow> poll_round list \<Rightarrow> follow_registry option \<Rightarrow>
   ((exc + (string + (event_row list \<times> bool))) \<times> follow_registry option) option" where
  "events_follow_next cfg params now ps registry =
     (case json_get params ''session_id'' of
        JStr session_id \<Rightarrow>
          if session_id = [] then Some (Inr (Inl ''events_session_unknown''), registry)
          else (case registry of
             None \<Rightarrow> Some (Inr (Inl ''internal_error''), registry)
           | Some r \<Rightarrow>
               (case fs_get session_id r of
                  None \<Rightarrow> Some (Inr (Inl ''events_session_unknown''), Some (snd (is_rate_limited now r)))
                | Some s \<Rightarrow>
                    if fs_expires_at_monotonic s < now
                    then Some (Inr (Inl ''events_session_expired''), Some (snd (fs_close session_id r)))
                    else (case max_wait_field cfg (json_get params ''max_wait_seconds'') of
                       Inl code \<Rightarrow> Some (Inr (Inl code), registry)
                     | Inr max_wait \<Rightarrow>
                         map_option (\<lambda>(res, r'). (map_sum id Inr res, Some r'))
                           (follow_poll cfg session_id s (now + max_wait) ps r))))
      | _ \<Rightarrow> Some (Inr (Inl ''events_session_unknown''), registry))"

definition events_follow_close ::
  "json_object \<Rightarrow> int \<Rightarrow> follow_registry option \<Rightarrow> (string + unit) \<times> follow_registry option" where
  "events_follow_close params now registry =
     (case json_get params ''session_id'' of
        JStr session_id \<Rightarrow>
          if session_id = [] then (Inl ''events_session_unknown'', registry)
          else (case registry of
             None \<Rightarrow> (Inl ''internal_error'', registry)
           | Some r \<Rightarrow>
               (case fs_close session_id r of
                  (True, r') \<Rightarrow> (Inr (), Some r')
                | (False, r') \<Rightarrow> (Inl ''events_session_unknown'', Some (snd (is_rate_limited now r')))))
      | _ \<Rightarrow> (Inl ''events_session_unknown'', registry))"

subsection \<open>What a follower receives\<close>

definition session_filter :: "follow_session \<Rightarrow> event_filter" where
  "session_filter s = \<lparr>ef_target_agent_id = fs_target_agent_id s,
     ef_types = (if fs_type_filter s = [] then events_default_types else fs_type_filter s),
     ef_since_iso = None, ef_until_iso = None\<rparr>"

definition session_bound :: "follow_session \<Rightarrow> nat" where
  "session_bound s = max (fs_last_emitted_event_id s) (fs_live_starting_event_id s)"

definition news :: "follow_session \<Rightarrow> db \<Rightarrow> event_row list" where
  "news s d = filter (\<lambda>e. filter_matches (session_filter s) e \<and> session_bound s < ev_event_id e) (db_events d)"

lemma map_sum_fst_page:
  assumes "events_page rows n r = Inr page"
  shows "fst page = take n rows"
  using assms by (auto simp: events_page_def Let_def split: if_splits sum.splits)

lemma events_page_total:
  assumes "list_all row_addressable rows"
  shows "\<exists>page. events_page rows n r = Inr page"
proof -
  have "row_addressable (last (take n rows))" if "take n rows \<noteq> []"
    using assms last_in_set [OF that] by (auto simp: list_all_iff dest: in_set_takeD)
  then show ?thesis by (auto simp: events_page_def Let_def encode_row)
qed

text \<open>A round asks for the new events, in the order of the log, at most a page of them.\<close>

lemma follow_query_news:
  assumes "0 < ec_default_page_size cfg" "int (session_bound s) \<le> max_safe_cursor_event_id"
    and "list_all row_addressable (db_events d)"
  shows "follow_query cfg s d = Inr (take (nat (ec_default_page_size cfg)) (ordered_events False (news s d)))"
proof -
  let ?n = "nat (ec_default_page_size cfg)"
  have all: "list_all row_addressable (take k (ordered_events False (filter P (db_events d))))" for k P
    using assms(3) by (auto simp: list_all_iff dest: in_set_takeD)
  have page: "map_sum id fst (events_page (take (Suc ?n) (ordered_events False (filter P (db_events d)))) ?n False) =
      (Inr (take ?n (ordered_events False (filter P (db_events d)))) :: exc + event_row list)" for P
    using events_page_total [OF all, of "Suc ?n" P ?n False] map_sum_fst_page by fastforce
  show ?thesis
  proof (cases "0 < session_bound s")
    case True
    then have enc: "encode_cursor (int (session_bound s)) False None None = Inr [(''e'', JInt (int (session_bound s))), (''r'', JBool False)]"
      using assms(2) by (simp add: encode_cursor_def)
    show ?thesis using True assms(1) enc cursor_roundtrip(2) [OF enc] page
      by (simp add: follow_query_def session_bound_def [symmetric] session_filter_def [symmetric] select_events_def
          events_query_def past_cursor_def news_def)
  next
    case False
    have "filter (filter_matches (session_filter s)) (db_events d) = news s d"
      using assms(3) False by (auto simp: news_def list_all_iff row_addressable_def intro!: filter_cong)
    then show ?thesis using False assms(1) page [of "filter_matches (session_filter s)"]
      by (simp add: follow_query_def session_bound_def [symmetric] session_filter_def [symmetric] select_events_def
          events_query_def)
  qed
qed

text \<open>
  The order of the log agrees with the order of the ids when observation times never run backwards
  from one insert to the next.
\<close>

definition log_in_id_order :: "db \<Rightarrow> bool" where
  "log_in_id_order d \<longleftrightarrow> list_all (\<lambda>a. list_all (\<lambda>b. sort_key_of a < sort_key_of b \<longrightarrow> ev_event_id a < ev_event_id b)
     (db_events d)) (db_events d)"

lemma take_of_sorted_ids:
  assumes "sorted_wrt (\<lambda>a b. ev_event_id a < ev_event_id b) xs" "take n xs \<noteq> []"
  shows "set (take n xs) = {e \<in> set xs. ev_event_id e \<le> ev_event_id (last (take n xs))}"
proof -
  let ?p = "take n xs"
  have xs: "xs = butlast ?p @ last ?p # drop n xs" by (rule take_drop_last [OF assms(2)])
  have "sorted_wrt (\<lambda>a b. ev_event_id a < ev_event_id b) (butlast ?p @ last ?p # drop n xs)"
    using assms(1) xs by metis
  then have "\<forall>e \<in> set (butlast ?p). ev_event_id e < ev_event_id (last ?p)"
    "\<forall>e \<in> set (drop n xs). ev_event_id (last ?p) < ev_event_id e"
    by (auto simp: sorted_wrt_append)
  moreover have "set ?p = insert (last ?p) (set (butlast ?p))"
    using assms(2) by (metis append_butlast_last_id list.simps(15) set_append sup_commute Un_insert_right empty_set sup_bot.right_neutral)
  moreover have "set xs = set ?p \<union> set (drop n xs)" by (metis append_take_drop_id set_append)
  ultimately show ?thesis by force
qed


subsection \<open>Samples\<close>

definition sample_log_event :: "nat \<Rightarrow> string \<Rightarrow> event_row" where
  "sample_log_event i t = \<lparr>ev_event_id = i, ev_event_type = ''error'', ev_agent_id = ''agt_000000000001'',
     ev_observed_at = t, ev_excerpt = ''x'', ev_jsonl_appended_at = None, ev_log = None\<rparr>"

definition sample_log :: "event_row list \<Rightarrow> db" where
  "sample_log es = \<lparr>db_queue = [], db_events = es, db_next_event_id = Suc (length es), db_flag = None, db_routes = []\<rparr>"

definition sample_session :: follow_session where
  "sample_session = \<lparr>fs_session_id = ''fs_1'', fs_target_agent_id = None, fs_type_filter = [], fs_since_iso = None,
     fs_last_emitted_event_id = 0, fs_live_starting_event_id = 0, fs_expires_at_monotonic = 1000, fs_wakeups = 0\<rparr>"

definition sample_follow_registry :: follow_registry where
  "sample_follow_registry = \<lparr>fr_sessions = [(''fs_1'', sample_session)], fr_bad_lookup_count = 0, fr_bad_lookup_window_start = 0\<rparr>"


text \<open>Two calls in a row on the same log.\<close>

definition follow_twice :: "int \<Rightarrow> db \<Rightarrow> (nat list \<times> nat list) option" where
  "follow_twice page_size d =
     (let cfg = default_events_config\<lparr>ec_default_page_size := page_size\<rparr>;
          call = (\<lambda>r. events_follow_next cfg [(''session_id'', JStr ''fs_1'')] 0
            [\<lparr>pr_db = d, pr_now = 30000, pr_now_refresh = 30000, pr_removed = False\<rparr>] (Some r))
      in case call sample_follow_registry of
           Some (Inr (Inr (rows, _)), Some r) \<Rightarrow>
             (case call r of
                Some (Inr (Inr (rows', _)), _) \<Rightarrow> Some (map ev_event_id rows, map ev_event_id rows')
              | _ \<Rightarrow> None)
         | _ \<Rightarrow> None)"


end
