(* ===== verification/Regex.thy ===== *)
theory Regex
  imports Prelude
begin

text \<open>
  The part of Python's \<open>re\<close> the event classifier and the redaction use: character classes, sequence,
  ordered alternation, greedy repetition, the anchors \<open>^\<close> and \<open>$\<close> without \<open>MULTILINE\<close>, \<open>\b\<close>, and
  named groups. Matching works on code points and returns the ends of all matches in the order in
  which the backtracking engine finds them, so its answer is the head of the list.

  The classes \<open>\w\<close> and \<open>\d\<close> of a pattern without \<open>re.ASCII\<close> depend on the Unicode tables beyond
  ASCII; the word predicate of \<open>\b\<close> is an argument.
\<close>

subsection \<open>Expressions\<close>

datatype re =
    Eps
  | Cls "codepoint \<Rightarrow> bool"
  | Seq re re
  | Alt re re
  | Star re
  | Bol
  | Eol
  | Wordb
  | Group string re

text \<open>A position: the code point before it, the rest of the text, and the groups closed so far.\<close>

type_synonym rpos = "codepoint option \<times> codepoint list \<times> (string \<times> codepoint list) list"

definition rest_of :: "rpos \<Rightarrow> codepoint list" where
  "rest_of s = fst (snd s)"

definition at_boundary :: "(codepoint \<Rightarrow> bool) \<Rightarrow> codepoint option \<Rightarrow> codepoint list \<Rightarrow> bool" where
  "at_boundary word prev cs \<longleftrightarrow>
     (case prev of None \<Rightarrow> False | Some c \<Rightarrow> word c) \<noteq> (case cs of [] \<Rightarrow> False | c # _ \<Rightarrow> word c)"

definition at_end :: "codepoint list \<Rightarrow> bool" where
  "at_end cs \<longleftrightarrow> cs = [] \<or> cs = [10]"

definition close_group :: "string \<Rightarrow> rpos \<Rightarrow> rpos \<Rightarrow> rpos" where
  "close_group name s s' =
     (case s' of (prev, cs, groups) \<Rightarrow>
        (prev, cs, (name, take (length (rest_of s) - length cs) (rest_of s)) # groups))"

subsection \<open>Matching\<close>

text \<open>
  Greedy repetition: another round if it consumes something, else stop. Every round shortens the
  rest, so its length bounds the rounds.
\<close>

primrec star_ends :: "nat \<Rightarrow> (rpos \<Rightarrow> rpos list) \<Rightarrow> rpos \<Rightarrow> rpos list" where
  "star_ends 0 f s = [s]"
| "star_ends (Suc n) f s =
     concat (map (\<lambda>s'. if length (rest_of s') < length (rest_of s) then star_ends n f s' else []) (f s)) @ [s]"

primrec ends :: "(codepoint \<Rightarrow> bool) \<Rightarrow> re \<Rightarrow> rpos \<Rightarrow> rpos list" where
  "ends word Eps s = [s]"
| "ends word (Cls p) s =
     (case s of (prev, cs, groups) \<Rightarrow>
        (case cs of [] \<Rightarrow> [] | c # cs' \<Rightarrow> if p c then [(Some c, cs', groups)] else []))"
| "ends word (Seq a b) s = concat (map (ends word b) (ends word a s))"
| "ends word (Alt a b) s = ends word a s @ ends word b s"
| "ends word (Star a) s = star_ends (length (rest_of s)) (ends word a) s"
| "ends word Bol s = (if fst s = None then [s] else [])"
| "ends word Eol s = (if at_end (rest_of s) then [s] else [])"
| "ends word Wordb s = (if at_boundary word (fst s) (rest_of s) then [s] else [])"
| "ends word (Group name a) s = map (close_group name s) (ends word a s)"

subsection \<open>Searching and substituting\<close>

text \<open>\<open>search\<close> from a position on: where the first match starts, and its end.\<close>

primrec search_from :: "(codepoint \<Rightarrow> bool) \<Rightarrow> re \<Rightarrow> codepoint option \<Rightarrow> codepoint list \<Rightarrow> rpos option" where
  "search_from word r prev [] = (case ends word r (prev, [], []) of s # _ \<Rightarrow> Some s | [] \<Rightarrow> None)"
| "search_from word r prev (c # cs) =
     (case ends word r (prev, c # cs, []) of s # _ \<Rightarrow> Some s | [] \<Rightarrow> search_from word r (Some c) cs)"

definition re_search :: "(codepoint \<Rightarrow> bool) \<Rightarrow> re \<Rightarrow> codepoint list \<Rightarrow> bool" where
  "re_search word r text \<longleftrightarrow> search_from word r None text \<noteq> None"

definition re_match :: "(codepoint \<Rightarrow> bool) \<Rightarrow> re \<Rightarrow> codepoint list \<Rightarrow> rpos option" where
  "re_match word r text = (case ends word r (None, text, []) of [] \<Rightarrow> None | s # _ \<Rightarrow> Some s)"

definition re_fullmatch :: "(codepoint \<Rightarrow> bool) \<Rightarrow> re \<Rightarrow> codepoint list \<Rightarrow> rpos option" where
  "re_fullmatch word r text = find (\<lambda>s. rest_of s = []) (ends word r (None, text, []))"

definition group_text :: "string \<Rightarrow> rpos \<Rightarrow> codepoint list" where
  "group_text name s = (case map_of (snd (snd s)) name of None \<Rightarrow> [] | Some cs \<Rightarrow> cs)"

text \<open>
  \<open>sub\<close> with a constant replacement, for expressions that match no empty text: leftmost matches that
  do not overlap; \<open>skip\<close> counts the code points of the current match still to pass.
\<close>

primrec sub_from ::
  "(codepoint \<Rightarrow> bool) \<Rightarrow> re \<Rightarrow> codepoint list \<Rightarrow> nat \<Rightarrow> codepoint option \<Rightarrow> codepoint list \<Rightarrow> codepoint list" where
  "sub_from word r repl skip prev [] = []"
| "sub_from word r repl skip prev (c # cs) =
     (if 0 < skip then sub_from word r repl (skip - 1) (Some c) cs
      else case ends word r (prev, c # cs, []) of
        s # _ \<Rightarrow> repl @ sub_from word r repl (length cs - length (rest_of s)) (Some c) cs
      | [] \<Rightarrow> c # sub_from word r repl 0 (Some c) cs)"

definition re_sub :: "(codepoint \<Rightarrow> bool) \<Rightarrow> re \<Rightarrow> codepoint list \<Rightarrow> codepoint list \<Rightarrow> codepoint list" where
  "re_sub word r repl text = sub_from word r repl 0 None text"

subsection \<open>Notations of the patterns\<close>

definition chr :: "char \<Rightarrow> re" where
  "chr c = Cls (\<lambda>x. x = of_char c)"

fun lit :: "string \<Rightarrow> re" where
  "lit [] = Eps"
| "lit (c # s) = Seq (chr c) (lit s)"

fun seqs :: "re list \<Rightarrow> re" where
  "seqs [] = Eps"
| "seqs (r # rs) = Seq r (seqs rs)"

fun alts :: "re list \<Rightarrow> re" where
  "alts [] = Cls (\<lambda>_. False)"
| "alts [r] = r"
| "alts (r # rs) = Alt r (alts rs)"

definition plus_of :: "re \<Rightarrow> re" where
  "plus_of r = Seq r (Star r)"

definition opt :: "re \<Rightarrow> re" where
  "opt r = Alt r Eps"

text \<open>\<open>r{n}\<close>, \<open>r{n,}\<close> and \<open>r{m,m+n}\<close>.\<close>

fun times_of :: "nat \<Rightarrow> re \<Rightarrow> re" where
  "times_of 0 r = Eps"
| "times_of (Suc n) r = Seq r (times_of n r)"

definition at_least :: "nat \<Rightarrow> re \<Rightarrow> re" where
  "at_least n r = Seq (times_of n r) (Star r)"

fun up_to :: "nat \<Rightarrow> re \<Rightarrow> re" where
  "up_to 0 r = Eps"
| "up_to (Suc n) r = Alt (Seq r (up_to n r)) Eps"

definition between :: "nat \<Rightarrow> nat \<Rightarrow> re \<Rightarrow> re" where
  "between m n r = Seq (times_of m r) (up_to (n - m) r)"

definition between_chars :: "char \<Rightarrow> char \<Rightarrow> codepoint \<Rightarrow> bool" where
  "between_chars a b x \<longleftrightarrow> of_char a \<le> x \<and> x \<le> of_char b"

definition ascii_alnum :: "codepoint \<Rightarrow> bool" where
  "ascii_alnum x \<longleftrightarrow> between_chars (CHR ''A'') (CHR ''Z'') x \<or> between_chars (CHR ''a'') (CHR ''z'') x \<or> between_chars (CHR ''0'') (CHR ''9'') x"

definition ascii_word :: "codepoint \<Rightarrow> bool" where
  "ascii_word x \<longleftrightarrow> ascii_alnum x \<or> x = of_char (CHR ''_'')"

definition any_char :: re where
  "any_char = Cls (\<lambda>x. x \<noteq> 10)"

definition cps :: "string \<Rightarrow> codepoint list" where
  "cps s = map of_char s"

subsection \<open>The declarative meaning\<close>

inductive matches :: "(codepoint \<Rightarrow> bool) \<Rightarrow> re \<Rightarrow> codepoint option \<times> codepoint list \<Rightarrow> codepoint option \<times> codepoint list \<Rightarrow> bool"
  for word where
  eps: "matches word Eps s s"
| cls: "p c \<Longrightarrow> matches word (Cls p) (prev, c # cs) (Some c, cs)"
| sequence: "matches word a s t \<Longrightarrow> matches word b t u \<Longrightarrow> matches word (Seq a b) s u"
| alt_left: "matches word a s t \<Longrightarrow> matches word (Alt a b) s t"
| alt_right: "matches word b s t \<Longrightarrow> matches word (Alt a b) s t"
| star_done: "matches word (Star a) s s"
| star_more: "matches word a s t \<Longrightarrow> matches word (Star a) t u \<Longrightarrow> matches word (Star a) s u"
| bol: "matches word Bol (None, cs) (None, cs)"
| eol: "at_end cs \<Longrightarrow> matches word Eol (prev, cs) (prev, cs)"
| wordb: "at_boundary word prev cs \<Longrightarrow> matches word Wordb (prev, cs) (prev, cs)"
| group: "matches word a s t \<Longrightarrow> matches word (Group name a) s t"

inductive_cases matches_ClsE: "matches word (Cls p) s t"
inductive_cases matches_SeqE: "matches word (Seq a b) s t"
inductive_cases matches_AltE: "matches word (Alt a b) s t"
inductive_cases matches_BolE: "matches word Bol s t"
inductive_cases matches_EolE: "matches word Eol s t"
inductive_cases matches_WordbE: "matches word Wordb s t"
inductive_cases matches_GroupE: "matches word (Group name a) s t"
inductive_cases matches_EpsE: "matches word Eps s t"

definition place :: "rpos \<Rightarrow> codepoint option \<times> codepoint list" where
  "place s = (fst s, rest_of s)"

lemma matches_consumes:
  assumes "matches word r s t"
  shows "\<exists>u. snd s = u @ snd t \<and> fst t = (if u = [] then fst s else Some (last u))"
  using assms
proof induction
  case (sequence a s t b v)
  then obtain x y where "snd s = x @ y @ snd v" "fst v = (if y = [] then fst t else Some (last y))"
    "fst t = (if x = [] then fst s else Some (last x))" by auto
  then show ?case by (intro exI [of _ "x @ y"]) auto
next
  case (star_more a s t v)
  then obtain x y where "snd s = x @ y @ snd v" "fst v = (if y = [] then fst t else Some (last y))"
    "fst t = (if x = [] then fst s else Some (last x))" by auto
  then show ?case by (intro exI [of _ "x @ y"]) auto
qed auto

lemma matches_shrinks: "matches word r s t \<Longrightarrow> t = s \<or> length (snd t) < length (snd s)"
  using matches_consumes [of word r s t] by (cases s; cases t) auto

lemma star_ends_sound:
  assumes "\<And>s t. t \<in> set (f s) \<Longrightarrow> matches word a (place s) (place t)"
  shows "t \<in> set (star_ends n f s) \<Longrightarrow> matches word (Star a) (place s) (place t)"
  by (induction n arbitrary: s t)
    (auto split: if_splits intro: matches.star_done matches.star_more assms)

lemma ends_sound: "t \<in> set (ends word r s) \<Longrightarrow> matches word r (place s) (place t)"
proof (induction r arbitrary: s t)
  case (Cls p)
  then show ?case
    by (auto simp: place_def rest_of_def split: list.splits if_splits intro: matches.cls)
next
  case (Seq a b)
  from Seq.prems obtain x where x: "x \<in> set (ends word a s)" "t \<in> set (ends word b x)" by auto
  show ?case by (rule matches.sequence [OF Seq.IH(1) [OF x(1)] Seq.IH(2) [OF x(2)]])
next
  case (Alt a b)
  from Alt.prems have "t \<in> set (ends word a s) \<or> t \<in> set (ends word b s)" by simp
  then show ?case using Alt.IH [of t s] matches.alt_left matches.alt_right by blast
next
  case (Star a)
  then show ?case using star_ends_sound [of "ends word a" word a t] by simp
next
  case (Group name a)
  then obtain u where "u \<in> set (ends word a s)" "t = close_group name s u" by auto
  then show ?case using Group.IH [of u s]
    by (auto simp: close_group_def place_def rest_of_def split: prod.splits intro: matches.group)
qed (auto simp: place_def split: if_splits intro: matches.intros)

text \<open>Every declarative match is found.\<close>

lemma star_ends_complete:
  assumes f: "\<And>s t. matches word a (place s) t \<Longrightarrow> \<exists>s' \<in> set (f s). place s' = t"
  shows "matches word (Star a) (place s) t \<Longrightarrow> length (rest_of s) \<le> n \<Longrightarrow>
    \<exists>s' \<in> set (star_ends n f s). place s' = t"
proof (induction "Star a" "place s" t arbitrary: s n rule: matches.induct)
  case (star_done)
  then show ?case by (cases n) auto
next
  case (star_more t u)
  obtain s' where s': "s' \<in> set (f s)" "place s' = t" using f star_more.hyps(1) by blast
  from matches_shrinks [OF star_more.hyps(1)] show ?case
  proof
    assume "t = place s"
    then show ?thesis using star_more by blast
  next
    assume "length (snd t) < length (snd (place s))"
    then have l: "length (rest_of s') < length (rest_of s)" using s'(2) by (auto simp: place_def)
    then obtain m where "n = Suc m" using star_more.prems by (cases n) auto
    moreover have "\<exists>x \<in> set (star_ends m f s'). place x = u"
      using star_more.hyps(4) [of s' m] star_more.hyps(2) s'(2) l star_more.prems calculation by auto
    ultimately show ?thesis using l s'(1) by fastforce
  qed
qed

lemma ends_complete: "matches word r (place s) t \<Longrightarrow> \<exists>s' \<in> set (ends word r s). place s' = t"
proof (induction r arbitrary: s t)
  case (Cls p)
  then show ?case
    by (cases s) (auto elim!: matches_ClsE simp: place_def rest_of_def)
next
  case (Seq a b)
  from Seq.prems obtain v where v: "matches word a (place s) v" "matches word b v t"
    by (rule matches_SeqE)
  from Seq.IH(1) [OF v(1)] obtain x where x: "x \<in> set (ends word a s)" "place x = v" by blast
  from v(2) have "matches word b (place x) t" by (simp add: x(2))
  from Seq.IH(2) [OF this] show ?case using x(1) by auto
next
  case (Alt a b)
  from Alt.prems show ?case
  proof (rule matches_AltE)
    assume "matches word a (place s) t"
    from Alt.IH(1) [OF this] show ?thesis by auto
  next
    assume "matches word b (place s) t"
    from Alt.IH(2) [OF this] show ?thesis by auto
  qed
next
  case (Star a)
  then show ?case using star_ends_complete [of word a "ends word a" s t] by simp
next
  case (Group name a)
  then obtain u where "u \<in> set (ends word a s)" "place u = t" by (blast elim: matches_GroupE)
  then show ?case
    by (intro bexI [of _ "close_group name s u"])
      (auto simp: close_group_def place_def rest_of_def split: prod.splits)
next
  case Eps
  then show ?case by (auto elim: matches_EpsE)
next
  case Bol
  then show ?case by (auto simp: place_def elim: matches_BolE)
next
  case Eol
  then show ?case by (auto simp: place_def elim: matches_EolE)
next
  case Wordb
  then show ?case by (auto simp: place_def elim: matches_WordbE)
qed

lemma ends_SeqE:
  assumes "t \<in> set (ends word (Seq a b) s)"
  obtains x where "x \<in> set (ends word a s)" "t \<in> set (ends word b x)"
  using assms by auto

lemma ends_GroupE:
  assumes "t \<in> set (ends word (Group name a) s)"
  obtains x where "x \<in> set (ends word a s)" "t = close_group name s x"
  using assms by auto

lemma ends_BolE:
  assumes "t \<in> set (ends word Bol s)"
  obtains "t = s" "fst s = None"
  using assms by (auto split: if_splits)

lemma ends_iff_matches: "place ` set (ends word r s) = {t. matches word r (place s) t}"
  using ends_sound [of _ word r s] ends_complete [of word r s] by blast

subsection \<open>Rules for the patterns of the code\<close>

declare split_paired_All [simp del] split_paired_Ex [simp del]

text \<open>From position \<open>s\<close> to \<open>t\<close> by passing over \<open>u\<close>.\<close>

definition passes :: "codepoint option \<times> codepoint list \<Rightarrow> codepoint list \<Rightarrow> codepoint option \<times> codepoint list \<Rightarrow> bool" where
  "passes s u t \<longleftrightarrow> snd s = u @ snd t \<and> fst t = (if u = [] then fst s else Some (last u))"

lemma passes_Nil [simp]: "passes s [] t \<longleftrightarrow> t = s"
  by (auto simp: passes_def prod_eq_iff)

lemma passes_append: "passes s (u @ v) t \<longleftrightarrow> (\<exists>x. passes s u x \<and> passes x v t)"
  by (cases s; cases t) (auto simp: passes_def split_paired_Ex)

lemma passes_Cons: "passes s (c # v) t \<longleftrightarrow> (\<exists>cs. snd s = c # cs \<and> passes (Some c, cs) v t)"
  by (cases s; cases t) (auto simp: passes_def)

lemma passes_step: "(\<exists>x. passes s [c] x \<and> passes x u t) \<longleftrightarrow> passes s (c # u) t"
  using passes_append [of s "[c]" u t] by simp

lemma passes_stepI: "passes s [c] x \<Longrightarrow> passes x u t \<Longrightarrow> passes s (c # u) t"
  using passes_step by blast

lemma matches_Eps_iff [simp]: "matches word Eps s t \<longleftrightarrow> t = s"
  by (auto elim: matches_EpsE intro: matches.eps)

lemma matches_Seq_iff: "matches word (Seq a b) s t \<longleftrightarrow> (\<exists>u. matches word a s u \<and> matches word b u t)"
  by (blast elim: matches_SeqE intro: matches.sequence)

lemma matches_Alt_iff: "matches word (Alt a b) s t \<longleftrightarrow> matches word a s t \<or> matches word b s t"
  by (auto elim: matches_AltE intro: matches.alt_left matches.alt_right)

lemma matches_Group_iff [simp]: "matches word (Group name a) s t \<longleftrightarrow> matches word a s t"
  by (auto elim: matches_GroupE intro: matches.group)

lemma matches_Cls_iff: "matches word (Cls p) s t \<longleftrightarrow> (\<exists>c. p c \<and> passes s [c] t)"
  by (cases s; cases t) (auto simp: passes_def elim: matches_ClsE intro: matches.cls)

lemma matches_anchors [simp]:
  "matches word Bol s t \<longleftrightarrow> t = s \<and> fst s = None"
  "matches word Eol s t \<longleftrightarrow> t = s \<and> at_end (snd s)"
  "matches word Wordb s t \<longleftrightarrow> t = s \<and> at_boundary word (fst s) (snd s)"
  by (cases s; auto elim: matches_BolE matches_EolE matches_WordbE
      intro: matches.bol matches.eol matches.wordb)+

lemma matches_Star_ClsD:
  "matches word (Star (Cls p)) s t \<Longrightarrow> \<exists>u. list_all p u \<and> passes s u t"
proof (induction "Star (Cls p)" s t rule: matches.induct)
  case (star_done s)
  then show ?case by (intro exI [of _ "[]"]) simp
next
  case (star_more s t v)
  then obtain c u where "p c" "passes s [c] t" "list_all p u" "passes t u v"
    by (auto simp: matches_Cls_iff)
  then show ?case by (intro exI [of _ "c # u"]) (simp add: passes_stepI)
qed

lemma matches_Star_ClsI:
  "list_all p u \<Longrightarrow> passes s u t \<Longrightarrow> matches word (Star (Cls p)) s t"
proof (induction u arbitrary: s)
  case (Cons c u)
  from Cons.prems obtain x where x: "passes s [c] x" "passes x u t"
    using passes_step by blast
  have "matches word (Cls p) s x" using x(1) Cons.prems(1) matches_Cls_iff by fastforce
  moreover have "matches word (Star (Cls p)) x t" using Cons.IH [OF _ x(2)] Cons.prems(1) by simp
  ultimately show ?case by (rule matches.star_more)
qed (simp add: matches.star_done)

lemma matches_Star_Cls_iff: "matches word (Star (Cls p)) s t \<longleftrightarrow> (\<exists>u. list_all p u \<and> passes s u t)"
  using matches_Star_ClsD matches_Star_ClsI by blast

lemma matches_times_Cls_iff:
  "matches word (times_of n (Cls p)) s t \<longleftrightarrow> (\<exists>u. length u = n \<and> list_all p u \<and> passes s u t)"
proof (induction n arbitrary: s)
  case (Suc n)
  have "matches word (times_of (Suc n) (Cls p)) s t \<longleftrightarrow>
      (\<exists>c u. p c \<and> length u = n \<and> list_all p u \<and> (\<exists>x. passes s [c] x \<and> passes x u t))"
    by (simp only: times_of.simps matches_Seq_iff matches_Cls_iff Suc) blast
  also have "\<dots> \<longleftrightarrow> (\<exists>u. length u = Suc n \<and> list_all p u \<and> passes s u t)"
    unfolding passes_step length_Suc_conv by fastforce
  finally show ?case .
qed auto

lemma matches_chr_iff: "matches word (chr c) s t \<longleftrightarrow> passes s [of_char c] t"
  by (simp add: chr_def matches_Cls_iff)

lemma matches_lit_iff: "matches word (lit w) s t \<longleftrightarrow> passes s (cps w) t"
proof (induction w arbitrary: s)
  case (Cons c w)
  show ?case by (simp only: lit.simps matches_Seq_iff matches_chr_iff Cons passes_step) (simp add: cps_def)
qed (simp add: cps_def)

lemma matches_at_least_iff:
  "matches word (at_least n (Cls p)) s t \<longleftrightarrow> (\<exists>u. n \<le> length u \<and> list_all p u \<and> passes s u t)"
proof
  assume "matches word (at_least n (Cls p)) s t"
  then obtain u v where "length u = n" "list_all p u" "list_all p v" "passes s (u @ v) t"
    by (auto simp: at_least_def matches_Seq_iff matches_times_Cls_iff matches_Star_Cls_iff passes_append)
  then show "\<exists>u. n \<le> length u \<and> list_all p u \<and> passes s u t"
    by (intro exI [of _ "u @ v"]) simp
next
  assume "\<exists>u. n \<le> length u \<and> list_all p u \<and> passes s u t"
  then obtain u where u: "n \<le> length u" "list_all p u" "passes s (take n u @ drop n u) t" by auto
  then obtain x where "passes s (take n u) x" "passes x (drop n u) t" unfolding passes_append by blast
  moreover have "list_all p (take n u)" "list_all p (drop n u)" using u(2)
    by (auto simp: list_all_iff dest: in_set_takeD in_set_dropD)
  ultimately show "matches word (at_least n (Cls p)) s t" using u(1)
    unfolding at_least_def matches_Seq_iff matches_times_Cls_iff matches_Star_Cls_iff
    by (intro exI [of _ x] conjI exI [of _ "take n u"] exI [of _ "drop n u"]) auto
qed

lemma matches_plus_iff:
  "matches word (plus_of (Cls p)) s t \<longleftrightarrow> (\<exists>u. u \<noteq> [] \<and> list_all p u \<and> passes s u t)"
proof -
  have "matches word (plus_of (Cls p)) s t \<longleftrightarrow>
      (\<exists>c u. p c \<and> list_all p u \<and> (\<exists>x. passes s [c] x \<and> passes x u t))"
    by (simp only: plus_of_def matches_Seq_iff matches_Cls_iff matches_Star_Cls_iff) blast
  also have "\<dots> \<longleftrightarrow> (\<exists>u. u \<noteq> [] \<and> list_all p u \<and> passes s u t)"
    unfolding passes_step neq_Nil_conv by fastforce
  finally show ?thesis .
qed

lemmas matches_iffs = matches_Seq_iff matches_Alt_iff matches_Cls_iff matches_chr_iff
  matches_lit_iff matches_Star_Cls_iff matches_times_Cls_iff matches_at_least_iff matches_plus_iff

lemma ends_empty_iff: "ends word r s = [] \<longleftrightarrow> (\<forall>t. \<not> matches word r (place s) t)"
proof -
  have "ends word r s = [] \<longleftrightarrow> place ` set (ends word r s) = {}" by simp
  then show ?thesis unfolding ends_iff_matches by blast
qed

text \<open>A search finds a match exactly if some position of the text starts one.\<close>

lemma found_Cons:
  "(\<exists>u s. passes (prev, c # cs) u s \<and> P s) \<longleftrightarrow> P (prev, c # cs) \<or> (\<exists>u s. passes (Some c, cs) u s \<and> P s)"
proof
  assume "\<exists>u s. passes (prev, c # cs) u s \<and> P s"
  then obtain u s where "passes (prev, c # cs) u s" "P s" by blast
  then show "P (prev, c # cs) \<or> (\<exists>u s. passes (Some c, cs) u s \<and> P s)"
    by (cases u) (auto simp: passes_Cons)
next
  assume "P (prev, c # cs) \<or> (\<exists>u s. passes (Some c, cs) u s \<and> P s)"
  then show "\<exists>u s. passes (prev, c # cs) u s \<and> P s"
  proof
    assume "P (prev, c # cs)"
    then show ?thesis by (intro exI [of _ "[]"] exI [of _ "(prev, c # cs)"]) simp
  next
    assume "\<exists>u s. passes (Some c, cs) u s \<and> P s"
    then obtain u s where "passes (Some c, cs) u s" "P s" by blast
    then show ?thesis by (intro exI [of _ "c # u"] exI [of _ s]) (simp add: passes_Cons)
  qed
qed

lemma found_Nil: "(\<exists>u s. passes (prev, []) u s \<and> P s) \<longleftrightarrow> P (prev, [])"
proof -
  have "passes (prev, []) u s \<longleftrightarrow> u = [] \<and> s = (prev, [])" for u s
    by (cases s) (auto simp: passes_def)
  then show ?thesis by simp
qed

definition starts :: "(codepoint \<Rightarrow> bool) \<Rightarrow> re \<Rightarrow> codepoint option \<times> codepoint list \<Rightarrow> bool" where
  "starts word r s \<longleftrightarrow> (\<exists>t. matches word r s t)"

lemma ends_Nil_iff: "ends word r (prev, cs, gs) = [] \<longleftrightarrow> \<not> starts word r (prev, cs)"
  unfolding ends_empty_iff starts_def by (simp add: place_def rest_of_def)

lemma search_from_iff:
  "search_from word r prev cs \<noteq> None \<longleftrightarrow> (\<exists>u s. passes (prev, cs) u s \<and> starts word r s)"
proof (induction cs arbitrary: prev)
  case Nil
  show ?case unfolding found_Nil using ends_Nil_iff [of word r prev "[]" "[]"]
    by (auto split: list.splits)
next
  case (Cons c cs)
  show ?case unfolding found_Cons using ends_Nil_iff [of word r prev "c # cs" "[]"] Cons [of "Some c"]
    by (cases "ends word r (prev, c # cs, [])") simp_all
qed

text \<open>A substitution keeps a prefix no position of which starts a match.\<close>

lemma sub_from_prefix:
  assumes "\<And>x u v. p = u @ x # v \<Longrightarrow>
    ends word r (if u = [] then prev else Some (last u), x # v @ cs, []) = []"
  shows "sub_from word r repl 0 prev (p @ cs) =
    p @ sub_from word r repl 0 (if p = [] then prev else Some (last p)) cs"
  using assms
proof (induction p arbitrary: prev)
  case (Cons c p)
  have "ends word r (prev, c # p @ cs, []) = []" using Cons.prems [of "[]" c p] by simp
  moreover have "ends word r (if u = [] then Some c else Some (last u), x # v @ cs, []) = []"
    if "p = u @ x # v" for u x v
    using Cons.prems [of "c # u" x v] that by (auto split: if_splits)
  then have "sub_from word r repl 0 (Some c) (p @ cs) =
      p @ sub_from word r repl 0 (if p = [] then Some c else Some (last p)) cs"
    by (rule Cons.IH)
  ultimately show ?case by simp
qed simp

lemma sub_from_set:
  "set (sub_from word r repl n prev cs) \<subseteq> set repl \<union> set cs"
  by (induction cs arbitrary: n prev) (auto split: list.splits)

lemma sub_from_not_Nil: "repl \<noteq> [] \<Longrightarrow> cs \<noteq> [] \<Longrightarrow> sub_from word r repl 0 prev cs \<noteq> []"
  by (cases cs) (auto split: list.splits)

text \<open>Expressions without groups keep the groups of the position.\<close>

primrec group_free :: "re \<Rightarrow> bool" where
  "group_free Eps = True"
| "group_free (Cls p) = True"
| "group_free (Seq a b) = (group_free a \<and> group_free b)"
| "group_free (Alt a b) = (group_free a \<and> group_free b)"
| "group_free (Star a) = group_free a"
| "group_free Bol = True"
| "group_free Eol = True"
| "group_free Wordb = True"
| "group_free (Group name a) = False"

lemma star_ends_groups:
  assumes "\<And>s t. t \<in> set (f s) \<Longrightarrow> snd (snd t) = snd (snd s)"
  shows "t \<in> set (star_ends n f s) \<Longrightarrow> snd (snd t) = snd (snd s)"
proof (induction n arbitrary: s)
  case (Suc n)
  then consider x where "x \<in> set (f s)" "t \<in> set (star_ends n f x)" | "t = s"
    by (auto split: if_splits)
  then show ?case
  proof cases
    case 1
    then show ?thesis using assms [of x s] Suc.IH [of x] by simp
  qed simp
qed simp

lemma ends_groups: "group_free r \<Longrightarrow> t \<in> set (ends word r s) \<Longrightarrow> snd (snd t) = snd (snd s)"
proof (induction r arbitrary: s t)
  case (Seq a b)
  then obtain x where "x \<in> set (ends word a s)" "t \<in> set (ends word b x)" by auto
  then show ?case using Seq.IH(1) [of x s] Seq.IH(2) [of t x] Seq.prems(1) by simp
next
  case (Star a)
  then show ?case using star_ends_groups [of "ends word a" t] by simp
qed (auto split: list.splits if_splits prod.splits)

end
