(* ===== verification/Redaction.thy ===== *)
theory Redaction
  imports Excerpt Regex
begin

text \<open>
  The redaction of log lines and excerpts (\<open>logs/redaction.py\<close>): four token patterns that are
  replaced anywhere in a line, then two patterns that must cover the line. All patterns have the flag
  \<open>re.ASCII\<close>, so \<open>\b\<close> and the classes are those of ASCII.
\<close>

subsection \<open>Patterns\<close>

definition upper_digit :: "codepoint \<Rightarrow> bool" where
  "upper_digit x \<longleftrightarrow> between_chars (CHR ''A'') (CHR ''Z'') x \<or> between_chars (CHR ''0'') (CHR ''9'') x"

definition upper_underscore :: "codepoint \<Rightarrow> bool" where
  "upper_underscore x \<longleftrightarrow> between_chars (CHR ''A'') (CHR ''Z'') x \<or> x = of_char (CHR ''_'')"

definition env_char :: "codepoint \<Rightarrow> bool" where
  "env_char x \<longleftrightarrow> upper_digit x \<or> x = of_char (CHR ''_'')"

definition bearer_char :: "codepoint \<Rightarrow> bool" where
  "bearer_char x \<longleftrightarrow> ascii_word x \<or> x \<in> of_char ` {CHR ''-'', CHR ''.'', CHR ''=''}"

definition jwt_char :: "codepoint \<Rightarrow> bool" where
  "jwt_char x \<longleftrightarrow> ascii_word x \<or> x = of_char (CHR ''-'')"

definition openai_pattern :: re where
  "openai_pattern = seqs [Wordb, lit ''sk-'', at_least 20 (Cls ascii_alnum), Wordb]"

definition github_pattern :: re where
  "github_pattern =
     seqs [Wordb, lit ''gh'', Cls (\<lambda>x. x \<in> of_char ` {CHR ''p'', CHR ''s''}), lit ''_'',
       at_least 20 (Cls ascii_alnum), Wordb]"

definition aws_pattern :: re where
  "aws_pattern = seqs [Wordb, lit ''AKIA'', times_of 16 (Cls upper_digit), Wordb]"

definition bearer_pattern :: re where
  "bearer_pattern = seqs [Wordb, lit ''Bearer '', at_least 16 (Cls bearer_char)]"

definition unanchored_patterns :: "(re \<times> string) list" where
  "unanchored_patterns =
     [(openai_pattern, ''<redacted:openai-key>''), (github_pattern, ''<redacted:github-token>''),
      (aws_pattern, ''<redacted:aws-access-key>''), (bearer_pattern, ''Bearer <redacted:bearer>'')]"

definition jwt_pattern :: re where
  "jwt_pattern =
     seqs [Bol, plus_of (Cls jwt_char), chr (CHR ''.''), plus_of (Cls jwt_char), chr (CHR ''.''),
       plus_of (Cls jwt_char), Eol]"

definition env_keyword :: re where
  "env_keyword =
     alts [seqs [lit ''API'', opt (chr (CHR ''_'')), lit ''KEY''], lit ''TOKEN'', lit ''SECRET'',
       lit ''PASSWORD'', lit ''AUTH'']"

definition env_pattern :: re where
  "env_pattern =
     seqs [Bol, Group ''1'' (seqs [Cls upper_underscore, Star (Cls env_char), env_keyword]),
       chr (CHR ''=''), plus_of any_char, Eol]"

subsection \<open>Redactors\<close>

definition redact_jwt :: "codepoint list \<Rightarrow> codepoint list" where
  "redact_jwt line =
     (case re_fullmatch ascii_word jwt_pattern line of
        None \<Rightarrow> line
      | Some _ \<Rightarrow> if length line < 32 then line else cps ''<redacted:jwt>'')"

definition redact_env :: "codepoint list \<Rightarrow> codepoint list" where
  "redact_env line =
     (case re_fullmatch ascii_word env_pattern line of
        None \<Rightarrow> line
      | Some m \<Rightarrow> group_text ''1'' m @ cps ''=<redacted:env-secret>'')"

definition redact_one_line :: "codepoint list \<Rightarrow> codepoint list" where
  "redact_one_line line =
     redact_env (redact_jwt
       (fold (\<lambda>(pattern, replacement) out. re_sub ascii_word pattern (cps replacement) out)
          unanchored_patterns line))"

definition redact_lines :: "codepoint list \<Rightarrow> codepoint list" where
  "redact_lines text = py_join [10] (map redact_one_line (py_split 10 text))"

subsection \<open>Lines stay lines\<close>

declare split_paired_All [simp del] split_paired_Ex [simp del]

lemma re_fullmatch_SomeD:
  "re_fullmatch word r text = Some m \<Longrightarrow> m \<in> set (ends word r (None, text, [])) \<and> rest_of m = []"
  unfolding re_fullmatch_def find_Some_iff by auto

lemma re_fullmatch_None_iff:
  "re_fullmatch word r text = None \<longleftrightarrow> \<not> (\<exists>prev. matches word r (None, text) (prev, []))"
proof -
  have "re_fullmatch word r text = None \<longleftrightarrow>
      (\<forall>t \<in> place ` set (ends word r (None, text, [])). snd t \<noteq> [])"
    by (auto simp: re_fullmatch_def find_None_iff place_def)
  also have "\<dots> \<longleftrightarrow> (\<forall>t. matches word r (None, text) t \<longrightarrow> snd t \<noteq> [])"
    unfolding ends_iff_matches by (simp add: place_def rest_of_def)
  also have "\<dots> \<longleftrightarrow> \<not> (\<exists>prev. matches word r (None, text) (prev, []))"
    by (metis prod.collapse snd_conv)
  finally show ?thesis .
qed

abbreviation equals_sign :: codepoint where
  "equals_sign \<equiv> of_char (CHR ''='')"

definition env_keywords :: "string list" where
  "env_keywords = [''API_KEY'', ''APIKEY'', ''TOKEN'', ''SECRET'', ''PASSWORD'', ''AUTH'']"

text \<open>The variable names the last pattern redacts.\<close>

definition env_name :: "codepoint list \<Rightarrow> bool" where
  "env_name k \<longleftrightarrow> k \<noteq> [] \<and> upper_underscore (hd k) \<and> list_all env_char (tl k) \<and>
     list_ex (\<lambda>w. drop (length (tl k) - length w) (tl k) = cps w) env_keywords"

lemma cps_append: "cps (a @ b) = cps a @ cps b"
  by (simp add: cps_def)

lemma env_keyword_iff:
  "matches word env_keyword s t \<longleftrightarrow> (\<exists>w \<in> set env_keywords. passes s (cps w) t)"
proof -
  have "matches word (opt (chr c)) s t \<longleftrightarrow> passes s [of_char c] t \<or> t = s" for c s t
    by (simp add: opt_def matches_Alt_iff matches_chr_iff)
  then have "matches word (seqs [lit a, opt (chr c), lit b]) s t \<longleftrightarrow>
      passes s (cps (a @ [c] @ b)) t \<or> passes s (cps (a @ b)) t" for a b c s t
    by (simp only: seqs.simps matches_Seq_iff matches_lit_iff matches_Eps_iff cps_append passes_append)
      (auto simp: cps_def)
  from this [of "''API''" "CHR ''_''" "''KEY''"] show ?thesis
    unfolding env_keyword_def alts.simps matches_Alt_iff matches_lit_iff
    by (simp add: env_keywords_def disj_assoc)
qed

lemma cps_keyword_env_char: "w \<in> set env_keywords \<Longrightarrow> list_all env_char (cps w)"
  by (auto simp: env_keywords_def cps_def env_char_def upper_digit_def between_chars_def)

lemma upper_underscore_env_char: "upper_underscore c \<Longrightarrow> env_char c"
  by (auto simp: upper_underscore_def env_char_def upper_digit_def)

text \<open>What the first group of the pattern matches.\<close>

abbreviation env_group :: re where
  "env_group \<equiv> seqs [Cls upper_underscore, Star (Cls env_char), env_keyword]"

lemma env_group_iff:
  "matches word env_group s t \<longleftrightarrow>
    (\<exists>c u w. upper_underscore c \<and> list_all env_char u \<and> w \<in> set env_keywords \<and> passes s (c # u @ cps w) t)"
  (is "_ \<longleftrightarrow> ?rhs")
proof -
  have "matches word env_group s t \<longleftrightarrow> (\<exists>c u w. upper_underscore c \<and> list_all env_char u \<and>
      w \<in> set env_keywords \<and> (\<exists>x. passes s [c] x \<and> (\<exists>y. passes x u y \<and> passes y (cps w) t)))"
    by (simp only: seqs.simps matches_Seq_iff matches_Cls_iff matches_Star_Cls_iff env_keyword_iff matches_Eps_iff)
      blast
  then show ?thesis unfolding passes_append [symmetric] by simp
qed

lemma env_group_name: "matches word env_group s t \<longleftrightarrow> (\<exists>k. env_name k \<and> passes s k t)"
proof
  assume "matches word env_group s t"
  then obtain c u w where h: "upper_underscore c" "list_all env_char u" "w \<in> set env_keywords"
    "passes s (c # u @ cps w) t" unfolding env_group_iff by blast
  have "list_ex (\<lambda>w'. drop (length (u @ cps w) - length w') (u @ cps w) = cps w') env_keywords"
    unfolding list_ex_iff using h(3) by (intro bexI [of _ w]) (simp_all add: cps_def)
  then have "env_name (c # u @ cps w)" using h cps_keyword_env_char by (simp add: env_name_def)
  then show "\<exists>k. env_name k \<and> passes s k t" using h(4) by blast
next
  assume "\<exists>k. env_name k \<and> passes s k t"
  then obtain k where k: "env_name k" "passes s k t" by blast
  then obtain w where w: "w \<in> set env_keywords" "drop (length (tl k) - length w) (tl k) = cps w"
    by (auto simp: env_name_def list_ex_iff)
  let ?u = "take (length (tl k) - length w) (tl k)"
  have "k = hd k # ?u @ cps w" using k(1) w(2) by (metis append_take_drop_id env_name_def list.collapse)
  moreover have "list_all env_char ?u" using k(1) by (auto simp: env_name_def list_all_iff dest: in_set_takeD)
  ultimately show "matches word env_group s t" unfolding env_group_iff using k w(1)
    by (metis env_name_def)
qed

lemma env_name_env_char: "env_name k \<Longrightarrow> list_all env_char k"
  by (cases k) (auto simp: env_name_def upper_underscore_env_char)

lemma env_char_not_equals: "\<not> env_char equals_sign"
  by (simp add: env_char_def upper_digit_def between_chars_def)

lemma first_equals_unique:
  assumes "k @ equals_sign # v = k' @ equals_sign # v'" "equals_sign \<notin> set k" "equals_sign \<notin> set k'"
  shows "k = k' \<and> v = v'"
  using assms by (induction k arbitrary: k') (auto simp: Cons_eq_append_conv)

lemma env_tail_iff:
  "matches word (seqs [chr (CHR ''=''), plus_of any_char, Eol]) s t \<longleftrightarrow>
    (\<exists>v. v \<noteq> [] \<and> 10 \<notin> set v \<and> passes s (equals_sign # v) t \<and> at_end (snd t))"
proof -
  have "matches word (plus_of any_char) s t \<longleftrightarrow> (\<exists>v. v \<noteq> [] \<and> 10 \<notin> set v \<and> passes s v t)" for s t
    by (auto simp: any_char_def matches_plus_iff list_all_iff)
  then have "matches word (seqs [chr (CHR ''=''), plus_of any_char, Eol]) s t \<longleftrightarrow>
      (\<exists>v. v \<noteq> [] \<and> 10 \<notin> set v \<and> (\<exists>x. passes s [equals_sign] x \<and> passes x v t) \<and> at_end (snd t))"
    by (simp only: seqs.simps matches_Seq_iff matches_chr_iff matches_Eps_iff matches_anchors) blast
  then show ?thesis unfolding passes_step .
qed

lemma env_pattern_split:
  "env_pattern = Seq Bol (Seq (Group ''1'' env_group) (seqs [chr (CHR ''=''), plus_of any_char, Eol]))"
  by (simp add: env_pattern_def)

lemma env_pattern_matches:
  "(\<exists>prev. matches word env_pattern (None, line) (prev, [])) \<longleftrightarrow>
    (\<exists>k v. env_name k \<and> v \<noteq> [] \<and> 10 \<notin> set v \<and> line = k @ equals_sign # v)"
proof -
  have "matches word env_pattern (None, line) t \<longleftrightarrow>
     (\<exists>k v. env_name k \<and> v \<noteq> [] \<and> 10 \<notin> set v \<and>
       (\<exists>x. passes (None, line) k x \<and> passes x (equals_sign # v) t) \<and> at_end (snd t))" for t
  proof -
    have "matches word env_pattern (None, line) t \<longleftrightarrow>
        (\<exists>x. matches word env_group (None, line) x \<and>
             matches word (seqs [chr (CHR ''=''), plus_of any_char, Eol]) x t)"
      unfolding env_pattern_split matches_Seq_iff [of _ Bol]
        matches_Seq_iff [of _ "Group n r" for n r] matches_Group_iff matches_anchors by simp
    then show ?thesis unfolding env_group_name env_tail_iff by blast
  qed
  then show ?thesis unfolding passes_append [symmetric] by (auto simp: passes_def at_end_def)
qed

lemma env_group_text:
  assumes "re_fullmatch word env_pattern line = Some m"
  obtains v where "env_name (group_text ''1'' m)" "v \<noteq> []" "10 \<notin> set v"
    "line = group_text ''1'' m @ equals_sign # v"
proof -
  let ?tail = "seqs [chr (CHR ''=''), plus_of any_char, Eol]"
  from re_fullmatch_SomeD [OF assms] have m: "m \<in> set (ends word env_pattern (None, line, []))"
    and r: "rest_of m = []" by simp_all
  from m obtain x where x: "x \<in> set (ends word env_group (None, line, []))"
    and t: "m \<in> set (ends word ?tail (close_group ''1'' (None, line, []) x))"
    unfolding env_pattern_split by (elim ends_SeqE ends_GroupE ends_BolE) simp
  have "group_free ?tail" by (simp add: chr_def plus_of_def any_char_def)
  then have g: "snd (snd m) = snd (snd (close_group ''1'' (None, line, []) x))"
    using ends_groups t by blast
  from ends_sound [OF x] obtain k where k: "env_name k" "passes (None, line) k (place x)"
    unfolding env_group_name by (auto simp: place_def rest_of_def)
  then have l: "line = k @ rest_of x" by (simp add: passes_def place_def)
  then have "group_text ''1'' m = k" using g
    by (cases x) (simp add: group_text_def close_group_def rest_of_def)
  moreover have "place (close_group ''1'' (None, line, []) x) = place x"
    by (cases x) (simp add: close_group_def place_def rest_of_def)
  then obtain v where "v \<noteq> []" "10 \<notin> set v" "passes (place x) (equals_sign # v) (place m)"
    using ends_sound [OF t] unfolding env_tail_iff by auto
  then have "v \<noteq> []" "10 \<notin> set v" "rest_of x = equals_sign # v" using r by (auto simp: passes_def place_def)
  ultimately show ?thesis using that [of v] k(1) l by simp
qed

lemma redact_env_name:
  assumes "env_name k" "v \<noteq> []" "10 \<notin> set v"
  shows "redact_env (k @ equals_sign # v) = k @ cps ''=<redacted:env-secret>''"
proof -
  have "\<exists>prev. matches ascii_word env_pattern (None, k @ equals_sign # v) (prev, [])"
    unfolding env_pattern_matches using assms by blast
  then obtain m where m: "re_fullmatch ascii_word env_pattern (k @ equals_sign # v) = Some m"
    using re_fullmatch_None_iff [of ascii_word env_pattern "k @ equals_sign # v"]
    by (cases "re_fullmatch ascii_word env_pattern (k @ equals_sign # v)") auto
  from env_group_text [OF m] obtain v' where
    "env_name (group_text ''1'' m)" "k @ equals_sign # v = group_text ''1'' m @ equals_sign # v'" by blast
  moreover have "equals_sign \<notin> set k" "equals_sign \<notin> set (group_text ''1'' m)"
    using env_name_env_char assms(1) calculation(1) env_char_not_equals by (auto simp: list_all_iff)
  ultimately have "group_text ''1'' m = k" using first_equals_unique by blast
  then show ?thesis unfolding redact_env_def m by simp
qed

text \<open>
  The token patterns pass over a variable name and the equals sign. Only a name that is itself of the
  form of an AWS access key is touched.
\<close>

definition aws_shaped :: "codepoint list \<Rightarrow> bool" where
  "aws_shaped k \<longleftrightarrow> length k = 20 \<and> take 4 k = cps ''AKIA'' \<and> list_all upper_digit (drop 4 k)"

lemma env_char_word: "env_char c \<Longrightarrow> ascii_word c"
  by (auto simp: env_char_def upper_digit_def ascii_word_def ascii_alnum_def)

lemma upper_digit_env_char: "upper_digit c \<Longrightarrow> env_char c"
  by (simp add: env_char_def)

lemma env_char_cases: "env_char c \<Longrightarrow> 48 \<le> c \<and> c \<le> 57 \<or> 65 \<le> c \<and> c \<le> 90 \<or> c = 95"
  by (auto simp: env_char_def upper_digit_def between_chars_def)

lemma lit_start:
  assumes "matches word (Seq Wordb (Seq (lit (c # w)) r)) (prev, x # xs) t"
  shows "x = of_char c" and "\<exists>ys. xs = cps w @ ys" and "at_boundary word prev (x # xs)"
proof -
  from assms obtain u where "passes (prev, x # xs) (cps (c # w)) u" "at_boundary word prev (x # xs)"
    by (auto simp: matches_Seq_iff matches_lit_iff simp del: lit.simps)
  then show "x = of_char c" "\<exists>ys. xs = cps w @ ys" "at_boundary word prev (x # xs)"
    by (auto simp: passes_def cps_def)
qed

lemma openai_start: "starts word openai_pattern (prev, x # xs) \<Longrightarrow> x = of_char (CHR ''s'')"
  unfolding starts_def openai_pattern_def seqs.simps by (blast dest: lit_start(1))

lemma github_start: "starts word github_pattern (prev, x # xs) \<Longrightarrow> x = of_char (CHR ''g'')"
  unfolding starts_def github_pattern_def seqs.simps by (blast dest: lit_start(1))

lemma bearer_start:
  "starts word bearer_pattern (prev, x # xs) \<Longrightarrow>
    x = of_char (CHR ''B'') \<and> (\<exists>ys. xs = of_char (CHR ''e'') # ys)"
  unfolding starts_def bearer_pattern_def seqs.simps
  by (fastforce dest: lit_start(1) lit_start(2) simp: cps_def)

lemma aws_start:
  assumes "starts ascii_word aws_pattern (prev, cs)"
  shows "\<exists>a ys. cs = a @ ys \<and> aws_shaped a \<and> (case prev of None \<Rightarrow> True | Some c \<Rightarrow> \<not> ascii_word c) \<and>
    (case ys of [] \<Rightarrow> True | c # _ \<Rightarrow> \<not> ascii_word c)"
proof -
  from assms obtain x d y where x: "passes (prev, cs) (cps ''AKIA'') x"
    and d: "length d = 16" "list_all upper_digit d" "passes x d y"
    and b: "at_boundary ascii_word prev cs" "at_boundary ascii_word (fst y) (snd y)"
    unfolding starts_def aws_pattern_def
    by (auto simp: matches_Seq_iff matches_lit_iff matches_times_Cls_iff simp del: lit.simps times_of.simps)
  then have cs: "cs = (cps ''AKIA'' @ d) @ snd y" and "fst y = Some (last d)"
    by (auto simp: passes_def split: if_splits)
  moreover have "d \<noteq> []" using d(1) by auto
  then have "ascii_word (last d)" using d(2) env_char_word upper_digit_env_char by (auto simp: list_all_iff)
  moreover have "aws_shaped (cps ''AKIA'' @ d)" using d by (simp add: aws_shaped_def cps_def)
  moreover have "ascii_word 65" by (simp add: ascii_word_def ascii_alnum_def between_chars_def)
  ultimately show ?thesis using b
    by (intro exI [of _ "cps ''AKIA'' @ d"] exI [of _ "snd y"])
      (auto simp: at_boundary_def cps_def split: option.splits list.splits)
qed

lemma aws_shaped_env_char: "aws_shaped a \<Longrightarrow> list_all env_char a"
proof -
  assume "aws_shaped a"
  then have "a = cps ''AKIA'' @ drop 4 a" "list_all upper_digit (drop 4 a)"
    by (metis append_take_drop_id aws_shaped_def, simp add: aws_shaped_def)
  moreover have "list_all upper_digit (cps ''AKIA'')" by (simp add: cps_def upper_digit_def between_chars_def)
  ultimately have "list_all upper_digit a" by (metis list_all_append)
  then show ?thesis by (auto simp: list_all_iff upper_digit_env_char)
qed

lemma prefix_of_word_run:
  assumes "k @ equals_sign # v = a @ ys" "list_all env_char k" "list_all env_char a"
    and "case ys of [] \<Rightarrow> True | c # _ \<Rightarrow> \<not> ascii_word c"
  shows "a = k"
  using assms
proof (induction k arbitrary: a)
  case Nil
  then show ?case using env_char_not_equals by (cases a) auto
next
  case (Cons c k)
  then show ?case using env_char_word by (cases a) auto
qed

text \<open>No token pattern starts a match within the name or at the equals sign.\<close>

lemma no_token_in_env_name:
  assumes "list_all env_char k" "\<not> aws_shaped k" "(r, repl) \<in> set unanchored_patterns"
    and "k @ [equals_sign] = u @ x # w"
  shows "\<not> starts ascii_word r (if u = [] then None else Some (last u), x # w @ v)"
proof -
  let ?s = "(if u = [] then None else Some (last u), x # w @ v)"
  consider "w = []" "u = k" "x = equals_sign" | w' where "w = w' @ [equals_sign]" "k = u @ x # w'"
    using assms(4) by (cases w rule: rev_cases) auto
  then show ?thesis
  proof cases
    case 1
    have "\<not> starts ascii_word aws_pattern ?s"
    proof
      assume "starts ascii_word aws_pattern ?s"
      from aws_start [OF this] obtain a ys where a: "x # w @ v = a @ ys" "aws_shaped a" by blast
      then have "a \<noteq> []" by (auto simp: aws_shaped_def)
      then have "equals_sign \<in> set a" using a(1) 1(3) by (cases a) auto
      then show False using aws_shaped_env_char [OF a(2)] env_char_not_equals by (auto simp: list_all_iff)
    qed
    then show ?thesis using assms(3) 1 openai_start github_start bearer_start
      by (fastforce simp: unanchored_patterns_def)
  next
    case 2
    have x: "env_char x" and u: "u \<noteq> [] \<Longrightarrow> ascii_word (last u)"
      using assms(1) env_char_word by (auto simp: 2 list_all_iff)
    have "\<not> starts ascii_word aws_pattern ?s"
    proof
      assume "starts ascii_word aws_pattern ?s"
      from aws_start [OF this] obtain a ys where a: "x # w @ v = a @ ys" "aws_shaped a" "u = []"
        "case ys of [] \<Rightarrow> True | c # _ \<Rightarrow> \<not> ascii_word c" using u by (auto split: if_splits)
      then have "k @ equals_sign # v = a @ ys" by (simp add: 2)
      then have "a = k" using prefix_of_word_run assms(1) aws_shaped_env_char a(2,4) by blast
      then show False using a(2) assms(2) by simp
    qed
    moreover have "x \<noteq> of_char (CHR ''s'')" "x \<noteq> of_char (CHR ''g'')" using env_char_cases [OF x] by auto
    moreover have "w @ v \<noteq> of_char (CHR ''e'') # ys" for ys
    proof (cases w')
      case (Cons y z)
      then have "env_char y" using assms(1) by (simp add: 2)
      then show ?thesis using env_char_cases [of y] by (auto simp: 2 Cons)
    qed (simp add: 2)
    moreover from this have "\<not> starts ascii_word bearer_pattern ?s" using bearer_start by blast
    ultimately show ?thesis using assms(3) openai_start github_start
      by (auto simp: unanchored_patterns_def)
  qed
qed

lemma sub_keeps_env_name:
  assumes "list_all env_char k" "\<not> aws_shaped k" "(r, repl) \<in> set unanchored_patterns" "v \<noteq> []" "10 \<notin> set v"
  shows "\<exists>v'. v' \<noteq> [] \<and> 10 \<notin> set v' \<and>
    re_sub ascii_word r (cps repl) (k @ equals_sign # v) = k @ equals_sign # v'"
proof -
  let ?v = "sub_from ascii_word r (cps repl) 0 (Some equals_sign) v"
  have "re_sub ascii_word r (cps repl) ((k @ [equals_sign]) @ v) = (k @ [equals_sign]) @ ?v"
    unfolding re_sub_def
    by (subst sub_from_prefix)
      (simp_all only: ends_Nil_iff, use no_token_in_env_name [OF assms(1-3)] in blast, simp)
  moreover have repl: "cps repl \<noteq> []" "10 \<notin> set (cps repl)"
    using assms(3) by (auto simp: unanchored_patterns_def cps_def)
  then have "?v \<noteq> []" "10 \<notin> set ?v"
    using sub_from_not_Nil [OF _ assms(4)] sub_from_set [of ascii_word r "cps repl" 0 "Some equals_sign" v] assms(5)
    by blast+
  ultimately show ?thesis by (intro exI [of _ ?v]) simp
qed

lemma fold_keeps_env_name:
  assumes "list_all env_char k" "\<not> aws_shaped k"
  shows "set ps \<subseteq> set unanchored_patterns \<Longrightarrow> v \<noteq> [] \<Longrightarrow> 10 \<notin> set v \<Longrightarrow>
    \<exists>v'. v' \<noteq> [] \<and> 10 \<notin> set v' \<and>
      fold (\<lambda>(pattern, replacement) out. re_sub ascii_word pattern (cps replacement) out) ps
        (k @ equals_sign # v) = k @ equals_sign # v'"
proof (induction ps arbitrary: v)
  case (Cons p ps)
  obtain r repl where p: "p = (r, repl)" by (cases p)
  from sub_keeps_env_name [OF assms, of r repl v] Cons.prems p obtain v' where
    "v' \<noteq> []" "10 \<notin> set v'" "re_sub ascii_word r (cps repl) (k @ equals_sign # v) = k @ equals_sign # v'"
    by auto
  then show ?case using Cons.IH [of v'] Cons.prems(1) p by simp
qed auto

lemma jwt_chars:
  assumes "re_fullmatch word jwt_pattern line = Some m" "c \<in> set line"
  shows "jwt_char c \<or> c = of_char (CHR ''.'')"
proof -
  from assms(1) obtain prev where "matches word jwt_pattern (None, line) (prev, [])"
    using re_fullmatch_None_iff [of word jwt_pattern line] by auto
  then obtain a b d x1 x2 x3 x4 where "list_all jwt_char a" "list_all jwt_char b" "list_all jwt_char d"
    "passes (None, line) a x1" "passes x1 [of_char (CHR ''.'')] x2" "passes x2 b x3"
    "passes x3 [of_char (CHR ''.'')] x4" "passes x4 d (prev, [])"
    unfolding jwt_pattern_def seqs.simps matches_Seq_iff matches_plus_iff matches_chr_iff matches_anchors
      matches_Eps_iff by blast
  then show ?thesis using assms(2) by (auto simp: passes_def list_all_iff)
qed

lemma redact_jwt_env: "redact_jwt (k @ equals_sign # v) = k @ equals_sign # v"
proof -
  have "\<not> jwt_char equals_sign"
    by (simp add: jwt_char_def ascii_word_def ascii_alnum_def between_chars_def)
  then have "re_fullmatch ascii_word jwt_pattern (k @ equals_sign # v) = None"
    using jwt_chars [of ascii_word "k @ equals_sign # v" _ equals_sign]
    by (cases "re_fullmatch ascii_word jwt_pattern (k @ equals_sign # v)") auto
  then show ?thesis unfolding redact_jwt_def by simp
qed

lemma redact_env_line:
  assumes "env_name k" "\<not> aws_shaped k" "v \<noteq> []" "10 \<notin> set v"
  shows "redact_one_line (k @ equals_sign # v) = k @ cps ''=<redacted:env-secret>''"
proof -
  from fold_keeps_env_name [OF env_name_env_char [OF assms(1)] assms(2) subset_refl assms(3,4)]
  obtain v' where v': "v' \<noteq> []" "10 \<notin> set v'"
    and "fold (\<lambda>(pattern, replacement) out. re_sub ascii_word pattern (cps replacement) out)
      unanchored_patterns (k @ equals_sign # v) = k @ equals_sign # v'" by blast
  then show ?thesis unfolding redact_one_line_def redact_jwt_env
    by (simp only: redact_jwt_env redact_env_name [OF assms(1) v'])
qed

subsection \<open>Lines stay lines\<close>

lemma redact_env_newline: "10 \<notin> set line \<Longrightarrow> 10 \<notin> set (redact_env line)"
proof (cases "re_fullmatch ascii_word env_pattern line")
  case (Some m)
  assume "10 \<notin> set line"
  moreover obtain v where "line = group_text ''1'' m @ equals_sign # v" using env_group_text [OF Some] by blast
  ultimately show ?thesis unfolding redact_env_def Some by (auto simp: cps_def)
qed (simp add: redact_env_def)

lemma redact_jwt_newline: "10 \<notin> set line \<Longrightarrow> 10 \<notin> set (redact_jwt line)"
  by (auto simp: redact_jwt_def cps_def split: option.splits)

lemma sub_newline:
  assumes "(r, repl) \<in> set unanchored_patterns" "10 \<notin> set line"
  shows "10 \<notin> set (re_sub ascii_word r (cps repl) line)"
proof -
  have "10 \<notin> set (cps repl)" using assms(1) by (auto simp: unanchored_patterns_def cps_def)
  then show ?thesis using sub_from_set [of ascii_word r "cps repl" 0 None line] assms(2)
    by (auto simp: re_sub_def)
qed

lemma redact_one_line_newline:
  assumes "10 \<notin> set line"
  shows "10 \<notin> set (redact_one_line line)"
proof -
  have "10 \<notin> set (fold (\<lambda>(pattern, replacement) out. re_sub ascii_word pattern (cps replacement) out) ps line)"
    if "set ps \<subseteq> set unanchored_patterns" for ps using that assms
  proof (induction ps arbitrary: line)
    case (Cons p ps)
    then show ?case using sub_newline [of "fst p" "snd p" line] by (cases p) simp
  qed simp
  then show ?thesis unfolding redact_one_line_def
    by (intro redact_env_newline redact_jwt_newline) blast
qed

lemma redact_lines_split: "py_split 10 (redact_lines text) = map redact_one_line (py_split 10 text)"
  unfolding redact_lines_def
proof (rule py_split_py_join)
  fix l
  assume "l \<in> set (map redact_one_line (py_split 10 text))"
  then obtain x where "x \<in> set (py_split 10 text)" "l = redact_one_line x" by auto
  then show "10 \<notin> set l" using redact_one_line_newline py_split_no_sep by metis
qed simp

definition ascii_only :: "string \<Rightarrow> bool" where
  "ascii_only s \<longleftrightarrow> list_all (\<lambda>c. (of_char c :: nat) < 128) s"

text \<open>Redaction only adds ASCII characters.\<close>

lemma cps_ascii: "c \<in> set (cps s) \<Longrightarrow> ascii_only s \<Longrightarrow> c < 128"
  by (auto simp: cps_def ascii_only_def list_all_iff)

lemma redact_one_line_set: "set (redact_one_line line) \<subseteq> set line \<union> {c. c < 128}"
proof -
  have sub: "set (re_sub ascii_word r (cps repl) l) \<subseteq> set l \<union> {c. c < 128}"
    if "(r, repl) \<in> set unanchored_patterns" for r repl l
  proof -
    have "ascii_only repl" using that by (auto simp: unanchored_patterns_def ascii_only_def)
    then show ?thesis using sub_from_set [of ascii_word r "cps repl" 0 None l] cps_ascii
      by (auto simp: re_sub_def)
  qed
  have "set (fold (\<lambda>(pattern, replacement) out. re_sub ascii_word pattern (cps replacement) out) ps l) \<subseteq>
      set l \<union> {c. c < 128}" if "set ps \<subseteq> set unanchored_patterns" for ps l using that
  proof (induction ps arbitrary: l)
    case (Cons p ps)
    then show ?case using sub [of "fst p" "snd p" l] by (cases p) fastforce
  qed simp
  moreover have "set (redact_jwt l) \<subseteq> set l \<union> {c. c < 128}" for l
    by (auto simp: redact_jwt_def cps_def split: option.splits)
  moreover have "set (redact_env l) \<subseteq> set l \<union> {c. c < 128}" for l
  proof (cases "re_fullmatch ascii_word env_pattern l")
    case (Some m)
    obtain v where "l = group_text ''1'' m @ equals_sign # v" using env_group_text [OF Some] by blast
    then have "set (group_text ''1'' m) \<subseteq> set l" by (metis set_append Un_upper1)
    then show ?thesis unfolding redact_env_def Some by (auto simp: cps_def)
  qed (simp add: redact_env_def)
  ultimately show ?thesis unfolding redact_one_line_def by (meson Un_least order.trans subset_refl sup_ge2)
qed

subsection \<open>Properties\<close>

text \<open>
  Redaction of assignments to secret variables. A line \<open>NAME=value\<close> whose name ends in
  \<open>API_KEY\<close>, \<open>APIKEY\<close>, \<open>TOKEN\<close>, \<open>SECRET\<close>, \<open>PASSWORD\<close> or \<open>AUTH\<close> becomes
  \<open>NAME=<redacted:env-secret>\<close>, whatever the value is and whatever other tokens it holds. The one
  exception are names that have themselves the form of an AWS access key: those are replaced first.
\<close>

lemma env_value_redacted:
  assumes "env_name k" "\<not> aws_shaped k" "v \<noteq> []" "10 \<notin> set v"
  shows "redact_one_line (k @ equals_sign # v) = k @ cps ''=<redacted:env-secret>''"
  using assms by (rule redact_env_line)

text \<open>
  Redaction works line by line. The lines of a redacted text are the redacted lines of the
  text: no line is added, dropped or merged.
\<close>

lemma redact_lines_linewise:
  "py_split 10 (redact_lines text) = map redact_one_line (py_split 10 text)"
  by (rule redact_lines_split)

text \<open>
  C26: the audit excerpt of a message hides the values of secret variables. With the redactor of the
  daemon, two bodies that differ only in such a value have the same excerpt.
\<close>

theorem excerpt_hides_env_values:
  assumes "decode_body body = Some text" "decode_body body' = Some text'"
    and "py_split 10 text = before @ (k @ equals_sign # v) # after"
    and "py_split 10 text' = before @ (k @ equals_sign # v') # after"
    and "env_name k" "\<not> aws_shaped k" "v \<noteq> []" "v' \<noteq> []"
  shows "render_excerpt (\<lambda>line. Some (redact_one_line line)) cap body =
    render_excerpt (\<lambda>line. Some (redact_one_line line)) cap body'"
proof -
  have "k @ equals_sign # v \<in> set (py_split 10 text)" "k @ equals_sign # v' \<in> set (py_split 10 text')"
    by (simp_all add: assms(3,4))
  then have "10 \<notin> set v" "10 \<notin> set v'" by (auto dest!: py_split_no_sep)
  then have "map (\<lambda>line. Some (redact_one_line line)) (py_split 10 text) =
      map (\<lambda>line. Some (redact_one_line line)) (py_split 10 text')"
    using redact_env_line assms(5-8) by (simp add: assms(3,4))
  from redact_all_cong [OF this] show ?thesis
    by (simp add: render_excerpt_def redact_multiline_def assms(1,2))
qed

definition example_env_body :: "string \<Rightarrow> bytes" where
  "example_env_body v = bytes_of_string (''run'' @ [CHR 0x0A] @ ''DB_PASSWORD='' @ v)"

theorem excerpt_hides_env_values_witness:
  "render_excerpt (\<lambda>line. Some (redact_one_line line)) default_excerpt_cap (example_env_body ''hunter2'') =
   render_excerpt (\<lambda>line. Some (redact_one_line line)) default_excerpt_cap (example_env_body ''swordfish'')"
  by (rule excerpt_hides_env_values [of _ "cps (''run'' @ [CHR 0x0A] @ ''DB_PASSWORD=hunter2'')" _
        "cps (''run'' @ [CHR 0x0A] @ ''DB_PASSWORD=swordfish'')" "[cps ''run'']" "cps ''DB_PASSWORD''"
        "cps ''hunter2''" "[]" "cps ''swordfish''"])
    (code_simp, code_simp, code_simp, code_simp, code_simp, code_simp, code_simp, code_simp)

end
