(* ===== verification/Classifier.thy ===== *)
theory Classifier
  imports Redaction Schema
begin

text \<open>
  Classification of log records (\<open>events/classifier.py\<close>, \<open>events/classifier_rules.py\<close>): redaction,
  removal of terminal escapes, the first rule in priority order that matches, and truncation of the
  excerpt to a number of UTF-8 bytes.

  Records are code points without surrogates (the reader decodes with \<open>errors="replace"\<close>). The rules
  without \<open>re.ASCII\<close> use \<open>\b\<close> and \<open>\d\<close> of Unicode: \<open>unicode_word\<close> and \<open>unicode_digit\<close> say which code
  points beyond ASCII belong to these classes.
\<close>

subsection \<open>Escape sequences\<close>

abbreviation esc :: codepoint where
  "esc \<equiv> 0x1B"

definition in_chars :: "string \<Rightarrow> codepoint \<Rightarrow> bool" where
  "in_chars cs x \<longleftrightarrow> x \<in> of_char ` set cs"

definition digit_point :: "codepoint \<Rightarrow> bool" where
  "digit_point x \<longleftrightarrow> between_chars (CHR ''0'') (CHR ''9'') x"

definition ascii_letter :: "codepoint \<Rightarrow> bool" where
  "ascii_letter x \<longleftrightarrow> between_chars (CHR ''A'') (CHR ''Z'') x \<or> between_chars (CHR ''a'') (CHR ''z'') x"

definition ansi_escape_re :: re where
  "ansi_escape_re =
     alts
      [seqs [Cls (\<lambda>x. x = esc), lit ''['', Star (Cls (\<lambda>x. digit_point x \<or> in_chars '';:?<>='' x)), Cls ascii_letter],
       seqs [Cls (\<lambda>x. x = esc), lit '']'', Star (Cls (\<lambda>x. x \<noteq> 7 \<and> x \<noteq> esc)),
         alts [Cls (\<lambda>x. x = 7), seqs [Cls (\<lambda>x. x = esc), Cls (\<lambda>x. x = 0x5C)]]],
       seqs [Cls (\<lambda>x. x = esc), Cls (\<lambda>x. 0x20 \<le> x \<and> x \<le> 0x2F), Cls (\<lambda>x. 0x30 \<le> x \<and> x \<le> 0x7E)],
       seqs [Cls (\<lambda>x. x = esc), Cls ascii_letter]]"

definition strip_ansi :: "codepoint list \<Rightarrow> codepoint list" where
  "strip_ansi text = (if esc \<notin> set text then text else re_sub ascii_word ansi_escape_re [] text)"

subsection \<open>The rule catalogue\<close>

record classifier_rule =
  cr_rule_id :: string
  cr_event_type :: string
  cr_matcher :: re
  cr_priority :: nat

text \<open>\<open>\s\<close> and \<open>\S\<close> of a pattern with \<open>re.ASCII\<close>.\<close>

definition ascii_space :: "codepoint \<Rightarrow> bool" where
  "ascii_space x \<longleftrightarrow> x = 0x20 \<or> (9 \<le> x \<and> x \<le> 13)"

definition hex_lower :: "codepoint \<Rightarrow> bool" where
  "hex_lower x \<longleftrightarrow> digit_point x \<or> between_chars (CHR ''a'') (CHR ''f'') x"

definition swarm_member_re :: re where
  "swarm_member_re =
     seqs [Bol, lit ''AGENTTOWER_SWARM_MEMBER '',
       lit ''parent='', Group ''parent'' (seqs [lit ''agt_'', times_of 12 (Cls hex_lower)]), lit '' '',
       lit ''pane='', Group ''pane'' (seqs [lit ''%'', plus_of (Cls digit_point)]), lit '' '',
       lit ''label='', Group ''label'' (plus_of (Cls (\<lambda>x. \<not> ascii_space x))), lit '' '',
       lit ''capability='', Group ''capability'' (plus_of (Cls (\<lambda>x. \<not> ascii_space x))), lit '' '',
       lit ''purpose='', Group ''purpose'' (between 1 256 any_char), Eol]"

record swarm_member =
  sm_parent :: "codepoint list"
  sm_pane :: "codepoint list"
  sm_label :: "codepoint list"
  sm_capability :: "codepoint list"
  sm_purpose :: "codepoint list"

definition parse_swarm_member :: "codepoint list \<Rightarrow> swarm_member option" where
  "parse_swarm_member record =
     (if record = [] then None
      else map_option (\<lambda>m. \<lparr>sm_parent = group_text ''parent'' m, sm_pane = group_text ''pane'' m,
               sm_label = group_text ''label'' m, sm_capability = group_text ''capability'' m,
               sm_purpose = group_text ''purpose'' m\<rparr>)
             (re_match ascii_word swarm_member_re record))"

text \<open>
  A literal under \<open>re.IGNORECASE\<close>: the ASCII letter in both cases and the code points beyond ASCII
  that fold to it (dotted and dotless i, long s, the Kelvin sign).
\<close>

definition fold_extra :: "char \<Rightarrow> codepoint set" where
  "fold_extra c =
     (if c = CHR ''i'' then {0x130, 0x131} else if c = CHR ''s'' then {0x17F}
      else if c = CHR ''k'' then {0x212A} else {})"

definition chr_ignorecase :: "char \<Rightarrow> re" where
  "chr_ignorecase c =
     Cls (\<lambda>x. x = of_char c \<or>
       (between_chars (CHR ''a'') (CHR ''z'') (of_char c) \<and> (x + 32 = of_char c \<or> x \<in> fold_extra c)))"

fun lit_ignorecase :: "string \<Rightarrow> re" where
  "lit_ignorecase [] = Eps"
| "lit_ignorecase (c # s) = Seq (chr_ignorecase c) (lit_ignorecase s)"

definition start_or_space :: re where
  "start_or_space = alts [Bol, Cls is_whitespace]"

definition dash_or_underscore :: re where
  "dash_or_underscore = Cls (in_chars ''_-'')"

definition manual_review_re :: re where
  "manual_review_re =
     seqs [start_or_space,
       alts [seqs [alts [seqs [lit ''MANUAL'', dash_or_underscore, lit ''REVIEW''],
                         seqs [lit ''REVIEW'', dash_or_underscore, lit ''REQUIRED'']], Wordb],
             lit ''TODO(human)'']]"

definition traceback_re :: re where
  "traceback_re = seqs [Bol, lit ''Traceback (most recent call last):'']"

definition error_line_re :: re where
  "error_line_re =
     seqs [Bol, alts [lit ''Error'', lit ''ERROR'', lit ''Exception''], Cls (in_chars '': '')]"

abbreviation nonspace :: re where
  "nonspace \<equiv> plus_of (Cls (\<lambda>x. \<not> is_whitespace x))"

definition pytest_failed_re :: re where
  "pytest_failed_re = seqs [Bol, alts [lit ''FAILED'', lit ''ERROR''], lit '' '', nonspace, lit ''::'', nonspace]"

definition generic_failed_re :: re where
  "generic_failed_re = seqs [Wordb, alts [lit ''test failed'', lit ''tests failed'', lit ''FAIL''], Wordb]"

definition pytest_passed_re :: "(codepoint \<Rightarrow> bool) \<Rightarrow> re" where
  "pytest_passed_re digit =
     seqs [Bol, plus_of (lit ''=''), lit '' '', plus_of (Cls digit), lit '' passed'',
       opt (seqs [lit '' in '', plus_of (Cls (\<lambda>x. digit x \<or> in_chars ''.'' x)), lit ''s'']),
       lit '' '', plus_of (lit ''=''), Eol]"

definition generic_passed_re :: re where
  "generic_passed_re = seqs [Wordb, alts [lit ''all tests passed'', lit ''tests passed''], Wordb]"

definition completed_re :: re where
  "completed_re =
     seqs [start_or_space,
       alts [lit_ignorecase ''done'', lit_ignorecase ''completed successfully'',
             lit_ignorecase ''task completed'', lit_ignorecase ''build succeeded''], Wordb]"

abbreviation spaces :: re where
  "spaces \<equiv> Star (Cls is_whitespace)"

definition waiting_re :: re where
  "waiting_re =
     alts [seqs [Star any_char, lit ''?'', spaces, Eol],
           seqs [Star any_char, lit '' [Y/n]'', spaces, Eol],
           seqs [Star any_char, lit '' (yes/no)'', spaces, Eol],
           seqs [lit ''>>>'', spaces, Eol],
           seqs [lit ''>'', plus_of (Cls is_whitespace), Eol],
           seqs [lit ''Continue?'', spaces, Eol]]"

definition rules_unordered :: "(codepoint \<Rightarrow> bool) \<Rightarrow> classifier_rule list" where
  "rules_unordered digit =
     [\<lparr>cr_rule_id = ''swarm_member.v1'', cr_event_type = ''swarm_member_reported'',
        cr_matcher = swarm_member_re, cr_priority = 10\<rparr>,
      \<lparr>cr_rule_id = ''manual_review.v1'', cr_event_type = ''manual_review_needed'',
        cr_matcher = manual_review_re, cr_priority = 20\<rparr>,
      \<lparr>cr_rule_id = ''error.traceback.v1'', cr_event_type = ''error'',
        cr_matcher = traceback_re, cr_priority = 30\<rparr>,
      \<lparr>cr_rule_id = ''error.line.v1'', cr_event_type = ''error'',
        cr_matcher = error_line_re, cr_priority = 31\<rparr>,
      \<lparr>cr_rule_id = ''test_failed.pytest.v1'', cr_event_type = ''test_failed'',
        cr_matcher = pytest_failed_re, cr_priority = 40\<rparr>,
      \<lparr>cr_rule_id = ''test_failed.generic.v1'', cr_event_type = ''test_failed'',
        cr_matcher = generic_failed_re, cr_priority = 41\<rparr>,
      \<lparr>cr_rule_id = ''test_passed.pytest.v1'', cr_event_type = ''test_passed'',
        cr_matcher = pytest_passed_re digit, cr_priority = 50\<rparr>,
      \<lparr>cr_rule_id = ''test_passed.generic.v1'', cr_event_type = ''test_passed'',
        cr_matcher = generic_passed_re, cr_priority = 51\<rparr>,
      \<lparr>cr_rule_id = ''completed.v1'', cr_event_type = ''completed'',
        cr_matcher = completed_re, cr_priority = 60\<rparr>,
      \<lparr>cr_rule_id = ''waiting_for_input.v1'', cr_event_type = ''waiting_for_input'',
        cr_matcher = waiting_re, cr_priority = 70\<rparr>,
      \<lparr>cr_rule_id = ''activity.fallback.v1'', cr_event_type = ''activity'',
        cr_matcher = plus_of any_char, cr_priority = 999\<rparr>]"

definition classifier_rules :: "(codepoint \<Rightarrow> bool) \<Rightarrow> classifier_rule list" where
  "classifier_rules digit = sort_key cr_priority (rules_unordered digit)"

definition synthetic_rule_ids :: "string list" where
  "synthetic_rule_ids = [''pane_exited.synth.v1'', ''long_running.synth.v1'']"

subsection \<open>Truncation\<close>

definition per_event_excerpt_cap_bytes :: int where
  "per_event_excerpt_cap_bytes = 1024"

definition excerpt_truncation_marker :: "codepoint list" where
  "excerpt_truncation_marker = 0x2026 # cps ''[truncated]''"

text \<open>
  \<open>decode("utf-8", errors="ignore")\<close>: a byte that starts no valid sequence is dropped. Dropping the
  maximal invalid part at once, as CPython does, gives the same text, because the rest of that part
  are continuation bytes, which start no sequence either.
\<close>

function decode_ignore :: "nat list \<Rightarrow> codepoint list" where
  "decode_ignore bs =
     (case bs of
        [] \<Rightarrow> []
      | _ # tail \<Rightarrow> (case utf8_next bs of Some (c, rest) \<Rightarrow> c # decode_ignore rest | None \<Rightarrow> decode_ignore tail))"
  by pat_completeness auto

termination
  by (relation "measure length") (auto dest: utf8_next_shorter simp del: utf8_next.simps)

declare decode_ignore.simps [simp del]

definition truncate_excerpt :: "int \<Rightarrow> codepoint list \<Rightarrow> codepoint list \<Rightarrow> exc + codepoint list" where
  "truncate_excerpt cap_bytes marker redacted_record =
     (if cap_bytes \<le> 0 then Inl ValueError
      else let encoded = utf8_encode redacted_record; cap = nat cap_bytes in
        if length encoded \<le> cap then Inr redacted_record
        else let marker_bytes = utf8_encode marker in
          if cap \<le> length marker_bytes then Inr (decode_ignore (take cap marker_bytes))
          else Inr (decode_ignore (take (cap - length marker_bytes) encoded) @ marker))"

subsection \<open>Classification\<close>

record classifier_outcome =
  co_event_type :: string
  co_rule_id :: string
  co_excerpt :: "codepoint list"
  co_redacted_record :: "codepoint list"

record unicode_classes =
  unicode_word :: "codepoint \<Rightarrow> bool"
  unicode_digit :: "codepoint \<Rightarrow> bool"

definition word_char :: "unicode_classes \<Rightarrow> codepoint \<Rightarrow> bool" where
  "word_char u x \<longleftrightarrow> (if x < 128 then ascii_word x else unicode_word u x)"

definition digit_char :: "unicode_classes \<Rightarrow> codepoint \<Rightarrow> bool" where
  "digit_char u x \<longleftrightarrow> (if x < 128 then digit_point x else unicode_digit u x)"

definition rule_matches :: "unicode_classes \<Rightarrow> codepoint list \<Rightarrow> classifier_rule \<Rightarrow> bool" where
  "rule_matches u text rule \<longleftrightarrow> re_search (word_char u) (cr_matcher rule) text"

definition classify :: "unicode_classes \<Rightarrow> int \<Rightarrow> codepoint list \<Rightarrow> codepoint list \<Rightarrow> exc + classifier_outcome" where
  "classify u cap_bytes marker record =
     (let redacted = strip_ansi (redact_one_line record) in
      case truncate_excerpt cap_bytes marker redacted of
        Inl e \<Rightarrow> Inl e
      | Inr excerpt \<Rightarrow>
          (case find (rule_matches u redacted) (classifier_rules (digit_char u)) of
             None \<Rightarrow> Inr \<lparr>co_event_type = ''activity'', co_rule_id = ''activity.fallback.v1'',
                          co_excerpt = excerpt, co_redacted_record = redacted\<rparr>
           | Some rule \<Rightarrow> Inr \<lparr>co_event_type = cr_event_type rule, co_rule_id = cr_rule_id rule,
                          co_excerpt = excerpt, co_redacted_record = redacted\<rparr>))"

subsection \<open>Truncation keeps whole code points\<close>

lemma decode_ignore_Nil [simp]: "decode_ignore [] = []"
  by (simp add: decode_ignore.simps)

lemma decode_ignore_next: "utf8_next bs = Some (c, rest) \<Longrightarrow> decode_ignore bs = c # decode_ignore rest"
  by (cases bs) (simp, subst decode_ignore.simps, simp del: utf8_next.simps)

lemma decode_ignore_skip: "utf8_next (b # bs) = None \<Longrightarrow> decode_ignore (b # bs) = decode_ignore bs"
  by (subst decode_ignore.simps) (simp del: utf8_next.simps)

lemma decode_ignore_cont: "list_all cont_byte bs \<Longrightarrow> decode_ignore bs = []"
  by (induction bs) (auto simp: decode_ignore_skip cont_byte_def)

lemma cont_byte_sextet: "cont_byte (0x80 + x mod 64)"
  by (simp add: cont_byte_def)

lemma partial_code_point:
  assumes "scalar_value c" "n < length (utf8_encode_one c)"
  shows "decode_ignore (take n (utf8_encode_one c)) = []"
proof (cases n)
  case (Suc m)
  have "\<exists>b bs. utf8_encode_one c = b # bs \<and> list_all cont_byte bs"
    by (simp add: utf8_encode_one_def cont_byte_sextet)
  then obtain b bs where b: "utf8_encode_one c = b # bs" "list_all cont_byte bs" by blast
  then have t: "take n (utf8_encode_one c) = b # take m bs" by (simp add: Suc)
  have "utf8_next (b # take m bs) = None"
    using assms b(1) unfolding utf8_encode_one_def scalar_value_def Suc
    by (auto split: if_splits simp: less_Suc_eq take_Cons' elim!: less_SucE)
  then show ?thesis using b(2) unfolding t
    by (simp add: decode_ignore_skip decode_ignore_cont list_all_iff del: utf8_next.simps)
      (metis decode_ignore_cont in_set_takeD list_all_iff)
qed simp

lemma decode_ignore_prefix:
  assumes "list_all scalar_value cs"
  shows "\<exists>k. decode_ignore (take n (utf8_encode cs)) = take k cs \<and> length (utf8_encode (take k cs)) \<le> n"
  using assms
proof (induction cs arbitrary: n)
  case (Cons c cs)
  let ?e = "utf8_encode_one c"
  show ?case
  proof (cases "length ?e \<le> n")
    case True
    obtain k where k: "decode_ignore (take (n - length ?e) (utf8_encode cs)) = take k cs"
      "length (utf8_encode (take k cs)) \<le> n - length ?e" using Cons by (auto simp del: utf8_next.simps)
    have "decode_ignore (take n (utf8_encode (c # cs))) = c # take k cs"
      using True decode_ignore_next [OF utf8_next_encode] Cons.prems k(1)
      by (simp add: utf8_encode_def del: utf8_next.simps)
    moreover have "length (utf8_encode (take (Suc k) (c # cs))) \<le> n" using k(2) True by (simp add: utf8_encode_def)
    ultimately show ?thesis by (intro exI [of _ "Suc k"]) simp
  next
    case False
    then have "decode_ignore (take n (utf8_encode (c # cs))) = []"
      using partial_code_point [of c n] Cons.prems by (simp add: utf8_encode_def)
    then show ?thesis by (intro exI [of _ 0]) (simp add: utf8_encode_def)
  qed
qed (simp add: utf8_encode_def)

lemma truncate_excerpt_shape:
  assumes "0 < cap" "list_all scalar_value record" "list_all scalar_value marker"
  shows "\<exists>r. truncate_excerpt cap marker record = Inr r \<and> length (utf8_encode r) \<le> nat cap \<and>
    (if length (utf8_encode record) \<le> nat cap then r = record
     else if length (utf8_encode marker) < nat cap then \<exists>k. r = take k record @ marker
     else \<exists>k. r = take k marker)"
proof -
  obtain k where k: "decode_ignore (take (nat cap - length (utf8_encode marker)) (utf8_encode record)) = take k record"
    "length (utf8_encode (take k record)) \<le> nat cap - length (utf8_encode marker)"
    using decode_ignore_prefix [OF assms(2)] by blast
  obtain l where l: "decode_ignore (take (nat cap) (utf8_encode marker)) = take l marker"
    "length (utf8_encode (take l marker)) \<le> nat cap"
    using decode_ignore_prefix [OF assms(3)] by blast
  have a: "utf8_encode (take k record @ marker) = utf8_encode (take k record) @ utf8_encode marker"
    by (simp add: utf8_encode_def)
  show ?thesis using assms(1) k l a by (auto simp: truncate_excerpt_def Let_def)
qed

subsection \<open>The catalogue\<close>

declare split_paired_All [simp del] split_paired_Ex [simp del]

lemma classifier_rules_sorted: "classifier_rules digit = rules_unordered digit"
  by (simp add: classifier_rules_def rules_unordered_def)

text \<open>The assertions the module makes when it is loaded.\<close>

lemma catalogue_consistent:
  "distinct (map cr_priority (classifier_rules digit))" "sorted (map cr_priority (classifier_rules digit))"
  "distinct (map cr_rule_id (classifier_rules digit) @ synthetic_rule_ids)"
  "set (map cr_event_type (classifier_rules digit)) \<union> {''pane_exited'', ''long_running''} =
    set classifier_event_types"
     apply (simp_all add: classifier_rules_sorted rules_unordered_def synthetic_rule_ids_def)
  apply (rule equalityI; simp add: classifier_event_types_def)
  done

lemma find_split:
  assumes "xs \<noteq> []"
  shows "\<exists>before x after. xs = before @ x # after \<and> list_all (\<lambda>y. \<not> P y) before \<and>
    (case find P xs of Some y \<Rightarrow> y = x \<and> P x | None \<Rightarrow> after = [] \<and> \<not> P x)"
  using assms
proof (induction xs)
  case (Cons y ys)
  show ?case
  proof (cases "P y \<or> ys = []")
    case True
    then show ?thesis by (intro exI [of _ "[]"] exI [of _ y] exI [of _ ys]) auto
  next
    case False
    with Cons.IH obtain before x after where "ys = before @ x # after" "list_all (\<lambda>y. \<not> P y) before"
      "case find P ys of Some y \<Rightarrow> y = x \<and> P x | None \<Rightarrow> after = [] \<and> \<not> P x" by blast
    then show ?thesis using False
      by (intro exI [of _ "y # before"] exI [of _ x] exI [of _ after]) simp
  qed
qed simp

lemma strip_ansi_set: "set (strip_ansi l) \<subseteq> set l"
  using sub_from_set [of ascii_word ansi_escape_re "[]" 0 None l]
  by (auto simp: strip_ansi_def re_sub_def)

lemma redacted_scalar:
  assumes "list_all scalar_value record"
  shows "list_all scalar_value (strip_ansi (redact_one_line record))"
proof -
  have "set (strip_ansi (redact_one_line record)) \<subseteq> set record \<union> {c. c < 128}"
    using strip_ansi_set redact_one_line_set by blast
  moreover have "scalar_value c" if "c < 128" for c using that by (simp add: scalar_value_def)
  ultimately show ?thesis using assms unfolding list_all_iff by blast
qed

text \<open>A pattern that starts with \<open>^\<close> is only tried at the start of the text.\<close>

lemma re_search_anchored: "re_search word (Seq Bol r) text \<longleftrightarrow> starts word r (None, text)"
proof -
  have "re_search word (Seq Bol r) text \<longleftrightarrow>
      (\<exists>u s. passes (None, text) u s \<and> fst s = None \<and> starts word r s)"
    unfolding re_search_def search_from_iff by (simp add: starts_def matches_Seq_iff)
  also have "\<dots> \<longleftrightarrow> starts word r (None, text)"
  proof
    assume "\<exists>u s. passes (None, text) u s \<and> fst s = None \<and> starts word r s"
    then obtain u s where "passes (None, text) u s" "fst s = None" "starts word r s" by blast
    moreover from this have "u = []" by (auto simp: passes_def split: if_splits)
    ultimately show "starts word r (None, text)" by simp
  next
    assume "starts word r (None, text)"
    then show "\<exists>u s. passes (None, text) u s \<and> fst s = None \<and> starts word r s"
      by (intro exI [of _ "[]"] exI [of _ "(None, text)"]) simp
  qed
  finally show ?thesis .
qed

lemma starts_lit: "starts word (Seq (lit w) r) s \<longleftrightarrow> (\<exists>t. passes s (cps w) t \<and> starts word r t)"
  by (auto simp: starts_def matches_Seq_iff matches_lit_iff simp del: lit.simps)

lemma starts_Alt_Seq:
  "starts word (Seq (Alt a b) r) s \<longleftrightarrow> starts word (Seq a r) s \<or> starts word (Seq b r) s"
  by (auto simp: starts_def matches_Seq_iff matches_Alt_iff)

lemma starts_text: "starts word (Seq (lit w) r) (prev, text) \<Longrightarrow> \<exists>rest. text = cps w @ rest"
  by (auto simp: starts_lit passes_def simp del: lit.simps)

lemma pytest_failed_text:
  assumes "re_search word pytest_failed_re text"
  shows "(\<exists>rest. text = cps ''FAILED '' @ rest) \<or> (\<exists>rest. text = cps ''ERROR '' @ rest)"
proof -
  have "starts word (Seq (lit w) (Seq (lit '' '') r)) (None, text) \<Longrightarrow> \<exists>rest. text = cps (w @ '' '') @ rest" for w r
    by (auto simp: starts_lit passes_def cps_def simp del: lit.simps)
  then show ?thesis using assms
    unfolding pytest_failed_re_def seqs.simps re_search_anchored alts.simps starts_Alt_Seq
    by (metis append.simps)
qed

lemma error_line_text:
  assumes "text = cps ''ERROR '' @ rest"
  shows "re_search word error_line_re text"
proof -
  let ?e = "Cls (in_chars '': '')"
  have p: "passes (None, text) (cps ''ERROR'') (Some 82, 32 # rest)"
    by (simp add: assms passes_def cps_def)
  have "matches word ?e (Some 82, 32 # rest) (Some 32, rest)"
    by (rule matches.cls) (simp add: in_chars_def)
  then have "starts word (Seq ?e Eps) (Some 82, 32 # rest)"
    unfolding starts_def matches_Seq_iff matches_Eps_iff by blast
  then have "starts word (Seq (lit ''ERROR'') (Seq ?e Eps)) (None, text)"
    unfolding starts_lit using p by blast
  then show ?thesis
    unfolding error_line_re_def seqs.simps re_search_anchored alts.simps starts_Alt_Seq by blast
qed

subsection \<open>Properties\<close>

definition example_unicode :: unicode_classes where
  "example_unicode = \<lparr>unicode_word = (\<lambda>_. False), unicode_digit = (\<lambda>_. False)\<rparr>"



text \<open>
  Truncation of the excerpt. The result has at most \<open>cap\<close> bytes in UTF-8; a record that fits is
  unchanged, otherwise it is cut after a whole code point and the marker follows; only if the
  marker itself does not fit, a cut of the marker is all there is.
\<close>

lemma truncate_excerpt_bounded:
  assumes "0 < cap" "list_all scalar_value record" "list_all scalar_value marker"
  shows "\<exists>r. truncate_excerpt cap marker record = Inr r \<and> length (utf8_encode r) \<le> nat cap \<and>
    (if length (utf8_encode record) \<le> nat cap then r = record
     else if length (utf8_encode marker) < nat cap then \<exists>k. r = take k record @ marker
     else \<exists>k. r = take k marker)"
  by (rule truncate_excerpt_shape [OF assms])

text \<open>
  The rule \<open>test_failed.pytest.v1\<close> covers, by its comment and its pattern, lines that start with
  \<open>FAILED path::name\<close> or \<open>ERROR path::name\<close>. It is chosen only for the former: a line that starts
  with \<open>ERROR\<close> and a blank is taken by \<open>error.line.v1\<close>, which has the better priority.
\<close>

lemma pytest_error_lines_shadowed:
  assumes "classify u cap marker record = Inr c" "co_rule_id c = ''test_failed.pytest.v1''"
  shows "\<exists>rest. co_redacted_record c = cps ''FAILED '' @ rest"
proof -
  let ?t = "strip_ansi (redact_one_line record)"
  obtain rule where f: "find (rule_matches u ?t) (rules_unordered (digit_char u)) = Some rule"
    and id: "cr_rule_id rule = ''test_failed.pytest.v1''" and t: "co_redacted_record c = ?t"
    using assms by (auto simp: classify_def Let_def classifier_rules_sorted split: sum.splits option.splits)
  from f id have "\<not> re_search (word_char u) error_line_re ?t" "re_search (word_char u) pytest_failed_re ?t"
    by (auto simp: rules_unordered_def rule_matches_def split: if_splits)
  then show ?thesis using pytest_failed_text error_line_text unfolding t by blast
qed

text \<open>
  Redaction runs before the terminal escapes are removed, so an escape hides a secret from the
  redactor and is gone from the excerpt that is stored: the line \<open>MY_TOKEN=hunter2\<close>, redacted when
  it is plain, is stored with its value when the terminal colours it.
\<close>

lemma coloured_secret_is_stored:
  "redact_one_line (cps ''MY_TOKEN=hunter2'') = cps ''MY_TOKEN=<redacted:env-secret>'' \<and>
   map_sum id co_excerpt (classify example_unicode per_event_excerpt_cap_bytes excerpt_truncation_marker
     (esc # cps ''[32mMY_TOKEN=hunter2'' @ esc # cps ''[0m'')) = Inr (cps ''MY_TOKEN=hunter2'')"
  by code_simp

end
