(* ===== verification/Debounce.thy ===== *)
theory Debounce
  imports Classifier "HOL-Library.AList"
begin

text \<open>
  The debounce manager (\<open>events/debounce.py\<close>): \<open>activity\<close> records of one attachment are collapsed
  into one event per window, all other records pass one to one. The open windows are a Python
  dictionary, here an association list in insertion order. Clock readings are milliseconds; the
  fresh window id of \<open>secrets.token_hex\<close> is an argument.
\<close>

record pending_event =
  pe_event_type :: string
  pe_rule_id :: string
  pe_excerpt :: "codepoint list"
  pe_observed_at :: timestamp
  pe_byte_range_start :: int
  pe_byte_range_end :: int
  pe_line_offset_start :: int
  pe_line_offset_end :: int
  pe_debounce_window_id :: "string option"
  pe_debounce_collapsed_count :: nat
  pe_debounce_window_started_at :: "timestamp option"
  pe_debounce_window_ended_at :: "timestamp option"

record debounce_window =
  dw_window_id :: string
  dw_started_at :: timestamp
  dw_started_at_monotonic :: int
  dw_first_byte_range_start :: int
  dw_first_line_offset_start :: int
  dw_collapsed_count :: nat
  dw_latest_excerpt :: "codepoint list"
  dw_latest_rule_id :: string
  dw_latest_observed_at :: timestamp
  dw_latest_byte_range_end :: int
  dw_latest_line_offset_end :: int

text \<open>The arguments of one \<open>submit\<close> call.\<close>

record submission =
  sb_attachment_id :: string
  sb_outcome :: classifier_outcome
  sb_observed_at :: timestamp
  sb_monotonic :: int
  sb_byte_range_start :: int
  sb_byte_range_end :: int
  sb_line_offset_start :: int
  sb_line_offset_end :: int

type_synonym windows = "((string \<times> string) \<times> debounce_window) list"

definition collapse_eligible :: "string list" where
  "collapse_eligible = [''activity'']"

definition one_to_one_event :: "submission \<Rightarrow> pending_event" where
  "one_to_one_event s =
     \<lparr>pe_event_type = co_event_type (sb_outcome s), pe_rule_id = co_rule_id (sb_outcome s),
      pe_excerpt = co_excerpt (sb_outcome s), pe_observed_at = sb_observed_at s,
      pe_byte_range_start = sb_byte_range_start s, pe_byte_range_end = sb_byte_range_end s,
      pe_line_offset_start = sb_line_offset_start s, pe_line_offset_end = sb_line_offset_end s,
      pe_debounce_window_id = None, pe_debounce_collapsed_count = 1,
      pe_debounce_window_started_at = None, pe_debounce_window_ended_at = None\<rparr>"

definition window_event :: "string \<times> string \<Rightarrow> debounce_window \<Rightarrow> timestamp \<Rightarrow> pending_event" where
  "window_event key w ended_at =
     \<lparr>pe_event_type = snd key, pe_rule_id = dw_latest_rule_id w, pe_excerpt = dw_latest_excerpt w,
      pe_observed_at = dw_latest_observed_at w,
      pe_byte_range_start = dw_first_byte_range_start w, pe_byte_range_end = dw_latest_byte_range_end w,
      pe_line_offset_start = dw_first_line_offset_start w, pe_line_offset_end = dw_latest_line_offset_end w,
      pe_debounce_window_id = Some (dw_window_id w), pe_debounce_collapsed_count = dw_collapsed_count w,
      pe_debounce_window_started_at = Some (dw_started_at w), pe_debounce_window_ended_at = Some ended_at\<rparr>"

definition close_window :: "string \<times> string \<Rightarrow> debounce_window \<Rightarrow> timestamp \<Rightarrow> windows \<Rightarrow> pending_event \<times> windows" where
  "close_window key w ended_at ws = (window_event key w ended_at, AList.delete key ws)"

definition open_window :: "string \<Rightarrow> submission \<Rightarrow> debounce_window" where
  "open_window fresh_id s =
     \<lparr>dw_window_id = fresh_id, dw_started_at = sb_observed_at s, dw_started_at_monotonic = sb_monotonic s,
      dw_first_byte_range_start = sb_byte_range_start s, dw_first_line_offset_start = sb_line_offset_start s,
      dw_collapsed_count = 1, dw_latest_excerpt = co_excerpt (sb_outcome s),
      dw_latest_rule_id = co_rule_id (sb_outcome s), dw_latest_observed_at = sb_observed_at s,
      dw_latest_byte_range_end = sb_byte_range_end s, dw_latest_line_offset_end = sb_line_offset_end s\<rparr>"

definition collapse_into :: "submission \<Rightarrow> debounce_window \<Rightarrow> debounce_window" where
  "collapse_into s w =
     w\<lparr>dw_collapsed_count := dw_collapsed_count w + 1, dw_latest_excerpt := co_excerpt (sb_outcome s),
       dw_latest_rule_id := co_rule_id (sb_outcome s), dw_latest_observed_at := sb_observed_at s,
       dw_latest_byte_range_end := sb_byte_range_end s, dw_latest_line_offset_end := sb_line_offset_end s\<rparr>"

definition submit :: "int \<Rightarrow> string \<Rightarrow> submission \<Rightarrow> windows \<Rightarrow> pending_event list \<times> windows" where
  "submit window_ms fresh_id s ws =
     (if co_event_type (sb_outcome s) \<notin> set collapse_eligible then ([one_to_one_event s], ws)
      else let key = (sb_attachment_id s, co_event_type (sb_outcome s)) in
        case map_of ws key of
          None \<Rightarrow> ([], AList.update key (open_window fresh_id s) ws)
        | Some w \<Rightarrow>
            if sb_monotonic s - dw_started_at_monotonic w \<ge> window_ms then
              (case close_window key w (sb_observed_at s) ws of
                 (e, ws') \<Rightarrow> ([e], AList.update key (open_window fresh_id s) ws'))
            else ([], AList.update key (collapse_into s w) ws))"

text \<open>The loop of \<open>flush_expired\<close> over a snapshot of the keys.\<close>

fun flush_keys :: "int \<Rightarrow> int \<Rightarrow> timestamp \<Rightarrow> string option \<Rightarrow> (string \<times> string) list \<Rightarrow> windows \<Rightarrow> pending_event list \<times> windows" where
  "flush_keys window_ms monotonic observed_at attachment_id [] ws = ([], ws)"
| "flush_keys window_ms monotonic observed_at attachment_id (key # keys) ws =
     (if attachment_id \<noteq> None \<and> Some (fst key) \<noteq> attachment_id
      then flush_keys window_ms monotonic observed_at attachment_id keys ws
      else case map_of ws key of
        None \<Rightarrow> flush_keys window_ms monotonic observed_at attachment_id keys ws
      | Some w \<Rightarrow>
          if monotonic - dw_started_at_monotonic w \<ge> window_ms then
            (case close_window key w observed_at ws of (e, ws') \<Rightarrow>
               (case flush_keys window_ms monotonic observed_at attachment_id keys ws' of
                  (es, ws'') \<Rightarrow> (e # es, ws'')))
          else flush_keys window_ms monotonic observed_at attachment_id keys ws)"

definition flush_expired :: "int \<Rightarrow> int \<Rightarrow> timestamp \<Rightarrow> string option \<Rightarrow> windows \<Rightarrow> pending_event list \<times> windows" where
  "flush_expired window_ms monotonic observed_at attachment_id ws =
     flush_keys window_ms monotonic observed_at attachment_id (map fst ws) ws"

definition reset_windows :: "windows \<Rightarrow> windows" where
  "reset_windows ws = []"

subsection \<open>Runs\<close>

datatype debounce_op =
    Submit string submission
  | Flush_expired int timestamp "string option"

fun debounce_step :: "int \<Rightarrow> debounce_op \<Rightarrow> windows \<Rightarrow> pending_event list \<times> windows" where
  "debounce_step window_ms (Submit fresh_id s) ws = submit window_ms fresh_id s ws"
| "debounce_step window_ms (Flush_expired m t a) ws = flush_expired window_ms m t a ws"

fun debounce_run :: "int \<Rightarrow> debounce_op list \<Rightarrow> windows \<Rightarrow> pending_event list \<times> windows" where
  "debounce_run window_ms [] ws = ([], ws)"
| "debounce_run window_ms (op # ops) ws =
     (case debounce_step window_ms op ws of (es, ws') \<Rightarrow>
        (case debounce_run window_ms ops ws' of (es', ws'') \<Rightarrow> (es @ es', ws'')))"

definition collapsed_total :: "pending_event list \<Rightarrow> nat" where
  "collapsed_total es = sum_list (map pe_debounce_collapsed_count es)"

definition open_total :: "windows \<Rightarrow> nat" where
  "open_total ws = sum_list (map (dw_collapsed_count \<circ> snd) ws)"

definition submissions :: "debounce_op list \<Rightarrow> submission list" where
  "submissions ops = concat (map (\<lambda>op. case op of Submit _ s \<Rightarrow> [s] | _ \<Rightarrow> []) ops)"

subsection \<open>Bookkeeping of the windows\<close>

definition windows_ok :: "windows \<Rightarrow> bool" where
  "windows_ok ws \<longleftrightarrow> distinct (map fst ws) \<and>
     list_all (\<lambda>(key, w). snd key \<in> set collapse_eligible \<and> 0 < dw_collapsed_count w) ws"

lemma open_total_simps [simp]:
  "open_total [] = 0" "open_total (x # ws) = dw_collapsed_count (snd x) + open_total ws"
  by (simp_all add: open_total_def)

lemma collapsed_total_simps [simp]:
  "collapsed_total [] = 0" "collapsed_total (e # es) = pe_debounce_collapsed_count e + collapsed_total es"
  "collapsed_total (es @ es') = collapsed_total es + collapsed_total es'"
  by (simp_all add: collapsed_total_def)

lemma map_of_open_total: "map_of ws key = Some w \<Longrightarrow> dw_collapsed_count w \<le> open_total ws"
  by (induction ws) (auto split: if_splits)

lemma open_total_update:
  "open_total (AList.update key v ws) + (case map_of ws key of None \<Rightarrow> 0 | Some w \<Rightarrow> dw_collapsed_count w) =
     open_total ws + dw_collapsed_count v"
  by (induction ws) auto

lemma delete_absent: "key \<notin> fst ` set ws \<Longrightarrow> AList.delete key ws = ws"
  by (induction ws) auto

lemma open_total_delete:
  "distinct (map fst ws) \<Longrightarrow> map_of ws key = Some w \<Longrightarrow>
    open_total (AList.delete key ws) + dw_collapsed_count w = open_total ws"
  by (induction ws) (auto simp: delete_absent split: if_splits)

lemma set_update_windows: "x \<in> set (AList.update key v ws) \<Longrightarrow> x = (key, v) \<or> x \<in> set ws"
  by (induction ws) (auto split: if_splits)

lemma set_delete_windows: "x \<in> set (AList.delete key ws) \<Longrightarrow> x \<in> set ws"
  by (induction ws) (auto split: if_splits)

lemma windows_ok_update:
  "windows_ok ws \<Longrightarrow> snd key \<in> set collapse_eligible \<Longrightarrow> 0 < dw_collapsed_count v \<Longrightarrow>
    windows_ok (AList.update key v ws)"
  unfolding windows_ok_def list_all_iff
  by (auto dest!: set_update_windows intro: distinct_update)

lemma windows_ok_delete: "windows_ok ws \<Longrightarrow> windows_ok (AList.delete key ws)"
  unfolding windows_ok_def list_all_iff
  by (auto dest!: set_delete_windows intro: distinct_delete)

lemma windows_okD: "windows_ok ws \<Longrightarrow> map_of ws key = Some w \<Longrightarrow> 0 < dw_collapsed_count w \<and> snd key \<in> set collapse_eligible"
  unfolding windows_ok_def list_all_iff by (fastforce dest: map_of_SomeD)

lemma submit_bookkeeping:
  assumes "windows_ok ws" "submit window_ms fresh_id s ws = (es, ws')"
  shows "windows_ok ws'" and "collapsed_total es + open_total ws' = Suc (open_total ws)"
    and "filter (\<lambda>e. pe_event_type e \<notin> set collapse_eligible) es =
      (if co_event_type (sb_outcome s) \<in> set collapse_eligible then [] else [one_to_one_event s])"
    and "list_all (\<lambda>e. 0 < pe_debounce_collapsed_count e) es"
proof -
  let ?key = "(sb_attachment_id s, co_event_type (sb_outcome s))"
  have "windows_ok ws' \<and> collapsed_total es + open_total ws' = Suc (open_total ws) \<and>
      filter (\<lambda>e. pe_event_type e \<notin> set collapse_eligible) es =
        (if co_event_type (sb_outcome s) \<in> set collapse_eligible then [] else [one_to_one_event s]) \<and>
      list_all (\<lambda>e. 0 < pe_debounce_collapsed_count e) es"
  proof (cases "co_event_type (sb_outcome s) \<in> set collapse_eligible")
    case False
    then show ?thesis using assms by (auto simp: submit_def one_to_one_event_def)
  next
    case True
    show ?thesis
    proof (cases "map_of ws ?key")
      case None
      then show ?thesis using assms True open_total_update [of ?key "open_window fresh_id s" ws]
        by (auto simp: submit_def open_window_def intro: windows_ok_update)
    next
      case (Some w)
      have pos: "0 < dw_collapsed_count w" using windows_okD [OF assms(1) Some] by simp
      have del: "map_of (AList.delete ?key ws) ?key = None" by (simp add: delete_conv')
      show ?thesis
      proof (cases "sb_monotonic s - dw_started_at_monotonic w \<ge> window_ms")
        case expired: True
        have "distinct (map fst ws)" using assms(1) by (simp add: windows_ok_def)
        from open_total_delete [OF this Some] show ?thesis
          using assms True Some expired pos open_total_update [of ?key "open_window fresh_id s" "AList.delete ?key ws"]
          by (auto simp: submit_def Let_def close_window_def window_event_def open_window_def del
              intro!: windows_ok_update windows_ok_delete)
      next
        case False
        then show ?thesis using assms True Some open_total_update [of ?key "collapse_into s w" ws]
          by (auto simp: submit_def collapse_into_def intro: windows_ok_update)
      qed
    qed
  qed
  then show "windows_ok ws'" "collapsed_total es + open_total ws' = Suc (open_total ws)"
    "filter (\<lambda>e. pe_event_type e \<notin> set collapse_eligible) es =
      (if co_event_type (sb_outcome s) \<in> set collapse_eligible then [] else [one_to_one_event s])"
    "list_all (\<lambda>e. 0 < pe_debounce_collapsed_count e) es" by blast+
qed

lemma flush_keys_bookkeeping:
  assumes "windows_ok ws" "flush_keys window_ms m t a keys ws = (es, ws')"
  shows "windows_ok ws' \<and> collapsed_total es + open_total ws' = open_total ws \<and>
    filter (\<lambda>e. pe_event_type e \<notin> set collapse_eligible) es = [] \<and>
    list_all (\<lambda>e. 0 < pe_debounce_collapsed_count e) es"
  using assms
proof (induction keys arbitrary: ws es)
  case (Cons key keys)
  show ?case
  proof (cases "(a \<noteq> None \<and> Some (fst key) \<noteq> a) \<or> map_of ws key = None \<or>
      m - dw_started_at_monotonic (the (map_of ws key)) < window_ms")
    case True
    then have "flush_keys window_ms m t a keys ws = (es, ws')" using Cons.prems(2)
      by (auto split: if_splits option.splits)
    then show ?thesis using Cons.IH [OF Cons.prems(1)] by blast
  next
    case False
    then obtain w where w: "map_of ws key = Some w" "m - dw_started_at_monotonic w \<ge> window_ms" by auto
    obtain es2 where r: "flush_keys window_ms m t a keys (AList.delete key ws) = (es2, ws')"
      "es = window_event key w t # es2"
      using Cons.prems(2) False w by (auto simp: close_window_def split: prod.splits if_splits)
    have "distinct (map fst ws)" using Cons.prems(1) by (simp add: windows_ok_def)
    from open_total_delete [OF this w(1)] Cons.IH [OF windows_ok_delete [OF Cons.prems(1)] r(1)]
      windows_okD [OF Cons.prems(1) w(1)]
    show ?thesis by (auto simp: r(2) window_event_def)
  qed
qed simp

lemma debounce_run_bookkeeping:
  assumes "windows_ok ws" "debounce_run window_ms ops ws = (es, ws')"
  shows "windows_ok ws' \<and> collapsed_total es + open_total ws' = open_total ws + length (submissions ops) \<and>
    filter (\<lambda>e. pe_event_type e \<notin> set collapse_eligible) es =
      map one_to_one_event (filter (\<lambda>s. co_event_type (sb_outcome s) \<notin> set collapse_eligible) (submissions ops)) \<and>
    list_all (\<lambda>e. 0 < pe_debounce_collapsed_count e) es"
  using assms
proof (induction ops arbitrary: ws es)
  case Nil
  then show ?case by (simp add: submissions_def)
next
  case (Cons op ops)
  obtain es1 ws1 es2 where s: "debounce_step window_ms op ws = (es1, ws1)"
    "debounce_run window_ms ops ws1 = (es2, ws')" "es = es1 @ es2"
    using Cons.prems(2) by (auto split: prod.splits)
  show ?case
  proof (cases op)
    case (Submit fresh_id s')
    have b: "submit window_ms fresh_id s' ws = (es1, ws1)" using s(1) Submit by simp
    note facts = submit_bookkeeping [OF Cons.prems(1) b]
    from Cons.IH [OF facts(1) s(2)] facts show ?thesis by (simp add: s(3) Submit submissions_def)
  next
    case (Flush_expired m t a)
    have "flush_keys window_ms m t a (map fst ws) ws = (es1, ws1)"
      using s(1) Flush_expired by (simp add: flush_expired_def)
    note facts = flush_keys_bookkeeping [OF Cons.prems(1) this]
    from Cons.IH [OF conjunct1 [OF facts] s(2)] facts show ?thesis
      by (simp add: s(3) Flush_expired submissions_def)
  qed
qed

text \<open>
  C15: no record is lost or counted twice by debouncing. Whatever records are submitted and windows
  flushed, in any order, the collapsed counts of the emitted events and of the windows still open
  add up to the number of records submitted; no event stands for zero records; and the records
  that are not \<open>activity\<close> appear one to one, in the order of submission, with their own byte and line
  ranges.
\<close>

theorem debounce_conserves_records:
  "case debounce_run window_ms ops [] of (es, ws) \<Rightarrow>
     collapsed_total es + open_total ws = length (submissions ops) \<and>
     list_all (\<lambda>e. 0 < pe_debounce_collapsed_count e) es \<and>
     filter (\<lambda>e. pe_event_type e \<notin> set collapse_eligible) es =
       map one_to_one_event
         (filter (\<lambda>s. co_event_type (sb_outcome s) \<notin> set collapse_eligible) (submissions ops))"
proof -
  obtain es ws where r: "debounce_run window_ms ops [] = (es, ws)" by (cases "debounce_run window_ms ops []")
  have "windows_ok []" by (simp add: windows_ok_def)
  from debounce_run_bookkeeping [OF this r] show ?thesis by (simp add: r)
qed

text \<open>After a flush no window that it considers is as old as the limit.\<close>

lemma flush_keys_windows:
  assumes "flush_keys window_ms m t a keys ws = (es, ws')" "map_of ws' key = Some w"
  shows "map_of ws key = Some w \<and>
    (key \<in> set keys \<and> (a = None \<or> a = Some (fst key)) \<longrightarrow> m - dw_started_at_monotonic w < window_ms)"
  using assms
proof (induction keys arbitrary: ws es)
  case (Cons k keys)
  show ?case
  proof (cases "(a \<noteq> None \<and> Some (fst k) \<noteq> a) \<or> map_of ws k = None \<or>
      m - dw_started_at_monotonic (the (map_of ws k)) < window_ms")
    case True
    then have "flush_keys window_ms m t a keys ws = (es, ws')" using Cons.prems(1)
      by (auto split: if_splits option.splits)
    from Cons.IH [OF this Cons.prems(2)] True show ?thesis by auto
  next
    case False
    then obtain es2 where "flush_keys window_ms m t a keys (AList.delete k ws) = (es2, ws')"
      using Cons.prems(1) by (auto simp: close_window_def split: prod.splits if_splits)
    from Cons.IH [OF this Cons.prems(2)] show ?thesis
      by (auto simp: delete_conv' split: if_splits)
  qed
qed simp

lemma flush_leaves_young_windows:
  assumes "flush_expired window_ms m t a ws = (es, ws')" "map_of ws' key = Some w" "a = None \<or> a = Some (fst key)"
  shows "m - dw_started_at_monotonic w < window_ms"
proof -
  note f = flush_keys_windows [OF assms(1) [unfolded flush_expired_def] assms(2)]
  then have "key \<in> set (map fst ws)" by (auto dest: map_of_SomeD intro: rev_image_eqI)
  then show ?thesis using f assms(3) by blast
qed

end
