(* ===== verification/Log_Tables.thy ===== *)
theory Log_Tables
  imports Agents
begin

text \<open>
  The tables \<open>log_attachments\<close> and \<open>log_offsets\<close> with their statements
  (\<open>state/log_attachments.py\<close>, \<open>state/log_offsets.py\<close>) and the observation of a log file
  (\<open>FileStat\<close> of \<open>logs/host_fs.py\<close>). The six columns that identify a tmux pane are one tuple. The
  tables of this database that are not the routing subsystem's are the record \<open>registry\<close>.
\<close>

type_synonym pane_key = "string \<times> string \<times> string \<times> int \<times> int \<times> string"

subsection \<open>Rows\<close>

datatype attachment_status = Att_active | Att_superseded | Att_stale | Att_detached

record attachment_row =
  la_attachment_id :: string
  la_agent_id :: string
  la_pane_key :: pane_key
  la_log_path :: string
  la_status :: attachment_status
  la_source :: string
  la_pipe_pane_command :: string
  la_prior_pipe_target :: "string option"
  la_attached_at :: timestamp
  la_last_status_at :: timestamp
  la_superseded_at :: "timestamp option"
  la_superseded_by :: "string option"
  la_created_at :: timestamp

definition valid_sources :: "string list" where
  "valid_sources = [''explicit'', ''register_self'']"

record offset_row =
  lo_agent_id :: string
  lo_log_path :: string
  lo_byte_offset :: int
  lo_line_offset :: int
  lo_last_event_offset :: int
  lo_last_output_at :: "timestamp option"
  lo_file_inode :: "string option"
  lo_file_size_seen :: int
  lo_created_at :: timestamp
  lo_updated_at :: timestamp

record pane_row =
  pn_key :: pane_key
  pn_container_name :: string
  pn_container_user :: string
  pn_pane_pid :: int
  pn_pane_tty :: string
  pn_pane_current_command :: string
  pn_pane_current_path :: string
  pn_pane_title :: string
  pn_pane_active :: bool
  pn_active :: bool
  pn_first_seen_at :: timestamp
  pn_last_scanned_at :: timestamp

text \<open>The JSON columns of a container are kept as text.\<close>

record container_row =
  cn_container_id :: string
  cn_name :: string
  cn_image :: string
  cn_status :: string
  cn_labels_json :: string
  cn_mounts_json :: string
  cn_inspect_json :: string
  cn_config_user :: "string option"
  cn_working_dir :: "string option"
  cn_active :: bool
  cn_first_seen_at :: timestamp
  cn_last_scanned_at :: timestamp

record registry =
  rg_agents :: "agent list"
  rg_containers :: "container_row list"
  rg_panes :: "pane_row list"
  rg_attachments :: "attachment_row list"
  rg_offsets :: "offset_row list"

definition agent_pane_key :: "agent \<Rightarrow> pane_key" where
  "agent_pane_key a =
     (ag_container_id a, ag_tmux_socket_path a, ag_tmux_session_name a, ag_tmux_window_index a,
      ag_tmux_pane_index a, ag_tmux_pane_id a)"

subsection \<open>The table \<open>log_attachments\<close>\<close>

text \<open>
  Constraints: the primary key, the source, and the unique index on \<open>log_path\<close> over the active rows. The
  foreign keys of the schema are not enforced: SQLite checks them only on a connection that asks for it,
  and of those that write these tables none that inserts does.
\<close>

definition attachments_ok :: "attachment_row list \<Rightarrow> bool" where
  "attachments_ok rows \<longleftrightarrow> distinct (map la_attachment_id rows) \<and>
     distinct (map la_log_path (filter (\<lambda>r. la_status r = Att_active) rows))"

definition la_insert :: "attachment_row \<Rightarrow> registry \<Rightarrow> exc + registry" where
  "la_insert r g =
     (if la_source r \<notin> set valid_sources then Inl ValueError
      else if attachments_ok (rg_attachments g @ [r])
      then Inr (g\<lparr>rg_attachments := rg_attachments g @ [r]\<rparr>)
      else Inl IntegrityError)"

definition la_update_status ::
  "string \<Rightarrow> attachment_status \<Rightarrow> timestamp \<Rightarrow> timestamp option \<Rightarrow> string option \<Rightarrow> registry \<Rightarrow> exc + registry" where
  "la_update_status attachment_id new_status last_status_at superseded_at superseded_by g =
     (let rows = update_where (\<lambda>r. la_attachment_id r = attachment_id)
            (\<lambda>r. r\<lparr>la_status := new_status, la_last_status_at := last_status_at,
                   la_superseded_at := superseded_at, la_superseded_by := superseded_by\<rparr>)
            (rg_attachments g)
      in if attachments_ok rows then Inr (g\<lparr>rg_attachments := rows\<rparr>) else Inl IntegrityError)"

definition select_active_for_agent_path :: "registry \<Rightarrow> string \<Rightarrow> string \<Rightarrow> attachment_row option" where
  "select_active_for_agent_path g agent_id log_path =
     find (\<lambda>r. la_agent_id r = agent_id \<and> la_log_path r = log_path \<and> la_status r = Att_active) (rg_attachments g)"

definition select_active_by_log_path :: "registry \<Rightarrow> string \<Rightarrow> attachment_row option" where
  "select_active_by_log_path g log_path =
     find (\<lambda>r. la_log_path r = log_path \<and> la_status r = Att_active) (rg_attachments g)"

text \<open>
  \<open>ORDER BY k DESC LIMIT 1\<close>: the first row with the greatest key (SQLite leaves the order of ties open).
\<close>

fun first_max :: "('a \<Rightarrow> 'k :: linorder) \<Rightarrow> 'a list \<Rightarrow> 'a option" where
  "first_max k [] = None"
| "first_max k (x # xs) =
     (case first_max k xs of None \<Rightarrow> Some x | Some y \<Rightarrow> if k x < k y then Some y else Some x)"

definition select_for_agent_path :: "registry \<Rightarrow> string \<Rightarrow> string \<Rightarrow> attachment_row option" where
  "select_for_agent_path g agent_id log_path =
     first_max la_last_status_at
       (filter (\<lambda>r. la_agent_id r = agent_id \<and> la_log_path r = log_path) (rg_attachments g))"

definition select_active_for_agent :: "registry \<Rightarrow> string \<Rightarrow> attachment_row option" where
  "select_active_for_agent g agent_id =
     first_max la_last_status_at
       (filter (\<lambda>r. la_agent_id r = agent_id \<and> la_status r = Att_active) (rg_attachments g))"

definition select_most_recent_for_agent :: "registry \<Rightarrow> string \<Rightarrow> attachment_row option" where
  "select_most_recent_for_agent g agent_id =
     first_max (\<lambda>r. (la_last_status_at r, la_created_at r, la_attachment_id r))
       (filter (\<lambda>r. la_agent_id r = agent_id) (rg_attachments g))"

definition select_actives_for_pane :: "registry \<Rightarrow> pane_key \<Rightarrow> attachment_row list" where
  "select_actives_for_pane g key =
     filter (\<lambda>r. la_pane_key r = key \<and> la_status r = Att_active) (rg_attachments g)"

definition cascade_to_stale_for_panes :: "pane_key list \<Rightarrow> timestamp \<Rightarrow> registry \<Rightarrow> attachment_row list \<times> registry" where
  "cascade_to_stale_for_panes pane_keys now_iso g =
     (let affected = concat (map (select_actives_for_pane g) pane_keys) in
      (affected,
       g\<lparr>rg_attachments := update_where (\<lambda>r. la_attachment_id r \<in> set (map la_attachment_id affected))
            (\<lambda>r. r\<lparr>la_status := Att_stale, la_last_status_at := now_iso\<rparr>) (rg_attachments g)\<rparr>))"

text \<open>The attachments the reader walks: every active row (\<open>_list_active_attachments\<close>).\<close>

definition list_active_attachments :: "registry \<Rightarrow> attachment_row list" where
  "list_active_attachments g =
     concat (map (\<lambda>r. case select_for_agent_path g (la_agent_id r) (la_log_path r) of
                        Some full \<Rightarrow> if la_status full = Att_active then [full] else []
                      | None \<Rightarrow> [])
       (filter (\<lambda>r. la_status r = Att_active) (rg_attachments g)))"

subsection \<open>The table \<open>log_offsets\<close>\<close>

definition offset_key :: "offset_row \<Rightarrow> string \<times> string" where
  "offset_key r = (lo_agent_id r, lo_log_path r)"

definition lo_select :: "registry \<Rightarrow> string \<Rightarrow> string \<Rightarrow> offset_row option" where
  "lo_select g agent_id log_path = lookup_row offset_key (agent_id, log_path) (rg_offsets g)"

definition lo_insert_initial :: "string \<Rightarrow> string \<Rightarrow> timestamp \<Rightarrow> registry \<Rightarrow> exc + registry" where
  "lo_insert_initial agent_id log_path timestamp g =
     (if (agent_id, log_path) \<in> set (map offset_key (rg_offsets g))
      then Inl IntegrityError
      else Inr (g\<lparr>rg_offsets := rg_offsets g @
             [\<lparr>lo_agent_id = agent_id, lo_log_path = log_path, lo_byte_offset = 0, lo_line_offset = 0,
               lo_last_event_offset = 0, lo_last_output_at = None, lo_file_inode = None,
               lo_file_size_seen = 0, lo_created_at = timestamp, lo_updated_at = timestamp\<rparr>]\<rparr>))"

definition lo_update :: "string \<Rightarrow> string \<Rightarrow> (offset_row \<Rightarrow> offset_row) \<Rightarrow> registry \<Rightarrow> registry" where
  "lo_update agent_id log_path f g =
     g\<lparr>rg_offsets := update_where (\<lambda>r. offset_key r = (agent_id, log_path)) f (rg_offsets g)\<rparr>"

definition lo_reset :: "string \<Rightarrow> string \<Rightarrow> string option \<Rightarrow> int \<Rightarrow> timestamp \<Rightarrow> registry \<Rightarrow> registry" where
  "lo_reset agent_id log_path file_inode file_size_seen timestamp =
     lo_update agent_id log_path
       (\<lambda>r. r\<lparr>lo_byte_offset := 0, lo_line_offset := 0, lo_last_event_offset := 0,
              lo_file_inode := file_inode, lo_file_size_seen := file_size_seen, lo_updated_at := timestamp\<rparr>)"

definition update_file_observation ::
  "string \<Rightarrow> string \<Rightarrow> string option \<Rightarrow> int \<Rightarrow> timestamp option \<Rightarrow> timestamp \<Rightarrow> registry \<Rightarrow> registry" where
  "update_file_observation agent_id log_path file_inode file_size_seen last_output_at timestamp =
     lo_update agent_id log_path
       (\<lambda>r. r\<lparr>lo_file_inode := file_inode, lo_file_size_seen := file_size_seen,
              lo_last_output_at := last_output_at, lo_updated_at := timestamp\<rparr>)"

definition require_row_exists :: "string \<Rightarrow> string \<Rightarrow> registry \<Rightarrow> exc + unit" where
  "require_row_exists agent_id log_path g =
     (if lo_select g agent_id log_path = None then Inl (OperationalError ''no log_offsets row'') else Inr ())"

text \<open>The values an advance writes.\<close>

record advance_values =
  av_byte_offset :: int
  av_line_offset :: int
  av_last_event_offset :: int
  av_file_inode :: "string option"
  av_file_size_seen :: int
  av_last_output_at :: "timestamp option"

definition advance_offset :: "string \<Rightarrow> string \<Rightarrow> advance_values \<Rightarrow> timestamp \<Rightarrow> registry \<Rightarrow> exc + registry" where
  "advance_offset agent_id log_path v timestamp g =
     (case require_row_exists agent_id log_path g of
        Inl e \<Rightarrow> Inl e
      | Inr _ \<Rightarrow> Inr (lo_update agent_id log_path
          (\<lambda>r. r\<lparr>lo_byte_offset := av_byte_offset v, lo_line_offset := av_line_offset v,
                 lo_last_event_offset := av_last_event_offset v, lo_file_inode := av_file_inode v,
                 lo_file_size_seen := av_file_size_seen v, lo_last_output_at := av_last_output_at v,
                 lo_updated_at := timestamp\<rparr>) g))"

subsection \<open>Observing the file\<close>

record file_stat =
  fs_inode :: string
  fs_size :: int

datatype file_change = Unchanged | Truncated | Recreated | Missing

definition detect_file_change :: "file_stat option \<Rightarrow> string option \<Rightarrow> int \<Rightarrow> file_change" where
  "detect_file_change stat stored_inode stored_size_seen =
     (case stat of
        None \<Rightarrow> Missing
      | Some st \<Rightarrow>
          (case stored_inode of
             None \<Rightarrow> Unchanged
           | Some inode \<Rightarrow>
               if fs_inode st \<noteq> inode then Recreated
               else if fs_size st < stored_size_seen then Truncated
               else Unchanged))"

subsection \<open>Facts\<close>

lemma first_max_in: "first_max k xs = Some x \<Longrightarrow> x \<in> set xs"
  by (induction xs arbitrary: x) (auto split: option.splits if_splits)

lemma first_max_None [simp]: "first_max k xs = None \<longleftrightarrow> xs = []"
  by (cases xs) (auto split: option.splits)

lemma first_max_ge: "first_max k xs = Some x \<Longrightarrow> y \<in> set xs \<Longrightarrow> k y \<le> k x"
  by (induction xs arbitrary: x y) (force split: option.splits if_splits)+

lemma lo_select_SomeD:
  "lo_select g a p = Some r \<Longrightarrow> r \<in> set (rg_offsets g) \<and> lo_agent_id r = a \<and> lo_log_path r = p"
  using lookup_row_SomeD [of offset_key "(a, p)" "rg_offsets g" r] by (simp add: lo_select_def offset_key_def)

lemma lo_select_lo_update:
  assumes "\<And>r. offset_key (f r) = offset_key r"
  shows "lo_select (lo_update a p f g) a' p' =
    map_option (\<lambda>r. if a = a' \<and> p = p' then f r else r) (lo_select g a' p')"
proof -
  have "lo_select (lo_update a p f g) a' p' =
      map_option (\<lambda>r. if offset_key r = (a, p) then f r else r) (lo_select g a' p')"
    using lookup_row_update_where [of offset_key f] assms by (simp add: lo_select_def lo_update_def)
  then show ?thesis
    by (cases "lo_select g a' p'") (auto dest!: lo_select_SomeD simp: offset_key_def)
qed

lemma registry_lo_update [simp]:
  "rg_agents (lo_update a p f g) = rg_agents g" "rg_containers (lo_update a p f g) = rg_containers g"
  "rg_panes (lo_update a p f g) = rg_panes g" "rg_attachments (lo_update a p f g) = rg_attachments g"
  by (simp_all add: lo_update_def)

end
