(* ===== verification/Audit_Lines.thy ===== *)
theory Audit_Lines
  imports Log_Tables
begin

text \<open>
  The audit lines of the registry subsystems in the events file: changes of an attachment
  (\<open>logs/audit.py\<close>), changes of a role (\<open>agents/audit.py\<close>) and scans that went wrong
  (\<open>discovery/service.py\<close>, \<open>discovery/pane_service.py\<close>). The file is the list of what was appended
  (\<open>append_event\<close> of \<open>events/writer.py\<close>, without the time stamp it adds).
\<close>

record attachment_change =
  ac_attachment_id :: string
  ac_agent_id :: string
  ac_prior_status :: "attachment_status option"
  ac_new_status :: attachment_status
  ac_prior_path :: "string option"
  ac_new_path :: string
  ac_prior_pipe_target :: "string option"
  ac_source :: string
  ac_socket_peer_uid :: int

record role_change =
  rc_agent_id :: string
  rc_prior_role :: "string option"
  rc_new_role :: string
  rc_confirm_provided :: bool
  rc_socket_peer_uid :: int

text \<open>
  Failures of a scan, of one container (\<open>PerContainerError\<close>) or of one socket (\<open>PerScopeError\<close>).
  The message of the former tells two failures of a container apart; the wording of the latter is left out.
\<close>

record container_error =
  ce_container_id :: string
  ce_code :: string
  ce_message :: string

record truncation_note =
  tn_container_id :: string
  tn_tmux_socket_path :: string
  tn_tmux_pane_id :: string
  tn_field :: string
  tn_original_len :: nat

record scope_error =
  pe_container_id :: string
  pe_tmux_socket_path :: "string option"
  pe_error_code :: string
  pe_pane_truncations :: "truncation_note list"

datatype audit_line =
    Log_attachment_change attachment_change
  | Agent_role_change role_change
  | Container_scan_degraded string "string option" "container_error list"
  | Pane_scan_degraded string "string option" "scope_error list"

text \<open>The events file is absent (\<open>None\<close>: nothing happens) or a list of lines.\<close>

definition append_audit_line :: "exc option \<Rightarrow> audit_line \<Rightarrow> audit_line list option \<Rightarrow> exc + audit_line list option" where
  "append_audit_line fails line events_file =
     (case events_file of
        None \<Rightarrow> Inr None
      | Some rows \<Rightarrow> (case fails of Some e \<Rightarrow> Inl e | None \<Rightarrow> Inr (Some (rows @ [line]))))"

end
