(* ===== verification/Log_Lifecycle.thy ===== *)
theory Log_Lifecycle
  imports Audit_Lines
begin

text \<open>
  Lifecycle events of log attachments with their suppression (\<open>logs/lifecycle.py\<close>) and the audit
  records of attachment changes (\<open>logs/audit.py\<close>). The suppression registry is the module's
  in-memory state; the lifecycle log and the events file are the lists of what was written.
\<close>

subsection \<open>Suppression\<close>

record suppression =
  sp_missing :: "(string \<times> string) set"
  sp_returned :: "(string \<times> string \<times> string) set"
  sp_rotated :: "(string \<times> string \<times> string option \<times> string option) set"
  sp_orphans :: "(string \<times> pane_key \<times> string) set"

definition no_suppression :: suppression where
  "no_suppression = \<lparr>sp_missing = {}, sp_returned = {}, sp_rotated = {}, sp_orphans = {}\<rparr>"

definition should_emit_missing :: "string \<Rightarrow> string \<Rightarrow> suppression \<Rightarrow> bool \<times> suppression" where
  "should_emit_missing agent_id log_path s =
     (if (agent_id, log_path) \<in> sp_missing s then (False, s)
      else (True, s\<lparr>sp_missing := insert (agent_id, log_path) (sp_missing s)\<rparr>))"

definition reset_missing :: "string \<Rightarrow> string \<Rightarrow> suppression \<Rightarrow> suppression" where
  "reset_missing agent_id log_path s = s\<lparr>sp_missing := sp_missing s - {(agent_id, log_path)}\<rparr>"

definition should_emit_returned :: "string \<Rightarrow> string \<Rightarrow> string option \<Rightarrow> suppression \<Rightarrow> bool \<times> suppression" where
  "should_emit_returned agent_id log_path file_inode s =
     (let key = (agent_id, log_path, case file_inode of None \<Rightarrow> '''' | Some i \<Rightarrow> i)
      in if key \<in> sp_returned s then (False, s) else (True, s\<lparr>sp_returned := insert key (sp_returned s)\<rparr>))"

definition should_emit_rotation ::
  "string \<Rightarrow> string \<Rightarrow> string option \<Rightarrow> string option \<Rightarrow> suppression \<Rightarrow> bool \<times> suppression" where
  "should_emit_rotation agent_id log_path prior_inode new_inode s =
     (let key = (agent_id, log_path, prior_inode, new_inode)
      in if key \<in> sp_rotated s then (False, s) else (True, s\<lparr>sp_rotated := insert key (sp_rotated s)\<rparr>))"

definition should_emit_orphan :: "string \<Rightarrow> pane_key \<Rightarrow> string \<Rightarrow> suppression \<Rightarrow> bool \<times> suppression" where
  "should_emit_orphan container_id pane observed_pipe_target s =
     (let key = (container_id, pane, observed_pipe_target)
      in if key \<in> sp_orphans s then (False, s) else (True, s\<lparr>sp_orphans := insert key (sp_orphans s)\<rparr>))"

subsection \<open>Emission\<close>

datatype lifecycle_event =
    Log_rotation_detected string string "string option" "string option" int int
  | Log_file_missing string string "string option" int
  | Log_file_returned string string "string option" string int
  | Log_attachment_orphan_detected string pane_key string
  | Mounts_json_oversized string int int
  | Audit_append_failed string string string

record lifecycle =
  lf_suppression :: suppression
  lf_log :: "lifecycle_event list"

definition emit_if :: "bool \<times> suppression \<Rightarrow> lifecycle_event \<Rightarrow> lifecycle \<Rightarrow> bool \<times> lifecycle" where
  "emit_if r e l =
     (case r of (ok, s) \<Rightarrow> (ok, \<lparr>lf_suppression = s, lf_log = (if ok then lf_log l @ [e] else lf_log l)\<rparr>))"

text \<open>Without a logger nothing is emitted and nothing is remembered.\<close>

definition emit_log_rotation_detected ::
  "bool \<Rightarrow> string \<Rightarrow> string \<Rightarrow> string option \<Rightarrow> string option \<Rightarrow> int \<Rightarrow> int \<Rightarrow> lifecycle \<Rightarrow> bool \<times> lifecycle" where
  "emit_log_rotation_detected logger agent_id log_path prior_inode new_inode prior_size new_size l =
     (if \<not> logger then (False, l)
      else emit_if (should_emit_rotation agent_id log_path prior_inode new_inode (lf_suppression l))
        (Log_rotation_detected agent_id log_path prior_inode new_inode prior_size new_size) l)"

definition emit_log_file_missing ::
  "bool \<Rightarrow> string \<Rightarrow> string \<Rightarrow> string option \<Rightarrow> int \<Rightarrow> lifecycle \<Rightarrow> bool \<times> lifecycle" where
  "emit_log_file_missing logger agent_id log_path last_known_inode last_known_size l =
     (if \<not> logger then (False, l)
      else emit_if (should_emit_missing agent_id log_path (lf_suppression l))
        (Log_file_missing agent_id log_path last_known_inode last_known_size) l)"

definition emit_log_file_returned ::
  "bool \<Rightarrow> string \<Rightarrow> string \<Rightarrow> string option \<Rightarrow> string \<Rightarrow> int \<Rightarrow> lifecycle \<Rightarrow> bool \<times> lifecycle" where
  "emit_log_file_returned logger agent_id log_path prior_inode new_inode new_size l =
     (if \<not> logger then (False, l)
      else emit_if (should_emit_returned agent_id log_path (Some new_inode) (lf_suppression l))
        (Log_file_returned agent_id log_path prior_inode new_inode new_size) l)"

definition emit_log_attachment_orphan_detected ::
  "bool \<Rightarrow> string \<Rightarrow> pane_key \<Rightarrow> string \<Rightarrow> lifecycle \<Rightarrow> bool \<times> lifecycle" where
  "emit_log_attachment_orphan_detected logger container_id pane observed_pipe_target l =
     (if \<not> logger then (False, l)
      else emit_if (should_emit_orphan container_id pane observed_pipe_target (lf_suppression l))
        (Log_attachment_orphan_detected container_id pane observed_pipe_target) l)"

definition emit_mounts_json_oversized :: "bool \<Rightarrow> string \<Rightarrow> int \<Rightarrow> int \<Rightarrow> lifecycle \<Rightarrow> lifecycle" where
  "emit_mounts_json_oversized logger container_id observed_count max_count l =
     (if \<not> logger then l else l\<lparr>lf_log := lf_log l @ [Mounts_json_oversized container_id observed_count max_count]\<rparr>)"

definition reset_suppression_for_path :: "string \<Rightarrow> string \<Rightarrow> lifecycle \<Rightarrow> lifecycle" where
  "reset_suppression_for_path agent_id log_path l =
     l\<lparr>lf_suppression := reset_missing agent_id log_path (lf_suppression l)\<rparr>"

subsection \<open>Audit records\<close>

definition append_log_attachment_change ::
  "exc option \<Rightarrow> attachment_change \<Rightarrow> audit_line list option \<Rightarrow> exc + audit_line list option" where
  "append_log_attachment_change fails c = append_audit_line fails (Log_attachment_change c)"

subsection \<open>Facts\<close>

lemma emit_if_log: "emit_if (ok, s) e l = (b, l') \<Longrightarrow> b = ok \<and> lf_log l' = lf_log l @ (if ok then [e] else [])"
  by (auto simp: emit_if_def)

text \<open>A second event of the same rotation key is suppressed, as is a second missing file.\<close>

lemma rotation_suppressed:
  assumes "emit_log_rotation_detected True a p i j ps ns l = (b, l')"
  shows "emit_log_rotation_detected True a p i j ps' ns' l' = (False, l')"
  using assms
  by (auto simp: emit_log_rotation_detected_def emit_if_def should_emit_rotation_def Let_def split: if_splits)

lemma missing_suppressed:
  assumes "emit_log_file_missing True a p i n l = (b, l')"
  shows "emit_log_file_missing True a p i' n' l' = (False, l')"
  using assms by (auto simp: emit_log_file_missing_def emit_if_def should_emit_missing_def split: if_splits)

end
