(* ===== verification/Reader_Recovery.thy ===== *)
theory Reader_Recovery
  imports Log_Lifecycle
begin

text \<open>
  One observation of a log file by the reader and its effect on the attachment and the offsets
  (\<open>logs/reader_recovery.py\<close>). The environment says what \<open>stat\<close> returns, whether the transaction
  raises, whether the append to the events file raises, and whether the daemon has a logger.
\<close>

record log_world =
  lw_registry :: registry
  lw_lifecycle :: lifecycle
  lw_audit :: "audit_line list option"

record recovery_env =
  re_stat :: "file_stat option"
  re_tx_error :: "exc option"
  re_audit_error :: "exc option"
  re_logger :: bool
  re_daemon_uid :: int

record cycle_result =
  cy_change :: file_change
  cy_state_mutated :: bool
  cy_lifecycle_event_emitted :: "string option"
  cy_audit_row_appended :: bool

definition noop_result :: cycle_result where
  "noop_result = \<lparr>cy_change = Unchanged, cy_state_mutated = False, cy_lifecycle_event_emitted = None,
                  cy_audit_row_appended = False\<rparr>"

definition select_attachment_for_recovery :: "registry \<Rightarrow> string \<Rightarrow> string \<Rightarrow> attachment_row option" where
  "select_attachment_for_recovery g agent_id log_path =
     (case select_active_for_agent_path g agent_id log_path of
        Some r \<Rightarrow> Some r
      | None \<Rightarrow>
          (case select_most_recent_for_agent g agent_id of
             None \<Rightarrow> None
           | Some r \<Rightarrow> if la_log_path r \<noteq> log_path \<or> la_status r \<noteq> Att_stale then None else Some r))"

definition classify_from_stat :: "file_stat option \<Rightarrow> string option \<Rightarrow> int \<Rightarrow> file_change" where
  "classify_from_stat current_stat stored_inode stored_size_seen =
     (case current_stat of
        None \<Rightarrow> Missing
      | Some st \<Rightarrow>
          if stored_inode = None then Unchanged
          else if Some (fs_inode st) \<noteq> stored_inode then Recreated
          else if fs_size st < stored_size_seen then Truncated
          else Unchanged)"

definition handle_rotation ::
  "recovery_env \<Rightarrow> attachment_row \<Rightarrow> offset_row \<Rightarrow> file_stat \<Rightarrow> file_change \<Rightarrow> timestamp \<Rightarrow> log_world \<Rightarrow>
    (exc + cycle_result) \<times> log_world" where
  "handle_rotation e att off st change timestamp w =
     (let new_inode = (if change = Truncated then lo_file_inode off else Some (fs_inode st)) in
      case re_tx_error e of
        Some x \<Rightarrow> (Inl x, w)
      | None \<Rightarrow>
          (let g = lo_reset (la_agent_id att) (la_log_path att) new_inode (fs_size st) timestamp (lw_registry w);
               (emitted, l) = emit_log_rotation_detected (re_logger e) (la_agent_id att) (la_log_path att)
                  (lo_file_inode off) new_inode (lo_file_size_seen off) (fs_size st) (lw_lifecycle w)
           in (Inr \<lparr>cy_change = change, cy_state_mutated = True,
                    cy_lifecycle_event_emitted = (if emitted then Some ''log_rotation_detected'' else None),
                    cy_audit_row_appended = False\<rparr>,
               w\<lparr>lw_registry := g, lw_lifecycle := l\<rparr>)))"

definition handle_missing ::
  "recovery_env \<Rightarrow> attachment_row \<Rightarrow> offset_row \<Rightarrow> timestamp \<Rightarrow> log_world \<Rightarrow> (exc + cycle_result) \<times> log_world" where
  "handle_missing e att off timestamp w =
     (if la_status att = Att_active then
        case re_tx_error e of
          Some x \<Rightarrow> (Inl x, w)
        | None \<Rightarrow>
            (case la_update_status (la_attachment_id att) Att_stale timestamp None None (lw_registry w) of
               Inl x \<Rightarrow> (Inl x, w)
             | Inr g \<Rightarrow>
                 (let (emitted, l) = emit_log_file_missing (re_logger e) (la_agent_id att) (la_log_path att)
                        (lo_file_inode off) (lo_file_size_seen off) (lw_lifecycle w);
                      w' = w\<lparr>lw_registry := g, lw_lifecycle := l\<rparr>
                  in case append_log_attachment_change (re_audit_error e)
                         \<lparr>ac_attachment_id = la_attachment_id att, ac_agent_id = la_agent_id att,
                          ac_prior_status = Some Att_active, ac_new_status = Att_stale,
                          ac_prior_path = Some (la_log_path att), ac_new_path = la_log_path att,
                          ac_prior_pipe_target = None, ac_source = ''explicit'',
                          ac_socket_peer_uid = re_daemon_uid e\<rparr> (lw_audit w) of
                       Inl x \<Rightarrow> (Inl x, w')
                     | Inr rows \<Rightarrow>
                         (Inr \<lparr>cy_change = Missing, cy_state_mutated = True,
                               cy_lifecycle_event_emitted = (if emitted then Some ''log_file_missing'' else None),
                               cy_audit_row_appended = True\<rparr>,
                          w'\<lparr>lw_audit := rows\<rparr>)))
      else
        (let (emitted, l) = emit_log_file_missing (re_logger e) (la_agent_id att) (la_log_path att)
               (lo_file_inode off) (lo_file_size_seen off) (lw_lifecycle w)
         in (Inr \<lparr>cy_change = Missing, cy_state_mutated = False,
                  cy_lifecycle_event_emitted = (if emitted then Some ''log_file_missing'' else None),
                  cy_audit_row_appended = False\<rparr>, w\<lparr>lw_lifecycle := l\<rparr>)))"

definition reader_cycle_offset_recovery ::
  "recovery_env \<Rightarrow> string \<Rightarrow> string \<Rightarrow> timestamp \<Rightarrow> log_world \<Rightarrow> (exc + cycle_result) \<times> log_world" where
  "reader_cycle_offset_recovery e agent_id log_path timestamp w =
     (case (select_attachment_for_recovery (lw_registry w) agent_id log_path,
            lo_select (lw_registry w) agent_id log_path) of
        (Some att, Some off) \<Rightarrow>
          (case (la_status att, re_stat e) of
             (Att_stale, Some st) \<Rightarrow>
               (let (emitted, l) = emit_log_file_returned (re_logger e) agent_id log_path (lo_file_inode off)
                      (fs_inode st) (fs_size st) (lw_lifecycle w)
                in (Inr \<lparr>cy_change = Unchanged, cy_state_mutated = False,
                         cy_lifecycle_event_emitted = (if emitted then Some ''log_file_returned'' else None),
                         cy_audit_row_appended = False\<rparr>, w\<lparr>lw_lifecycle := l\<rparr>))
           | _ \<Rightarrow>
               (let change = classify_from_stat (re_stat e) (lo_file_inode off) (lo_file_size_seen off) in
                if change = Unchanged then (Inr noop_result, w)
                else if la_status att \<noteq> Att_active \<and> change \<noteq> Missing then
                  (Inr \<lparr>cy_change = change, cy_state_mutated = False, cy_lifecycle_event_emitted = None,
                        cy_audit_row_appended = False\<rparr>, w)
                else (case re_stat e of
                        None \<Rightarrow> handle_missing e att off timestamp w
                      | Some st \<Rightarrow> handle_rotation e att off st change timestamp w)))
      | _ \<Rightarrow> (Inr \<lparr>cy_change = Missing, cy_state_mutated = False, cy_lifecycle_event_emitted = None,
                   cy_audit_row_appended = False\<rparr>, w))"

subsection \<open>Equivalence with the pure classifier\<close>

lemma classify_from_stat_detect:
  "classify_from_stat st inode seen = detect_file_change st inode seen"
  by (auto simp: classify_from_stat_def detect_file_change_def split: option.splits)

subsection \<open>Effects\<close>

lemma classify_from_stat_cases:
  "classify_from_stat st inode seen = Missing \<longleftrightarrow> st = None"
  "classify_from_stat st None seen = (if st = None then Missing else Unchanged)"
  "classify_from_stat None inode seen = Missing"
  by (auto simp: classify_from_stat_def split: option.splits)

lemma offset_key_simps [simp]:
  "offset_key (r\<lparr>lo_byte_offset := b, lo_line_offset := l, lo_last_event_offset := v, lo_file_inode := i,
     lo_file_size_seen := s, lo_updated_at := t\<rparr>) = offset_key r"
  by (simp add: offset_key_def)

lemma lo_select_reset:
  "lo_select (lo_reset a p i s t g) a' p' =
    map_option (\<lambda>r. if a = a' \<and> p = p'
      then r\<lparr>lo_byte_offset := 0, lo_line_offset := 0, lo_last_event_offset := 0,
             lo_file_inode := i, lo_file_size_seen := s, lo_updated_at := t\<rparr> else r) (lo_select g a' p')"
  unfolding lo_reset_def by (rule lo_select_lo_update) simp

lemma la_update_status_offsets: "la_update_status i s t x y g = Inr g' \<Longrightarrow> rg_offsets g' = rg_offsets g"
  by (auto simp: la_update_status_def Let_def split: if_splits)

lemma find_SomeD: "find P xs = Some x \<Longrightarrow> x \<in> set xs \<and> P x"
  by (induction xs) (auto split: if_splits)

lemma select_active_for_agent_path_SomeD:
  "select_active_for_agent_path g a p = Some r \<Longrightarrow>
    r \<in> set (rg_attachments g) \<and> la_agent_id r = a \<and> la_log_path r = p \<and> la_status r = Att_active"
  by (auto simp: select_active_for_agent_path_def dest: find_SomeD)

lemma select_attachment_for_recovery_SomeD:
  assumes "select_attachment_for_recovery g a p = Some r"
  shows "r \<in> set (rg_attachments g)" "la_agent_id r = a" "la_log_path r = p" "la_status r \<in> {Att_active, Att_stale}"
proof -
  have "r \<in> set (rg_attachments g) \<and> la_agent_id r = a \<and> la_log_path r = p \<and> la_status r \<in> {Att_active, Att_stale}"
  proof (cases "select_active_for_agent_path g a p")
    case None
    then show ?thesis using assms
      by (auto simp: select_attachment_for_recovery_def select_most_recent_for_agent_def
          dest!: first_max_in split: option.splits if_splits)
  next
    case (Some r')
    then show ?thesis using assms select_active_for_agent_path_SomeD [OF Some]
      by (simp add: select_attachment_for_recovery_def)
  qed
  then show "r \<in> set (rg_attachments g)" "la_agent_id r = a" "la_log_path r = p" "la_status r \<in> {Att_active, Att_stale}"
    by blast+
qed

text \<open>The branches of an observation.\<close>

lemma recovery_no_row:
  assumes "select_attachment_for_recovery (lw_registry w) a p = None \<or> lo_select (lw_registry w) a p = None"
  shows "\<exists>r. reader_cycle_offset_recovery e a p t w = (Inr r, w) \<and> cy_change r = Missing"
  using assms by (auto simp: reader_cycle_offset_recovery_def split: option.splits)

lemma recovery_active:
  assumes "select_attachment_for_recovery (lw_registry w) a p = Some att" "la_status att = Att_active"
    and "lo_select (lw_registry w) a p = Some off"
  shows "reader_cycle_offset_recovery e a p t w =
    (case re_stat e of
       None \<Rightarrow> handle_missing e att off t w
     | Some st \<Rightarrow>
         if classify_from_stat (re_stat e) (lo_file_inode off) (lo_file_size_seen off) = Unchanged then (Inr noop_result, w)
         else handle_rotation e att off st (classify_from_stat (re_stat e) (lo_file_inode off) (lo_file_size_seen off)) t w)"
  using assms by (cases "re_stat e") (simp_all add: reader_cycle_offset_recovery_def Let_def classify_from_stat_cases)

lemma recovery_stale:
  assumes "select_attachment_for_recovery (lw_registry w) a p = Some att" "la_status att = Att_stale"
    and "lo_select (lw_registry w) a p = Some off"
  shows "\<exists>r l. reader_cycle_offset_recovery e a p t w = (Inr r, w\<lparr>lw_lifecycle := l\<rparr>) \<and>
    cy_change r = (if re_stat e = None then Missing else Unchanged)"
  using assms
  by (cases "re_stat e")
    (simp_all add: reader_cycle_offset_recovery_def Let_def classify_from_stat_cases handle_missing_def split_beta,
      blast+)

lemma handle_missing_effect:
  assumes "handle_missing e att off t w = (res, w')"
  shows "rg_offsets (lw_registry w') = rg_offsets (lw_registry w)" "res = Inr r \<Longrightarrow> cy_change r = Missing"
  using assms la_update_status_offsets
  by (auto simp: handle_missing_def Let_def split: option.splits prod.splits sum.splits if_splits)

lemma handle_missing_active:
  assumes "la_status att = Att_active" "re_tx_error e = None" "re_audit_error e = None"
    and "la_update_status (la_attachment_id att) Att_stale t None None (lw_registry w) = Inr g"
    and "emit_log_file_missing (re_logger e) (la_agent_id att) (la_log_path att)
      (lo_file_inode off) (lo_file_size_seen off) (lw_lifecycle w) = (emitted, l)"
  shows "\<exists>c. handle_missing e att off t w =
    (Inr \<lparr>cy_change = Missing, cy_state_mutated = True,
          cy_lifecycle_event_emitted = (if emitted then Some ''log_file_missing'' else None),
          cy_audit_row_appended = True\<rparr>,
     w\<lparr>lw_registry := g, lw_lifecycle := l, lw_audit := map_option (\<lambda>rows. rows @ [c]) (lw_audit w)\<rparr>)"
proof (cases "lw_audit w")
  case None
  then show ?thesis using assms
    by (simp add: handle_missing_def append_log_attachment_change_def append_audit_line_def Let_def)
next
  case (Some rows)
  then show ?thesis using assms
    by (intro exI) (simp add: handle_missing_def append_log_attachment_change_def append_audit_line_def Let_def)
qed

lemma handle_rotation_ok:
  assumes "re_tx_error e = None"
  shows "\<exists>r l. handle_rotation e att off st change t w = (Inr r,
      w\<lparr>lw_registry := lo_reset (la_agent_id att) (la_log_path att)
            (if change = Truncated then lo_file_inode off else Some (fs_inode st)) (fs_size st) t (lw_registry w),
        lw_lifecycle := l\<rparr>) \<and> cy_change r = change"
  using assms by (simp add: handle_rotation_def Let_def split_beta) blast

lemma handle_rotation_change:
  "handle_rotation e att off st change t w = (Inr r, w') \<Longrightarrow> cy_change r = change"
  by (auto simp: handle_rotation_def Let_def split: option.splits prod.splits)

lemma recovery_cases:
  assumes "reader_cycle_offset_recovery e a p t w = (res, w')"
  obtains (quiet) r l where "res = Inr r" "w' = w\<lparr>lw_lifecycle := l\<rparr>" "cy_change r \<in> {Unchanged, Missing}"
  | (gone) att off where "handle_missing e att off t w = (res, w')"
  | (rotated) att off st change where "select_attachment_for_recovery (lw_registry w) a p = Some att"
      "lo_select (lw_registry w) a p = Some off" "change \<in> {Truncated, Recreated}"
      "change = classify_from_stat (Some st) (lo_file_inode off) (lo_file_size_seen off)"
      "handle_rotation e att off st change t w = (res, w')"
proof (cases "select_attachment_for_recovery (lw_registry w) a p = None \<or> lo_select (lw_registry w) a p = None")
  case True
  from recovery_no_row [OF True, of e t] obtain r where
    "reader_cycle_offset_recovery e a p t w = (Inr r, w)" "cy_change r = Missing" by blast
  then show ?thesis using quiet [of r "lw_lifecycle w"] assms by simp
next
  case False
  then obtain att off where s: "select_attachment_for_recovery (lw_registry w) a p = Some att"
    "lo_select (lw_registry w) a p = Some off" by auto
  have "la_status att \<in> {Att_active, Att_stale}" using select_attachment_for_recovery_SomeD(4) [OF s(1)] .
  then consider "la_status att = Att_active" | "la_status att = Att_stale" by blast
  then show ?thesis
  proof cases
    case 1
    note eq = recovery_active [OF s(1) 1 s(2), of e t]
    show ?thesis
    proof (cases "re_stat e")
      case None
      then show ?thesis using gone [of att off] eq assms by simp
    next
      case (Some st)
      let ?c = "classify_from_stat (Some st) (lo_file_inode off) (lo_file_size_seen off)"
      show ?thesis
      proof (cases "?c = Unchanged")
        case True
        then have "res = Inr noop_result" "w' = w\<lparr>lw_lifecycle := lw_lifecycle w\<rparr>" using eq assms Some by simp_all
        then show ?thesis by (rule quiet) (simp add: noop_result_def)
      next
        case False
        then have "?c \<in> {Truncated, Recreated}" using classify_from_stat_cases(1) [of "Some st"] by (cases ?c) auto
        then show ?thesis using rotated [OF s _ refl, of st] eq assms Some False by simp
      qed
    qed
  next
    case 2
    from recovery_stale [OF s(1) 2 s(2), of e t] obtain r l where
      "reader_cycle_offset_recovery e a p t w = (Inr r, w\<lparr>lw_lifecycle := l\<rparr>)"
      "cy_change r = (if re_stat e = None then Missing else Unchanged)" by blast
    then show ?thesis using quiet [of r l] assms by (simp split: if_splits)
  qed
qed

text \<open>An observation that finds nothing changed leaves the tables alone.\<close>

lemma recovery_unchanged:
  assumes "reader_cycle_offset_recovery e a p t w = (Inr r, w')" "cy_change r = Unchanged"
  shows "lw_registry w' = lw_registry w"
  using assms(1)
proof (cases rule: recovery_cases)
  case gone
  then show ?thesis using handle_missing_effect(2) [of e _ _ t w "Inr r"] assms(2) by auto
next
  case rotated
  then show ?thesis using handle_rotation_change assms(2) by fastforce
qed simp

text \<open>
  A row whose inode was never recorded: no observation resets it or records one.
\<close>

lemma recovery_without_inode:
  assumes "reader_cycle_offset_recovery e a p t w = (res, w')"
    and "lo_select (lw_registry w) a p = Some off" "lo_file_inode off = None"
  shows "rg_offsets (lw_registry w') = rg_offsets (lw_registry w)"
    and "res = Inr r \<Longrightarrow> cy_change r \<in> {Unchanged, Missing}"
proof -
  have "rg_offsets (lw_registry w') = rg_offsets (lw_registry w) \<and>
      (res = Inr r \<longrightarrow> cy_change r \<in> {Unchanged, Missing})"
    using assms(1)
  proof (cases rule: recovery_cases)
    case (gone att off)
    then show ?thesis using handle_missing_effect [OF gone] by simp
  next
    case (rotated att off' st change)
    then show ?thesis using assms(2,3) by (simp add: classify_from_stat_cases)
  qed auto
  then show "rg_offsets (lw_registry w') = rg_offsets (lw_registry w)"
    "res = Inr r \<Longrightarrow> cy_change r \<in> {Unchanged, Missing}" by blast+
qed

subsection \<open>The behaviour table\<close>

lemma attachments_ok_unique:
  assumes "attachments_ok rows" "r \<in> set rows"
  shows "lookup_row la_attachment_id (la_attachment_id r) rows = Some r"
  using assms by (intro lookup_row_unique) (auto simp: attachments_ok_def)

lemma distinct_active_paths_update:
  assumes "distinct (map la_log_path (filter (\<lambda>r. la_status r = Att_active) rows))"
    and "\<And>r. la_status (f r) \<noteq> Att_active"
  shows "distinct (map la_log_path (filter (\<lambda>r. la_status r = Att_active) (update_where P f rows)))"
  using assms(1)
proof (induction rows)
  case (Cons r rows)
  have sub: "set (filter (\<lambda>r. la_status r = Att_active) (update_where P f rows)) \<subseteq>
      set (filter (\<lambda>r. la_status r = Att_active) rows)"
    using assms(2) by (auto simp: set_update_where)
  show ?case using Cons assms(2) sub by (auto split: if_splits)
qed simp

lemma la_update_status_leaves_active:
  assumes "attachments_ok (rg_attachments g)" "s \<noteq> Att_active"
  shows "\<exists>g'. la_update_status i s t x y g = Inr g'"
proof -
  have "attachments_ok (update_where (\<lambda>r. la_attachment_id r = i)
      (\<lambda>r. r\<lparr>la_status := s, la_last_status_at := t, la_superseded_at := x, la_superseded_by := y\<rparr>) (rg_attachments g))"
    using assms unfolding attachments_ok_def
    by (intro conjI) (simp add: map_key_update_where, intro distinct_active_paths_update, simp_all)
  then show ?thesis by (simp add: la_update_status_def)
qed

text \<open>
  C14: what one observation does to an active attachment, when neither the transaction nor the append
  to the events file fails. Nothing changes when the file is as it was. A truncated or recreated
  file resets both offsets to zero, keeps or replaces the inode and records the size. A missing file
  makes the attachment stale, leaves the offsets as they are and appends one audit record.
\<close>

theorem recovery_behaviour_table:
  assumes "select_active_for_agent_path (lw_registry w) a p = Some att" "lo_select (lw_registry w) a p = Some off"
    and "attachments_ok (rg_attachments (lw_registry w))" "re_tx_error e = None" "re_audit_error e = None"
    and "reader_cycle_offset_recovery e a p t w = (res, w')"
  shows "\<exists>r. res = Inr r \<and> cy_change r = detect_file_change (re_stat e) (lo_file_inode off) (lo_file_size_seen off) \<and>
    (case (cy_change r, re_stat e) of
       (Missing, _) \<Rightarrow>
         rg_offsets (lw_registry w') = rg_offsets (lw_registry w) \<and>
         la_update_status (la_attachment_id att) Att_stale t None None (lw_registry w) = Inr (lw_registry w') \<and>
         map_option length (lw_audit w') = map_option (\<lambda>rows. Suc (length rows)) (lw_audit w)
     | (Unchanged, _) \<Rightarrow> w' = w
     | (change, Some st) \<Rightarrow>
         rg_attachments (lw_registry w') = rg_attachments (lw_registry w) \<and> lw_audit w' = lw_audit w \<and>
         lo_select (lw_registry w') a p =
           Some (off\<lparr>lo_byte_offset := 0, lo_line_offset := 0, lo_last_event_offset := 0,
             lo_file_inode := (if change = Truncated then lo_file_inode off else Some (fs_inode st)),
             lo_file_size_seen := fs_size st, lo_updated_at := t\<rparr>)
     | _ \<Rightarrow> False)"
proof -
  note att = select_active_for_agent_path_SomeD [OF assms(1)]
  have sel: "select_attachment_for_recovery (lw_registry w) a p = Some att"
    by (simp add: select_attachment_for_recovery_def assms(1))
  note eq = recovery_active [OF sel _ assms(2), of e t]
  show ?thesis
  proof (cases "re_stat e")
    case None
    obtain g where g: "la_update_status (la_attachment_id att) Att_stale t None None (lw_registry w) = Inr g"
      using la_update_status_leaves_active [OF assms(3)] by blast
    let ?em = "emit_log_file_missing (re_logger e) (la_agent_id att) (la_log_path att)
      (lo_file_inode off) (lo_file_size_seen off) (lw_lifecycle w)"
    have h: "handle_missing e att off t w = (res, w')" using eq att None assms(6) by simp
    obtain em l where em: "?em = (em, l)" by (cases ?em)
    from handle_missing_active [OF _ assms(4,5) g em] h att
    obtain r c where "res = Inr r" "cy_change r = Missing" and w': "w' = w\<lparr>lw_registry := g, lw_lifecycle := l,
        lw_audit := map_option (\<lambda>rows. rows @ [c]) (lw_audit w)\<rparr>" by auto
    moreover have "map_option length (lw_audit w') = map_option (\<lambda>rows. Suc (length rows)) (lw_audit w)"
      unfolding w' by (cases "lw_audit w") simp_all
    moreover have "lw_registry w' = g" by (simp add: w')
    ultimately show ?thesis using None g la_update_status_offsets [OF g] by (simp add: detect_file_change_def)
  next
    case (Some st)
    let ?c = "classify_from_stat (Some st) (lo_file_inode off) (lo_file_size_seen off)"
    have d: "detect_file_change (Some st) (lo_file_inode off) (lo_file_size_seen off) = ?c"
      by (simp add: classify_from_stat_detect)
    consider "?c = Unchanged" | "?c = Truncated" | "?c = Recreated"
      using classify_from_stat_cases(1) [of "Some st"] by (cases ?c) auto
    then show ?thesis
    proof cases
      case 1
      then show ?thesis using eq att Some d assms(6) by (simp add: noop_result_def)
    next
      case 2
      then have "handle_rotation e att off st Truncated t w = (res, w')" using eq att Some assms(6) by simp
      with handle_rotation_ok [OF assms(4), of att off st Truncated t w] obtain r l where
        "res = Inr r" "cy_change r = Truncated" and w': "w' = w\<lparr>lw_registry := lo_reset (la_agent_id att) (la_log_path att)
            (lo_file_inode off) (fs_size st) t (lw_registry w), lw_lifecycle := l\<rparr>"
        by auto
      moreover have "lo_select (lw_registry w') a p = Some (off\<lparr>lo_byte_offset := 0, lo_line_offset := 0,
          lo_last_event_offset := 0, lo_file_inode := lo_file_inode off, lo_file_size_seen := fs_size st, lo_updated_at := t\<rparr>)"
        using att assms(2) by (simp add: w' lo_select_reset)
      moreover have "rg_attachments (lw_registry w') = rg_attachments (lw_registry w)" "lw_audit w' = lw_audit w"
        by (simp_all add: w' lo_reset_def)
      ultimately show ?thesis using 2 Some d by simp
    next
      case 3
      then have "handle_rotation e att off st Recreated t w = (res, w')" using eq att Some assms(6) by simp
      with handle_rotation_ok [OF assms(4), of att off st Recreated t w] obtain r l where
        "res = Inr r" "cy_change r = Recreated" and w': "w' = w\<lparr>lw_registry := lo_reset (la_agent_id att) (la_log_path att)
            (Some (fs_inode st)) (fs_size st) t (lw_registry w), lw_lifecycle := l\<rparr>"
        by auto
      moreover have "lo_select (lw_registry w') a p = Some (off\<lparr>lo_byte_offset := 0, lo_line_offset := 0,
          lo_last_event_offset := 0, lo_file_inode := Some (fs_inode st), lo_file_size_seen := fs_size st, lo_updated_at := t\<rparr>)"
        using att assms(2) by (simp add: w' lo_select_reset)
      moreover have "rg_attachments (lw_registry w') = rg_attachments (lw_registry w)" "lw_audit w' = lw_audit w"
        by (simp_all add: w' lo_reset_def)
      ultimately show ?thesis using 3 Some d by simp
    qed
  qed
qed

end
