(* ===== verification/Events_Reader.thy ===== *)
theory Events_Reader
  imports Follow_Sessions Debounce Reader_Recovery
begin

text \<open>
  The reader thread that turns log files into events (\<open>events/reader.py\<close>). One cycle of one attachment
  synthesizes the events of a quiet or dead pane, observes the file, reads from the persisted offset,
  splits the bytes into records, classifies and debounces each, commits the resulting events together
  with the new offset, and then appends each event to the JSONL file, sets its watermark and wakes the
  followers. What the file system, the clock, the random ids and the failing of SQLite or of an append
  do in a cycle is a record of the environment.
\<close>

subsection \<open>State\<close>

record sqlite_degraded =
  sd_since :: timestamp
  sd_attachment_id :: string
  sd_agent_id :: string
  sd_buffered_count :: nat

record jsonl_degraded =
  jd_since :: timestamp
  jd_pending_event_count :: nat

record reader_state =
  rs_windows :: windows
  rs_pane_exited_emitted :: "string set"
  rs_long_running_marked :: "string set"
  rs_degraded_sqlite :: "sqlite_degraded option"
  rs_degraded_jsonl :: "jsonl_degraded option"
  rs_active_attachments :: nat
  rs_attachments_in_failure :: "(string \<times> string \<times> exc) list"

text \<open>
  All a cycle can change: the routing database with the events, the registry with its offsets and the
  log of attachment changes, the lines of \<open>events.jsonl\<close> (an event row each; the watermark column is
  not part of a line), the sessions of the followers, and the reader itself.
\<close>

record reader_world =
  rw_db :: db
  rw_log :: log_world
  rw_jsonl :: "event_row list"
  rw_sessions :: "follow_registry option"
  rw_reader :: reader_state

text \<open>\<open>rc_elapsed now last\<close> is the time between two timestamps in milliseconds, \<open>None\<close> if one does not parse.\<close>

record reader_config =
  rc_byte_cap :: nat
  rc_excerpt_cap :: int
  rc_excerpt_marker :: "codepoint list"
  rc_window_ms :: int
  rc_pane_exited_grace :: int
  rc_long_running_grace :: int
  rc_unicode :: unicode_classes
  rc_elapsed :: "timestamp \<Rightarrow> timestamp \<Rightarrow> int option"

record attachment_env =
  ae_now_iso :: timestamp
  ae_now_monotonic :: int
  ae_recovery :: recovery_env
  ae_contents :: "string + bytes"
  ae_window_ids :: "nat \<Rightarrow> string"
  ae_commit_error :: "exc option"
  ae_synthetic_error :: "string \<Rightarrow> exc option"
  ae_append_fails :: "nat \<Rightarrow> bool"
  ae_watermark_fails :: "nat \<Rightarrow> bool"

record attachment_result =
  ar_events_emitted :: nat
  ar_bytes_read :: nat
  ar_failed :: bool
  ar_failure_class :: "string option"

definition empty_result :: attachment_result where
  "empty_result = \<lparr>ar_events_emitted = 0, ar_bytes_read = 0, ar_failed = False, ar_failure_class = None\<rparr>"

definition failed_result :: "string \<Rightarrow> attachment_result" where
  "failed_result cls = empty_result\<lparr>ar_failed := True, ar_failure_class := Some cls\<rparr>"

fun is_sqlite_error :: "exc \<Rightarrow> bool" where
  "is_sqlite_error IntegrityError = True"
| "is_sqlite_error (OperationalError _) = True"
| "is_sqlite_error _ = False"

subsection \<open>Bytes and records\<close>

definition record_text :: "bytes \<Rightarrow> codepoint list" where
  "record_text bs = decode_replace (map unat bs)"

definition strip_cr :: "bytes \<Rightarrow> bytes" where
  "strip_cr r = (if r \<noteq> [] \<and> last r = 13 then butlast r else r)"

definition split_complete_records :: "bytes \<Rightarrow> bytes list \<times> nat \<times> nat" where
  "split_complete_records raw =
     (if raw = [] then ([], 0, 0)
      else let complete_raw = butlast (py_split 10 raw); complete = map strip_cr complete_raw
           in (complete, sum_list (map length complete_raw) + length complete_raw, length complete))"

text \<open>\<open>lseek\<close> past the end of a file is no error; the read then returns nothing.\<close>

definition read_bytes :: "bytes \<Rightarrow> int \<Rightarrow> nat \<Rightarrow> bytes" where
  "read_bytes contents byte_offset cap = take cap (drop (nat byte_offset) contents)"

subsection \<open>After a commit: JSONL, watermark, followers\<close>

definition append_event_to_jsonl :: "nat \<Rightarrow> event_row \<Rightarrow> reader_world \<Rightarrow> reader_world" where
  "append_event_to_jsonl event_id row w =
     w\<lparr>rw_jsonl := rw_jsonl w @ [row\<lparr>ev_event_id := event_id, ev_jsonl_appended_at := None\<rparr>]\<rparr>"

definition set_degraded_sqlite :: "timestamp \<Rightarrow> string \<Rightarrow> string \<Rightarrow> nat \<Rightarrow> reader_world \<Rightarrow> reader_world" where
  "set_degraded_sqlite since attachment_id agent_id n w =
     w\<lparr>rw_reader := (rw_reader w)\<lparr>rs_degraded_sqlite := Some \<lparr>sd_since = since, sd_attachment_id = attachment_id,
         sd_agent_id = agent_id, sd_buffered_count = n\<rparr>\<rparr>\<rparr>"

definition row_attachment_id :: "event_row \<Rightarrow> string" where
  "row_attachment_id row = (case ev_log row of None \<Rightarrow> [] | Some c \<Rightarrow> lc_attachment_id c)"

definition append_mark_and_notify :: "attachment_env \<Rightarrow> nat \<Rightarrow> event_row \<Rightarrow> reader_world \<Rightarrow> bool \<times> reader_world" where
  "append_mark_and_notify e event_id row w =
     (if ae_append_fails e event_id then
        (False, w\<lparr>rw_reader := (rw_reader w)\<lparr>rs_degraded_jsonl := Some \<lparr>jd_since = ae_now_iso e,
           jd_pending_event_count =
             (case rs_degraded_jsonl (rw_reader w) of None \<Rightarrow> 0 | Some d \<Rightarrow> jd_pending_event_count d) + 1\<rparr>\<rparr>\<rparr>)
      else
        let w1 = append_event_to_jsonl event_id row w in
        if ae_watermark_fails e event_id then
          (False, set_degraded_sqlite (ae_now_iso e) (row_attachment_id row) (ev_agent_id row) 0 w1)
        else
          (True, w1\<lparr>rw_db := mark_jsonl_appended event_id (ae_now_iso e) (rw_db w1),
                    rw_sessions := map_option (notify (ev_agent_id row) (ev_event_type row)) (rw_sessions w1)\<rparr>))"

fun append_committed :: "attachment_env \<Rightarrow> (nat \<times> event_row) list \<Rightarrow> reader_world \<Rightarrow> reader_world" where
  "append_committed e [] w = w"
| "append_committed e ((event_id, row) # rest) w = append_committed e rest (snd (append_mark_and_notify e event_id row w))"

subsection \<open>The commit of a cycle\<close>

definition event_of_pending :: "attachment_row \<Rightarrow> pending_event \<Rightarrow> event_row" where
  "event_of_pending att ev =
     \<lparr>ev_event_id = 0, ev_event_type = pe_event_type ev, ev_agent_id = la_agent_id att,
      ev_observed_at = pe_observed_at ev, ev_excerpt = string_of_codepoints (pe_excerpt ev),
      ev_jsonl_appended_at = None,
      ev_log = Some \<lparr>lc_attachment_id = la_attachment_id att, lc_log_path = la_log_path att,
        lc_byte_range_start = pe_byte_range_start ev, lc_byte_range_end = pe_byte_range_end ev,
        lc_line_offset_start = pe_line_offset_start ev, lc_line_offset_end = pe_line_offset_end ev,
        lc_classifier_rule_id = pe_rule_id ev, lc_debounce_window_id = pe_debounce_window_id ev,
        lc_debounce_collapsed_count = pe_debounce_collapsed_count ev,
        lc_debounce_window_started_at = pe_debounce_window_started_at ev,
        lc_debounce_window_ended_at = pe_debounce_window_ended_at ev\<rparr>\<rparr>"

fun insert_events :: "event_row list \<Rightarrow> (nat \<times> event_row) list tx" where
  "insert_events [] = tx_return []"
| "insert_events (row # rows) =
     tx_bind (insert_event row) (\<lambda>event_id. tx_bind (insert_events rows) (\<lambda>rest. tx_return ((event_id, row) # rest)))"

definition advance_of ::
  "attachment_env \<Rightarrow> offset_row \<Rightarrow> pending_event list \<Rightarrow> nat \<Rightarrow> nat \<Rightarrow> advance_values" where
  "advance_of e off evs advance_bytes advance_lines =
     \<lparr>av_byte_offset = lo_byte_offset off + int advance_bytes, av_line_offset = lo_line_offset off + int advance_lines,
      av_last_event_offset = (if evs = [] then lo_last_event_offset off else pe_byte_range_end (last evs)),
      av_file_inode = lo_file_inode off, av_file_size_seen = lo_file_size_seen off,
      av_last_output_at = (if 0 < advance_bytes then Some (ae_now_iso e) else lo_last_output_at off)\<rparr>"

text \<open>The transaction: every event row and the advance, or nothing.\<close>

definition commit_tx ::
  "attachment_env \<Rightarrow> attachment_row \<Rightarrow> offset_row \<Rightarrow> pending_event list \<Rightarrow> nat \<Rightarrow> nat \<Rightarrow> reader_world \<Rightarrow>
   exc + ((nat \<times> event_row) list \<times> reader_world)" where
  "commit_tx e att off evs advance_bytes advance_lines w =
     (case ae_commit_error e of
        Some x \<Rightarrow> Inl x
      | None \<Rightarrow>
          (case insert_events (map (event_of_pending att) evs) (rw_db w) of
             Inl x \<Rightarrow> Inl x
           | Inr (ids, d) \<Rightarrow>
               (case advance_offset (la_agent_id att) (la_log_path att) (advance_of e off evs advance_bytes advance_lines)
                       (ae_now_iso e) (lw_registry (rw_log w)) of
                  Inl x \<Rightarrow> Inl x
                | Inr g \<Rightarrow> Inr (ids, w\<lparr>rw_db := d, rw_log := (rw_log w)\<lparr>lw_registry := g\<rparr>\<rparr>))))"

definition commit_events_and_advance ::
  "attachment_env \<Rightarrow> attachment_row \<Rightarrow> offset_row \<Rightarrow> pending_event list \<Rightarrow> nat \<Rightarrow> nat \<Rightarrow> nat \<Rightarrow> reader_world \<Rightarrow>
   (exc + attachment_result) \<times> reader_world" where
  "commit_events_and_advance e att off evs advance_bytes advance_lines bytes_read w =
     (case commit_tx e att off evs advance_bytes advance_lines w of
        Inl x \<Rightarrow>
          if is_sqlite_error x then
            (Inr (failed_result ''sqlite_commit''),
             set_degraded_sqlite (ae_now_iso e) (la_attachment_id att) (la_agent_id att) (length evs) w)
          else (Inl x, w)
      | Inr (ids, w') \<Rightarrow>
          (Inr (empty_result\<lparr>ar_events_emitted := length ids, ar_bytes_read := bytes_read\<rparr>), append_committed e ids w'))"

subsection \<open>Synthesized events\<close>

definition long_running_eligible :: "string list" where
  "long_running_eligible = [''activity'', ''error'', ''test_failed'', ''manual_review_needed'', ''swarm_member_reported'']"

definition last_event_for_attachment :: "string \<Rightarrow> db \<Rightarrow> (string \<times> nat) option" where
  "last_event_for_attachment attachment_id d =
     map_option (\<lambda>r. (ev_event_type r, ev_event_id r))
       (first_max ev_event_id (filter (\<lambda>r. map_option lc_attachment_id (ev_log r) = Some attachment_id) (db_events d)))"

definition synthetic_event :: "attachment_env \<Rightarrow> attachment_row \<Rightarrow> string \<Rightarrow> string \<Rightarrow> offset_row \<Rightarrow> event_row" where
  "synthetic_event e att event_type rule_id off =
     \<lparr>ev_event_id = 0, ev_event_type = event_type, ev_agent_id = la_agent_id att, ev_observed_at = ae_now_iso e,
      ev_excerpt = [], ev_jsonl_appended_at = None,
      ev_log = Some \<lparr>lc_attachment_id = la_attachment_id att, lc_log_path = la_log_path att,
        lc_byte_range_start = lo_byte_offset off, lc_byte_range_end = lo_byte_offset off,
        lc_line_offset_start = lo_line_offset off, lc_line_offset_end = lo_line_offset off,
        lc_classifier_rule_id = rule_id, lc_debounce_window_id = None, lc_debounce_collapsed_count = 1,
        lc_debounce_window_started_at = None, lc_debounce_window_ended_at = None\<rparr>\<rparr>"

definition persist_synthetic_event ::
  "attachment_env \<Rightarrow> attachment_row \<Rightarrow> string \<Rightarrow> string \<Rightarrow> offset_row \<Rightarrow> reader_world \<Rightarrow> (exc + nat option) \<times> reader_world" where
  "persist_synthetic_event e att event_type rule_id off w =
     (let synth = synthetic_event e att event_type rule_id off in
      case (case ae_synthetic_error e event_type of Some x \<Rightarrow> Inl x | None \<Rightarrow> insert_event synth (rw_db w)) of
        Inl x \<Rightarrow>
          if is_sqlite_error x
          then (Inr None, set_degraded_sqlite (ae_now_iso e) (la_attachment_id att) (la_agent_id att) 1 w)
          else (Inl x, w)
      | Inr (event_id, d) \<Rightarrow> (Inr (Some event_id), snd (append_mark_and_notify e event_id synth (w\<lparr>rw_db := d\<rparr>))))"

text \<open>The time since the last output, \<open>None\<close> if there is no usable timestamp.\<close>

definition quiet_for :: "reader_config \<Rightarrow> attachment_env \<Rightarrow> offset_row \<Rightarrow> int option" where
  "quiet_for c e off =
     (let last_output_at = (case lo_last_output_at off of
            Some t \<Rightarrow> if t = [] then lo_updated_at off else t | None \<Rightarrow> lo_updated_at off)
      in if last_output_at = [] then None else rc_elapsed c (ae_now_iso e) last_output_at)"

definition maybe_synthesize_pane_exited ::
  "reader_config \<Rightarrow> attachment_env \<Rightarrow> attachment_row \<Rightarrow> reader_world \<Rightarrow> (exc + unit) \<times> reader_world" where
  "maybe_synthesize_pane_exited c e att w =
     (let g = lw_registry (rw_log w) in
      if la_attachment_id att \<in> rs_pane_exited_emitted (rw_reader w) then (Inr (), w)
      else case find (\<lambda>p. pn_key p = la_pane_key att) (rg_panes g) of
        None \<Rightarrow> (Inr (), w)
      | Some p \<Rightarrow>
          if pn_active p then (Inr (), w)
          else (case lo_select g (la_agent_id att) (la_log_path att) of
             None \<Rightarrow> (Inr (), w)
           | Some off \<Rightarrow>
               (case quiet_for c e off of
                  None \<Rightarrow> (Inr (), w)
                | Some elapsed \<Rightarrow>
                    if elapsed < rc_pane_exited_grace c then (Inr (), w)
                    else (case persist_synthetic_event e att ''pane_exited'' ''pane_exited.synth.v1'' off w of
                       (Inl x, w') \<Rightarrow> (Inl x, w')
                     | (Inr None, w') \<Rightarrow> (Inr (), w')
                     | (Inr (Some _), w') \<Rightarrow>
                         (Inr (), w'\<lparr>rw_reader := (rw_reader w')\<lparr>rs_pane_exited_emitted :=
                            insert (la_attachment_id att) (rs_pane_exited_emitted (rw_reader w'))\<rparr>\<rparr>)))))"

definition maybe_synthesize_long_running ::
  "reader_config \<Rightarrow> attachment_env \<Rightarrow> attachment_row \<Rightarrow> reader_world \<Rightarrow> (exc + unit) \<times> reader_world" where
  "maybe_synthesize_long_running c e att w =
     (case last_event_for_attachment (la_attachment_id att) (rw_db w) of
        None \<Rightarrow> (Inr (), w)
      | Some (last_event_type, _) \<Rightarrow>
          let marked = rs_long_running_marked (rw_reader w);
              marked' = (if last_event_type \<in> set long_running_eligible then marked - {la_attachment_id att} else marked);
              w1 = w\<lparr>rw_reader := (rw_reader w)\<lparr>rs_long_running_marked := marked'\<rparr>\<rparr>
          in if la_attachment_id att \<in> marked' then (Inr (), w1)
             else if last_event_type \<notin> set long_running_eligible then (Inr (), w1)
             else (case lo_select (lw_registry (rw_log w1)) (la_agent_id att) (la_log_path att) of
                None \<Rightarrow> (Inr (), w1)
              | Some off \<Rightarrow>
                  (case quiet_for c e off of
                     None \<Rightarrow> (Inr (), w1)
                   | Some elapsed \<Rightarrow>
                       if elapsed < rc_long_running_grace c then (Inr (), w1)
                       else (case persist_synthetic_event e att ''long_running'' ''long_running.synth.v1'' off w1 of
                          (Inl x, w') \<Rightarrow> (Inl x, w')
                        | (Inr None, w') \<Rightarrow> (Inr (), w')
                        | (Inr (Some _), w') \<Rightarrow>
                            (Inr (), w'\<lparr>rw_reader := (rw_reader w')\<lparr>rs_long_running_marked :=
                               insert (la_attachment_id att) (rs_long_running_marked (rw_reader w'))\<rparr>\<rparr>)))))"

subsection \<open>Reading\<close>

definition set_windows :: "windows \<Rightarrow> reader_world \<Rightarrow> reader_world" where
  "set_windows ws w = w\<lparr>rw_reader := (rw_reader w)\<lparr>rs_windows := ws\<rparr>\<rparr>"

text \<open>The loop over the complete records, from the \<open>i\<close>-th on.\<close>

fun submit_records ::
  "reader_config \<Rightarrow> attachment_env \<Rightarrow> string \<Rightarrow> int \<Rightarrow> nat \<Rightarrow> int \<Rightarrow> bytes list \<Rightarrow> windows \<Rightarrow>
   (exc + pending_event list) \<times> windows" where
  "submit_records c e attachment_id line_offset i byte_start [] ws = (Inr [], ws)"
| "submit_records c e attachment_id line_offset i byte_start (r # rs) ws =
     (case classify (rc_unicode c) (rc_excerpt_cap c) (rc_excerpt_marker c) (record_text r) of
        Inl x \<Rightarrow> (Inl x, ws)
      | Inr outcome \<Rightarrow>
          let byte_end = byte_start + int (length r) + 1;
              line_start = line_offset + int i
          in case submit (rc_window_ms c) (ae_window_ids e i)
               \<lparr>sb_attachment_id = attachment_id, sb_outcome = outcome, sb_observed_at = ae_now_iso e,
                sb_monotonic = ae_now_monotonic e, sb_byte_range_start = byte_start, sb_byte_range_end = byte_end,
                sb_line_offset_start = line_start, sb_line_offset_end = line_start + 1\<rparr> ws of
               (es, ws1) \<Rightarrow>
                 (case submit_records c e attachment_id line_offset (Suc i) byte_end rs ws1 of
                    (Inl x, ws2) \<Rightarrow> (Inl x, ws2)
                  | (Inr es', ws2) \<Rightarrow> (Inr (es @ es'), ws2)))"

definition forced_event :: "attachment_env \<Rightarrow> offset_row \<Rightarrow> nat \<Rightarrow> classifier_outcome \<Rightarrow> pending_event" where
  "forced_event e off n outcome =
     \<lparr>pe_event_type = co_event_type outcome, pe_rule_id = co_rule_id outcome, pe_excerpt = co_excerpt outcome,
      pe_observed_at = ae_now_iso e, pe_byte_range_start = lo_byte_offset off,
      pe_byte_range_end = lo_byte_offset off + int n, pe_line_offset_start = lo_line_offset off,
      pe_line_offset_end = lo_line_offset off, pe_debounce_window_id = None, pe_debounce_collapsed_count = 1,
      pe_debounce_window_started_at = None, pe_debounce_window_ended_at = None\<rparr>"

text \<open>A cycle without a complete record flushes the windows that expired, and commits only if there are any.\<close>

definition flush_only ::
  "reader_config \<Rightarrow> attachment_env \<Rightarrow> attachment_row \<Rightarrow> offset_row \<Rightarrow> nat \<Rightarrow> reader_world \<Rightarrow>
   (exc + attachment_result) \<times> reader_world" where
  "flush_only c e att off bytes_read w =
     (case flush_expired (rc_window_ms c) (ae_now_monotonic e) (ae_now_iso e) (Some (la_attachment_id att))
             (rs_windows (rw_reader w)) of
        (expired, ws) \<Rightarrow>
          if expired \<noteq> [] then commit_events_and_advance e att off expired 0 0 bytes_read (set_windows ws w)
          else (Inr (empty_result\<lparr>ar_bytes_read := bytes_read\<rparr>), set_windows ws w))"

definition process_bytes ::
  "reader_config \<Rightarrow> attachment_env \<Rightarrow> attachment_row \<Rightarrow> offset_row \<Rightarrow> bytes \<Rightarrow> reader_world \<Rightarrow>
   (exc + attachment_result) \<times> reader_world" where
  "process_bytes c e att off new_bytes w =
     (if new_bytes = [] then flush_only c e att off 0 w
      else case split_complete_records new_bytes of
        (records, advance_bytes, advance_lines) \<Rightarrow>
          if records = [] then
            if length new_bytes \<ge> rc_byte_cap c then
              (case classify (rc_unicode c) (rc_excerpt_cap c) (rc_excerpt_marker c) (record_text new_bytes) of
                 Inl x \<Rightarrow> (Inl x, w)
               | Inr outcome \<Rightarrow>
                   commit_events_and_advance e att off [forced_event e off (length new_bytes) outcome]
                     (length new_bytes) 0 (length new_bytes) w)
            else flush_only c e att off (length new_bytes) w
          else
            (case submit_records c e (la_attachment_id att) (lo_line_offset off) 0 (lo_byte_offset off) records
                    (rs_windows (rw_reader w)) of
               (Inl x, ws) \<Rightarrow> (Inl x, set_windows ws w)
             | (Inr es, ws) \<Rightarrow>
                 (case flush_expired (rc_window_ms c) (ae_now_monotonic e) (ae_now_iso e) (Some (la_attachment_id att)) ws of
                    (es', ws') \<Rightarrow>
                      commit_events_and_advance e att off (es @ es') advance_bytes advance_lines (length new_bytes)
                        (set_windows ws' w))))"

definition read_attachment ::
  "reader_config \<Rightarrow> attachment_env \<Rightarrow> attachment_row \<Rightarrow> reader_world \<Rightarrow> (exc + attachment_result) \<times> reader_world" where
  "read_attachment c e att w =
     (case reader_cycle_offset_recovery (ae_recovery e) (la_agent_id att) (la_log_path att) (ae_now_iso e) (rw_log w) of
        (Inl x, l) \<Rightarrow> (Inl x, w\<lparr>rw_log := l\<rparr>)
      | (Inr recovery, l) \<Rightarrow>
          let w1 = w\<lparr>rw_log := l\<rparr> in
          if cy_change recovery \<noteq> Unchanged then (Inr empty_result, w1)
          else (case lo_select (lw_registry l) (la_agent_id att) (la_log_path att) of
             None \<Rightarrow> (Inr (failed_result ''missing_offset_row''), w1)
           | Some off \<Rightarrow>
               if lo_byte_offset off < 0 then (Inl RuntimeError, w1)
               else (case ae_contents e of
                  Inl cls \<Rightarrow> (Inr (failed_result cls), w1)
                | Inr contents \<Rightarrow>
                    process_bytes c e att off (read_bytes contents (lo_byte_offset off) (rc_byte_cap c)) w1)))"

definition run_cycle_for_attachment ::
  "reader_config \<Rightarrow> attachment_env \<Rightarrow> attachment_row \<Rightarrow> reader_world \<Rightarrow> (exc + attachment_result) \<times> reader_world" where
  "run_cycle_for_attachment c e att w =
     (case maybe_synthesize_pane_exited c e att w of
        (Inl x, w1) \<Rightarrow> (Inl x, w1)
      | (Inr _, w1) \<Rightarrow>
          (case maybe_synthesize_long_running c e att w1 of
             (Inl x, w2) \<Rightarrow> (Inl x, w2)
           | (Inr _, w2) \<Rightarrow> read_attachment c e att w2))"

subsection \<open>The retry pass and a whole cycle\<close>

record retry_env =
  rt_select_fails :: bool
  rt_append_fails :: "nat \<Rightarrow> bool"
  rt_mark_fails :: "nat \<Rightarrow> exc option"
  rt_now_iso :: timestamp

text \<open>The loop; the number is \<open>remaining_after_retry\<close>. An error of the watermark update leaves the loop.\<close>

fun retry_rows :: "retry_env \<Rightarrow> event_row list \<Rightarrow> nat \<Rightarrow> reader_world \<Rightarrow> (exc + nat) \<times> reader_world" where
  "retry_rows e [] remaining w = (Inr remaining, w)"
| "retry_rows e (row # rows) remaining w =
     (if rt_append_fails e (ev_event_id row) then retry_rows e rows (remaining + 1) w
      else let w1 = append_event_to_jsonl (ev_event_id row) row w in
        case rt_mark_fails e (ev_event_id row) of
          Some x \<Rightarrow> (Inl x, w1)
        | None \<Rightarrow> retry_rows e rows remaining
            (w1\<lparr>rw_db := mark_jsonl_appended (ev_event_id row) (rt_now_iso e) (rw_db w1)\<rparr>))"

definition retry_pending_jsonl_appends :: "retry_env \<Rightarrow> reader_world \<Rightarrow> (exc + unit) \<times> reader_world" where
  "retry_pending_jsonl_appends e w =
     (if rt_select_fails e then (Inr (), w)
      else case select_pending_jsonl 50 (rw_db w) of
        Inl x \<Rightarrow> (Inl x, w)
      | Inr pending \<Rightarrow>
          if pending = [] then (Inr (), w\<lparr>rw_reader := (rw_reader w)\<lparr>rs_degraded_jsonl := None\<rparr>\<rparr>)
          else (case retry_rows e pending 0 w of
             (Inl x, w') \<Rightarrow> (Inl x, w')
           | (Inr remaining, w') \<Rightarrow>
               (Inr (), w'\<lparr>rw_reader := (rw_reader w')\<lparr>rs_degraded_jsonl :=
                  (if remaining = 0 then None
                   else Some \<lparr>jd_since = (case rs_degraded_jsonl (rw_reader w') of None \<Rightarrow> rt_now_iso e | Some d \<Rightarrow> jd_since d),
                              jd_pending_event_count = remaining\<rparr>)\<rparr>\<rparr>)))"

text \<open>The loop over the attachments, with the failures collected.\<close>

fun run_attachments ::
  "reader_config \<Rightarrow> (string \<Rightarrow> attachment_env) \<Rightarrow> attachment_row list \<Rightarrow> reader_world \<Rightarrow>
   (string \<times> string \<times> exc) list \<times> reader_world" where
  "run_attachments c env [] w = ([], w)"
| "run_attachments c env (att # atts) w =
     (case run_cycle_for_attachment c (env (la_attachment_id att)) att w of
        (res, w1) \<Rightarrow>
          (case run_attachments c env atts w1 of
             (failures, w2) \<Rightarrow>
               ((case res of Inl x \<Rightarrow> [(la_attachment_id att, la_agent_id att, x)] | Inr _ \<Rightarrow> []) @ failures, w2)))"

definition run_reader_cycle ::
  "reader_config \<Rightarrow> (string \<Rightarrow> attachment_env) \<Rightarrow> retry_env \<Rightarrow> int \<Rightarrow> reader_world \<Rightarrow> (exc + unit) \<times> reader_world" where
  "run_reader_cycle c env retry now_monotonic w =
     (let w0 = w\<lparr>rw_sessions := map_option (\<lambda>r. snd (gc_expired now_monotonic r)) (rw_sessions w)\<rparr>;
          attachments = list_active_attachments (lw_registry (rw_log w0));
          w1 = w0\<lparr>rw_reader := (rw_reader w0)\<lparr>rs_active_attachments := length attachments\<rparr>\<rparr>
      in case run_attachments c env attachments w1 of
           (failures, w2) \<Rightarrow>
             retry_pending_jsonl_appends retry
               (w2\<lparr>rw_reader := (rw_reader w2)\<lparr>rs_attachments_in_failure := failures\<rparr>\<rparr>))"

end
