(* ===== verification/Reader_Facts.thy ===== *)
theory Reader_Facts
  imports Events_Reader
begin

text \<open>
  What the reader guarantees: the persisted offset always stands at a record boundary it can resume from,
  every record is accounted for in the stored events and the open windows, a commit stores events and
  offset together or not at all, and a watermark is never ahead of the JSONL file.
\<close>

subsection \<open>Records\<close>

definition newlines :: "bytes \<Rightarrow> nat" where
  "newlines bs = length (filter (\<lambda>b. b = 10) bs)"

lemma newlines_simps [simp]:
  "newlines [] = 0" "newlines (b # bs) = (if b = 10 then 1 else 0) + newlines bs"
  "newlines (xs @ ys) = newlines xs + newlines ys"
  by (simp_all add: newlines_def)

lemma newlines_zero: "newlines bs = 0 \<longleftrightarrow> 10 \<notin> set bs"
  by (induction bs) auto

lemma py_split_join:
  "bs = concat (map (\<lambda>r. r @ [c]) (butlast (py_split c bs))) @ last (py_split c bs)"
proof (induction bs)
  case (Cons b bs)
  obtain p ps where s: "py_split c bs = p # ps" using py_split_not_Nil [of c bs] by (cases "py_split c bs") auto
  show ?case
  proof (cases "b = c")
    case True
    then show ?thesis using Cons s by simp
  next
    case False
    then show ?thesis using Cons s by (cases ps) auto
  qed
qed simp

lemma concat_terminated:
  "list_all (\<lambda>r. 10 \<notin> set r) rs \<Longrightarrow> newlines (concat (map (\<lambda>r. r @ [10]) rs)) = length rs"
  by (induction rs) (auto simp: newlines_zero [THEN iffD2])

lemma length_concat_terminated:
  "length (concat (map (\<lambda>r. r @ [10]) rs)) = sum_list (map length rs) + length rs" for rs :: "bytes list"
  by (induction rs) auto

text \<open>
  The complete records of a chunk are its lines; the bytes they take are a prefix of the chunk that
  ends with its last newline.
\<close>

lemma split_complete_records_spec:
  assumes "split_complete_records raw = (records, n, k)"
  shows "n \<le> length raw" "newlines (take n raw) = k" "newlines (drop n raw) = 0" "length records = k" "k = newlines raw"
proof -
  let ?cr = "butlast (py_split 10 raw)" and ?l = "last (py_split 10 raw)"
  have j: "raw = concat (map (\<lambda>r. r @ [10]) ?cr) @ ?l" "list_all (\<lambda>r. 10 \<notin> set r) (py_split 10 raw)"
    by (rule py_split_join) (auto simp: list_all_iff dest: py_split_no_sep)
  have cr: "list_all (\<lambda>r. 10 \<notin> set r) ?cr" using j(2) by (auto simp: list_all_iff dest: in_set_butlastD)
  have l: "newlines ?l = 0" using j(2) by (auto simp: list_all_iff newlines_zero)
  have d: "n = length (concat (map (\<lambda>r. r @ [10]) ?cr)) \<and> k = length ?cr \<and> length records = length ?cr"
    using assms by (cases "raw = []") (auto simp: split_complete_records_def Let_def length_concat_terminated)
  have t: "take n raw = concat (map (\<lambda>r. r @ [10]) ?cr)" "drop n raw = ?l"
    using d by (subst j(1), simp)+
  show "n \<le> length raw" using d by (subst j(1)) simp
  show "newlines (take n raw) = k" using t d cr by (simp add: concat_terminated)
  show "newlines (drop n raw) = 0" using t l by simp
  show "length records = k" using d by simp
  have "newlines raw = newlines (take n raw) + newlines (drop n raw)" by (metis append_take_drop_id newlines_simps(3))
  then show "k = newlines raw" using \<open>newlines (take n raw) = k\<close> \<open>newlines (drop n raw) = 0\<close> by simp
qed

subsection \<open>Decoding gives scalar values\<close>

lemma decode_replace_scalar: "list_all scalar_value (decode_replace bs)"
proof (induction bs rule: decode_replace.induct)
  case (1 bs)
  consider "bs = []" | "bs \<noteq> []" "utf8_next bs = None" | c rest where "bs \<noteq> []" "utf8_next bs = Some (c, rest)"
    by (cases "utf8_next bs") auto
  then show ?case
  proof cases
    case 2
    have "scalar_value 0xFFFD" by (simp add: scalar_value_def)
    then show ?thesis using 2 1(1) [OF 2]
      by (subst decode_replace.simps) (simp del: utf8_next.simps)
  next
    case 3
    then show ?thesis using 1(2) [OF 3 refl] utf8_next_sound [OF 3(2)]
      by (subst decode_replace.simps) (simp del: utf8_next.simps)
  qed (simp add: decode_replace.simps)
qed

text \<open>Well-formed text is decoded to itself.\<close>

lemma decode_replace_encode:
  assumes "list_all scalar_value cs"
  shows "decode_replace (utf8_encode cs) = cs"
  using assms
proof (induction cs)
  case (Cons c cs)
  have n: "utf8_next (utf8_encode (c # cs)) = Some (c, utf8_encode cs)"
    using utf8_next_encode Cons.prems by (simp add: utf8_encode_def)
  then have "utf8_encode (c # cs) \<noteq> []" by auto
  then show ?case using n Cons by (subst decode_replace.simps) (simp del: utf8_next.simps)
qed (simp add: utf8_encode_def decode_replace.simps)

subsection \<open>What a commit stores\<close>

definition row_records :: "event_row \<Rightarrow> nat" where
  "row_records r = (case ev_log r of None \<Rightarrow> 0 | Some c \<Rightarrow> lc_debounce_collapsed_count c)"

definition stored_total :: "db \<Rightarrow> nat" where
  "stored_total d = sum_list (map row_records (db_events d))"

definition number_rows :: "nat \<Rightarrow> event_row list \<Rightarrow> event_row list" where
  "number_rows n rows = map (\<lambda>(i, r). r\<lparr>ev_event_id := i\<rparr>) (zip [n ..< n + length rows] rows)"

lemma number_rows_Cons: "number_rows n (r # rows) = r\<lparr>ev_event_id := n\<rparr> # number_rows (Suc n) rows"
  unfolding number_rows_def length_Cons add_Suc_right by (subst upt_conv_Cons) simp_all

lemma insert_events_outcome:
  "insert_events rows d = Inr (ids, d') \<Longrightarrow>
    ids = zip [db_next_event_id d ..< db_next_event_id d + length rows] rows \<and>
    d' = d\<lparr>db_events := db_events d @ number_rows (db_next_event_id d) rows,
          db_next_event_id := db_next_event_id d + length rows\<rparr> \<and>
    list_all (\<lambda>r. \<exists>c. ev_log r = Some c \<and> event_ranges_ok c) rows"
proof (induction rows arbitrary: d ids)
  case (Cons r rows)
  from Cons.prems obtain c where c: "ev_log r = Some c" "event_ranges_ok c"
    "insert_event r d = Inr (db_next_event_id d,
      d\<lparr>db_events := db_events d @ [r\<lparr>ev_event_id := db_next_event_id d\<rparr>], db_next_event_id := Suc (db_next_event_id d)\<rparr>)"
    by (auto simp: tx_bind_def insert_event_outcome split: option.splits if_splits sum.splits)
  then obtain rest where r: "insert_events rows (d\<lparr>db_events := db_events d @ [r\<lparr>ev_event_id := db_next_event_id d\<rparr>],
      db_next_event_id := Suc (db_next_event_id d)\<rparr>) = Inr (rest, d')" "ids = (db_next_event_id d, r) # rest"
    using Cons.prems by (auto simp: tx_bind_def tx_return_def split: sum.splits)
  from Cons.IH [OF r(1)] c r(2) show ?case
    by (simp add: number_rows_Cons upt_conv_Cons del: upt_Suc)
qed (auto simp: tx_return_def number_rows_def)

lemma row_records_simps [simp]:
  "row_records (r\<lparr>ev_event_id := i\<rparr>) = row_records r" "row_records (r\<lparr>ev_jsonl_appended_at := t\<rparr>) = row_records r"
  "row_records (event_of_pending att ev) = pe_debounce_collapsed_count ev"
  by (simp_all add: row_records_def event_of_pending_def)

lemma sum_number_rows [simp]: "sum_list (map row_records (number_rows n rows)) = sum_list (map row_records rows)"
  by (induction rows arbitrary: n) (simp_all add: number_rows_Cons, simp add: number_rows_def)

lemma stored_total_mark [simp]: "stored_total (mark_jsonl_appended i t d) = stored_total d"
proof -
  have "map row_records (update_where P (\<lambda>e. e\<lparr>ev_jsonl_appended_at := Some t\<rparr>) es) = map row_records es" for P es
    by (induction es) simp_all
  then show ?thesis by (simp add: stored_total_def mark_jsonl_appended_def)
qed

lemma append_mark_keeps:
  "rw_log (snd (append_mark_and_notify e i row w)) = rw_log w"
  "stored_total (rw_db (snd (append_mark_and_notify e i row w))) = stored_total (rw_db w)"
  "rs_windows (rw_reader (snd (append_mark_and_notify e i row w))) = rs_windows (rw_reader w)"
  by (simp_all add: append_mark_and_notify_def append_event_to_jsonl_def set_degraded_sqlite_def Let_def)

lemma published_all_keeps:
  "rw_log (append_committed e ids w) = rw_log w"
  "stored_total (rw_db (append_committed e ids w)) = stored_total (rw_db w)"
  "rs_windows (rw_reader (append_committed e ids w)) = rs_windows (rw_reader w)"
  by (induction e ids w rule: append_committed.induct) (simp_all add: append_mark_keeps)

lemma advance_offset_outcome:
  assumes "lo_select g a p = Some off"
  shows "\<exists>g'. advance_offset a p v t g = Inr g' \<and> lo_select g' a p =
    Some (off\<lparr>lo_byte_offset := av_byte_offset v, lo_line_offset := av_line_offset v,
              lo_last_event_offset := av_last_event_offset v, lo_file_inode := av_file_inode v,
              lo_file_size_seen := av_file_size_seen v, lo_last_output_at := av_last_output_at v, lo_updated_at := t\<rparr>)"
proof -
  let ?f = "\<lambda>r. r\<lparr>lo_byte_offset := av_byte_offset v, lo_line_offset := av_line_offset v,
              lo_last_event_offset := av_last_event_offset v, lo_file_inode := av_file_inode v,
              lo_file_size_seen := av_file_size_seen v, lo_last_output_at := av_last_output_at v, lo_updated_at := t\<rparr>"
  have "lo_select (lo_update a p ?f g) a p = Some (?f off)"
    by (subst lo_select_lo_update) (simp_all add: offset_key_def assms)
  then show ?thesis using assms by (simp add: advance_offset_def require_row_exists_def)
qed

lemma commit_committed:
  assumes "commit_events_and_advance e att off evs n k m w = (Inr r, w')" "\<not> ar_failed r"
    and "lo_select (lw_registry (rw_log w)) (la_agent_id att) (la_log_path att) = Some off"
  shows "\<exists>off'. lo_select (lw_registry (rw_log w')) (la_agent_id att) (la_log_path att) = Some off' \<and>
      lo_byte_offset off' = lo_byte_offset off + int n \<and> lo_line_offset off' = lo_line_offset off + int k"
    and "stored_total (rw_db w') = stored_total (rw_db w) + collapsed_total evs"
    and "rs_windows (rw_reader w') = rs_windows (rw_reader w)"
proof -
  from assms(1,2) obtain ids w1 where c: "commit_tx e att off evs n k w = Inr (ids, w1)" "w' = append_committed e ids w1"
    by (auto simp: commit_events_and_advance_def failed_result_def split: sum.splits if_splits)
  then obtain d g where i: "insert_events (map (event_of_pending att) evs) (rw_db w) = Inr (ids, d)"
    "advance_offset (la_agent_id att) (la_log_path att) (advance_of e off evs n k) (ae_now_iso e)
      (lw_registry (rw_log w)) = Inr g" "w1 = w\<lparr>rw_db := d, rw_log := (rw_log w)\<lparr>lw_registry := g\<rparr>\<rparr>"
    by (auto simp: commit_tx_def split: option.splits sum.splits)
  show "\<exists>off'. lo_select (lw_registry (rw_log w')) (la_agent_id att) (la_log_path att) = Some off' \<and>
      lo_byte_offset off' = lo_byte_offset off + int n \<and> lo_line_offset off' = lo_line_offset off + int k"
    using advance_offset_outcome [OF assms(3), of "advance_of e off evs n k" "ae_now_iso e"] i(2,3)
    by (auto simp: c(2) published_all_keeps advance_of_def)
  show "stored_total (rw_db w') = stored_total (rw_db w) + collapsed_total evs"
    using insert_events_outcome [OF i(1)] i(3)
    by (simp add: c(2) published_all_keeps) (simp add: stored_total_def collapsed_total_def comp_def)
  show "rs_windows (rw_reader w') = rs_windows (rw_reader w)" by (simp add: c(2) published_all_keeps i(3))
qed

subsection \<open>What reading accounts for\<close>

lemma submit_records_account:
  assumes "windows_ok ws" "submit_records c e a l i b rs ws = (res, ws')"
  shows "windows_ok ws'" "res = Inr es \<Longrightarrow> collapsed_total es + open_total ws' = open_total ws + length rs"
proof -
  have "windows_ok ws' \<and> (\<forall>es. res = Inr es \<longrightarrow> collapsed_total es + open_total ws' = open_total ws + length rs)"
    using assms
  proof (induction rs arbitrary: i b ws ws' res)
    case (Cons r rs)
    show ?case
    proof (cases "classify (rc_unicode c) (rc_excerpt_cap c) (rc_excerpt_marker c) (record_text r)")
      case (Inl x)
      then show ?thesis using Cons.prems by auto
    next
      case (Inr outcome)
      let ?s = "\<lparr>sb_attachment_id = a, sb_outcome = outcome, sb_observed_at = ae_now_iso e,
        sb_monotonic = ae_now_monotonic e, sb_byte_range_start = b, sb_byte_range_end = b + int (length r) + 1,
        sb_line_offset_start = l + int i, sb_line_offset_end = l + int i + 1\<rparr>"
      obtain es1 ws1 where s: "submit (rc_window_ms c) (ae_window_ids e i) ?s ws = (es1, ws1)" by fastforce
      obtain res2 ws2 where t: "submit_records c e a l (Suc i) (b + int (length r) + 1) rs ws1 = (res2, ws2)" by fastforce
      have r: "res = map_sum id ((@) es1) res2" "ws' = ws2"
        using Cons.prems(2) Inr s t by (auto simp: Let_def split: sum.splits)
      note bk = submit_bookkeeping [OF Cons.prems(1) s]
      from Cons.IH [OF bk(1) t] bk(2) show ?thesis by (cases res2) (auto simp: r)
    qed
  qed auto
  then show "windows_ok ws'" "res = Inr es \<Longrightarrow> collapsed_total es + open_total ws' = open_total ws + length rs" by auto
qed

lemma flush_expired_account:
  assumes "windows_ok ws" "flush_expired ms m t a ws = (es, ws')"
  shows "windows_ok ws'" "collapsed_total es + open_total ws' = open_total ws"
  using flush_keys_bookkeeping [OF assms(1) assms(2) [unfolded flush_expired_def]] by auto

lemma set_windows_simps [simp]:
  "rw_log (set_windows ws w) = rw_log w" "rw_db (set_windows ws w) = rw_db w"
  "rs_windows (rw_reader (set_windows ws w)) = ws" "rw_jsonl (set_windows ws w) = rw_jsonl w"
  "rw_sessions (set_windows ws w) = rw_sessions w"
  by (simp_all add: set_windows_def)

text \<open>\<open>accounted w w' n\<close>: from \<open>w\<close> to \<open>w'\<close> exactly \<open>n\<close> records have been added to stored events and open windows.\<close>

definition accounted :: "reader_world \<Rightarrow> reader_world \<Rightarrow> nat \<Rightarrow> bool" where
  "accounted w w' n \<longleftrightarrow> windows_ok (rs_windows (rw_reader w')) \<and>
     stored_total (rw_db w') + open_total (rs_windows (rw_reader w')) =
     stored_total (rw_db w) + open_total (rs_windows (rw_reader w)) + n"

definition moved_to :: "reader_world \<Rightarrow> attachment_row \<Rightarrow> offset_row \<Rightarrow> nat \<Rightarrow> nat \<Rightarrow> bool" where
  "moved_to w att off n k \<longleftrightarrow>
     (case lo_select (lw_registry (rw_log w)) (la_agent_id att) (la_log_path att) of
        None \<Rightarrow> False
      | Some off' \<Rightarrow> lo_byte_offset off' = lo_byte_offset off + int n \<and> lo_line_offset off' = lo_line_offset off + int k)"

lemma commit_accounted:
  assumes "commit_events_and_advance e att off evs n k m (set_windows ws w) = (Inr r, w')" "\<not> ar_failed r"
    and "lo_select (lw_registry (rw_log w)) (la_agent_id att) (la_log_path att) = Some off"
    and "windows_ok ws" "collapsed_total evs + open_total ws = open_total (rs_windows (rw_reader w)) + j"
  shows "accounted w w' j" "moved_to w' att off n k"
  using commit_committed [OF assms(1,2)] assms(3-5) by (auto simp: accounted_def moved_to_def)

lemma flush_only_accounted:
  assumes "flush_only c e att off m w = (Inr r, w')" "\<not> ar_failed r"
    and "lo_select (lw_registry (rw_log w)) (la_agent_id att) (la_log_path att) = Some off"
    and "windows_ok (rs_windows (rw_reader w))"
  shows "accounted w w' 0" "moved_to w' att off 0 0"
proof -
  obtain es ws where f: "flush_expired (rc_window_ms c) (ae_now_monotonic e) (ae_now_iso e) (Some (la_attachment_id att))
      (rs_windows (rw_reader w)) = (es, ws)" by fastforce
  note a = flush_expired_account [OF assms(4) f]
  have "accounted w w' 0 \<and> moved_to w' att off 0 0"
  proof (cases "es = []")
    case True
    then have "w' = set_windows ws w" using assms(1) f by (simp add: flush_only_def)
    then show ?thesis using a assms(3) True by (simp add: accounted_def moved_to_def)
  next
    case False
    then have "commit_events_and_advance e att off es 0 0 m (set_windows ws w) = (Inr r, w')"
      using assms(1) f by (simp add: flush_only_def)
    from commit_accounted [OF this assms(2,3) a(1), of 0] a(2) show ?thesis by simp
  qed
  then show "accounted w w' 0" "moved_to w' att off 0 0" by auto
qed

definition oversized_chunk :: "reader_config \<Rightarrow> bytes \<Rightarrow> bool" where
  "oversized_chunk c chunk \<longleftrightarrow> chunk \<noteq> [] \<and> newlines chunk = 0 \<and> rc_byte_cap c \<le> length chunk"

lemma process_bytes_accounted:
  assumes "process_bytes c e att off chunk w = (Inr r, w')" "\<not> ar_failed r"
    and "lo_select (lw_registry (rw_log w)) (la_agent_id att) (la_log_path att) = Some off"
    and "windows_ok (rs_windows (rw_reader w))"
  shows "\<exists>n \<le> length chunk. newlines (drop n chunk) = 0 \<and> moved_to w' att off n (newlines (take n chunk)) \<and>
    accounted w w' (newlines chunk + (if oversized_chunk c chunk then 1 else 0))"
proof -
  obtain records n k where s: "split_complete_records chunk = (records, n, k)" by (metis prod_cases3)
  note spec = split_complete_records_spec [OF s]
  consider "chunk = []" | "chunk \<noteq> []" "records = []" "rc_byte_cap c \<le> length chunk"
    | "chunk \<noteq> []" "records = []" "\<not> rc_byte_cap c \<le> length chunk" | "chunk \<noteq> []" "records \<noteq> []" by blast
  then show ?thesis
  proof cases
    case 1
    then have "flush_only c e att off 0 w = (Inr r, w')" using assms(1) by (simp add: process_bytes_def)
    from flush_only_accounted [OF this assms(2-4)] 1 show ?thesis by (simp add: oversized_chunk_def)
  next
    case 2
    then have no: "newlines chunk = 0" using spec by simp
    obtain outcome where "commit_events_and_advance e att off [forced_event e off (length chunk) outcome]
        (length chunk) 0 (length chunk) (set_windows (rs_windows (rw_reader w)) w) = (Inr r, w')"
      using assms(1) 2 s by (auto simp: process_bytes_def set_windows_def split: sum.splits)
    from commit_accounted [OF this assms(2-4), of 1] show ?thesis using 2 no
      by (intro exI [of _ "length chunk"]) (simp add: oversized_chunk_def forced_event_def)
  next
    case 3
    then have "flush_only c e att off (length chunk) w = (Inr r, w')" using assms(1) s by (simp add: process_bytes_def)
    from flush_only_accounted [OF this assms(2-4)] 3 spec show ?thesis
      by (intro exI [of _ 0]) (simp add: oversized_chunk_def)
  next
    case 4
    obtain res ws where sr: "submit_records c e (la_attachment_id att) (lo_line_offset off) 0 (lo_byte_offset off) records
        (rs_windows (rw_reader w)) = (res, ws)" by fastforce
    then obtain es where es: "res = Inr es" using assms(1) 4 s by (cases res) (auto simp: process_bytes_def)
    obtain es' ws' where fe: "flush_expired (rc_window_ms c) (ae_now_monotonic e) (ae_now_iso e)
        (Some (la_attachment_id att)) ws = (es', ws')" by fastforce
    have commit: "commit_events_and_advance e att off (es @ es') n k (length chunk) (set_windows ws' w) = (Inr r, w')"
      using assms(1) 4 s sr es fe by (simp add: process_bytes_def)
    note a = submit_records_account [OF assms(4) sr]
    note b = flush_expired_account [OF a(1) fe]
    have "collapsed_total (es @ es') + open_total ws' = open_total (rs_windows (rw_reader w)) + length records"
      using a(2) [OF es] b(2) by simp
    from commit_accounted [OF commit assms(2,3) b(1) this] spec 4 show ?thesis
      by (intro exI [of _ n]) (auto simp: oversized_chunk_def)
  qed
qed

subsection \<open>Resuming\<close>

text \<open>The persisted offset lies in the file, and the line number is the number of newlines before it.\<close>

definition offset_in_file :: "bytes \<Rightarrow> offset_row \<Rightarrow> bool" where
  "offset_in_file contents off \<longleftrightarrow> 0 \<le> lo_byte_offset off \<and> nat (lo_byte_offset off) \<le> length contents \<and>
     lo_line_offset off = int (newlines (take (nat (lo_byte_offset off)) contents))"

text \<open>More output at the end of the file keeps it so.\<close>

lemma offset_in_file_append: "offset_in_file contents off \<Longrightarrow> offset_in_file (contents @ new) off"
  by (simp add: offset_in_file_def)

lemma newlines_take_add: "newlines (take (i + n) xs) = newlines (take i xs) + newlines (take n (drop i xs))"
  by (simp add: take_add)

lemma moved_in_file:
  assumes "offset_in_file contents off" "n \<le> length (read_bytes contents (lo_byte_offset off) cap)"
    and "moved_to w att off n (newlines (take n (read_bytes contents (lo_byte_offset off) cap)))"
    and "lo_select (lw_registry (rw_log w)) (la_agent_id att) (la_log_path att) = Some off'"
  shows "offset_in_file contents off'"
proof -
  let ?b = "nat (lo_byte_offset off)"
  have n: "n \<le> cap" "n \<le> length contents - ?b" using assms(2) by (auto simp: read_bytes_def)
  have "nat (lo_byte_offset off') = ?b + n" using assms(1,3,4) by (simp add: offset_in_file_def moved_to_def nat_add_distrib)
  moreover have "take n (read_bytes contents (lo_byte_offset off) cap) = take n (drop ?b contents)"
    using n by (simp add: read_bytes_def min_def)
  ultimately show ?thesis using assms(1,3,4) n
    by (auto simp: offset_in_file_def moved_to_def newlines_take_add)
qed

text \<open>An observation that changes something leaves an offset from which reading can resume.\<close>

lemma recovery_offset_in_file:
  assumes "reader_cycle_offset_recovery e a p t l = (Inr rec, l')" "lo_select (lw_registry l) a p = Some off"
    and "offset_in_file contents off"
  shows "\<exists>off'. lo_select (lw_registry l') a p = Some off' \<and> offset_in_file contents off'"
  using assms(1)
proof (cases rule: recovery_cases)
  case (gone att off0)
  then have "rg_offsets (lw_registry l') = rg_offsets (lw_registry l)" by (rule handle_missing_effect)
  then show ?thesis using assms(2,3) by (simp add: lo_select_def)
next
  case (rotated att off0 st change)
  have "re_tx_error e = None" using rotated(5) by (cases "re_tx_error e") (auto simp: handle_rotation_def Let_def)
  from handle_rotation_ok [OF this, of att off0 st change t l] rotated(5) have
    "lw_registry l' = lo_reset (la_agent_id att) (la_log_path att)
      (if change = Truncated then lo_file_inode off0 else Some (fs_inode st)) (fs_size st) t (lw_registry l)"
    by auto
  moreover have "la_agent_id att = a" "la_log_path att = p" using select_attachment_for_recovery_SomeD [OF rotated(1)] by auto
  ultimately show ?thesis using assms(2) by (simp add: lo_select_reset offset_in_file_def)
qed (use assms(2,3) in auto)


subsection \<open>All or nothing\<close>

definition without_watermarks :: "event_row list \<Rightarrow> event_row list" where
  "without_watermarks = map (\<lambda>r. r\<lparr>ev_jsonl_appended_at := None\<rparr>)"

lemma without_watermarks_mark: "without_watermarks (db_events (mark_jsonl_appended i t d)) = without_watermarks (db_events d)"
proof -
  have "without_watermarks (update_where P (\<lambda>r. r\<lparr>ev_jsonl_appended_at := Some t\<rparr>) es) = without_watermarks es" for P es
    by (induction es) (simp_all add: without_watermarks_def)
  then show ?thesis by (simp add: mark_jsonl_appended_def)
qed

lemma append_committed_rows:
  "without_watermarks (db_events (rw_db (append_committed e ids w))) = without_watermarks (db_events (rw_db w))"
proof (induction e ids w rule: append_committed.induct)
  case (2 e i row rest w)
  have "without_watermarks (db_events (rw_db (snd (append_mark_and_notify e i row w)))) =
      without_watermarks (db_events (rw_db w))"
    by (simp add: append_mark_and_notify_def append_event_to_jsonl_def set_degraded_sqlite_def Let_def without_watermarks_mark)
  then show ?case using 2 by simp
qed simp

text \<open>
  The commit of a cycle is atomic. Either it stores nothing at all, leaves offsets, JSONL file and
  followers alone and reports a failure or raises, or it stores one row for every event, in order and
  with consecutive ids, and moves the offset in the same transaction.
\<close>

lemma commit_is_all_or_nothing:
  "case commit_events_and_advance e att off evs n k m w of (res, w') \<Rightarrow>
     (rw_db w' = rw_db w \<and> rw_log w' = rw_log w \<and> rw_jsonl w' = rw_jsonl w \<and> rw_sessions w' = rw_sessions w \<and>
      res \<in> range Inl \<union> {Inr (failed_result ''sqlite_commit'')}) \<or>
     (\<exists>r. res = Inr r \<and> ar_failed r = False \<and> ar_events_emitted r = length evs \<and>
        without_watermarks (db_events (rw_db w')) =
          without_watermarks (db_events (rw_db w) @ number_rows (db_next_event_id (rw_db w)) (map (event_of_pending att) evs)) \<and>
        advance_offset (la_agent_id att) (la_log_path att) (advance_of e off evs n k) (ae_now_iso e)
          (lw_registry (rw_log w)) = Inr (lw_registry (rw_log w')))"
proof (cases "commit_tx e att off evs n k w")
  case (Inl x)
  then show ?thesis by (simp add: commit_events_and_advance_def set_degraded_sqlite_def)
next
  case (Inr p)
  then obtain ids w1 where c: "commit_tx e att off evs n k w = Inr (ids, w1)" by (cases p) auto
  then obtain d g where i: "insert_events (map (event_of_pending att) evs) (rw_db w) = Inr (ids, d)"
    "advance_offset (la_agent_id att) (la_log_path att) (advance_of e off evs n k) (ae_now_iso e)
      (lw_registry (rw_log w)) = Inr g" "w1 = w\<lparr>rw_db := d, rw_log := (rw_log w)\<lparr>lw_registry := g\<rparr>\<rparr>"
    by (auto simp: commit_tx_def split: option.splits sum.splits)
  note o = insert_events_outcome [OF i(1)]
  have "rw_db w1 = d" "lw_registry (rw_log w1) = g" by (simp_all add: i(3))
  then show ?thesis using i(2) o
    by (simp add: commit_events_and_advance_def c published_all_keeps append_committed_rows empty_result_def)
qed

subsection \<open>A file that was never recorded\<close>

lemma commit_keeps_inode:
  assumes "commit_events_and_advance e att off evs n k m w = (res, w')"
    and "lo_select (lw_registry (rw_log w)) (la_agent_id att) (la_log_path att) = Some off"
  shows "\<exists>off'. lo_select (lw_registry (rw_log w')) (la_agent_id att) (la_log_path att) = Some off' \<and>
    lo_file_inode off' = lo_file_inode off \<and> lo_byte_offset off \<le> lo_byte_offset off'"
proof (cases "commit_tx e att off evs n k w")
  case (Inl x)
  then show ?thesis using assms by (auto simp: commit_events_and_advance_def set_degraded_sqlite_def split: if_splits)
next
  case (Inr p)
  then obtain ids w1 where c: "commit_tx e att off evs n k w = Inr (ids, w1)" by (cases p) auto
  then have "advance_offset (la_agent_id att) (la_log_path att) (advance_of e off evs n k) (ae_now_iso e)
      (lw_registry (rw_log w)) = Inr (lw_registry (rw_log w1))" "w' = append_committed e ids w1"
    using assms(1) by (auto simp: commit_tx_def commit_events_and_advance_def split: option.splits sum.splits)
  then show ?thesis using advance_offset_outcome [OF assms(2), of "advance_of e off evs n k" "ae_now_iso e"]
    by (auto simp: published_all_keeps advance_of_def)
qed

lemma process_keeps_inode:
  assumes "process_bytes c e att off chunk w = (res, w')"
    and "lo_select (lw_registry (rw_log w)) (la_agent_id att) (la_log_path att) = Some off"
  shows "\<exists>off'. lo_select (lw_registry (rw_log w')) (la_agent_id att) (la_log_path att) = Some off' \<and>
    lo_file_inode off' = lo_file_inode off \<and> lo_byte_offset off \<le> lo_byte_offset off'"
proof -
  have commit: ?thesis if "commit_events_and_advance e att off evs n k m v = (res, w')" "rw_log v = rw_log w" for evs n k m v
    using commit_keeps_inode [OF that(1)] that(2) assms(2) by simp
  have same: ?thesis if "rw_log w' = rw_log w" using that assms(2) by simp
  have flush: ?thesis if "flush_only c e att off m w = (res, w')" for m
  proof -
    obtain es ws where f: "flush_expired (rc_window_ms c) (ae_now_monotonic e) (ae_now_iso e) (Some (la_attachment_id att))
        (rs_windows (rw_reader w)) = (es, ws)" by fastforce
    show ?thesis
    proof (cases "es = []")
      case True
      then show ?thesis using that f by (intro same) (auto simp: flush_only_def)
    next
      case False
      then have "commit_events_and_advance e att off es 0 0 m (set_windows ws w) = (res, w')"
        using that f by (simp add: flush_only_def)
      then show ?thesis by (rule commit) simp
    qed
  qed
  obtain records n k where s: "split_complete_records chunk = (records, n, k)" by (metis prod_cases3)
  obtain r ws where sr: "submit_records c e (la_attachment_id att) (lo_line_offset off) 0 (lo_byte_offset off) records
      (rs_windows (rw_reader w)) = (r, ws)" by fastforce
  obtain es' ws' where fe: "flush_expired (rc_window_ms c) (ae_now_monotonic e) (ae_now_iso e)
      (Some (la_attachment_id att)) ws = (es', ws')" by fastforce
  let ?cl = "classify (rc_unicode c) (rc_excerpt_cap c) (rc_excerpt_marker c) (record_text chunk)"
  consider "chunk = []" | "chunk \<noteq> []" "records = []" "\<not> rc_byte_cap c \<le> length chunk"
    | "chunk \<noteq> []" "records = []" "rc_byte_cap c \<le> length chunk" | "chunk \<noteq> []" "records \<noteq> []" by blast
  then show ?thesis
  proof cases
    case 1
    then have "flush_only c e att off 0 w = (res, w')" using assms(1) by (simp add: process_bytes_def)
    then show ?thesis by (rule flush)
  next
    case 2
    then have "flush_only c e att off (length chunk) w = (res, w')" using assms(1) s by (simp add: process_bytes_def)
    then show ?thesis by (rule flush)
  next
    case 3
    show ?thesis
    proof (cases ?cl)
      case (Inl x)
      then show ?thesis using 3 assms(1) s by (intro same) (simp add: process_bytes_def)
    next
      case (Inr outcome)
      then have "commit_events_and_advance e att off [forced_event e off (length chunk) outcome] (length chunk) 0
          (length chunk) w = (res, w')" using 3 assms(1) s by (simp add: process_bytes_def)
      then show ?thesis by (rule commit) simp
    qed
  next
    case 4
    show ?thesis
    proof (cases r)
      case (Inl x)
      then have "w' = set_windows ws w" using 4 assms(1) s sr by (simp add: process_bytes_def)
      then show ?thesis by (intro same) simp
    next
      case (Inr es)
      then have "commit_events_and_advance e att off (es @ es') n k (length chunk) (set_windows ws' w) = (res, w')"
        using 4 assms(1) s sr fe by (simp add: process_bytes_def)
      then show ?thesis by (rule commit) simp
    qed
  qed
qed

text \<open>
  A file whose inode was never recorded is never seen to rotate. An offset row starts without an
  inode; as long as none is recorded, a cycle records none and never resets the offset, however the
  file was truncated or replaced.
\<close>

lemma unrecorded_file_never_rotates:
  assumes "lo_select (lw_registry (rw_log w)) (la_agent_id att) (la_log_path att) = Some off" "lo_file_inode off = None"
    and "read_attachment c e att w = (res, w')"
  shows "\<exists>off'. lo_select (lw_registry (rw_log w')) (la_agent_id att) (la_log_path att) = Some off' \<and>
    lo_file_inode off' = None \<and> lo_byte_offset off \<le> lo_byte_offset off'"
proof -
  obtain rec l where r: "reader_cycle_offset_recovery (ae_recovery e) (la_agent_id att) (la_log_path att)
      (ae_now_iso e) (rw_log w) = (rec, l)" by fastforce
  have "rg_offsets (lw_registry l) = rg_offsets (lw_registry (rw_log w))"
    by (rule recovery_without_inode(1) [OF r assms(1,2)])
  then have sel: "lo_select (lw_registry l) (la_agent_id att) (la_log_path att) = Some off"
    using assms(1) by (simp add: lo_select_def)
  have quiet: ?thesis if "w' = w\<lparr>rw_log := l\<rparr>" using that sel assms(2) by simp
  show ?thesis
  proof (cases "w' = w\<lparr>rw_log := l\<rparr>")
    case False
    then obtain chunk where "process_bytes c e att off chunk (w\<lparr>rw_log := l\<rparr>) = (res, w')"
      using assms(3) r sel
      by (auto simp: read_attachment_def Let_def split: sum.splits if_splits)
    from process_keeps_inode [OF this] sel assms(2) show ?thesis by simp
  qed (rule quiet)
qed

end
