(* ===== verification/Reader_Publish.thy ===== *)
theory Reader_Publish
  imports Reader_Facts
begin

text \<open>
  How the reader publishes events. The protocol is a step relation on the event table and the JSONL file:
  store a row, append the line of a stored row, set the watermark of a row whose line is there. Every
  cycle of the reader is a sequence of such steps, whatever fails in it, so the invariants of the
  protocol are invariants of the reader.
\<close>

subsection \<open>The protocol\<close>

definition unmarked :: "event_row \<Rightarrow> event_row" where
  "unmarked e = e\<lparr>ev_jsonl_appended_at := None\<rparr>"

type_synonym publication = "db \<times> event_row list"

inductive publish :: "publication \<Rightarrow> publication \<Rightarrow> bool" where
  store: "insert_event row d = Inr (i, d') \<Longrightarrow> ev_jsonl_appended_at row = None \<Longrightarrow> publish (d, ls) (d', ls)"
| line: "r \<in> set (db_events d) \<Longrightarrow> publish (d, ls) (d, ls @ [unmarked r])"
| mark: "r \<in> set (db_events d) \<Longrightarrow> unmarked r \<in> set ls \<Longrightarrow>
    publish (d, ls) (mark_jsonl_appended (ev_event_id r) t d, ls)"

inductive_cases publishE: "publish s s'"

text \<open>
  Invariant: ids are unique and below the next one, a watermark stands only on a row whose line is in the
  file, and every line is that of a stored row.
\<close>

definition published_ok :: "publication \<Rightarrow> bool" where
  "published_ok s \<longleftrightarrow> events_wf (fst s) \<and>
     list_all (\<lambda>r. ev_jsonl_appended_at r = None \<or> ev_log r = None \<or> unmarked r \<in> set (snd s)) (db_events (fst s)) \<and>
     list_all (\<lambda>l. l \<in> set (map unmarked (db_events (fst s)))) (snd s)"

lemma unmarked_simps [simp]:
  "ev_event_id (unmarked r) = ev_event_id r" "ev_log (unmarked r) = ev_log r"
  "unmarked (r\<lparr>ev_jsonl_appended_at := t\<rparr>) = unmarked r" "unmarked (unmarked r) = unmarked r"
  by (simp_all add: unmarked_def)

lemma unmarked_mark: "map unmarked (db_events (mark_jsonl_appended i t d)) = map unmarked (db_events d)"
proof -
  have "map unmarked (update_where P (\<lambda>e. e\<lparr>ev_jsonl_appended_at := Some t\<rparr>) es) = map unmarked es" for P es
    by (induction es) simp_all
  then show ?thesis by (simp add: mark_jsonl_appended_def)
qed

lemma ids_of_unmarked: "map ev_event_id es = map ev_event_id (map unmarked es)"
  by simp

lemma events_wf_mark: "events_wf (mark_jsonl_appended i t d) \<longleftrightarrow> events_wf d"
proof -
  have "map ev_event_id (db_events (mark_jsonl_appended i t d)) = map ev_event_id (db_events d)"
    unfolding ids_of_unmarked [of "db_events _"] unmarked_mark by simp
  moreover have "db_next_event_id (mark_jsonl_appended i t d) = db_next_event_id d" by (simp add: mark_jsonl_appended_def)
  moreover have "events_wf x \<longleftrightarrow> distinct (map ev_event_id (db_events x)) \<and>
      list_all (\<lambda>i. i < db_next_event_id x) (map ev_event_id (db_events x))" for x
    by (simp add: events_wf_def list_all_iff)
  ultimately show ?thesis by metis
qed

lemma insert_event_InrD:
  assumes "insert_event row d = Inr (i, d')"
  shows "i = db_next_event_id d" "db_events d' = db_events d @ [row\<lparr>ev_event_id := i\<rparr>]" "db_next_event_id d' = Suc i"
    "ev_log row \<noteq> None"
  using assms by (auto simp: insert_event_outcome split: option.splits if_splits)

lemma publish_ok:
  assumes "publish s s'" "published_ok s"
  shows "published_ok s'"
  using assms
proof (induction rule: publish.induct)
  case (store row d i d' ls)
  note i = insert_event_InrD [OF store(1)]
  have "events_wf d'" using store(3) i by (auto simp: published_ok_def events_wf_def list_all_iff)
  then show ?case using store i by (auto simp: published_ok_def list_all_iff)
next
  case (line r d ls)
  then show ?case by (auto simp: published_ok_def list_all_iff)
next
  case (mark r d ls t)
  have wf: "events_wf d" using mark(3) by (simp add: published_ok_def)
  have "unmarked x \<in> set ls" if "x \<in> set (db_events d)" "ev_event_id x = ev_event_id r" for x
  proof -
    have "x = r" using wf mark(1) that by (auto simp: events_wf_def distinct_map inj_on_def)
    then show ?thesis using mark(2) by simp
  qed
  then have "list_all (\<lambda>x. ev_jsonl_appended_at x = None \<or> ev_log x = None \<or> unmarked x \<in> set ls)
      (db_events (mark_jsonl_appended (ev_event_id r) t d))"
    using mark(2,3) by (auto simp: published_ok_def list_all_iff mark_jsonl_appended_def set_update_where)
  then show ?case using mark(3) by (simp add: published_ok_def events_wf_mark unmarked_mark)
qed

lemma publish_run_ok: "publish\<^sup>*\<^sup>* s s' \<Longrightarrow> published_ok s \<Longrightarrow> published_ok s'"
  by (induction rule: rtranclp_induct) (auto intro: publish_ok)

text \<open>A stored row stays.\<close>

definition committed :: "db \<Rightarrow> nat \<times> event_row \<Rightarrow> bool" where
  "committed d ir \<longleftrightarrow> unmarked ((snd ir)\<lparr>ev_event_id := fst ir\<rparr>) \<in> set (map unmarked (db_events d))"

lemma publish_committed:
  assumes "publish s s'" "committed (fst s) ir"
  shows "committed (fst s') ir"
  using assms
proof (induction rule: publish.induct)
  case (store row d i d' ls)
  then show ?case using insert_event_InrD(2) [OF store(1)] by (auto simp: committed_def)
next
  case (mark r d ls t)
  then show ?case by (simp add: committed_def unmarked_mark del: set_map)
qed simp

lemma publish_run_committed: "publish\<^sup>*\<^sup>* s s' \<Longrightarrow> committed (fst s) ir \<Longrightarrow> committed (fst s') ir"
  by (induction rule: rtranclp_induct) (auto intro: publish_committed)

subsection \<open>The reader follows the protocol\<close>

abbreviation pub :: "reader_world \<Rightarrow> publication" where
  "pub w \<equiv> (rw_db w, rw_jsonl w)"

lemma pub_set_windows [simp]: "pub (set_windows ws w) = pub w"
  by simp

lemma publish_line:
  assumes "committed d (i, row)"
  shows "publish (d, ls) (d, ls @ [unmarked (row\<lparr>ev_event_id := i\<rparr>)])"
    and "unmarked (row\<lparr>ev_event_id := i\<rparr>) \<in> set ls \<Longrightarrow> publish (d, ls) (mark_jsonl_appended i t d, ls)"
proof -
  obtain r where r: "r \<in> set (db_events d)" "unmarked r = unmarked (row\<lparr>ev_event_id := i\<rparr>)"
    using assms by (auto simp: committed_def)
  show "publish (d, ls) (d, ls @ [unmarked (row\<lparr>ev_event_id := i\<rparr>)])"
    using publish.line [OF r(1), of ls] r(2) by simp
  have "ev_event_id r = i" using arg_cong [OF r(2), of ev_event_id] by simp
  then show "publish (d, ls) (mark_jsonl_appended i t d, ls)" if "unmarked (row\<lparr>ev_event_id := i\<rparr>) \<in> set ls"
    using publish.mark [OF r(1), of ls t] that r(2) by simp
qed

lemma append_event_unmarked: "rw_jsonl (append_event_to_jsonl i row w) = rw_jsonl w @ [unmarked (row\<lparr>ev_event_id := i\<rparr>)]"
  "rw_db (append_event_to_jsonl i row w) = rw_db w"
  by (simp_all add: append_event_to_jsonl_def unmarked_def)

lemma append_mark_publishes:
  assumes "committed (rw_db w) (i, row)"
  shows "publish\<^sup>*\<^sup>* (pub w) (pub (snd (append_mark_and_notify e i row w)))"
proof -
  let ?l = "unmarked (row\<lparr>ev_event_id := i\<rparr>)"
  have 1: "publish (pub w) (rw_db w, rw_jsonl w @ [?l])" by (rule publish_line(1) [OF assms])
  have 2: "publish (rw_db w, rw_jsonl w @ [?l]) (mark_jsonl_appended i (ae_now_iso e) (rw_db w), rw_jsonl w @ [?l])"
    by (rule publish_line(2) [OF assms]) simp
  show ?thesis using r_into_rtranclp [of publish, OF 1] rtranclp.rtrancl_into_rtrancl [OF r_into_rtranclp [of publish, OF 1] 2]
    by (simp add: append_mark_and_notify_def append_event_unmarked set_degraded_sqlite_def Let_def)
qed

lemma append_committed_publishes:
  assumes "list_all (committed (rw_db w)) ids"
  shows "publish\<^sup>*\<^sup>* (pub w) (pub (append_committed e ids w))"
  using assms
proof (induction e ids w rule: append_committed.induct)
  case (2 e i row rest w)
  let ?w = "snd (append_mark_and_notify e i row w)"
  have s: "publish\<^sup>*\<^sup>* (pub w) (pub ?w)" by (rule append_mark_publishes) (use 2 in simp)
  have "list_all (committed (rw_db ?w)) rest"
    using publish_run_committed [OF s] 2(2) by (auto simp: list_all_iff)
  from rtranclp_trans [OF s 2(1) [OF this]] show ?case by simp
qed simp

lemma insert_events_publish:
  assumes "insert_events rows d = Inr (ids, d')" "list_all (\<lambda>r. ev_jsonl_appended_at r = None) rows"
  shows "publish\<^sup>*\<^sup>* (d, ls) (d', ls) \<and> list_all (committed d') ids"
  using assms
proof (induction rows arbitrary: d ids)
  case (Cons r rows)
  then obtain i d1 rest where s: "insert_event r d = Inr (i, d1)" "insert_events rows d1 = Inr (rest, d')"
    "ids = (i, r) # rest" by (auto simp: tx_bind_def tx_return_def split: sum.splits)
  have 1: "publish (d, ls) (d1, ls)" by (rule publish.store [OF s(1)]) (use Cons.prems in simp)
  note 2 = Cons.IH [OF s(2)]
  have "committed d1 (i, r)" using insert_event_InrD(2) [OF s(1)] by (simp add: committed_def)
  then have "committed d' (i, r)" using publish_run_committed [of "(d1, ls)" "(d', ls)"] 2 Cons.prems(2) by simp
  then show ?case using converse_rtranclp_into_rtranclp [of publish, OF 1] 2 Cons.prems(2) s(3) by simp
qed (simp add: tx_return_def)

lemma commit_publishes:
  "publish\<^sup>*\<^sup>* (pub w) (pub (snd (commit_events_and_advance e att off evs n k m w)))"
proof (cases "commit_tx e att off evs n k w")
  case (Inl x)
  then show ?thesis by (simp add: commit_events_and_advance_def set_degraded_sqlite_def)
next
  case (Inr c)
  then obtain ids w1 where c: "commit_tx e att off evs n k w = Inr (ids, w1)" by (cases c) auto
  then obtain d where i: "insert_events (map (event_of_pending att) evs) (rw_db w) = Inr (ids, d)"
    "rw_db w1 = d" "rw_jsonl w1 = rw_jsonl w"
    by (auto simp: commit_tx_def split: option.splits sum.splits)
  have "list_all (\<lambda>r. ev_jsonl_appended_at r = None) (map (event_of_pending att) evs)"
    by (simp add: list_all_iff event_of_pending_def)
  note p = insert_events_publish [OF i(1) this, of "rw_jsonl w"]
  then have "publish\<^sup>*\<^sup>* (pub w1) (pub (append_committed e ids w1))"
    using i(2) by (intro append_committed_publishes) simp
  with p have "publish\<^sup>*\<^sup>* (pub w) (pub (append_committed e ids w1))"
    using i(2,3) by (metis rtranclp_trans)
  then show ?thesis by (simp add: commit_events_and_advance_def c)
qed

lemma persist_publishes:
  "publish\<^sup>*\<^sup>* (pub w) (pub (snd (persist_synthetic_event e att ty rule off w)))"
proof -
  let ?s = "synthetic_event e att ty rule off"
  let ?r = "case ae_synthetic_error e ty of Some x \<Rightarrow> Inl x | None \<Rightarrow> insert_event ?s (rw_db w)"
  show ?thesis
  proof (cases ?r)
    case (Inl x)
    then show ?thesis by (simp add: persist_synthetic_event_def set_degraded_sqlite_def Let_def)
  next
    case (Inr p)
    then obtain i d where i: "?r = Inr (i, d)" by (cases p) auto
    then have ins: "insert_event ?s (rw_db w) = Inr (i, d)" by (auto split: option.splits)
    have 1: "publish (pub w) (pub (w\<lparr>rw_db := d\<rparr>))"
      using publish.store [OF ins] by (simp add: synthetic_event_def)
    have "committed d (i, ?s)" using insert_event_InrD(2) [OF ins] by (simp add: committed_def)
    then have "publish\<^sup>*\<^sup>* (pub (w\<lparr>rw_db := d\<rparr>)) (pub (snd (append_mark_and_notify e i ?s (w\<lparr>rw_db := d\<rparr>))))"
      by (intro append_mark_publishes) simp
    then show ?thesis using converse_rtranclp_into_rtranclp [of publish, OF 1]
      by (simp add: persist_synthetic_event_def i Let_def)
  qed
qed

lemma pane_exited_publishes: "publish\<^sup>*\<^sup>* (pub w) (pub (snd (maybe_synthesize_pane_exited c e att w)))"
proof -
  have "publish\<^sup>*\<^sup>* (pub w) (pub w')" if "persist_synthetic_event e att ty rule off w = (res, w')" for ty rule off res w'
    using persist_publishes [of w e att ty rule off] that by simp
  then show ?thesis
    by (auto simp: maybe_synthesize_pane_exited_def Let_def split: option.splits prod.splits sum.splits)
qed

lemma long_running_publishes: "publish\<^sup>*\<^sup>* (pub w) (pub (snd (maybe_synthesize_long_running c e att w)))"
proof -
  have "publish\<^sup>*\<^sup>* (pub w) (pub w')"
    if "persist_synthetic_event e att ty rule off (w\<lparr>rw_reader := x\<rparr>) = (res, w')" for ty rule off res w' x
    using persist_publishes [of "w\<lparr>rw_reader := x\<rparr>" e att ty rule off] that by simp
  then show ?thesis
    by (auto simp: maybe_synthesize_long_running_def Let_def split: option.splits prod.splits sum.splits)
qed

lemma flush_only_publishes: "publish\<^sup>*\<^sup>* (pub w) (pub (snd (flush_only c e att off m w)))"
proof -
  obtain es ws where f: "flush_expired (rc_window_ms c) (ae_now_monotonic e) (ae_now_iso e) (Some (la_attachment_id att))
      (rs_windows (rw_reader w)) = (es, ws)" by fastforce
  show ?thesis using commit_publishes [of "set_windows ws w"] by (simp add: flush_only_def f)
qed

lemma process_bytes_publishes: "publish\<^sup>*\<^sup>* (pub w) (pub (snd (process_bytes c e att off chunk w)))"
proof -
  obtain records n k where s: "split_complete_records chunk = (records, n, k)" by (metis prod_cases3)
  obtain res ws where sr: "submit_records c e (la_attachment_id att) (lo_line_offset off) 0 (lo_byte_offset off) records
      (rs_windows (rw_reader w)) = (res, ws)" by fastforce
  obtain es' ws' where fe: "flush_expired (rc_window_ms c) (ae_now_monotonic e) (ae_now_iso e)
      (Some (la_attachment_id att)) ws = (es', ws')" by fastforce
  consider "chunk = []" | "chunk \<noteq> []" "records = []" | "chunk \<noteq> []" "records \<noteq> []" by blast
  then show ?thesis
  proof cases
    case 1
    then show ?thesis using flush_only_publishes by (simp add: process_bytes_def)
  next
    case 2
    then show ?thesis using flush_only_publishes commit_publishes [of w] s
      by (cases "classify (rc_unicode c) (rc_excerpt_cap c) (rc_excerpt_marker c) (record_text chunk)")
        (simp_all add: process_bytes_def)
  next
    case 3
    then show ?thesis using commit_publishes [of "set_windows ws' w"] s sr fe
      by (cases res) (simp_all add: process_bytes_def)
  qed
qed

lemma run_cycle_publishes: "publish\<^sup>*\<^sup>* (pub w) (pub (snd (run_cycle_for_attachment c e att w)))"
proof -
  let ?w1 = "snd (maybe_synthesize_pane_exited c e att w)"
  let ?w2 = "snd (maybe_synthesize_long_running c e att ?w1)"
  have 1: "publish\<^sup>*\<^sup>* (pub w) (pub ?w1)" by (rule pane_exited_publishes)
  have 2: "publish\<^sup>*\<^sup>* (pub w) (pub ?w2)" using rtranclp_trans [OF 1 long_running_publishes] .
  have read: "publish\<^sup>*\<^sup>* (pub v) (pub (snd (read_attachment c e att v)))" for v
    using process_bytes_publishes [of "v\<lparr>rw_log := _\<rparr>"]
    by (auto simp: read_attachment_def Let_def split: prod.splits sum.splits option.splits)
  show ?thesis using 1 2 rtranclp_trans [OF 2 read]
    by (auto simp: run_cycle_for_attachment_def split: prod.splits sum.splits)
qed

lemma run_attachments_publishes: "publish\<^sup>*\<^sup>* (pub w) (pub (snd (run_attachments c env atts w)))"
proof (induction atts arbitrary: w)
  case (Cons att atts)
  let ?w1 = "snd (run_cycle_for_attachment c (env (la_attachment_id att)) att w)"
  from rtranclp_trans [OF run_cycle_publishes Cons [of ?w1]] show ?case by (simp add: split_beta)
qed simp

lemma retry_rows_publishes:
  assumes "list_all (\<lambda>r. committed (rw_db w) (ev_event_id r, r)) rows"
  shows "publish\<^sup>*\<^sup>* (pub w) (pub (snd (retry_rows e rows n w)))"
  using assms
proof (induction rows arbitrary: n w)
  case (Cons r rows)
  let ?l = "unmarked (r\<lparr>ev_event_id := ev_event_id r\<rparr>)"
  let ?w1 = "append_event_to_jsonl (ev_event_id r) r w"
  let ?w2 = "?w1\<lparr>rw_db := mark_jsonl_appended (ev_event_id r) (rt_now_iso e) (rw_db ?w1)\<rparr>"
  have c: "committed (rw_db w) (ev_event_id r, r)" using Cons.prems by simp
  have 1: "publish\<^sup>*\<^sup>* (pub w) (pub ?w1)"
    using publish_line(1) [OF c, of "rw_jsonl w"] by (auto simp: append_event_unmarked)
  have "publish (pub ?w1) (pub ?w2)"
    using publish_line(2) [OF c, of "rw_jsonl ?w1"] by (simp add: append_event_unmarked)
  with 1 have 2: "publish\<^sup>*\<^sup>* (pub w) (pub ?w2)" by (rule rtranclp.rtrancl_into_rtrancl)
  have rest: "list_all (\<lambda>r. committed (rw_db ?w2) (ev_event_id r, r)) rows"
    using publish_run_committed [OF 2] Cons.prems by (auto simp: list_all_iff)
  show ?case
  proof (cases "rt_append_fails e (ev_event_id r)")
    case True
    then show ?thesis using Cons by simp
  next
    case False
    then show ?thesis using 1 rtranclp_trans [OF 2 Cons.IH [OF rest]]
      by (cases "rt_mark_fails e (ev_event_id r)") (simp_all add: Let_def)
  qed
qed simp

lemma retry_publishes: "publish\<^sup>*\<^sup>* (pub w) (pub (snd (retry_pending_jsonl_appends e w)))"
proof (cases "select_pending_jsonl 50 (rw_db w)")
  case (Inr pending)
  then have "list_all (\<lambda>r. committed (rw_db w) (ev_event_id r, r)) pending"
    by (auto simp: select_pending_jsonl_def list_all_iff committed_def dest!: in_set_takeD)
  from retry_rows_publishes [OF this, of e 0] show ?thesis using Inr
    by (auto simp: retry_pending_jsonl_appends_def split: prod.splits sum.splits)
qed (simp add: retry_pending_jsonl_appends_def)

lemma run_reader_cycle_publishes:
  "publish\<^sup>*\<^sup>* (pub w) (pub (snd (run_reader_cycle c env retry now w)))"
proof -
  let ?w1 = "(w\<lparr>rw_sessions := map_option (\<lambda>r. snd (gc_expired now r)) (rw_sessions w)\<rparr>)
    \<lparr>rw_reader := (rw_reader w)\<lparr>rs_active_attachments := length (list_active_attachments (lw_registry (rw_log w)))\<rparr>\<rparr>"
  obtain fs w2 where r: "run_attachments c env (list_active_attachments (lw_registry (rw_log w))) ?w1 = (fs, w2)"
    by fastforce
  let ?w3 = "w2\<lparr>rw_reader := (rw_reader w2)\<lparr>rs_attachments_in_failure := fs\<rparr>\<rparr>"
  have "publish\<^sup>*\<^sup>* (pub w) (pub w2)"
    using run_attachments_publishes [of ?w1 c env "list_active_attachments (lw_registry (rw_log w))"] r by simp
  also have "publish\<^sup>*\<^sup>* (pub w2) (pub (snd (retry_pending_jsonl_appends retry ?w3)))"
    using retry_publishes [of ?w3] by simp
  finally show ?thesis using r by (simp add: run_reader_cycle_def Let_def)
qed

subsection \<open>Properties\<close>

text \<open>
  C10: a cycle of the reader follows the publication protocol. Whatever the file system, SQLite and the
  appends do in it, a whole cycle over all attachments with its retry pass is a sequence of the three
  steps: store an event, append the line of a stored event, set the watermark of an event whose line is
  in the file.
\<close>

theorem cycle_refines_publication:
  "publish\<^sup>*\<^sup>* (rw_db w, rw_jsonl w)
     (rw_db (snd (run_reader_cycle c env retry now w)), rw_jsonl (snd (run_reader_cycle c env retry now w)))"
  by (rule run_reader_cycle_publishes)

text \<open>
  A watermark is never ahead of the file. If it is so before a cycle, then after it, whatever failed
  in between, every event with a watermark has its line in the JSONL file, every line of the file is
  that of a stored event, and ids are unique.
\<close>

lemma watermark_never_ahead:
  assumes "published_ok (rw_db w, rw_jsonl w)" "run_reader_cycle c env retry now w = (res, w')"
  shows "published_ok (rw_db w', rw_jsonl w')"
  using publish_run_ok [OF run_reader_cycle_publishes assms(1)] assms(2) by (metis snd_conv)

subsection \<open>The retry pass drains\<close>

definition pending_rows :: "db \<Rightarrow> event_row list" where
  "pending_rows d = sort_key ev_event_id
     (filter (\<lambda>r. ev_jsonl_appended_at r = None \<and> ev_event_type r \<in> set classifier_event_types) (db_events d))"

lemma filter_update_where_out:
  assumes "\<And>r. \<not> P (f r)"
  shows "filter P (update_where Q f rows) = filter (\<lambda>r. P r \<and> \<not> Q r) rows"
  using assms by (induction rows) auto

lemma pending_rows_mark:
  "pending_rows (mark_jsonl_appended i t d) = filter (\<lambda>r. ev_event_id r \<noteq> i) (pending_rows d)"
proof -
  have "filter (\<lambda>r. ev_jsonl_appended_at r = None \<and> ev_event_type r \<in> set classifier_event_types)
      (db_events (mark_jsonl_appended i t d)) =
    filter (\<lambda>r. ev_event_id r \<noteq> i) (filter (\<lambda>r. ev_jsonl_appended_at r = None \<and>
      ev_event_type r \<in> set classifier_event_types) (db_events d))"
    unfolding mark_jsonl_appended_def
    by (simp add: filter_update_where_out) (rule filter_cong, auto)
  then show ?thesis by (simp add: pending_rows_def filter_sort)
qed

lemma distinct_map_sort_key: "distinct (map f (sort_key k xs)) \<longleftrightarrow> distinct (map f xs)"
  by (metis distinct_map distinct_sort set_sort)

lemma pending_rows_distinct: "events_wf d \<Longrightarrow> distinct (map ev_event_id (pending_rows d))"
  unfolding pending_rows_def events_wf_def distinct_map_sort_key by (simp add: distinct_map_filter)

lemma retry_rows_drain:
  assumes "\<And>i. \<not> rt_append_fails e i" "\<And>i. rt_mark_fails e i = None" "events_wf (rw_db w)"
    and "pending_rows (rw_db w) = rows @ rest"
  shows "\<exists>w'. retry_rows e rows n w = (Inr n, w') \<and> pending_rows (rw_db w') = rest \<and>
    rw_jsonl w' = rw_jsonl w @ map unmarked rows"
  using assms(3,4)
proof (induction rows arbitrary: w)
  case (Cons r rows)
  let ?w1 = "append_event_to_jsonl (ev_event_id r) r w"
  let ?w2 = "?w1\<lparr>rw_db := mark_jsonl_appended (ev_event_id r) (rt_now_iso e) (rw_db ?w1)\<rparr>"
  have "distinct (map ev_event_id (r # rows @ rest))" using pending_rows_distinct [OF Cons.prems(1)] Cons.prems(2) by simp
  then have "filter (\<lambda>x. ev_event_id x \<noteq> ev_event_id r) (rows @ rest) = rows @ rest"
    by (intro filter_True) (auto simp: image_iff)
  then have "pending_rows (rw_db ?w2) = rows @ rest"
    using Cons.prems(2) by (simp add: pending_rows_mark append_event_unmarked)
  from Cons.IH [OF _ this] Cons.prems(1) obtain w' where "retry_rows e rows n ?w2 = (Inr n, w')"
    "pending_rows (rw_db w') = rest" "rw_jsonl w' = rw_jsonl ?w2 @ map unmarked rows"
    by (auto simp: events_wf_mark append_event_unmarked)
  then show ?case using assms(1,2) by (simp add: Let_def append_event_unmarked)
qed simp

text \<open>
  C13: the retry pass makes progress. A pass in which no statement and no append fails appends the lines
  of the oldest fifty events without a watermark, oldest first, and leaves exactly the others without one.
\<close>

theorem retry_pass_drains:
  assumes "rt_select_fails e = False" "rt_append_fails e = (\<lambda>_. False)" "rt_mark_fails e = (\<lambda>_. None)"
    and "events_wf (rw_db w)"
  shows "\<exists>w'. retry_pending_jsonl_appends e w = (Inr (), w') \<and>
    pending_rows (rw_db w') = drop 50 (pending_rows (rw_db w)) \<and>
    rw_jsonl w' = rw_jsonl w @ map unmarked (take 50 (pending_rows (rw_db w)))"
proof -
  let ?p = "take 50 (pending_rows (rw_db w))"
  have sel: "select_pending_jsonl 50 (rw_db w) = Inr ?p" by (simp add: select_pending_jsonl_def pending_rows_def)
  obtain w1 where w1: "retry_rows e ?p 0 w = (Inr 0, w1)" "pending_rows (rw_db w1) = drop 50 (pending_rows (rw_db w))"
    "rw_jsonl w1 = rw_jsonl w @ map unmarked ?p"
    using retry_rows_drain [of e w ?p "drop 50 (pending_rows (rw_db w))" 0] assms by auto
  show ?thesis
  proof (cases "?p = []")
    case True
    then show ?thesis using sel assms(1) by (simp add: retry_pending_jsonl_appends_def)
  next
    case False
    then show ?thesis using sel assms(1) w1 by (simp add: retry_pending_jsonl_appends_def)
  qed
qed

end
