(* ===== verification/Reader_Samples.thy ===== *)
theory Reader_Samples
  imports Reader_Publish
begin

text \<open>
  Concrete cycles of the reader: a log with one attachment, read with the daemon's default limits.
\<close>

definition sample_reader_config :: reader_config where
  "sample_reader_config =
     \<lparr>rc_byte_cap = 65536, rc_excerpt_cap = per_event_excerpt_cap_bytes, rc_excerpt_marker = excerpt_truncation_marker,
      rc_window_ms = 5000, rc_pane_exited_grace = 30000, rc_long_running_grace = 30000,
      rc_unicode = example_unicode, rc_elapsed = (\<lambda>_ _. None)\<rparr>"

definition sample_attachment :: attachment_row where
  "sample_attachment =
     \<lparr>la_attachment_id = ''lat_1'', la_agent_id = ''agt_1'', la_pane_key = (''c'', ''s'', ''m'', 0, 0, ''%0''),
      la_log_path = ''/l'', la_status = Att_active, la_source = ''explicit'', la_pipe_pane_command = [],
      la_prior_pipe_target = None, la_attached_at = ''t0'', la_last_status_at = ''t0'', la_superseded_at = None,
      la_superseded_by = None, la_created_at = ''t0''\<rparr>"

definition sample_offset :: offset_row where
  "sample_offset =
     \<lparr>lo_agent_id = ''agt_1'', lo_log_path = ''/l'', lo_byte_offset = 0, lo_line_offset = 0, lo_last_event_offset = 0,
      lo_last_output_at = None, lo_file_inode = None, lo_file_size_seen = 0, lo_created_at = ''t0'', lo_updated_at = ''t0''\<rparr>"

definition sample_log_world :: log_world where
  "sample_log_world =
     \<lparr>lw_registry = \<lparr>rg_agents = [], rg_containers = [], rg_panes = [], rg_attachments = [sample_attachment],
        rg_offsets = [sample_offset]\<rparr>,
      lw_lifecycle = \<lparr>lf_suppression = no_suppression, lf_log = []\<rparr>,
      lw_audit = None\<rparr>"

definition sample_reader_world :: reader_world where
  "sample_reader_world =
     \<lparr>rw_db = sample_log [], rw_log = sample_log_world, rw_jsonl = [], rw_sessions = None,
      rw_reader = \<lparr>rs_windows = [], rs_pane_exited_emitted = {}, rs_long_running_marked = {}, rs_degraded_sqlite = None,
        rs_degraded_jsonl = None, rs_active_attachments = 0, rs_attachments_in_failure = []\<rparr>\<rparr>"

definition sample_cycle_env :: "timestamp \<Rightarrow> int \<Rightarrow> bytes \<Rightarrow> attachment_env" where
  "sample_cycle_env now clk contents =
     \<lparr>ae_now_iso = now, ae_now_monotonic = clk,
      ae_recovery = \<lparr>re_stat = Some \<lparr>fs_inode = ''1:2'', fs_size = int (length contents)\<rparr>, re_tx_error = None,
        re_audit_error = None, re_logger = True, re_daemon_uid = 0\<rparr>,
      ae_contents = Inr contents, ae_window_ids = (\<lambda>_. ''w''), ae_commit_error = None,
      ae_synthetic_error = (\<lambda>_. None), ae_append_fails = (\<lambda>_. False), ae_watermark_fails = (\<lambda>_. False)\<rparr>"

definition ascii_bytes :: "string \<Rightarrow> bytes" where
  "ascii_bytes s = map (\<lambda>c. of_nat (of_char c)) s"

definition text_line :: "string \<Rightarrow> bytes" where
  "text_line s = ascii_bytes s @ [10]"

definition cycle :: "attachment_env \<Rightarrow> reader_world \<Rightarrow> reader_world" where
  "cycle e w = snd (run_cycle_for_attachment sample_reader_config e sample_attachment w)"

definition stored_ranges :: "reader_world \<Rightarrow> (int \<times> int) list" where
  "stored_ranges w = concat (map (\<lambda>r. case ev_log r of
     Some c \<Rightarrow> [(lc_byte_range_start c, lc_byte_range_end c)] | None \<Rightarrow> []) (db_events (rw_db w)))"

definition sample_byte_offset :: "reader_world \<Rightarrow> int option" where
  "sample_byte_offset w = map_option lo_byte_offset (lo_select (lw_registry (rw_log w)) ''agt_1'' ''/l'')"

subsection \<open>Behaviours that differ from what the comments promise\<close>

text \<open>
  With lines that end in a carriage return and a newline, the byte range of an event is not the range
  of its line. The ranges of the two events below are cut one byte short per line before them, so the
  second starts at the newline of the first line and misses the end of its own, while the persisted
  offset counts all bytes.
\<close>

lemma crlf_ranges_drift:
  "let line = ascii_bytes ''FAILED a::b'' @ [13, 10];
       w = cycle (sample_cycle_env ''t1'' 0 (line @ line)) sample_reader_world
   in stored_ranges w = [(0, 12), (12, 24)] \<and> sample_byte_offset w = Some 26 \<and>
      take 12 (drop 12 (line @ line)) = 10 # butlast (butlast line)"
  by code_simp

definition failing :: "attachment_env \<Rightarrow> attachment_env" where
  "failing e = e\<lparr>ae_commit_error := Some (OperationalError ''disk I/O error'')\<rparr>"

text \<open>
  A commit that fails loses or repeats debounced records, although the reader reports them as
  buffered. First: the commit of the cycle that reads a record fails, the record is read again and
  counted twice. Second: the commit of the cycle that closes a window fails, and the record the window
  stood for is neither stored nor in a window any more, with the offset past it.
\<close>

lemma failed_commit_miscounts:
  "let contents = text_line ''x''; e = (\<lambda>clk. sample_cycle_env ''t1'' clk contents);
       twice = cycle (e 6000) (cycle (e 1) (cycle (failing (e 0)) sample_reader_world));
       lost = cycle (e 6001) (cycle (failing (e 6000)) (cycle (e 0) sample_reader_world))
   in newlines contents = 1 \<and>
      stored_total (rw_db twice) = 2 \<and>
      stored_total (rw_db lost) = 0 \<and> rs_windows (rw_reader lost) = [] \<and> sample_byte_offset lost = Some 2"
  by code_simp

text \<open>
  The event log is not in the order of its ids. A window that a later record closes is stored after
  an event of that later cycle, but with the time of its own last record.
\<close>

lemma closed_window_breaks_id_order:
  "\<not> log_in_id_order (rw_db
      (cycle (sample_cycle_env ''t2'' 6000 (text_line ''x'' @ text_line ''FAILED a::b'' @ text_line ''y''))
        (cycle (sample_cycle_env ''t1'' 0 (text_line ''x'')) sample_reader_world)))"
  by code_simp

subsection \<open>Witnesses\<close>

lemma sample_reader_world_simps:
  "lo_select (lw_registry (rw_log sample_reader_world)) (la_agent_id sample_attachment) (la_log_path sample_attachment) = Some sample_offset"
  "lo_file_inode sample_offset = None" "windows_ok (rs_windows (rw_reader sample_reader_world))"
  by code_simp+


text \<open>The file shrinks below the offset: nothing more is read.\<close>

definition sample_retry :: retry_env where
  "sample_retry = \<lparr>rt_select_fails = False, rt_append_fails = (\<lambda>_. False), rt_mark_fails = (\<lambda>_. None), rt_now_iso = ''t2''\<rparr>"

definition unpublished_world :: reader_world where
  "unpublished_world = sample_reader_world\<lparr>rw_db := sample_log [sample_log_event 1 ''a'', sample_log_event 2 ''b'']\<rparr>"

theorem retry_pass_drains_witness:
  "\<exists>w'. retry_pending_jsonl_appends sample_retry unpublished_world = (Inr (), w') \<and> pending_rows (rw_db w') = [] \<and>
     length (rw_jsonl w') = 2"
proof -
  have "events_wf (rw_db unpublished_world)" by code_simp
  moreover have "drop 50 (pending_rows (rw_db unpublished_world)) = []" by code_simp
  moreover have "length (rw_jsonl unpublished_world @ map unmarked (take 50 (pending_rows (rw_db unpublished_world)))) = 2" by code_simp
  ultimately show ?thesis using retry_pass_drains [of sample_retry unpublished_world]
    by (auto simp: sample_retry_def simp del: length_append)
qed

theorem recovery_behaviour_table_witness:
  "\<exists>r. fst (reader_cycle_offset_recovery ((ae_recovery (sample_cycle_env ''t1'' 0 []))\<lparr>re_stat := None\<rparr>) ''agt_1'' ''/l'' ''t1'' sample_log_world) = Inr r \<and>
     cy_change r = Missing"
proof -
  let ?e = "(ae_recovery (sample_cycle_env ''t1'' 0 []))\<lparr>re_stat := None\<rparr>"
  have 1: "select_active_for_agent_path (lw_registry sample_log_world) ''agt_1'' ''/l'' = Some sample_attachment" by code_simp
  have 2: "lo_select (lw_registry sample_log_world) ''agt_1'' ''/l'' = Some sample_offset" by code_simp
  have 3: "attachments_ok (rg_attachments (lw_registry sample_log_world))" by code_simp
  have 4: "re_tx_error ?e = None" "re_audit_error ?e = None" "re_stat ?e = None" by (simp_all add: sample_cycle_env_def)
  from recovery_behaviour_table [OF 1 2 3 4(1,2) surjective_pairing, of "''t1''"] 4(3) show ?thesis
    by (auto simp: detect_file_change_def)
qed

end
