(* ===== verification/Py_Text.thy ===== *)
theory Py_Text
  imports Excerpt Regex
begin

text \<open>
  The operations of Python's \<open>str\<close> that work on code points and that several components share:
  \<open>len\<close>, \<open>strip\<close>, \<open>splitlines\<close>, the newline translation of text streams, \<open>int\<close> and \<open>lower\<close>.
\<close>

subsection \<open>Lengths, stripping, splitting\<close>

text \<open>
  \<open>len(s)\<close> and \<open>s.strip()\<close> count and strip code points; a string that is not well-formed UTF-8 has none
  and is left alone.
\<close>

definition py_len :: "string \<Rightarrow> nat" where
  "py_len s = (case codepoints_of_string s of Some cs \<Rightarrow> length cs | None \<Rightarrow> length s)"

definition on_codepoints :: "(codepoint list \<Rightarrow> codepoint list) \<Rightarrow> string \<Rightarrow> string" where
  "on_codepoints f s = (case codepoints_of_string s of Some cs \<Rightarrow> string_of_codepoints (f cs) | None \<Rightarrow> s)"

definition strip_codepoints :: "codepoint list \<Rightarrow> codepoint list" where
  "strip_codepoints cs = rev (dropWhile is_whitespace (rev (dropWhile is_whitespace cs)))"

definition py_strip :: "string \<Rightarrow> string" where
  "py_strip = on_codepoints strip_codepoints"

definition py_rstrip_char :: "char \<Rightarrow> string \<Rightarrow> string" where
  "py_rstrip_char c s = rev (dropWhile (\<lambda>x. x = c) (rev s))"

text \<open>\<open>s.split(c, 1)\<close>: the part before the first separator and, if there is one, the rest.\<close>

definition py_partition :: "char \<Rightarrow> string \<Rightarrow> string \<times> string option" where
  "py_partition c s =
     (takeWhile (\<lambda>x. x \<noteq> c) s, if c \<in> set s then Some (tl (dropWhile (\<lambda>x. x \<noteq> c) s)) else None)"

subsection \<open>Lines\<close>

text \<open>The translation of newlines by a text stream, and \<open>str.splitlines\<close> with all its line boundaries.\<close>

fun universal_newlines :: "codepoint list \<Rightarrow> codepoint list" where
  "universal_newlines [] = []"
| "universal_newlines [c] = [if c = 13 then 10 else c]"
| "universal_newlines (c # d # cs) =
     (if c = 13 then 10 # (if d = 10 then universal_newlines cs else universal_newlines (d # cs))
      else c # universal_newlines (d # cs))"

definition line_break :: "codepoint \<Rightarrow> bool" where
  "line_break c \<longleftrightarrow> (10 \<le> c \<and> c \<le> 13) \<or> (28 \<le> c \<and> c \<le> 30) \<or> c = 0x85 \<or> c = 0x2028 \<or> c = 0x2029"

fun py_splitlines :: "codepoint list \<Rightarrow> codepoint list list" where
  "py_splitlines [] = []"
| "py_splitlines [c] = (if line_break c then [[]] else [[c]])"
| "py_splitlines (c # d # cs) =
     (if c = 13 \<and> d = 10 then [] # py_splitlines cs
      else if line_break c then [] # py_splitlines (d # cs)
      else (case py_splitlines (d # cs) of [] \<Rightarrow> [[c]] | l # ls \<Rightarrow> (c # l) # ls))"

lemma universal_newlines_id: "13 \<notin> set cs \<Longrightarrow> universal_newlines cs = cs"
  by (induction cs rule: universal_newlines.induct) auto

lemma py_splitlines_line:
  "list_all (\<lambda>c. \<not> line_break c) l \<Longrightarrow> py_splitlines (l @ 10 # cs) = l # py_splitlines cs"
proof (induction l)
  case Nil
  show ?case by (cases cs) (simp_all add: line_break_def)
next
  case (Cons x l)
  then show ?case by (cases l) (auto simp: line_break_def)
qed

lemma py_splitlines_lines:
  assumes "list_all (list_all (\<lambda>c. \<not> line_break c)) ls"
  shows "py_splitlines (concat (map (\<lambda>l. l @ [10]) ls)) = ls"
  using assms by (induction ls) (auto simp: py_splitlines_line)

subsection \<open>Integers\<close>

text \<open>
  \<open>int(s)\<close>: white space around an optional sign and decimal digits with single underscores between
  them; more than 4300 digits are refused. The value of a decimal digit outside ASCII is a parameter.
\<close>

type_synonym decimal_digits = "codepoint \<Rightarrow> nat option"

definition decimal_value :: "decimal_digits \<Rightarrow> codepoint \<Rightarrow> nat option" where
  "decimal_value dec c = (if 48 \<le> c \<and> c \<le> 57 then Some (c - 48) else if c < 128 then None else dec c)"

fun int_digits :: "decimal_digits \<Rightarrow> bool \<Rightarrow> nat \<Rightarrow> codepoint list \<Rightarrow> nat option" where
  "int_digits dec after_digit acc [] = (if after_digit then Some acc else None)"
| "int_digits dec after_digit acc (c # cs) =
     (if c = 95 then (if after_digit then int_digits dec False acc cs else None)
      else (case decimal_value dec c of
              None \<Rightarrow> None
            | Some d \<Rightarrow> int_digits dec True (acc * 10 + d) cs))"

definition int_max_str_digits :: nat where
  "int_max_str_digits = 4300"

definition unsigned_int :: "decimal_digits \<Rightarrow> codepoint list \<Rightarrow> int option" where
  "unsigned_int dec cs =
     (if length (filter (\<lambda>c. c \<noteq> 95) cs) > int_max_str_digits then None
      else map_option int (int_digits dec False 0 cs))"

definition py_int :: "decimal_digits \<Rightarrow> codepoint list \<Rightarrow> int option" where
  "py_int dec s =
     (case strip_codepoints s of
        [] \<Rightarrow> None
      | c # cs \<Rightarrow>
          if c = 45 then map_option uminus (unsigned_int dec cs)
          else if c = 43 then unsigned_int dec cs
          else unsigned_int dec (c # cs))"

text \<open>\<open>int\<close> reads back what \<open>str\<close> prints.\<close>

lemma int_digits_append:
  assumes "list_all (\<lambda>c. 48 \<le> c \<and> c \<le> 57) xs" "xs \<noteq> [] \<or> b"
  shows "int_digits dec b acc (xs @ ys) = int_digits dec True (foldl (\<lambda>a c. a * 10 + (c - 48)) acc xs) ys"
  using assms
proof (induction xs arbitrary: acc b)
  case (Cons x xs)
  then show ?case by (cases "xs = []") (auto simp: decimal_value_def)
next
  case Nil
  then show ?case by simp
qed

abbreviation digits_of :: "nat \<Rightarrow> codepoint list" where
  "digits_of n \<equiv> map of_char (py_str n)"

lemma of_char_digit: "(k :: nat) < 10 \<Longrightarrow> (of_char (char_of (48 + k)) :: nat) = 48 + k"
  by simp

lemma py_str_digits:
  "list_all (\<lambda>c. 48 \<le> c \<and> c \<le> (57 :: nat)) (digits_of n) \<and> digits_of n \<noteq> [] \<and>
   foldl (\<lambda>a c. a * 10 + (c - 48)) 0 (digits_of n) = n"
proof (induction n rule: py_str.induct)
  case (1 n)
  show ?case
  proof (cases "n < 10")
    case True
    then show ?thesis by (simp add: py_str.simps [of n])
  next
    case False
    with 1 show ?thesis by (auto simp: py_str.simps [of n])
  qed
qed

lemma unsigned_int_py_str:
  assumes "length (py_str n) \<le> int_max_str_digits"
  shows "unsigned_int dec (digits_of n) = Some (int n)"
proof -
  have "int_digits dec False 0 (digits_of n @ []) = Some n"
    using py_str_digits [of n] by (subst int_digits_append) auto
  moreover have "length (filter (\<lambda>c. c \<noteq> 95) (digits_of n)) \<le> length (py_str n)"
    using length_filter_le [of "\<lambda>c. c \<noteq> 95" "digits_of n"] by (simp only: length_map)
  then have "\<not> int_max_str_digits < length (filter (\<lambda>c. c \<noteq> 95) (digits_of n))" using assms by linarith
  ultimately show ?thesis using assms by (simp only: unsigned_int_def if_False append_Nil2 option.map)
qed

lemma strip_codepoints_id:
  "cs = [] \<or> \<not> is_whitespace (hd cs) \<and> \<not> is_whitespace (last cs) \<Longrightarrow> strip_codepoints cs = cs"
proof -
  assume a: "cs = [] \<or> \<not> is_whitespace (hd cs) \<and> \<not> is_whitespace (last cs)"
  have front: "dropWhile is_whitespace cs = cs" using a by (cases cs) auto
  have "dropWhile is_whitespace (rev cs) = rev cs" using a by (cases cs rule: rev_cases) auto
  with front show ?thesis by (simp add: strip_codepoints_def)
qed

lemma digit_not_white: "48 \<le> c \<Longrightarrow> c \<le> 57 \<Longrightarrow> \<not> is_whitespace c"
  by (simp add: is_whitespace_def)

lemma py_int_py_str_int:
  assumes "length (py_str_int i) \<le> int_max_str_digits"
  shows "py_int dec (map of_char (py_str_int i)) = Some i"
proof -
  let ?n = "nat \<bar>i\<bar>"
  have d: "list_all (\<lambda>c. 48 \<le> c \<and> c \<le> (57 :: nat)) (digits_of ?n)" "digits_of ?n \<noteq> []"
    using py_str_digits [of ?n] by auto
  then have ends: "\<not> is_whitespace (hd (digits_of ?n))" "\<not> is_whitespace (last (digits_of ?n))"
    by (metis digit_not_white list_all_iff hd_in_set last_in_set)+
  have hd: "48 \<le> hd (digits_of ?n)" using d by (metis list_all_iff hd_in_set)
  have len: "length (py_str ?n) \<le> int_max_str_digits" using assms by (simp add: py_str_int_def split: if_splits)
  show ?thesis
  proof (cases "i < 0")
    case True
    then have s: "map of_char (py_str_int i) = 45 # digits_of ?n" by (simp add: py_str_int_def)
    have "strip_codepoints (45 # digits_of ?n) = 45 # digits_of ?n"
      using ends d by (intro strip_codepoints_id) (auto simp: is_whitespace_def)
    with s True show ?thesis using unsigned_int_py_str [OF len, of dec] by (simp add: py_int_def)
  next
    case False
    then have s: "map of_char (py_str_int i) = digits_of ?n" by (simp add: py_str_int_def)
    have st: "strip_codepoints (digits_of ?n) = digits_of ?n" using ends by (intro strip_codepoints_id) simp
    obtain c cs where c: "digits_of ?n = c # cs" using d(2) by (cases "digits_of ?n") auto
    with hd have "c \<noteq> 45" "c \<noteq> 43" by auto
    with st c s False show ?thesis using unsigned_int_py_str [OF len, of dec] by (simp add: py_int_def)
  qed
qed

subsection \<open>Lower case\<close>

text \<open>
  \<open>str.lower\<close> as far as a search for ASCII text can tell: the characters outside ASCII with an ASCII
  letter in their lower case are the Kelvin sign and the dotted capital I; the others stay outside ASCII.
\<close>

definition lower_codepoints :: "codepoint list \<Rightarrow> codepoint list" where
  "lower_codepoints cs =
     concat (map (\<lambda>c. if 65 \<le> c \<and> c \<le> 90 then [c + 32]
                      else if c = 0x212A then [107]
                      else if c = 0x130 then [105, 0x307] else [c]) cs)"

definition mentions :: "string list \<Rightarrow> codepoint list \<Rightarrow> bool" where
  "mentions patterns cs \<longleftrightarrow> list_ex (\<lambda>p. py_contains (cps p) (lower_codepoints cs)) patterns"

end
