(* ===== verification/Log_Paths.thy ===== *)
theory Log_Paths
  imports Py_Text Log_Lifecycle Lock_Retry Json
begin

text \<open>
  Where logs live and how a pane is piped into one: the canonical paths (\<open>logs/canonical_paths.py\<close>),
  the validation of a requested path (\<open>logs/path_validation.py\<close>), the proof that the host sees it
  (\<open>logs/host_visibility.py\<close>), the shell commands (\<open>logs/pipe_pane.py\<close>), the state of a pipe
  (\<open>logs/pipe_pane_state.py\<close>) and the user name for \<open>docker exec\<close> (\<open>state/bench_user.py\<close>).
\<close>

subsection \<open>The user for \<open>docker exec\<close>\<close>

definition normalize_bench_user_for_exec :: "string option \<Rightarrow> string" where
  "normalize_bench_user_for_exec config_user =
     (case config_user of
        None \<Rightarrow> ''root''
      | Some u \<Rightarrow> (let head = py_strip (fst (py_partition CHR '':'' u)) in if head = [] then ''root'' else head))"

subsection \<open>Canonical paths\<close>

text \<open>\<open>Path(a) / b\<close> for a normalized \<open>a\<close>.\<close>

definition path_join :: "string \<Rightarrow> string \<Rightarrow> string" where
  "path_join a b = (if py_startswith b ''/'' then b else if a = ''/'' then a @ b else a @ ''/'' @ b)"

definition log_root_rel :: string where
  "log_root_rel = ''.local/state/opensoft/agenttower/logs''"

definition daemon_owned_roots_rel :: "string list" where
  "daemon_owned_roots_rel = [''.local/state/opensoft/agenttower'', ''.config/opensoft'', ''.cache/opensoft'']"

definition special_fs_prefixes :: "string list" where
  "special_fs_prefixes = [''/proc/'', ''/sys/'', ''/dev/'', ''/run/'']"

definition host_canonical_log_root_for :: "string \<Rightarrow> string" where
  "host_canonical_log_root_for home = path_join home log_root_rel"

definition host_canonical_log_path_for :: "string \<Rightarrow> string \<Rightarrow> string \<Rightarrow> string" where
  "host_canonical_log_path_for home container_id agent_id =
     path_join (path_join (host_canonical_log_root_for home) container_id) (agent_id @ ''.log'')"

definition container_home_for_user :: "string \<Rightarrow> string" where
  "container_home_for_user container_user =
     (if container_user = ''root'' then ''/root'' else path_join ''/home'' container_user)"

definition container_canonical_log_root_for :: "string \<Rightarrow> string" where
  "container_canonical_log_root_for container_user = path_join (container_home_for_user container_user) log_root_rel"

definition container_canonical_log_path_for :: "string \<Rightarrow> string \<Rightarrow> string \<Rightarrow> string" where
  "container_canonical_log_path_for container_user container_id agent_id =
     path_join (path_join (container_canonical_log_root_for container_user) container_id) (agent_id @ ''.log'')"

definition daemon_owned_roots_for :: "string \<Rightarrow> string list" where
  "daemon_owned_roots_for home = map (path_join home) daemon_owned_roots_rel"

subsection \<open>Validation of a requested path\<close>

datatype path_error = LogPathInvalid | LogPathNotHostVisible bool | Path_OSError

definition path_max :: nat where
  "path_max = 4096"

definition forbidden_byte :: "char \<Rightarrow> bool" where
  "forbidden_byte c \<longleftrightarrow> (of_char c :: nat) < 0x20 \<or> (of_char c :: nat) = 0x7F"

definition validate_log_path :: "string \<Rightarrow> string \<Rightarrow> path_error + string" where
  "validate_log_path home v =
     (if CHR 0x00 \<in> set v then Inl LogPathInvalid
      else if py_len v = 0 then Inl LogPathInvalid
      else if py_len v > path_max then Inl LogPathInvalid
      else if list_ex forbidden_byte v then Inl LogPathInvalid
      else if \<not> py_startswith v ''/'' then Inl LogPathInvalid
      else if list_ex (\<lambda>p. p = ''..'') (py_split CHR ''/'' v) then Inl LogPathInvalid
      else if list_ex (\<lambda>prefix. v = py_rstrip_char CHR ''/'' prefix \<or> py_startswith v prefix) special_fs_prefixes
      then Inl LogPathInvalid
      else let log_root = host_canonical_log_root_for home in
        if v = log_root \<or> py_startswith v (log_root @ ''/'') then Inr v
        else if list_ex (\<lambda>owned. v = owned \<or> py_startswith v (owned @ ''/'')) (daemon_owned_roots_for home)
        then Inl LogPathInvalid
        else Inr v)"

subsection \<open>Proof of host visibility\<close>

definition max_mount_entries :: nat where
  "max_mount_entries = 256"

definition max_realpath_hops :: nat where
  "max_realpath_hops = 8"

record visibility_proof =
  vp_host_path :: string
  vp_container_path :: string
  vp_mount_destination :: string
  vp_mount_source :: string

text \<open>The host's file system: \<open>os.path.realpath\<close> (\<open>None\<close> is an \<open>OSError\<close>), \<open>os.path.isdir\<close>, \<open>os.access\<close>.\<close>

record host_fs =
  hf_realpath :: "string \<Rightarrow> string option"
  hf_isdir :: "string \<Rightarrow> bool"
  hf_writable :: "string \<Rightarrow> bool"

text \<open>The column \<open>mounts_json\<close> decoded; \<open>None\<close> is text that is not JSON. The flag of the error is the cap's.\<close>

definition parse_mounts :: "json option \<Rightarrow> path_error + json list" where
  "parse_mounts mounts_json =
     (case mounts_json of
        Some (JList data) \<Rightarrow>
          if length data > max_mount_entries then Inl (LogPathNotHostVisible True) else Inr data
      | _ \<Rightarrow> Inl (LogPathNotHostVisible False))"

text \<open>The loop of \<open>_resolve_source_realpath\<close>, with the hops left and the paths seen.\<close>

fun resolve_source_realpath :: "host_fs \<Rightarrow> nat \<Rightarrow> string list \<Rightarrow> string \<Rightarrow> path_error + string" where
  "resolve_source_realpath fs 0 visited current = Inl (LogPathNotHostVisible False)"
| "resolve_source_realpath fs (Suc hops) visited current =
     (case hf_realpath fs current of
        None \<Rightarrow> Inl (LogPathNotHostVisible False)
      | Some resolved \<Rightarrow>
          if resolved = current then Inr resolved
          else if resolved \<in> set visited then Inl (LogPathNotHostVisible False)
          else resolve_source_realpath fs hops (current # visited) resolved)"

definition is_under :: "string \<Rightarrow> string \<Rightarrow> bool" where
  "is_under path root \<longleftrightarrow> path = root \<or> py_startswith path (py_rstrip_char CHR ''/'' root @ ''/'')"

datatype path_kind = Container_path | Host_path

text \<open>\<open>mount.get(a) or mount.get(b)\<close>.\<close>

definition get_or :: "json_object \<Rightarrow> string \<Rightarrow> string \<Rightarrow> json" where
  "get_or m a b = (if truthy (json_get m a) then json_get m a else json_get m b)"

text \<open>Destination and source of an entry that can cover a path.\<close>

definition usable_mount :: "json \<Rightarrow> (string \<times> string) option" where
  "usable_mount mount =
     (case mount of
        JObj m \<Rightarrow>
          if get_or m ''Type'' ''type'' \<noteq> JStr ''bind'' \<and> get_or m ''Type'' ''type'' \<noteq> JStr ''volume'' then None
          else (case (get_or m ''Destination'' ''target'', get_or m ''Source'' ''source'') of
             (JStr destination, JStr source) \<Rightarrow>
               if py_startswith destination ''/'' \<and> py_startswith source ''/'' then Some (destination, source) else None
           | _ \<Rightarrow> None)
      | _ \<Rightarrow> None)"

definition mount_candidates :: "string \<Rightarrow> json list \<Rightarrow> (nat \<times> path_kind \<times> string \<times> string) list" where
  "mount_candidates requested_path mounts =
     concat (map (\<lambda>mount. case usable_mount mount of
         None \<Rightarrow> []
       | Some (destination, source) \<Rightarrow>
           (if is_under requested_path destination then [(py_len destination, Container_path, destination, source)] else []) @
           (if is_under requested_path source then [(py_len source, Host_path, destination, source)] else [])) mounts)"

definition strip_slashes :: "string \<Rightarrow> string" where
  "strip_slashes s = (let t = py_rstrip_char CHR ''/'' s in if t = [] then ''/'' else t)"

definition relative_to :: "string \<Rightarrow> string \<Rightarrow> string" where
  "relative_to path root =
     (if path = root then []
      else let relative = drop (length root) path in
        if py_startswith relative ''/'' then relative else ''/'' @ relative)"

definition dirname :: "string \<Rightarrow> string" where
  "dirname p = (let parts = py_split CHR ''/'' p; d = py_join ''/'' (butlast parts); t = py_rstrip_char CHR ''/'' d
                in if t = [] then (if d = [] \<and> length parts \<le> 1 then [] else ''/'') else t)"

definition prove_host_visible :: "host_fs \<Rightarrow> json option \<Rightarrow> string \<Rightarrow> bool \<Rightarrow> path_error + visibility_proof" where
  "prove_host_visible fs mounts_json requested_path require_writable =
     (if \<not> py_startswith requested_path ''/'' then Inl (LogPathNotHostVisible False)
      else case parse_mounts mounts_json of
        Inl e \<Rightarrow> Inl e
      | Inr mounts \<Rightarrow>
          (case first_max fst (mount_candidates requested_path mounts) of
             None \<Rightarrow> Inl (LogPathNotHostVisible False)
           | Some (_, kind, destination_raw, source_raw) \<Rightarrow>
               let destination = strip_slashes destination_raw; source = strip_slashes source_raw;
                   paths = (case kind of
                       Container_path \<Rightarrow> (requested_path, source @ relative_to requested_path destination)
                     | Host_path \<Rightarrow> (destination @ relative_to requested_path source, requested_path))
               in (case resolve_source_realpath fs max_realpath_hops [] source of
                     Inl e \<Rightarrow> Inl e
                   | Inr resolved_source \<Rightarrow>
                       (case hf_realpath fs (snd paths) of
                          None \<Rightarrow> Inl Path_OSError
                        | Some resolved_host_path \<Rightarrow>
                            if \<not> is_under resolved_host_path resolved_source then Inl (LogPathNotHostVisible False)
                            else if \<not> hf_isdir fs (if dirname resolved_host_path = [] then ''/'' else dirname resolved_host_path) \<and>
                                    \<not> hf_isdir fs resolved_source
                            then Inl (LogPathNotHostVisible False)
                            else if require_writable \<and> \<not> hf_writable fs resolved_source
                            then Inl (LogPathNotHostVisible False)
                            else Inr \<lparr>vp_host_path = resolved_host_path, vp_container_path = fst paths,
                                      vp_mount_destination = destination, vp_mount_source = resolved_source\<rparr>))))"

subsection \<open>Shell commands\<close>

text \<open>\<open>shlex.quote\<close>: the characters that need no quotes are ASCII letters, digits and some punctuation.\<close>

definition shell_safe :: "char \<Rightarrow> bool" where
  "shell_safe c \<longleftrightarrow> (let n = (of_char c :: nat) in
     65 \<le> n \<and> n \<le> 90 \<or> 97 \<le> n \<and> n \<le> 122 \<or> 48 \<le> n \<and> n \<le> 57) \<or> c \<in> set ''_@%+=:,./-''"

definition single_quote :: char where
  "single_quote = CHR 0x27"

definition double_quote :: char where
  "double_quote = CHR 0x22"

text \<open>\<open>s.replace\<close> of a quote by: end of quotes, the quote in double quotes, start of quotes.\<close>

definition quote_char :: "char \<Rightarrow> string" where
  "quote_char c =
     (if c = single_quote then [single_quote, double_quote, single_quote, double_quote, single_quote] else [c])"

definition shlex_quote :: "string \<Rightarrow> string" where
  "shlex_quote s =
     (if s = [] then [single_quote, single_quote]
      else if list_all shell_safe s then s
      else [single_quote] @ concat (map quote_char s) @ [single_quote])"

definition shlex_join :: "string list \<Rightarrow> string" where
  "shlex_join words = py_join '' '' (map shlex_quote words)"

definition exec_env_args :: "string list" where
  "exec_env_args = [''-e'', ''LANG=C.UTF-8'', ''-e'', ''LC_ALL=C.UTF-8'']"

definition docker_exec_sh :: "string \<Rightarrow> string \<Rightarrow> string \<Rightarrow> string list" where
  "docker_exec_sh container_user container_id inner =
     [''docker'', ''exec''] @ exec_env_args @ [''-u'', container_user, container_id, ''sh'', ''-lc'', inner]"

definition cat_command :: "string \<Rightarrow> string" where
  "cat_command container_side_log = ''cat >> '' @ shlex_quote container_side_log"

definition attach_inner :: "string \<Rightarrow> string \<Rightarrow> string" where
  "attach_inner pane_short_form container_side_log =
     ''tmux pipe-pane -o -t '' @ shlex_quote pane_short_form @ '' '' @ shlex_quote (cat_command container_side_log)"

definition build_attach_argv :: "string \<Rightarrow> string \<Rightarrow> string \<Rightarrow> string \<Rightarrow> string list" where
  "build_attach_argv container_user container_id pane_short_form container_side_log =
     docker_exec_sh container_user container_id (attach_inner pane_short_form container_side_log)"

definition build_toggle_off_argv :: "string \<Rightarrow> string \<Rightarrow> string \<Rightarrow> string list" where
  "build_toggle_off_argv container_user container_id pane_short_form =
     docker_exec_sh container_user container_id (''tmux pipe-pane -t '' @ shlex_quote pane_short_form)"

definition build_inspection_argv :: "string \<Rightarrow> string \<Rightarrow> string \<Rightarrow> string list" where
  "build_inspection_argv container_user container_id pane_short_form =
     docker_exec_sh container_user container_id
       (''tmux list-panes -F '' @ shlex_quote ''#{pane_pipe} #{pane_pipe_command}'' @ '' -t '' @ shlex_quote pane_short_form)"

definition pipe_command_cap :: nat where
  "pipe_command_cap = 4096"

definition cap_codepoints :: "nat \<Rightarrow> codepoint list \<Rightarrow> codepoint list" where
  "cap_codepoints n cs = (if length cs > n then take (n - 1) cs @ [ellipsis] else cs)"

definition render_pipe_command_for_audit :: "string \<Rightarrow> string \<Rightarrow> string \<Rightarrow> string \<Rightarrow> string" where
  "render_pipe_command_for_audit container_user container_id pane_short_form container_side_log =
     on_codepoints (\<lambda>cs. cap_codepoints pipe_command_cap (filter (\<lambda>c. c \<ge> 0x20 \<or> c = 9) cs))
       (shlex_join (build_attach_argv container_user container_id pane_short_form container_side_log))"

definition pipe_pane_stderr_patterns :: "string list" where
  "pipe_pane_stderr_patterns = [''session not found'', ''pane not found'', ''no current target'']"

text \<open>
  The patterns are ASCII, so the ASCII case mapping decides as \<open>str.lower\<close> does, except for the two
  non-ASCII letters that are lowered to an ASCII one (U+0130 and the Kelvin sign); none of the patterns
  has a letter k, and U+0130 becomes two code points.
\<close>

definition stderr_matches_pipe_pane_failure :: "string \<Rightarrow> bool" where
  "stderr_matches_pipe_pane_failure stderr = list_ex (\<lambda>p. py_contains (py_lower p) (py_lower stderr)) pipe_pane_stderr_patterns"

subsection \<open>The state of a pipe\<close>

record pane_pipe =
  pp_pipe_active :: bool
  pp_pipe_command :: string

definition strip_newlines :: "string \<Rightarrow> string" where
  "strip_newlines s = py_rstrip_char CHR 10 (dropWhile (\<lambda>c. c = CHR 10) s)"

definition parse_list_panes_output :: "string \<Rightarrow> pane_pipe" where
  "parse_list_panes_output output =
     (let line = strip_newlines output in
      if line = [] then \<lparr>pp_pipe_active = False, pp_pipe_command = []\<rparr>
      else case py_partition CHR '' '' line of
        (flag, rest) \<Rightarrow>
          let cmd = (case rest of None \<Rightarrow> [] | Some r \<Rightarrow> r)
          in \<lparr>pp_pipe_active = (flag = ''1'' \<and> py_strip cmd \<noteq> []), pp_pipe_command = cmd\<rparr>)"

record pipe_target =
  pt_is_canonical :: bool
  pt_foreign_target :: "string option"

definition classify_pipe_target :: "string \<Rightarrow> string \<Rightarrow> pipe_target" where
  "classify_pipe_target pipe_command expected_canonical_path =
     (if py_strip pipe_command = [] then \<lparr>pt_is_canonical = False, pt_foreign_target = None\<rparr>
      else if py_strip pipe_command = cat_command expected_canonical_path
      then \<lparr>pt_is_canonical = True, pt_foreign_target = None\<rparr>
      else \<lparr>pt_is_canonical = False, pt_foreign_target = Some (py_strip pipe_command)\<rparr>)"

definition prior_pipe_target_cap :: nat where
  "prior_pipe_target_cap = 2048"

definition sanitize_prior_pipe_target :: "string \<Rightarrow> string" where
  "sanitize_prior_pipe_target =
     on_codepoints (\<lambda>cs. cap_codepoints prior_pipe_target_cap (strip_codepoints
       (map (\<lambda>c. if c < 0x20 \<or> c = 0x7F then 0x20 else c) (filter (\<lambda>c. c \<noteq> 0) cs))))"

subsection \<open>What the shell makes of a command\<close>

text \<open>
  The part of the POSIX shell's lexer that the commands use: blanks separate words, quotes make their
  contents part of a word, \<open>>>\<close> is a redirection. \<open>None\<close> is anything else: an unfinished quote, an
  expansion, another operator.
\<close>

datatype sh_token = Word string | Append_redirect

datatype sh_mode = Plain | In_single | In_double

definition flush_word :: "string option \<Rightarrow> sh_token list \<Rightarrow> sh_token list" where
  "flush_word acc ts = (case acc of None \<Rightarrow> ts | Some w \<Rightarrow> Word w # ts)"

definition so_far :: "string option \<Rightarrow> string" where
  "so_far acc = (case acc of None \<Rightarrow> [] | Some w \<Rightarrow> w)"

fun sh_tokens :: "sh_mode \<Rightarrow> string option \<Rightarrow> string \<Rightarrow> sh_token list option" where
  "sh_tokens Plain acc [] = Some (flush_word acc [])"
| "sh_tokens In_single acc [] = None"
| "sh_tokens In_double acc [] = None"
| "sh_tokens Plain acc (c # cs) =
     (if c = CHR '' '' then map_option (flush_word acc) (sh_tokens Plain None cs)
      else if c = single_quote then sh_tokens In_single (Some (so_far acc)) cs
      else if c = double_quote then sh_tokens In_double (Some (so_far acc)) cs
      else if c = CHR ''>'' then
        (case cs of
           c' # cs' \<Rightarrow> if c' = CHR ''>'' then map_option (\<lambda>ts. flush_word acc (Append_redirect # ts)) (sh_tokens Plain None cs')
                      else None
         | [] \<Rightarrow> None)
      else if shell_safe c then sh_tokens Plain (Some (so_far acc @ [c])) cs
      else None)"
| "sh_tokens In_single acc (c # cs) =
     (if c = single_quote then sh_tokens Plain acc cs else sh_tokens In_single (Some (so_far acc @ [c])) cs)"
| "sh_tokens In_double acc (c # cs) =
     (if c = double_quote then sh_tokens Plain acc cs
      else if c \<in> set ''$`'' \<or> c = CHR 0x5C then None
      else sh_tokens In_double (Some (so_far acc @ [c])) cs)"

lemma so_far_simps [simp]: "so_far None = []" "so_far (Some w) = w"
  by (simp_all add: so_far_def)

lemma quote_chars [simp]:
  "single_quote \<noteq> double_quote" "double_quote \<noteq> single_quote" "CHR '' '' \<noteq> single_quote" "single_quote \<noteq> CHR '' ''"
  "double_quote \<noteq> CHR '' ''" "\<not> shell_safe single_quote" "\<not> shell_safe double_quote" "\<not> shell_safe CHR '' ''"
  "\<not> shell_safe CHR ''>''" "single_quote \<noteq> CHR ''$''" "single_quote \<noteq> CHR 0x60" "single_quote \<noteq> CHR 0x5C"
  by (simp_all add: single_quote_def double_quote_def shell_safe_def Let_def)

lemma sh_tokens_single:
  "sh_tokens In_single (Some w) (concat (map quote_char s) @ single_quote # rest) = sh_tokens Plain (Some (w @ s)) rest"
  by (induction s arbitrary: w) (simp_all add: quote_char_def)

lemma sh_tokens_safe:
  "list_all shell_safe s \<Longrightarrow> s \<noteq> [] \<Longrightarrow> sh_tokens Plain acc (s @ rest) = sh_tokens Plain (Some (so_far acc @ s)) rest"
proof (induction s arbitrary: acc)
  case (Cons c s)
  then have "c \<noteq> CHR '' ''" "c \<noteq> single_quote" "c \<noteq> double_quote" "c \<noteq> CHR ''>''" "shell_safe c" by auto
  then show ?case using Cons by (cases "s = []") simp_all
qed simp

text \<open>A quoted text is read back as itself, as part of one word.\<close>

lemma sh_tokens_quote:
  "sh_tokens Plain acc (shlex_quote s @ rest) = sh_tokens Plain (Some (so_far acc @ s)) rest"
proof -
  consider "s = []" | "s \<noteq> []" "list_all shell_safe s" | "s \<noteq> []" "\<not> list_all shell_safe s" by blast
  then show ?thesis
  proof cases
    case 2
    then show ?thesis using sh_tokens_safe by (simp add: shlex_quote_def)
  next
    case 3
    then show ?thesis using sh_tokens_single [of "so_far acc" s rest] by (simp add: shlex_quote_def)
  qed (simp add: shlex_quote_def)
qed

lemma sh_tokens_quote_end: "sh_tokens Plain acc (shlex_quote s) = Some [Word (so_far acc @ s)]"
  using sh_tokens_quote [of acc s "[]"] by (simp add: flush_word_def)


subsection \<open>Accepted paths\<close>

lemma rstrip_not_last: "py_rstrip_char c s = [] \<or> last (py_rstrip_char c s) \<noteq> c"
proof -
  have "dropWhile (\<lambda>x. x = c) xs = [] \<or> hd (dropWhile (\<lambda>x. x = c) xs) \<noteq> c" for xs
    by (induction xs) auto
  from this [of "rev s"] show ?thesis by (auto simp: py_rstrip_char_def last_rev)
qed

text \<open>
  What the validation of a requested log path accepts. A path is accepted, unchanged, exactly if it is
  a non-empty absolute path of at most 4096 characters without control bytes and without a parent
  segment, does not name a special file system, and lies under a root of the daemon only if it lies
  under the log root.
\<close>

lemma validate_log_path_accepts:
  "validate_log_path home v =
     (if py_startswith v ''/'' \<and> 0 < py_len v \<and> py_len v \<le> path_max \<and> list_all (\<lambda>c. \<not> forbidden_byte c) v \<and>
         list_all (\<lambda>p. p \<noteq> ''..'') (py_split CHR ''/'' v) \<and>
         list_all (\<lambda>root. \<not> is_under v root) [''/proc'', ''/sys'', ''/dev'', ''/run''] \<and>
         (v = host_canonical_log_root_for home \<or> py_startswith v (host_canonical_log_root_for home @ ''/'') \<or>
          list_all (\<lambda>owned. \<not> (v = owned \<or> py_startswith v (owned @ ''/''))) (daemon_owned_roots_for home))
      then Inr v else Inl LogPathInvalid)"
proof -
  have nul: "list_ex forbidden_byte v" if "CHR 0x00 \<in> set v"
    using that by (auto simp: list_ex_iff forbidden_byte_def intro!: bexI [of _ "CHR 0x00"])
  have special: "list_ex (\<lambda>prefix. v = py_rstrip_char CHR ''/'' prefix \<or> py_startswith v prefix) special_fs_prefixes \<longleftrightarrow>
      \<not> list_all (\<lambda>root. \<not> is_under v root) [''/proc'', ''/sys'', ''/dev'', ''/run'']"
    by (simp add: special_fs_prefixes_def py_rstrip_char_def is_under_def)
  have neg: "list_all (\<lambda>c. \<not> P c) xs \<longleftrightarrow> \<not> list_ex P xs" for P :: "'a \<Rightarrow> bool" and xs
    by (simp add: list_all_iff list_ex_iff)
  show ?thesis
    unfolding validate_log_path_def special neg Let_def using nul by auto
qed

subsection \<open>Soundness of the visibility proof\<close>

lemma mount_candidates_SomeD:
  assumes "(n, kind, destination, source) \<in> set (mount_candidates path mounts)"
  shows "\<exists>mount \<in> set mounts. usable_mount mount = Some (destination, source) \<and>
    is_under path (case kind of Container_path \<Rightarrow> destination | Host_path \<Rightarrow> source)"
  using assms by (auto simp: mount_candidates_def split: option.splits if_splits)

text \<open>\<open>os.path.realpath\<close> is idempotent, so the loop over it ends after one step or two.\<close>

lemma resolve_source_once:
  assumes "\<And>p q. hf_realpath fs p = Some q \<Longrightarrow> hf_realpath fs q = Some q" "hf_realpath fs source = Some q"
  shows "resolve_source_realpath fs max_realpath_hops [] source = Inr q"
proof -
  obtain k where k: "max_realpath_hops = Suc (Suc k)"
    using that [of 6] by (simp add: max_realpath_hops_def)
  have "resolve_source_realpath fs (Suc (Suc k)) [] source = Inr q"
    using assms(1) [OF assms(2)] assms(2) by simp
  then show ?thesis by (simp only: k)
qed

lemma resolve_source_fixed:
  "resolve_source_realpath fs n visited source = Inr q \<Longrightarrow> hf_realpath fs q = Some q"
  by (induction n arbitrary: visited source) (auto split: option.splits if_splits)


subsection \<open>Samples\<close>

text \<open>A host without symbolic links, on which \<open>realpath\<close> only removes repeated slashes.\<close>

fun squeeze_slashes :: "string \<Rightarrow> string" where
  "squeeze_slashes (a # b # s) = (if a = CHR ''/'' \<and> b = CHR ''/'' then squeeze_slashes (b # s) else a # squeeze_slashes (b # s))"
| "squeeze_slashes s = s"

definition plain_host :: host_fs where
  "plain_host = \<lparr>hf_realpath = (\<lambda>p. Some (squeeze_slashes p)), hf_isdir = (\<lambda>_. True), hf_writable = (\<lambda>_. True)\<rparr>"

definition home_mount :: json where
  "home_mount = JList [JObj [(''type'', JStr ''bind''), (''source'', JStr ''/home/u''), (''target'', JStr ''/home/u'')]]"


text \<open>
  The protection of the daemon's own files is only lexical. A path with a doubled slash passes the
  validation although the file it names lies in the daemon's configuration directory, and the proof of
  host visibility, which resolves it, does not check the roots again.
\<close>

lemma owned_root_check_is_lexical:
  "validate_log_path ''/home/u'' ''/home/u/.config//opensoft/agenttower/config.toml'' =
     Inr ''/home/u/.config//opensoft/agenttower/config.toml'' \<and>
   map_sum id vp_host_path
     (prove_host_visible plain_host (Some home_mount) ''/home/u/.config//opensoft/agenttower/config.toml'' True) =
     Inr ''/home/u/.config/opensoft/agenttower/config.toml'' \<and>
   list_ex (is_under ''/home/u/.config/opensoft/agenttower/config.toml'') (daemon_owned_roots_for ''/home/u'')"
  by code_simp

end
