(* ===== verification/Log_Service.thy ===== *)
theory Log_Service
  imports Log_Paths Redaction Reader_Recovery
begin

text \<open>
  Attaching a log to an agent's pane and detaching it (\<open>logs/service.py\<close>). A method is a state-passing
  function that raises (\<open>Inl\<close>) or returns; \<open>BEGIN\<close>, \<open>COMMIT\<close> and \<open>ROLLBACK\<close> act on the registry tables only,
  while what was appended to the events file, logged, or run in the container stays. The per-agent and
  per-path locks serialize calls and have no state of their own here.
\<close>

subsection \<open>State and environment\<close>

record docker_result =
  dr_returncode :: int
  dr_stdout :: string
  dr_stderr :: string
  dr_failure_kind :: "string option"

record service_state =
  ss_log :: log_world
  ss_exec :: "string list list"

record log_env =
  se_now :: timestamp
  se_home :: string
  se_schema_version :: int
  se_peer_uid :: int
  se_fs :: host_fs
  se_mounts :: "string \<Rightarrow> json option"
  se_docker :: "string list \<Rightarrow> docker_result"
  se_ensure_fails :: bool
  se_stat :: "string \<Rightarrow> file_stat option"
  se_candidates :: "string list"
  se_begin_error :: "exc option"
  se_commit_error :: "exc option"
  se_audit_error :: "exc option"
  se_logger :: bool

type_synonym 'a svc = "service_state \<Rightarrow> (exc + 'a) \<times> service_state"

definition svc_return :: "'a \<Rightarrow> 'a svc" where
  "svc_return a s = (Inr a, s)"

definition svc_raise :: "string \<Rightarrow> 'a svc" where
  "svc_raise code s = (Inl (RegistrationError code), s)"

definition svc_bind :: "'a svc \<Rightarrow> ('a \<Rightarrow> 'b svc) \<Rightarrow> 'b svc" where
  "svc_bind m k s = (case m s of (Inl e, s') \<Rightarrow> (Inl e, s') | (Inr a, s') \<Rightarrow> k a s')"

definition svc_registry :: "registry svc" where
  "svc_registry s = (Inr (lw_registry (ss_log s)), s)"

definition put_registry :: "registry \<Rightarrow> service_state \<Rightarrow> service_state" where
  "put_registry g s = s\<lparr>ss_log := (ss_log s)\<lparr>lw_registry := g\<rparr>\<rparr>"

definition put_lifecycle :: "lifecycle \<Rightarrow> service_state \<Rightarrow> service_state" where
  "put_lifecycle l s = s\<lparr>ss_log := (ss_log s)\<lparr>lw_lifecycle := l\<rparr>\<rparr>"

text \<open>A statement on the tables.\<close>

definition svc_sql :: "(registry \<Rightarrow> exc + registry) \<Rightarrow> unit svc" where
  "svc_sql f s = (case f (lw_registry (ss_log s)) of Inl e \<Rightarrow> (Inl e, s) | Inr g \<Rightarrow> (Inr (), put_registry g s))"

definition svc_lifecycle :: "(lifecycle \<Rightarrow> lifecycle) \<Rightarrow> unit svc" where
  "svc_lifecycle f s = (Inr (), put_lifecycle (f (lw_lifecycle (ss_log s))) s)"

definition svc_fail_if :: "exc option \<Rightarrow> unit svc" where
  "svc_fail_if x s = (case x of None \<Rightarrow> (Inr (), s) | Some e \<Rightarrow> (Inl e, s))"

definition svc_docker :: "log_env \<Rightarrow> string list \<Rightarrow> docker_result svc" where
  "svc_docker e argv s = (Inr (se_docker e argv), s\<lparr>ss_exec := ss_exec s @ [argv]\<rparr>)"

definition svc_audit :: "log_env \<Rightarrow> attachment_change \<Rightarrow> unit svc" where
  "svc_audit e c s =
     (case append_log_attachment_change (se_audit_error e) c (lw_audit (ss_log s)) of
        Inl x \<Rightarrow> (Inl x, s)
      | Inr rows \<Rightarrow> (Inr (), s\<lparr>ss_log := (ss_log s)\<lparr>lw_audit := rows\<rparr>\<rparr>))"

subsection \<open>Parameters\<close>

definition check_unknown_keys :: "json_object \<Rightarrow> string list \<Rightarrow> exc + unit" where
  "check_unknown_keys params allowed =
     (if list_all (\<lambda>(k, _). k \<in> set allowed) params then Inr () else Inl (RegistrationError ''bad_request''))"

definition check_schema_version :: "json_object \<Rightarrow> int \<Rightarrow> exc + unit" where
  "check_schema_version params daemon_schema_version =
     (case map_of params ''schema_version'' of
        None \<Rightarrow> Inr ()
      | Some (JInt client) \<Rightarrow>
          if client < daemon_schema_version then Inl (RegistrationError ''schema_version_newer'') else Inr ()
      | Some _ \<Rightarrow> Inl (RegistrationError ''bad_request''))"

definition require_string :: "json_object \<Rightarrow> string \<Rightarrow> exc + string" where
  "require_string params key =
     (case map_of params key of Some (JStr s) \<Rightarrow> Inr s | _ \<Rightarrow> Inl (RegistrationError ''bad_request''))"

definition sum_bind :: "'e + 'a \<Rightarrow> ('a \<Rightarrow> 'e + 'b) \<Rightarrow> 'e + 'b" where
  "sum_bind m k = (case m of Inl e \<Rightarrow> Inl e | Inr a \<Rightarrow> k a)"

text \<open>The checks every method starts with, and the agent id.\<close>

definition agent_param :: "log_env \<Rightarrow> string list \<Rightarrow> json_object \<Rightarrow> exc + string" where
  "agent_param e allowed params =
     sum_bind (check_unknown_keys params allowed) (\<lambda>_.
     sum_bind (check_schema_version params (se_schema_version e)) (\<lambda>_.
     sum_bind (require_string params ''agent_id'') (\<lambda>agent_id.
       map_sum RegistrationError id (validate_agent_id_shape agent_id))))"

definition attach_allowed_keys :: "string list" where
  "attach_allowed_keys = [''schema_version'', ''agent_id'', ''log_path'']"

definition detach_allowed_keys :: "string list" where
  "detach_allowed_keys = [''schema_version'', ''agent_id'']"

definition status_allowed_keys :: "string list" where
  "status_allowed_keys = [''schema_version'', ''agent_id'']"

definition preview_allowed_keys :: "string list" where
  "preview_allowed_keys = [''schema_version'', ''agent_id'', ''lines'']"

subsection \<open>The agent, its container and its pane\<close>

definition resolve_active_agent :: "registry \<Rightarrow> string \<Rightarrow> exc + agent" where
  "resolve_active_agent g agent_id =
     (case select_agent_by_id (rg_agents g) agent_id of
        None \<Rightarrow> Inl (RegistrationError ''agent_not_found'')
      | Some a \<Rightarrow> if ag_active a then Inr a else Inl (RegistrationError ''agent_inactive''))"

record container_info =
  ci_mounts_json :: string
  ci_bench_user :: string

definition resolve_active_container :: "registry \<Rightarrow> string \<Rightarrow> exc + container_info" where
  "resolve_active_container g container_id =
     (case lookup_row cn_container_id container_id (rg_containers g) of
        None \<Rightarrow> Inl (RegistrationError ''agent_inactive'')
      | Some c \<Rightarrow>
          if \<not> cn_active c then Inl (RegistrationError ''agent_inactive'')
          else Inr \<lparr>ci_mounts_json = (if cn_mounts_json c = [] then ''[]'' else cn_mounts_json c),
                    ci_bench_user = normalize_bench_user_for_exec (cn_config_user c)\<rparr>)"

definition require_active_pane :: "registry \<Rightarrow> agent \<Rightarrow> exc + unit" where
  "require_active_pane g a =
     (case lookup_row pn_key (agent_pane_key a) (rg_panes g) of
        Some p \<Rightarrow> if pn_active p then Inr () else Inl (RegistrationError ''pane_unknown_to_daemon'')
      | None \<Rightarrow> Inl (RegistrationError ''pane_unknown_to_daemon''))"

definition pane_short_form :: "agent \<Rightarrow> string" where
  "pane_short_form a =
     ag_tmux_session_name a @ '':'' @ py_str_int (ag_tmux_window_index a) @ ''.'' @ py_str_int (ag_tmux_pane_index a)"

text \<open>The requested path or the two canonical ones; the first that the host sees.\<close>

definition resolve_attach_target ::
  "log_env \<Rightarrow> json_object \<Rightarrow> agent \<Rightarrow> container_info \<Rightarrow> visibility_proof svc" where
  "resolve_attach_target e params a c s =
     (let requested = (case map_of params ''log_path'' of
            None \<Rightarrow> Inr [container_canonical_log_path_for (ci_bench_user c) (ag_container_id a) (ag_agent_id a),
                         host_canonical_log_path_for (se_home e) (ag_container_id a) (ag_agent_id a)]
          | Some (JStr raw) \<Rightarrow>
              (case validate_log_path (se_home e) raw of
                 Inl _ \<Rightarrow> Inl (RegistrationError ''log_path_invalid'') | Inr p \<Rightarrow> Inr [p])
          | Some _ \<Rightarrow> Inl (RegistrationError ''bad_request''));
          try = (\<lambda>p. prove_host_visible (se_fs e) (se_mounts e (ci_mounts_json c)) p True);
          fail = (\<lambda>oversized. (Inl (RegistrationError ''log_path_not_host_visible''),
            if oversized then put_lifecycle (emit_mounts_json_oversized (se_logger e) (ag_container_id a) (-1) 256
              (lw_lifecycle (ss_log s))) s else s));
          result = (\<lambda>r next. case r of
              Inr p \<Rightarrow> (Inr p, s)
            | Inl (LogPathNotHostVisible b) \<Rightarrow> next b
            | Inl _ \<Rightarrow> (Inl (OSError ''realpath''), s))
      in case requested of
           Inl x \<Rightarrow> (Inl x, s)
         | Inr [p] \<Rightarrow> result (try p) fail
         | Inr (p # q # _) \<Rightarrow> result (try p) (\<lambda>_. result (try q) fail)
         | Inr [] \<Rightarrow> (Inl AssertionError, s))"

subsection \<open>Commands in the container\<close>

definition issue :: "log_env \<Rightarrow> string list \<Rightarrow> docker_result svc" where
  "issue e argv = svc_bind (svc_docker e argv) (\<lambda>r.
     case dr_failure_kind r of
       Some kind \<Rightarrow> svc_raise kind
     | None \<Rightarrow>
         if dr_returncode r \<noteq> 0 \<or> stderr_matches_pipe_pane_failure (dr_stderr r) then svc_raise ''pipe_pane_failed''
         else svc_return r)"

text \<open>The id of a new row: the first of five candidates that is not taken.\<close>

definition max_attachment_id_retries :: nat where
  "max_attachment_id_retries = 5"

definition allocate_attachment_id :: "log_env \<Rightarrow> registry \<Rightarrow> exc + string" where
  "allocate_attachment_id e g =
     (case find (\<lambda>i. i \<notin> set (map la_attachment_id (rg_attachments g)))
             (take max_attachment_id_retries (se_candidates e)) of
        None \<Rightarrow> Inl (RegistrationError ''internal_error'')
      | Some i \<Rightarrow> Inr i)"

definition file_consistency_intact :: "file_stat option \<Rightarrow> string option \<Rightarrow> int \<Rightarrow> bool" where
  "file_consistency_intact st stored_inode stored_size_seen =
     (case (st, stored_inode) of
        (Some f, Some i) \<Rightarrow> fs_inode f = i \<and> \<not> fs_size f < stored_size_seen
      | _ \<Rightarrow> False)"

subsection \<open>Attach\<close>

record attach_result =
  at_attachment_id :: string
  at_log_path :: string
  at_source :: string
  at_byte_offset :: int
  at_line_offset :: int
  at_attached_at :: timestamp
  at_last_status_at :: timestamp
  at_is_new :: bool
  at_prior_status :: "attachment_status option"
  at_deferred_audit :: "attachment_change option"

definition render_attach_result ::
  "attachment_row \<Rightarrow> int \<Rightarrow> int \<Rightarrow> bool \<Rightarrow> attachment_status option \<Rightarrow> timestamp \<Rightarrow> attachment_change option \<Rightarrow> attach_result" where
  "render_attach_result r byte_offset line_offset is_new prior_status last_status_at deferred =
     \<lparr>at_attachment_id = la_attachment_id r, at_log_path = la_log_path r, at_source = la_source r,
      at_byte_offset = byte_offset, at_line_offset = line_offset, at_attached_at = la_attached_at r,
      at_last_status_at = last_status_at, at_is_new = is_new, at_prior_status = prior_status,
      at_deferred_audit = deferred\<rparr>"

text \<open>The arguments of the pipeline.\<close>

record attach_args =
  aa_agent :: agent
  aa_user :: string
  aa_proof :: visibility_proof
  aa_source :: string
  aa_defer_audit :: bool
  aa_manage_transaction :: bool

definition aa_path :: "attach_args \<Rightarrow> string" where
  "aa_path x = vp_host_path (aa_proof x)"

definition attach_argv :: "attach_args \<Rightarrow> string list" where
  "attach_argv x = build_attach_argv (aa_user x) (ag_container_id (aa_agent x)) (pane_short_form (aa_agent x))
     (vp_container_path (aa_proof x))"

definition commit :: "log_env \<Rightarrow> attach_args \<Rightarrow> unit svc" where
  "commit e x = (if aa_manage_transaction x then svc_fail_if (se_commit_error e) else svc_return ())"

definition emit_or_defer_audit :: "log_env \<Rightarrow> attach_args \<Rightarrow> attachment_change \<Rightarrow> attachment_change option svc" where
  "emit_or_defer_audit e x c =
     (if aa_defer_audit x then svc_return (Some c) else svc_bind (svc_audit e c) (\<lambda>_. svc_return None))"

text \<open>The agent's most recent row, when it is at another path and not superseded yet.\<close>

definition supersede_target :: "registry \<Rightarrow> string \<Rightarrow> string \<Rightarrow> attachment_row option" where
  "supersede_target g agent_id host_path =
     (case select_most_recent_for_agent g agent_id of
        None \<Rightarrow> None
      | Some r \<Rightarrow> if la_status r \<noteq> Att_superseded \<and> la_log_path r \<noteq> host_path then Some r else None)"

text \<open>Inspection of the pane, the foreign pipe switched off, the attach issued unless it is there.\<close>

definition switch_pipe :: "log_env \<Rightarrow> attach_args \<Rightarrow> string option svc" where
  "switch_pipe e x =
     (let user = aa_user x; container = ag_container_id (aa_agent x); pane = pane_short_form (aa_agent x) in
      svc_bind (issue e (build_inspection_argv user container pane)) (\<lambda>r.
        let state = parse_list_panes_output (dr_stdout r);
            target = classify_pipe_target (pp_pipe_command state) (vp_container_path (aa_proof x));
            foreign = pp_pipe_active state \<and> \<not> pt_is_canonical target;
            prior = (if foreign then map_option sanitize_prior_pipe_target (pt_foreign_target target) else None)
        in svc_bind (if foreign then svc_bind (issue e (build_toggle_off_argv user container pane)) (\<lambda>_. svc_return ())
                     else svc_return ()) (\<lambda>_.
           svc_bind (if \<not> (pp_pipe_active state \<and> pt_is_canonical target)
                     then svc_bind (issue e (attach_argv x)) (\<lambda>_. svc_return ()) else svc_return ()) (\<lambda>_.
             svc_return prior))))"

definition change_record ::
  "log_env \<Rightarrow> attach_args \<Rightarrow> string \<Rightarrow> attachment_status option \<Rightarrow> string option \<Rightarrow> string option \<Rightarrow> attachment_change" where
  "change_record e x attachment_id prior_status prior_path prior_pipe =
     \<lparr>ac_attachment_id = attachment_id, ac_agent_id = ag_agent_id (aa_agent x), ac_prior_status = prior_status,
      ac_new_status = Att_active, ac_prior_path = prior_path, ac_new_path = aa_path x, ac_prior_pipe_target = prior_pipe,
      ac_source = aa_source x, ac_socket_peer_uid = se_peer_uid e\<rparr>"

text \<open>A stale or detached row at the same path becomes active again.\<close>

definition reactivate ::
  "log_env \<Rightarrow> attach_args \<Rightarrow> attachment_row \<Rightarrow> string option \<Rightarrow> attach_result svc" where
  "reactivate e x existing prior_pipe =
     (let agent_id = ag_agent_id (aa_agent x); path = aa_path x; now = se_now e in
      svc_bind (svc_sql (la_update_status (la_attachment_id existing) Att_active now None None)) (\<lambda>_.
      svc_bind svc_registry (\<lambda>g.
      svc_bind
        (case lo_select g agent_id path of
           None \<Rightarrow> svc_return (0, 0)
         | Some off \<Rightarrow>
             if la_status existing = Att_stale \<and>
                \<not> file_consistency_intact (se_stat e path) (lo_file_inode off) (lo_file_size_seen off)
             then
               (let new_inode = map_option fs_inode (se_stat e path);
                    new_size = (case se_stat e path of None \<Rightarrow> 0 | Some st \<Rightarrow> fs_size st)
                in svc_bind (svc_sql (\<lambda>g. Inr (lo_reset agent_id path new_inode new_size now g))) (\<lambda>_.
                   svc_bind (svc_lifecycle (\<lambda>l. snd (emit_log_rotation_detected (se_logger e) agent_id path
                      (lo_file_inode off) new_inode (lo_file_size_seen off) new_size l))) (\<lambda>_.
                     svc_return (0, 0))))
             else svc_return (lo_byte_offset off, lo_line_offset off)) (\<lambda>(b, n).
      svc_bind (svc_lifecycle (reset_suppression_for_path agent_id path)) (\<lambda>_.
      svc_bind (emit_or_defer_audit e x (change_record e x (la_attachment_id existing) (Some (la_status existing))
                  (Some (la_log_path existing)) prior_pipe)) (\<lambda>deferred.
      svc_bind (commit e x) (\<lambda>_.
        svc_return (render_attach_result existing b n False (Some (la_status existing)) now deferred))))))))"

text \<open>A new row and its offsets.\<close>

definition insert_attachment ::
  "log_env \<Rightarrow> attach_args \<Rightarrow> string \<Rightarrow> attachment_row option \<Rightarrow> string option \<Rightarrow> attach_result svc" where
  "insert_attachment e x new_id target prior_pipe =
     (let a = aa_agent x; now = se_now e;
          new_record = \<lparr>la_attachment_id = new_id, la_agent_id = ag_agent_id a, la_pane_key = agent_pane_key a,
            la_log_path = aa_path x, la_status = Att_active, la_source = aa_source x,
            la_pipe_pane_command = render_pipe_command_for_audit (aa_user x) (ag_container_id a) (pane_short_form a)
              (vp_container_path (aa_proof x)),
            la_prior_pipe_target = prior_pipe, la_attached_at = now, la_last_status_at = now,
            la_superseded_at = None, la_superseded_by = None, la_created_at = now\<rparr>
      in svc_bind (svc_sql (la_insert new_record)) (\<lambda>_.
         svc_bind (svc_sql (lo_insert_initial (ag_agent_id a) (aa_path x) now)) (\<lambda>_.
         svc_bind (emit_or_defer_audit e x (change_record e x new_id (map_option la_status target)
                     (map_option la_log_path target) prior_pipe)) (\<lambda>deferred.
         svc_bind (commit e x) (\<lambda>_.
           svc_return (render_attach_result new_record 0 0 True (map_option la_status target) now deferred))))))"

text \<open>The pipeline from the inspection of the pane on.\<close>

definition attach_rest ::
  "log_env \<Rightarrow> attach_args \<Rightarrow> attachment_row option \<Rightarrow> attachment_row option \<Rightarrow> attach_result svc" where
  "attach_rest e x existing target =
     (let agent_id = ag_agent_id (aa_agent x); now = se_now e in
      svc_bind (switch_pipe e x) (\<lambda>prior_pipe.
      svc_bind svc_registry (\<lambda>g.
        case allocate_attachment_id e g of
          Inl err \<Rightarrow> (\<lambda>s. (Inl err, s))
        | Inr new_id \<Rightarrow>
            svc_bind
              (case target of
                 None \<Rightarrow> svc_return ()
               | Some t \<Rightarrow>
                   svc_bind (svc_sql (la_update_status (la_attachment_id t) Att_superseded now (Some now) (Some new_id)))
                     (\<lambda>_. svc_lifecycle (reset_suppression_for_path agent_id (la_log_path t)))) (\<lambda>_.
              case existing of
                Some r \<Rightarrow>
                  if la_status r \<in> {Att_stale, Att_detached} then reactivate e x r prior_pipe
                  else insert_attachment e x new_id target prior_pipe
              | None \<Rightarrow> insert_attachment e x new_id target prior_pipe))))"

definition attach_pipeline :: "log_env \<Rightarrow> attach_args \<Rightarrow> attach_result svc" where
  "attach_pipeline e x =
     (let agent_id = ag_agent_id (aa_agent x); path = aa_path x; now = se_now e in
      svc_bind (if aa_manage_transaction x then svc_fail_if (se_begin_error e) else svc_return ()) (\<lambda>_.
      svc_bind svc_registry (\<lambda>g.
        if (case select_active_by_log_path g path of None \<Rightarrow> False | Some r \<Rightarrow> la_agent_id r \<noteq> agent_id)
        then svc_raise ''log_path_in_use''
        else
          let existing = select_for_agent_path g agent_id path; target = supersede_target g agent_id path in
          svc_bind (if se_ensure_fails e then svc_raise ''internal_error'' else svc_return ()) (\<lambda>_.
            case existing of
              Some r \<Rightarrow>
                if la_status r = Att_active then
                  svc_bind (issue e (attach_argv x)) (\<lambda>_.
                  svc_bind (commit e x) (\<lambda>_.
                    case lo_select g agent_id path of
                      None \<Rightarrow> svc_return (render_attach_result r 0 0 False (Some Att_active) (la_last_status_at r) None)
                    | Some off \<Rightarrow> svc_return (render_attach_result r (lo_byte_offset off) (lo_line_offset off) False
                        (Some Att_active) (la_last_status_at r) None)))
                else attach_rest e x existing target
            | None \<Rightarrow> attach_rest e x existing target))))"

text \<open>Failures roll back, if the transaction is the method's own, and are mapped to a code.\<close>

fun to_registration_error :: "exc \<Rightarrow> exc" where
  "to_registration_error (RegistrationError code) = RegistrationError code"
| "to_registration_error _ = RegistrationError ''internal_error''"

definition attach_log_locked :: "log_env \<Rightarrow> attach_args \<Rightarrow> attach_result svc" where
  "attach_log_locked e x s =
     (case attach_pipeline e x s of
        (Inr r, s') \<Rightarrow> (Inr r, s')
      | (Inl err, s') \<Rightarrow>
          (Inl (to_registration_error err),
           if aa_manage_transaction x then put_registry (lw_registry (ss_log s)) s' else s'))"

text \<open>The resolution of the agent, shared by attach and detach.\<close>

definition resolve_agent :: "log_env \<Rightarrow> registry \<Rightarrow> string \<Rightarrow> exc + (agent \<times> container_info)" where
  "resolve_agent e g agent_id =
     sum_bind (resolve_active_agent g agent_id) (\<lambda>a.
     sum_bind (resolve_active_container g (ag_container_id a)) (\<lambda>c.
     sum_bind (require_active_pane g a) (\<lambda>_. Inr (a, c))))"

definition attach_log :: "log_env \<Rightarrow> json_object \<Rightarrow> string \<Rightarrow> bool \<Rightarrow> attach_result svc" where
  "attach_log e params source defer_audit s =
     (case sum_bind (agent_param e attach_allowed_keys params) (resolve_agent e (lw_registry (ss_log s))) of
        Inl err \<Rightarrow> (Inl err, s)
      | Inr (a, c) \<Rightarrow>
          svc_bind (resolve_attach_target e params a c) (\<lambda>proof.
            attach_log_locked e \<lparr>aa_agent = a, aa_user = ci_bench_user c, aa_proof = proof, aa_source = source,
              aa_defer_audit = defer_audit, aa_manage_transaction = True\<rparr>) s)"

definition attach_log_in_transaction ::
  "log_env \<Rightarrow> json_object \<Rightarrow> agent \<Rightarrow> container_info \<Rightarrow> string \<Rightarrow> bool \<Rightarrow> attach_result svc" where
  "attach_log_in_transaction e params a c source defer_audit s =
     (case agent_param e attach_allowed_keys params of
        Inl err \<Rightarrow> (Inl err, s)
      | Inr agent_id \<Rightarrow>
          if agent_id \<noteq> ag_agent_id a then (Inl (RegistrationError ''bad_request''), s)
          else svc_bind (resolve_attach_target e params a c) (\<lambda>proof.
            attach_log_locked e \<lparr>aa_agent = a, aa_user = ci_bench_user c, aa_proof = proof, aa_source = source,
              aa_defer_audit = defer_audit, aa_manage_transaction = False\<rparr>) s)"

subsection \<open>Detach\<close>

record detach_result =
  de_attachment_id :: string
  de_log_path :: string
  de_byte_offset :: int
  de_line_offset :: int
  de_last_status_at :: timestamp

definition detach_pipeline :: "log_env \<Rightarrow> agent \<Rightarrow> string \<Rightarrow> (attachment_row \<times> detach_result) svc" where
  "detach_pipeline e a user =
     svc_bind (svc_fail_if (se_begin_error e)) (\<lambda>_.
     svc_bind svc_registry (\<lambda>g.
       case select_active_for_agent g (ag_agent_id a) of
         None \<Rightarrow> svc_raise ''attachment_not_found''
       | Some existing \<Rightarrow>
           svc_bind (issue e (build_toggle_off_argv user (ag_container_id a) (pane_short_form a))) (\<lambda>_.
           svc_bind (svc_sql (la_update_status (la_attachment_id existing) Att_detached (se_now e) None None)) (\<lambda>_.
           svc_bind svc_registry (\<lambda>g'.
           svc_bind (svc_fail_if (se_commit_error e)) (\<lambda>_.
             let off = lo_select g' (ag_agent_id a) (la_log_path existing) in
             svc_return (existing,
               \<lparr>de_attachment_id = la_attachment_id existing, de_log_path = la_log_path existing,
                de_byte_offset = (case off of None \<Rightarrow> 0 | Some r \<Rightarrow> lo_byte_offset r),
                de_line_offset = (case off of None \<Rightarrow> 0 | Some r \<Rightarrow> lo_line_offset r),
                de_last_status_at = se_now e\<rparr>)))))))"

definition detach_log_locked :: "log_env \<Rightarrow> agent \<Rightarrow> string \<Rightarrow> detach_result svc" where
  "detach_log_locked e a user s =
     (case detach_pipeline e a user s of
        (Inl err, s') \<Rightarrow> (Inl (to_registration_error err), put_registry (lw_registry (ss_log s)) s')
      | (Inr (existing, result), s') \<Rightarrow>
          (let change = \<lparr>ac_attachment_id = la_attachment_id existing, ac_agent_id = ag_agent_id a,
                 ac_prior_status = Some Att_active, ac_new_status = Att_detached,
                 ac_prior_path = Some (la_log_path existing), ac_new_path = la_log_path existing,
                 ac_prior_pipe_target = None, ac_source = ''explicit'', ac_socket_peer_uid = se_peer_uid e\<rparr>
           in case svc_audit e change s' of
                (Inr _, s'') \<Rightarrow> (Inr result, s'')
              | (Inl _, s'') \<Rightarrow>
                  (Inr result,
                   if se_logger e
                   then put_lifecycle ((lw_lifecycle (ss_log s''))\<lparr>lf_log := lf_log (lw_lifecycle (ss_log s'')) @
                     [Audit_append_failed ''detach_log'' (ag_agent_id a) (la_attachment_id existing)]\<rparr>) s''
                   else s'')))"

definition detach_log :: "log_env \<Rightarrow> json_object \<Rightarrow> detach_result svc" where
  "detach_log e params s =
     (case sum_bind (agent_param e detach_allowed_keys params) (resolve_agent e (lw_registry (ss_log s))) of
        Inl err \<Rightarrow> (Inl err, s)
      | Inr (a, c) \<Rightarrow> detach_log_locked e a (ci_bench_user c) s)"

subsection \<open>Status\<close>

definition attach_log_status ::
  "log_env \<Rightarrow> json_object \<Rightarrow> registry \<Rightarrow> exc + (string \<times> (attachment_row \<times> offset_row option) option)" where
  "attach_log_status e params g =
     sum_bind (agent_param e status_allowed_keys params) (\<lambda>agent_id.
       if agent_id \<notin> set (map ag_agent_id (rg_agents g)) then Inl (RegistrationError ''agent_not_found'')
       else Inr (agent_id, map_option (\<lambda>r. (r, lo_select g agent_id (la_log_path r))) (select_most_recent_for_agent g agent_id)))"

end
