(* ===== verification/Tmux_Adapter.thy ===== *)
theory Tmux_Adapter
  imports Delivery Py_Text
begin

text \<open>
  The tmux adapter: the parsers of what \<open>id\<close>, \<open>ls\<close> and \<open>tmux list-panes\<close> print
  (\<open>tmux/parsers.py\<close>), and the operations that run them in a container through \<open>docker exec\<close>
  (\<open>tmux/subprocess_adapter.py\<close>), for discovery and for delivery. What a child process does is a
  parameter: a function of its arguments and input. Texts of messages are left out of the errors.
\<close>

subsection \<open>Parsers\<close>

record parsed_pane =
  pp_session_name :: string
  pp_window_index :: int
  pp_pane_index :: int
  pp_pane_id :: string
  pp_pane_pid :: int
  pp_pane_tty :: string
  pp_current_command :: string
  pp_current_path :: string
  pp_pane_title :: string
  pp_pane_active :: bool

record malformed_row =
  mr_raw_line :: string
  mr_expected_fields :: nat
  mr_actual_fields :: nat

definition max_title :: nat where "max_title = 2048"
definition max_command :: nat where "max_command = 2048"
definition max_path :: nat where "max_path = 4096"
definition max_default :: nat where "max_default = 2048"

text \<open>
  Control characters are single bytes of UTF-8, so that they are removed on the byte string; the cut
  counts code points.
\<close>

definition clean_chars :: "string \<Rightarrow> string" where
  "clean_chars s =
     map (\<lambda>c. if c = CHR 0x09 \<or> c = CHR 0x0A then CHR '' '' else c)
       (filter (\<lambda>c. c = CHR 0x09 \<or> c = CHR 0x0A \<or> (of_char c :: nat) \<ge> 0x20 \<and> c \<noteq> CHR 0x7F) s)"

definition sanitize_text :: "string option \<Rightarrow> nat \<Rightarrow> string \<times> bool" where
  "sanitize_text v max_length =
     (case v of
        None \<Rightarrow> ([], False)
      | Some s \<Rightarrow>
          let cleaned = clean_chars s; truncated = py_len cleaned > max_length
          in (if truncated then on_codepoints (take max_length) cleaned else cleaned, truncated))"

text \<open>The digits outside ASCII that \<open>str.isdigit\<close> accepts and the values of the decimal ones.\<close>

record digit_classes =
  dc_isdigit :: "codepoint \<Rightarrow> bool"
  dc_decimal :: decimal_digits

definition is_digit_char :: "digit_classes \<Rightarrow> codepoint \<Rightarrow> bool" where
  "is_digit_char u c \<longleftrightarrow> (if c < 128 then 48 \<le> c \<and> c \<le> 57 else dc_isdigit u c)"

definition parse_id_u :: "digit_classes \<Rightarrow> codepoint list \<Rightarrow> exc + string" where
  "parse_id_u u stdout =
     (case filter (\<lambda>l. l \<noteq> []) (map strip_codepoints (py_splitlines stdout)) of
        [] \<Rightarrow> Inl ValueError
      | l # _ \<Rightarrow> if list_all (is_digit_char u) l then Inr (string_of_codepoints l) else Inl ValueError)"

definition rstrip_cr :: "codepoint list \<Rightarrow> codepoint list" where
  "rstrip_cr l = rev (dropWhile (\<lambda>c. c = 13) (rev l))"

definition socket_name_ok :: "codepoint list \<Rightarrow> bool" where
  "socket_name_ok name \<longleftrightarrow> name \<noteq> [] \<and> 47 \<notin> set name \<and> name \<noteq> [46] \<and> name \<noteq> [46, 46]"

definition parse_socket_listing :: "codepoint list \<Rightarrow> string list" where
  "parse_socket_listing stdout =
     map string_of_codepoints (filter socket_name_ok (map rstrip_cr (py_splitlines stdout)))"

definition parse_bool :: "codepoint list \<Rightarrow> bool option" where
  "parse_bool v = (let s = strip_codepoints v in if s = [49] then Some True else if s = [48] then Some False else None)"

text \<open>One line of the listing: a pane, or \<open>None\<close> where the conversion of a field fails.\<close>

fun parse_pane_fields :: "digit_classes \<Rightarrow> codepoint list list \<Rightarrow> parsed_pane option" where
  "parse_pane_fields u [session, window, pane, pane_id, pid, tty, command, path, title, active] =
     (case (py_int (dc_decimal u) window, py_int (dc_decimal u) pane, py_int (dc_decimal u) pid, parse_bool active) of
        (Some w, Some p, Some n, Some a) \<Rightarrow>
          Some \<lparr>pp_session_name = string_of_codepoints session, pp_window_index = w, pp_pane_index = p,
            pp_pane_id = string_of_codepoints pane_id, pp_pane_pid = n, pp_pane_tty = string_of_codepoints tty,
            pp_current_command = string_of_codepoints command, pp_current_path = string_of_codepoints path,
            pp_pane_title = string_of_codepoints title, pp_pane_active = a\<rparr>
      | _ \<Rightarrow> None)"
| "parse_pane_fields u _ = None"

definition malformed_of :: "codepoint list \<Rightarrow> malformed_row" where
  "malformed_of line = \<lparr>mr_raw_line = string_of_codepoints (take 256 line), mr_expected_fields = 10,
     mr_actual_fields = length (py_split 9 line)\<rparr>"

fun parse_pane_lines :: "digit_classes \<Rightarrow> codepoint list list \<Rightarrow> parsed_pane list \<times> malformed_row list" where
  "parse_pane_lines u [] = ([], [])"
| "parse_pane_lines u (raw # rest) =
     (let line = rstrip_cr raw; (parsed, malformed) = parse_pane_lines u rest in
      if line = [] then (parsed, malformed)
      else (case parse_pane_fields u (py_split 9 line) of
              None \<Rightarrow> (parsed, malformed_of line # malformed)
            | Some p \<Rightarrow> (p # parsed, malformed)))"

definition parse_list_panes :: "digit_classes \<Rightarrow> codepoint list \<Rightarrow> parsed_pane list \<times> malformed_row list" where
  "parse_list_panes u stdout = parse_pane_lines u (py_splitlines stdout)"

subsection \<open>Child processes\<close>

text \<open>
  What \<open>subprocess.run\<close> does: it returns, the time limit passes, the binary is not there, or something
  else is raised. \<open>shutil.which\<close> gives the path of docker.
\<close>

datatype proc_outcome = Completed int bytes bytes | TimeoutExpired | FileNotFound | Proc_raises exc

record tmux_env =
  tx_docker :: "string option"
  tx_run :: "string list \<Rightarrow> bytes option \<Rightarrow> proc_outcome"
  tx_digits :: digit_classes

record tmux_error =
  te_code :: string
  te_container_id :: "string option"
  te_tmux_socket_path :: "string option"
  te_partial_panes :: "parsed_pane list"
  te_malformed_rows :: "malformed_row list"
  te_failure_reason :: "failure_reason option"

definition plain_tmux_error :: "string \<Rightarrow> string option \<Rightarrow> string option \<Rightarrow> failure_reason option \<Rightarrow> tmux_error" where
  "plain_tmux_error code container_id socket_path reason =
     \<lparr>te_code = code, te_container_id = container_id, te_tmux_socket_path = socket_path, te_partial_panes = [],
      te_malformed_rows = [], te_failure_reason = reason\<rparr>"

text \<open>An operation of the adapter raises a \<open>TmuxError\<close> or lets another exception through.\<close>

datatype adapter_exc = Tmux_exc tmux_error | Other_exc exc

type_synonym 'a adapter_result = "adapter_exc + 'a"

text \<open>
  A child in text mode: strict UTF-8, the encoding of the daemon's locale, and newline translation of
  both streams.
\<close>

definition text_stream :: "bytes \<Rightarrow> codepoint list option" where
  "text_stream bs = map_option universal_newlines (decode_body bs)"

definition tmux_exec_env_args :: "string list" where
  "tmux_exec_env_args = [''-e'', ''LANG=C.UTF-8'', ''-e'', ''LC_ALL=C.UTF-8'']"

definition resolve_docker :: "tmux_env \<Rightarrow> string adapter_result" where
  "resolve_docker e =
     (case tx_docker e of
        None \<Rightarrow> Inl (Tmux_exc (plain_tmux_error ''docker_unavailable'' None None None))
      | Some b \<Rightarrow> if b = [] then Inl (Tmux_exc (plain_tmux_error ''docker_unavailable'' None None None)) else Inr b)"

definition run_process ::
  "tmux_env \<Rightarrow> string list \<Rightarrow> bytes option \<Rightarrow> string option \<Rightarrow> string option \<Rightarrow> failure_reason option \<Rightarrow>
   (int \<times> bytes \<times> bytes) adapter_result" where
  "run_process e args input_bytes container_id socket_path reason =
     (case resolve_docker e of
        Inl x \<Rightarrow> Inl x
      | Inr binary \<Rightarrow>
          (case tx_run e (binary # args) input_bytes of
             Completed rc out err \<Rightarrow> Inr (rc, out, err)
           | TimeoutExpired \<Rightarrow> Inl (Tmux_exc (plain_tmux_error ''docker_exec_timeout'' container_id socket_path reason))
           | FileNotFound \<Rightarrow>
               Inl (Tmux_exc (plain_tmux_error ''docker_unavailable'' container_id socket_path (Some Docker_exec_failed)))
           | Proc_raises x \<Rightarrow> Inl (Other_exc x)))"

definition run_text ::
  "tmux_env \<Rightarrow> string list \<Rightarrow> string option \<Rightarrow> string option \<Rightarrow> failure_reason option \<Rightarrow>
   (int \<times> codepoint list \<times> codepoint list) adapter_result" where
  "run_text e args container_id socket_path reason =
     (case run_process e args None container_id socket_path reason of
        Inl x \<Rightarrow> Inl x
      | Inr (rc, out, err) \<Rightarrow>
          (case (text_stream out, text_stream err) of
             (Some stdout, Some stderr) \<Rightarrow> Inr (rc, stdout, stderr)
           | _ \<Rightarrow> Inl (Other_exc ValueError)))"

definition exec_args :: "string \<Rightarrow> string \<Rightarrow> string list \<Rightarrow> string list" where
  "exec_args bench_user container_id command =
     [''exec''] @ tmux_exec_env_args @ [''-u'', bench_user, container_id] @ command"

subsection \<open>Discovery\<close>

definition no_server_patterns :: "string list" where
  "no_server_patterns = [''no server running'', ''error connecting to'', ''no current server'']"

definition tmux_not_found_patterns :: "string list" where
  "tmux_not_found_patterns =
     [''tmux: not found'', ''tmux: command not found'', ''executable file not found'', ''exec: \"tmux\"'']"

definition permission_denied_patterns :: "string list" where
  "permission_denied_patterns = [''permission denied'', ''operation not permitted'']"

definition dir_missing_patterns :: "string list" where
  "dir_missing_patterns = [''no such file or directory'', ''cannot access'']"

definition classify_tmux_failure :: "codepoint list \<Rightarrow> string" where
  "classify_tmux_failure stderr =
     (if mentions tmux_not_found_patterns stderr then ''tmux_unavailable''
      else if mentions no_server_patterns stderr then ''tmux_no_server''
      else ''docker_exec_failed'')"

definition classify_socket_listing_failure :: "codepoint list \<Rightarrow> string" where
  "classify_socket_listing_failure stderr =
     (if mentions permission_denied_patterns stderr then ''socket_unreadable''
      else if mentions dir_missing_patterns stderr then ''socket_dir_missing''
      else ''docker_exec_failed'')"

definition resolve_uid :: "tmux_env \<Rightarrow> string \<Rightarrow> string \<Rightarrow> string adapter_result" where
  "resolve_uid e container_id bench_user =
     (case run_text e (exec_args bench_user container_id [''id'', ''-u'']) (Some container_id) None None of
        Inl x \<Rightarrow> Inl x
      | Inr (rc, stdout, stderr) \<Rightarrow>
          if rc \<noteq> 0 then Inl (Tmux_exc (plain_tmux_error ''docker_exec_failed'' (Some container_id) None None))
          else (case parse_id_u (tx_digits e) stdout of
                  Inl _ \<Rightarrow> Inl (Tmux_exc (plain_tmux_error ''output_malformed'' (Some container_id) None None))
                | Inr uid \<Rightarrow> Inr uid))"

record socket_listing =
  sl_container_id :: string
  sl_uid :: string
  sl_sockets :: "string list"

definition socket_dir :: "string \<Rightarrow> string" where
  "socket_dir uid = ''/tmp/tmux-'' @ uid"

definition list_socket_dir :: "tmux_env \<Rightarrow> string \<Rightarrow> string \<Rightarrow> string \<Rightarrow> socket_listing adapter_result" where
  "list_socket_dir e container_id bench_user uid =
     (case run_text e (exec_args bench_user container_id [''ls'', ''-1'', ''--'', socket_dir uid]) (Some container_id) None None of
        Inl x \<Rightarrow> Inl x
      | Inr (rc, stdout, stderr) \<Rightarrow>
          if rc \<noteq> 0
          then Inl (Tmux_exc (plain_tmux_error (classify_socket_listing_failure stderr) (Some container_id) None None))
          else Inr \<lparr>sl_container_id = container_id, sl_uid = uid, sl_sockets = parse_socket_listing stdout\<rparr>)"

definition list_panes_format :: string where
  "list_panes_format =
     py_join [CHR 0x09] [''#{session_name}'', ''#{window_index}'', ''#{pane_index}'', ''#{pane_id}'', ''#{pane_pid}'',
       ''#{pane_tty}'', ''#{pane_current_command}'', ''#{pane_current_path}'', ''#{pane_title}'', ''#{pane_active}'']"

definition list_panes :: "tmux_env \<Rightarrow> string \<Rightarrow> string \<Rightarrow> string \<Rightarrow> parsed_pane list adapter_result" where
  "list_panes e container_id bench_user socket_path =
     (case run_text e
        (exec_args bench_user container_id [''tmux'', ''-S'', socket_path, ''list-panes'', ''-a'', ''-F'', list_panes_format])
        (Some container_id) (Some socket_path) None of
        Inl x \<Rightarrow> Inl x
      | Inr (rc, stdout, stderr) \<Rightarrow>
          if rc \<noteq> 0
          then Inl (Tmux_exc (plain_tmux_error (classify_tmux_failure stderr) (Some container_id) (Some socket_path) None))
          else let (parsed, malformed) = parse_list_panes (tx_digits e) stdout in
            if malformed \<noteq> []
            then Inl (Tmux_exc ((plain_tmux_error ''output_malformed'' (Some container_id) (Some socket_path) None)
                   \<lparr>te_partial_panes := parsed, te_malformed_rows := malformed\<rparr>))
            else Inr parsed)"

subsection \<open>Delivery\<close>

definition allowed_submit_keys :: "string list" where
  "allowed_submit_keys = [''Enter'']"

definition pane_disappeared_patterns :: "string list" where
  "pane_disappeared_patterns = [''can'' @ [CHR 0x27] @ ''t find pane'', ''no such pane'']"

definition docker_exec_failure_patterns :: "string list" where
  "docker_exec_failure_patterns =
     [''no such container'', ''container not running'', ''is not running'', ''docker daemon socket'',
      ''oci runtime exec failed'', ''error response from daemon'', ''container is paused'']"

text \<open>
  Standard error as the classification sees it: decoded with replacement. In text mode it is encoded
  and decoded again first, which gives the same text.
\<close>

definition classify_delivery_stderr :: "codepoint list \<Rightarrow> failure_reason \<Rightarrow> failure_reason" where
  "classify_delivery_stderr stderr_text default_failure_reason =
     (if mentions pane_disappeared_patterns stderr_text then Pane_disappeared_mid_attempt
      else if mentions docker_exec_failure_patterns stderr_text then Docker_exec_failed
      else default_failure_reason)"

definition delivery_error :: "string \<Rightarrow> string \<Rightarrow> failure_reason \<Rightarrow> adapter_exc" where
  "delivery_error container_id socket_path reason =
     Tmux_exc (plain_tmux_error ''docker_exec_failed'' (Some container_id) (Some socket_path) (Some reason))"

definition load_buffer :: "tmux_env \<Rightarrow> string \<Rightarrow> string \<Rightarrow> string \<Rightarrow> string \<Rightarrow> bytes \<Rightarrow> unit adapter_result" where
  "load_buffer e container_id bench_user socket_path buf body =
     (case run_process e
        ([''exec''] @ tmux_exec_env_args @ [''-i'', ''-u'', bench_user, container_id, ''tmux'', ''-S'', socket_path,
           ''load-buffer'', ''-b'', buf, ''-''])
        (Some body) (Some container_id) (Some socket_path) (Some Tmux_paste_failed) of
        Inl x \<Rightarrow> Inl x
      | Inr (rc, out, err) \<Rightarrow>
          if rc \<noteq> 0
          then Inl (delivery_error container_id socket_path
                 (classify_delivery_stderr (decode_replace (map unat err)) Tmux_paste_failed))
          else Inr ())"

definition paste_buffer :: "tmux_env \<Rightarrow> string \<Rightarrow> string \<Rightarrow> string \<Rightarrow> string \<Rightarrow> string \<Rightarrow> unit adapter_result" where
  "paste_buffer e container_id bench_user socket_path pane_id buf =
     (case run_text e
        (exec_args bench_user container_id [''tmux'', ''-S'', socket_path, ''paste-buffer'', ''-t'', pane_id, ''-b'', buf])
        (Some container_id) (Some socket_path) (Some Tmux_paste_failed) of
        Inl x \<Rightarrow> Inl x
      | Inr (rc, stdout, stderr) \<Rightarrow>
          if rc \<noteq> 0
          then Inl (delivery_error container_id socket_path (classify_delivery_stderr stderr Tmux_paste_failed))
          else Inr ())"

definition send_keys :: "tmux_env \<Rightarrow> string \<Rightarrow> string \<Rightarrow> string \<Rightarrow> string \<Rightarrow> string \<Rightarrow> unit adapter_result" where
  "send_keys e container_id bench_user socket_path pane_id key =
     (if key \<notin> set allowed_submit_keys then Inl (delivery_error container_id socket_path Tmux_send_keys_failed)
      else case run_text e
        (exec_args bench_user container_id [''tmux'', ''-S'', socket_path, ''send-keys'', ''-t'', pane_id, key])
        (Some container_id) (Some socket_path) (Some Tmux_send_keys_failed) of
        Inl x \<Rightarrow> Inl x
      | Inr (rc, stdout, stderr) \<Rightarrow>
          if rc \<noteq> 0
          then Inl (delivery_error container_id socket_path (classify_delivery_stderr stderr Tmux_send_keys_failed))
          else Inr ())"

definition delete_buffer :: "tmux_env \<Rightarrow> string \<Rightarrow> string \<Rightarrow> string \<Rightarrow> string \<Rightarrow> unit adapter_result" where
  "delete_buffer e container_id bench_user socket_path buf =
     (case run_text e
        (exec_args bench_user container_id [''tmux'', ''-S'', socket_path, ''delete-buffer'', ''-b'', buf])
        (Some container_id) (Some socket_path) (Some Tmux_paste_failed) of
        Inl x \<Rightarrow> Inl x
      | Inr (rc, stdout, stderr) \<Rightarrow>
          if rc \<noteq> 0 then Inl (delivery_error container_id socket_path Tmux_paste_failed) else Inr ())"

subsection \<open>What tmux prints is read back\<close>

text \<open>
  A pane as \<open>list-panes\<close> prints it with the format above. A field survives if it is a text without tab
  and without any of the line boundaries of \<open>splitlines\<close>.
\<close>

definition field_points :: "string \<Rightarrow> codepoint list" where
  "field_points s = (case codepoints_of_string s of Some cs \<Rightarrow> cs | None \<Rightarrow> [])"

definition field_ok :: "string \<Rightarrow> bool" where
  "field_ok s \<longleftrightarrow> codepoints_of_string s \<noteq> None \<and> list_all (\<lambda>c. c \<noteq> 9 \<and> \<not> line_break c) (field_points s)"

definition number_ok :: "int \<Rightarrow> bool" where
  "number_ok i \<longleftrightarrow> length (py_str_int i) \<le> int_max_str_digits"

definition pane_ok :: "parsed_pane \<Rightarrow> bool" where
  "pane_ok p \<longleftrightarrow> field_ok (pp_session_name p) \<and> field_ok (pp_pane_id p) \<and> field_ok (pp_pane_tty p) \<and>
     field_ok (pp_current_command p) \<and> field_ok (pp_current_path p) \<and> field_ok (pp_pane_title p) \<and>
     number_ok (pp_window_index p) \<and> number_ok (pp_pane_index p) \<and> number_ok (pp_pane_pid p)"

definition pane_fields :: "parsed_pane \<Rightarrow> codepoint list list" where
  "pane_fields p =
     [field_points (pp_session_name p), cps (py_str_int (pp_window_index p)), cps (py_str_int (pp_pane_index p)),
      field_points (pp_pane_id p), cps (py_str_int (pp_pane_pid p)), field_points (pp_pane_tty p),
      field_points (pp_current_command p), field_points (pp_current_path p), field_points (pp_pane_title p),
      [if pp_pane_active p then 49 else 48]]"

definition panes_text :: "parsed_pane list \<Rightarrow> codepoint list" where
  "panes_text ps = concat (map (\<lambda>p. py_join [9] (pane_fields p) @ [10]) ps)"

definition stream_bytes :: "codepoint list \<Rightarrow> bytes" where
  "stream_bytes cs = map word_of_nat (utf8_encode cs)"

lemma utf8_encode_byte: "scalar_value c \<Longrightarrow> b \<in> set (utf8_encode_one c) \<Longrightarrow> b < 256"
  by (auto simp: utf8_encode_one_def scalar_value_def split: if_splits)

lemma decode_stream_bytes:
  assumes "list_all scalar_value cs"
  shows "decode_body (stream_bytes cs) = Some cs"
proof -
  have "map unat (stream_bytes cs) = utf8_encode cs"
    unfolding stream_bytes_def map_map
    using assms utf8_encode_byte
    by (intro map_idI) (fastforce simp: unat_of_nat utf8_encode_def list_all_iff intro!: mod_less)
  then show ?thesis using assms by (simp add: decode_body_def utf8_decode_encode)
qed

lemma field_points_scalar: "list_all scalar_value (field_points s)"
  by (auto simp: field_points_def codepoints_of_string_def dest: utf8_encode_decode split: option.splits)

lemma string_of_field_points: "codepoints_of_string s \<noteq> None \<Longrightarrow> string_of_codepoints (field_points s) = s"
  using utf8_encode_decode [of "map of_char s"]
  by (auto simp: field_points_def codepoints_of_string_def string_of_codepoints_def map_idI)

lemma number_points: "list_all (\<lambda>c. c = 45 \<or> 48 \<le> c \<and> c \<le> 57) (cps (py_str_int i))"
  using py_str_digits [of "nat \<bar>i\<bar>"] by (auto simp: py_str_int_def cps_def list_all_iff)

lemma pane_fields_plain:
  assumes "pane_ok p" "f \<in> set (pane_fields p)"
  shows "list_all (\<lambda>c. scalar_value c \<and> c \<noteq> 9 \<and> c \<noteq> 13 \<and> \<not> line_break c) f"
proof -
  have num: "list_all (\<lambda>c. scalar_value c \<and> c \<noteq> 9 \<and> c \<noteq> 13 \<and> \<not> line_break c) (cps (py_str_int i))" for i
    using number_points [of i] by (auto simp: list_all_iff scalar_value_def line_break_def)
  have fld: "list_all (\<lambda>c. scalar_value c \<and> c \<noteq> 9 \<and> c \<noteq> 13 \<and> \<not> line_break c) (field_points s)" if "field_ok s" for s
    using that field_points_scalar [of s] by (auto simp: field_ok_def list_all_iff line_break_def)
  show ?thesis using assms num fld
    by (auto simp: pane_fields_def pane_ok_def scalar_value_def line_break_def)
qed

lemma set_py_join: "set (py_join [c] fs) \<subseteq> insert c (\<Union> (set ` set fs))"
  by (induction "[c]" fs rule: py_join.induct) auto

lemma parse_bool_printed: "parse_bool [if b then 49 else 48] = Some b"
  by (auto simp: parse_bool_def strip_codepoints_def is_whitespace_def)

lemma parse_printed_pane: "pane_ok p \<Longrightarrow> parse_pane_fields u (pane_fields p) = Some p"
  unfolding pane_fields_def
  by (simp add: py_int_py_str_int cps_def pane_ok_def number_ok_def field_ok_def string_of_field_points
      parse_bool_printed del: if_split)

lemma rstrip_cr_id: "13 \<notin> set l \<Longrightarrow> rstrip_cr l = l"
  by (cases l rule: rev_cases) (auto simp: rstrip_cr_def)

lemma printed_line:
  assumes "pane_ok p"
  shows "list_all (\<lambda>c. scalar_value c \<and> c \<noteq> 13 \<and> \<not> line_break c) (py_join [9] (pane_fields p))"
    and "rstrip_cr (py_join [9] (pane_fields p)) = py_join [9] (pane_fields p)"
    and "py_join [9] (pane_fields p) \<noteq> []"
    and "py_split 9 (py_join [9] (pane_fields p)) = pane_fields p"
proof -
  show line: "list_all (\<lambda>c. scalar_value c \<and> c \<noteq> 13 \<and> \<not> line_break c) (py_join [9] (pane_fields p))"
    using set_py_join [of 9 "pane_fields p"] pane_fields_plain [OF assms]
    by (fastforce simp: list_all_iff scalar_value_def line_break_def)
  then show "rstrip_cr (py_join [9] (pane_fields p)) = py_join [9] (pane_fields p)"
    by (intro rstrip_cr_id) (auto simp: list_all_iff)
  show "py_join [9] (pane_fields p) \<noteq> []" by (simp add: pane_fields_def)
  show "py_split 9 (py_join [9] (pane_fields p)) = pane_fields p"
    using pane_fields_plain [OF assms] by (intro py_split_py_join) (auto simp: list_all_iff pane_fields_def)
qed

lemma parse_printed_lines:
  "list_all pane_ok ps \<Longrightarrow> parse_pane_lines u (map (\<lambda>p. py_join [9] (pane_fields p)) ps) = (ps, [])"
  by (induction ps) (simp_all add: printed_line parse_printed_pane)

lemma parse_panes_text:
  assumes "list_all pane_ok ps"
  shows "text_stream (stream_bytes (panes_text ps)) = Some (panes_text ps)"
    and "parse_list_panes u (panes_text ps) = (ps, [])"
proof -
  have plain: "list_all (\<lambda>c. scalar_value c \<and> c \<noteq> 13) (panes_text ps)"
    using assms printed_line(1) by (fastforce simp: panes_text_def list_all_iff scalar_value_def)
  then have "decode_body (stream_bytes (panes_text ps)) = Some (panes_text ps)"
    by (intro decode_stream_bytes) (auto simp: list_all_iff)
  with plain show "text_stream (stream_bytes (panes_text ps)) = Some (panes_text ps)"
    by (auto simp: text_stream_def list_all_iff intro: universal_newlines_id)
  have "py_splitlines (panes_text ps) = map (\<lambda>p. py_join [9] (pane_fields p)) ps"
    using py_splitlines_lines [of "map (\<lambda>p. py_join [9] (pane_fields p)) ps"] assms printed_line(1)
    by (auto simp: panes_text_def list_all_iff o_def)
  then show "parse_list_panes u (panes_text ps) = (ps, [])"
    using assms by (simp add: parse_list_panes_def parse_printed_lines)
qed

text \<open>
  C25: whatever panes a server has, if their texts have no tab and no line boundary, then \<open>list_panes\<close>
  returns exactly these panes when tmux prints them.
\<close>

theorem list_panes_reads_back:
  assumes "tx_docker e = Some docker" "docker \<noteq> []" "list_all pane_ok panes"
    and "tx_run e (docker # exec_args user container
           [''tmux'', ''-S'', socket, ''list-panes'', ''-a'', ''-F'', list_panes_format]) None =
         Completed 0 (stream_bytes (panes_text panes)) []"
  shows "list_panes e container user socket = Inr panes"
proof -
  have "text_stream [] = Some []" by (simp add: text_stream_def decode_body_def)
  with assms parse_panes_text [OF assms(3)] show ?thesis
    by (simp add: list_panes_def run_text_def run_process_def resolve_docker_def)
qed

subsection \<open>What a failed delivery call says\<close>

lemma classify_delivery_stderr_cases:
  "classify_delivery_stderr t r \<in> {Pane_disappeared_mid_attempt, Docker_exec_failed, r}"
  by (simp add: classify_delivery_stderr_def)

text \<open>What a delivery operation may answer; \<open>step_reason\<close> is the reason of the step it is.\<close>

definition delivery_answer :: "tmux_env \<Rightarrow> failure_reason \<Rightarrow> unit adapter_result \<Rightarrow> bool" where
  "delivery_answer e step_reason r \<longleftrightarrow>
     (case r of
        Inl (Tmux_exc x) \<Rightarrow>
          te_code x \<in> {''docker_exec_failed'', ''docker_exec_timeout'', ''docker_unavailable''} \<and>
          te_failure_reason x \<in> {None, Some step_reason, Some Docker_exec_failed, Some Pane_disappeared_mid_attempt} \<and>
          (te_failure_reason x = None \<longleftrightarrow> te_code x = ''docker_unavailable'' \<and> tx_docker e \<in> {None, Some []})
      | _ \<Rightarrow> True)"

lemma delivery_answer_error [simp]: "delivery_answer e d (Inl (delivery_error c s (classify_delivery_stderr t d)))"
  "delivery_answer e d (Inl (delivery_error c s d))"
  using classify_delivery_stderr_cases [of t d] by (auto simp: delivery_answer_def delivery_error_def plain_tmux_error_def)

lemma delivery_answer_process:
  "run_process e args inp c s (Some d) = Inl y \<Longrightarrow> delivery_answer e d (Inl y)"
  by (auto simp: delivery_answer_def run_process_def resolve_docker_def plain_tmux_error_def
      split: option.splits if_splits proc_outcome.splits)

lemma delivery_answer_text: "run_text e args c s (Some d) = Inl y \<Longrightarrow> delivery_answer e d (Inl y)"
  by (auto simp: run_text_def delivery_answer_def [of e d "Inl (Other_exc ValueError)"] delivery_answer_process
      split: sum.splits option.splits prod.splits)

lemma delivery_answer_unit [simp]: "delivery_answer e d (Inr ())"
  by (simp add: delivery_answer_def)

text \<open>
  A docker that is not on the path is recorded by the worker as the failure of a paste, and output that is
  not UTF-8 makes an operation in text mode raise an exception that is no \<open>TmuxError\<close>.
\<close>

lemma missing_docker_is_paste_failure:
  "tx_docker e = None \<Longrightarrow>
     \<exists>x. send_keys e c u s p ''Enter'' = Inl (Tmux_exc x) \<and> tmux_failure_reason (te_failure_reason x) = Tmux_paste_failed"
  by (simp add: send_keys_def allowed_submit_keys_def run_text_def run_process_def resolve_docker_def
      plain_tmux_error_def tmux_failure_reason_def)

lemma undecodable_output_escapes:
  "tx_docker e = Some (d # ds) \<Longrightarrow>
     tx_run e ((d # ds) # exec_args u c [''tmux'', ''-S'', s, ''paste-buffer'', ''-t'', p, ''-b'', b]) None =
       Completed rc out err \<Longrightarrow>
     decode_body err = None \<Longrightarrow> paste_buffer e c u s p b = Inl (Other_exc ValueError)"
  by (auto simp: paste_buffer_def run_text_def run_process_def resolve_docker_def text_stream_def split: option.splits)

text \<open>
  A delivery operation that raises a \<open>TmuxError\<close> gives one of three codes and one of the reasons of
  its step, of docker or of a vanished pane; a reason is missing exactly when docker is not on the path.
\<close>

lemma delivery_failures_classified:
  "delivery_answer e Tmux_paste_failed (load_buffer e c u s b body) \<and>
   delivery_answer e Tmux_paste_failed (paste_buffer e c u s p b) \<and>
   delivery_answer e Tmux_send_keys_failed (send_keys e c u s p key) \<and>
   delivery_answer e Tmux_paste_failed (delete_buffer e c u s b)"
proof (intro conjI)
  show "delivery_answer e Tmux_paste_failed (load_buffer e c u s b body)"
    by (auto simp: load_buffer_def delivery_answer_process split: sum.splits)
  show "delivery_answer e Tmux_paste_failed (paste_buffer e c u s p b)"
    by (auto simp: paste_buffer_def delivery_answer_text split: sum.splits)
  show "delivery_answer e Tmux_send_keys_failed (send_keys e c u s p key)"
    by (auto simp: send_keys_def delivery_answer_text split: sum.splits)
  show "delivery_answer e Tmux_paste_failed (delete_buffer e c u s b)"
    by (auto simp: delete_buffer_def delivery_answer_text split: sum.splits)
qed

text \<open>The listing of two panes, one of them with a title outside ASCII.\<close>

definition sample_panes :: "parsed_pane list" where
  "sample_panes =
     [\<lparr>pp_session_name = ''main'', pp_window_index = 0, pp_pane_index = 1, pp_pane_id = ''%3'', pp_pane_pid = 4242,
       pp_pane_tty = ''/dev/pts/1'', pp_current_command = ''bash'', pp_current_path = ''/workspace'',
       pp_pane_title = string_of_codepoints [0xE9, 0x20AC], pp_pane_active = True\<rparr>,
      \<lparr>pp_session_name = ''main'', pp_window_index = 10, pp_pane_index = 0, pp_pane_id = ''%4'', pp_pane_pid = 7,
       pp_pane_tty = ''/dev/pts/2'', pp_current_command = ''vi'', pp_current_path = ''/'',
       pp_pane_title = [], pp_pane_active = False\<rparr>]"

definition ascii_digits :: digit_classes where
  "ascii_digits = \<lparr>dc_isdigit = (\<lambda>_. False), dc_decimal = (\<lambda>_. None)\<rparr>"

definition sample_tmux :: tmux_env where
  "sample_tmux = \<lparr>tx_docker = Some ''docker'',
     tx_run = (\<lambda>args _. Completed 0 (stream_bytes (panes_text sample_panes)) []), tx_digits = ascii_digits\<rparr>"

theorem list_panes_reads_back_witness:
  "list_all pane_ok sample_panes \<and>
   list_panes sample_tmux ''c1'' ''dev'' ''/tmp/tmux-1000/default'' = Inr sample_panes"
proof -
  have ok: "list_all pane_ok sample_panes" by code_simp
  show ?thesis using ok list_panes_reads_back [of sample_tmux "''docker''" sample_panes "''dev''" "''c1''" "''/tmp/tmux-1000/default''"]
    by (simp add: sample_tmux_def)
qed

end
