(* ===== verification/Docker_Adapter.thy ===== *)
theory Docker_Adapter
  imports Tmux_Adapter Audit_Lines Json "HOL-Library.AList"
begin

text \<open>
  The docker adapter: the parsers of \<open>docker ps\<close> and \<open>docker inspect\<close> (\<open>docker/parsers.py\<close>) and the
  operations that run them (\<open>docker/subprocess_adapter.py\<close>). The locale \<open>docker_adapter\<close> is what the
  scan relies on (the protocol of \<open>docker/adapter.py\<close>); it is interpreted on these operations. A Python
  \<open>dict\<close> is an association list in insertion order. \<open>json.loads\<close> and the \<open>repr\<close> of JSON values that are
  neither strings, numbers nor constants are parameters.
\<close>

subsection \<open>\<open>docker ps\<close>\<close>

record container_summary =
  cs_container_id :: string
  cs_name :: string
  cs_image :: string
  cs_status :: string

definition strip_cr_ends :: "codepoint list \<Rightarrow> codepoint list" where
  "strip_cr_ends l = rstrip_cr (dropWhile (\<lambda>c. c = 13) l)"

definition clean_name :: "codepoint list \<Rightarrow> codepoint list" where
  "clean_name n = dropWhile (\<lambda>c. c = 47) (strip_codepoints n)"

text \<open>One row: a summary for every name that is not empty.\<close>

fun summaries_of_row :: "codepoint list list \<Rightarrow> exc + container_summary list" where
  "summaries_of_row [container_id, names_field, img, status] =
     (if container_id = [] then Inl (DockerError ''docker_malformed'')
      else Inr (map (\<lambda>n. \<lparr>cs_container_id = string_of_codepoints container_id, cs_name = string_of_codepoints n,
                  cs_image = string_of_codepoints img, cs_status = string_of_codepoints status\<rparr>)
                 (filter (\<lambda>n. n \<noteq> []) (map clean_name (py_split 44 names_field)))))"
| "summaries_of_row _ = Inl (DockerError ''docker_malformed'')"

fun ps_rows :: "codepoint list list \<Rightarrow> exc + container_summary list" where
  "ps_rows [] = Inr []"
| "ps_rows (raw # rest) =
     (let line = strip_cr_ends raw in
      if line = [] then ps_rows rest
      else (case summaries_of_row (py_split 9 line) of
              Inl x \<Rightarrow> Inl x
            | Inr ss \<Rightarrow> (case ps_rows rest of Inl x \<Rightarrow> Inl x | Inr more_rows \<Rightarrow> Inr (ss @ more_rows))))"

definition parse_docker_ps_lines :: "codepoint list \<Rightarrow> exc + container_summary list" where
  "parse_docker_ps_lines stdout = ps_rows (py_splitlines stdout)"

subsection \<open>\<open>docker inspect\<close>\<close>

record mount =
  mt_source :: string
  mt_target :: string
  mt_type :: string
  mt_mode :: string
  mt_rw :: bool

record inspect_result =
  ir_container_id :: string
  ir_name :: string
  ir_image :: string
  ir_status :: string
  ir_labels :: "(string \<times> string) list"
  ir_mounts :: "mount list"
  ir_config_user :: "string option"
  ir_working_dir :: "string option"
  ir_env_keys :: "string list"

definition env_allowlist :: "string list" where
  "env_allowlist = [''USER'', ''HOME'', ''WORKDIR'', ''TMUX'']"

text \<open>\<open>str(v)\<close> of a JSON value.\<close>

fun str_of_json :: "(json \<Rightarrow> string) \<Rightarrow> json \<Rightarrow> string" where
  "str_of_json repr (JStr s) = s"
| "str_of_json repr (JInt i) = py_str_int i"
| "str_of_json repr (JBool b) = (if b then ''True'' else ''False'')"
| "str_of_json repr JNull = ''None''"
| "str_of_json repr v = repr v"

definition get_default :: "json_object \<Rightarrow> string \<Rightarrow> json \<Rightarrow> json" where
  "get_default obj k d = (case map_of obj k of None \<Rightarrow> d | Some v \<Rightarrow> v)"

definition json_or :: "json \<Rightarrow> json \<Rightarrow> json" where
  "json_or a b = (if truthy a then a else b)"

definition malformed_inspect :: "string \<Rightarrow> (string \<times> string) + 'a" where
  "malformed_inspect message = Inl (''docker_malformed'', message)"

fun coerce_labels :: "(json \<Rightarrow> string) \<Rightarrow> json \<Rightarrow> (string \<times> string) + (string \<times> string) list" where
  "coerce_labels repr JNull = Inr []"
| "coerce_labels repr (JObj kvs) = Inr (map (\<lambda>(k, v). (k, str_of_json repr v)) kvs)"
| "coerce_labels repr _ = malformed_inspect ''inspect Labels is not an object''"

fun mounts_of :: "(json \<Rightarrow> string) \<Rightarrow> json list \<Rightarrow> (string \<times> string) + mount list" where
  "mounts_of repr [] = Inr []"
| "mounts_of repr (JObj item # rest) =
     (case mounts_of repr rest of
        Inl x \<Rightarrow> Inl x
      | Inr ms \<Rightarrow> Inr (\<lparr>mt_source = str_of_json repr (get_default item ''Source'' (JStr [])),
          mt_target = str_of_json repr (get_default item ''Destination'' (get_default item ''Target'' (JStr []))),
          mt_type = str_of_json repr (get_default item ''Type'' (JStr [])),
          mt_mode = str_of_json repr (get_default item ''Mode'' (JStr [])),
          mt_rw = truthy (get_default item ''RW'' (JBool False))\<rparr> # ms))"
| "mounts_of repr (_ # rest) = malformed_inspect ''inspect Mounts entry is not an object''"

fun coerce_mounts :: "(json \<Rightarrow> string) \<Rightarrow> json \<Rightarrow> (string \<times> string) + mount list" where
  "coerce_mounts repr JNull = Inr []"
| "coerce_mounts repr (JList items) = mounts_of repr items"
| "coerce_mounts repr _ = malformed_inspect ''inspect Mounts is not a list''"

fun env_key :: "json \<Rightarrow> string list" where
  "env_key (JStr entry) =
     (if CHR ''='' \<in> set entry \<and> fst (py_partition CHR ''='' entry) \<in> set env_allowlist
      then [fst (py_partition CHR ''='' entry)] else [])"
| "env_key _ = []"

fun filter_env_keys :: "json \<Rightarrow> string list" where
  "filter_env_keys (JList entries) = concat (map env_key entries)"
| "filter_env_keys _ = []"

fun obj_or_empty :: "json \<Rightarrow> json_object" where
  "obj_or_empty (JObj kvs) = kvs"
| "obj_or_empty _ = []"

definition entry_id :: "(json \<Rightarrow> string) \<Rightarrow> json_object \<Rightarrow> string" where
  "entry_id repr blob = str_of_json repr (json_or (json_get blob ''Id'') (json_or (json_get blob ''ID'') (JStr [])))"

definition str_or_none :: "(json \<Rightarrow> string) \<Rightarrow> json \<Rightarrow> string option" where
  "str_or_none repr v = (if truthy v then Some (str_of_json repr v) else None)"

definition raw_name :: "(json \<Rightarrow> string) \<Rightarrow> json \<Rightarrow> string" where
  "raw_name repr v = (if v = JNull then [] else str_of_json repr v)"

fun normalize_one :: "(json \<Rightarrow> string) \<Rightarrow> json \<Rightarrow> (string \<times> string) + inspect_result" where
  "normalize_one repr (JObj blob) =
     (if entry_id repr blob = [] then malformed_inspect ''inspect entry missing Id''
      else let config = obj_or_empty (json_get blob ''Config''); state = obj_or_empty (json_get blob ''State'') in
        case coerce_labels repr (json_get config ''Labels'') of
          Inl x \<Rightarrow> Inl x
        | Inr labels \<Rightarrow>
            (case coerce_mounts repr (json_get blob ''Mounts'') of
               Inl x \<Rightarrow> Inl x
             | Inr mounts \<Rightarrow>
                 Inr \<lparr>ir_container_id = entry_id repr blob,
                   ir_name = dropWhile (\<lambda>c. c = CHR ''/'') (raw_name repr (get_default blob ''Name'' (JStr []))),
                   ir_image = str_of_json repr (get_default config ''Image'' (JStr [])),
                   ir_status = str_of_json repr (get_default state ''Status'' (JStr [])),
                   ir_labels = labels, ir_mounts = mounts,
                   ir_config_user = str_or_none repr (json_get config ''User''),
                   ir_working_dir = str_or_none repr (json_get config ''WorkingDir''),
                   ir_env_keys = filter_env_keys (json_get config ''Env'')\<rparr>))"
| "normalize_one repr _ = malformed_inspect ''inspect entry is not an object''"

type_synonym inspect_answer = "(string \<times> inspect_result) list \<times> container_error list"

fun inspect_entries :: "(json \<Rightarrow> string) \<Rightarrow> json list \<Rightarrow> inspect_answer \<Rightarrow> inspect_answer" where
  "inspect_entries repr [] acc = acc"
| "inspect_entries repr (entry # rest) (successes, failures) =
     inspect_entries repr rest
       (case normalize_one repr entry of
          Inl (code, message) \<Rightarrow>
            (successes, failures @ [\<lparr>ce_container_id = (case entry of JObj blob \<Rightarrow> entry_id repr blob | _ \<Rightarrow> []),
               ce_code = code, ce_message = message\<rparr>])
        | Inr r \<Rightarrow> (AList.update (ir_container_id r) r successes, failures))"

fun missing_entries :: "string list \<Rightarrow> inspect_answer \<Rightarrow> container_error list" where
  "missing_entries [] (successes, failures) = failures"
| "missing_entries (requested # rest) (successes, failures) =
     missing_entries rest
       (successes,
        if requested \<in> fst ` set successes \<or> list_ex (\<lambda>f. ce_container_id f = requested) failures then failures
        else failures @ [\<lparr>ce_container_id = requested, ce_code = ''docker_malformed'',
               ce_message = ''docker inspect omitted requested id '' @ requested\<rparr>])"

definition parse_docker_inspect_array ::
  "(codepoint list \<Rightarrow> json option) \<Rightarrow> (json \<Rightarrow> string) \<Rightarrow> codepoint list \<Rightarrow> string list \<Rightarrow> exc + inspect_answer" where
  "parse_docker_inspect_array loads repr blob requested_ids =
     (case loads blob of
        Some (JList parsed) \<Rightarrow>
          (let (successes, failures) = inspect_entries repr parsed ([], [])
           in Inr (successes, missing_entries requested_ids (successes, failures)))
      | _ \<Rightarrow> Inl (DockerError ''docker_malformed''))"

subsection \<open>The adapter\<close>

record docker_env =
  dx_docker :: "string option"
  dx_run :: "string list \<Rightarrow> proc_outcome"
  dx_loads :: "codepoint list \<Rightarrow> json option"
  dx_repr :: "json \<Rightarrow> string"

definition permission_patterns :: "string list" where
  "permission_patterns =
     [''permission denied'', ''got permission denied'', ''dial unix /var/run/docker.sock: connect: permission denied'']"

definition classify_docker_failure :: "codepoint list \<Rightarrow> string" where
  "classify_docker_failure stderr =
     (if mentions permission_patterns stderr then ''docker_permission_denied'' else ''docker_failed'')"

definition docker_run :: "docker_env \<Rightarrow> string list \<Rightarrow> exc + (int \<times> codepoint list \<times> codepoint list)" where
  "docker_run e args =
     (case dx_docker e of
        None \<Rightarrow> Inl (DockerError ''docker_unavailable'')
      | Some binary \<Rightarrow>
          if binary = [] then Inl (DockerError ''docker_unavailable'')
          else (case dx_run e (binary # args) of
            Completed rc out err \<Rightarrow>
              (case (text_stream out, text_stream err) of
                 (Some stdout, Some stderr) \<Rightarrow> Inr (rc, stdout, stderr)
               | _ \<Rightarrow> Inl ValueError)
          | TimeoutExpired \<Rightarrow> Inl (DockerError ''docker_timeout'')
          | FileNotFound \<Rightarrow> Inl (DockerError ''docker_unavailable'')
          | Proc_raises x \<Rightarrow> Inl x))"

definition ps_format :: string where
  "ps_format = py_join [CHR 0x09] [''{{.ID}}'', ''{{.Names}}'', ''{{.Image}}'', ''{{.Status}}'']"

definition list_running :: "docker_env \<Rightarrow> exc + container_summary list" where
  "list_running e =
     (case docker_run e [''ps'', ''--no-trunc'', ''--format'', ps_format] of
        Inl x \<Rightarrow> Inl x
      | Inr (rc, stdout, stderr) \<Rightarrow>
          if rc \<noteq> 0 then Inl (DockerError (classify_docker_failure stderr)) else parse_docker_ps_lines stdout)"

definition inspect_containers :: "docker_env \<Rightarrow> string list \<Rightarrow> exc + inspect_answer" where
  "inspect_containers e ids =
     (if ids = [] then Inr ([], [])
      else case docker_run e (''inspect'' # ids) of
        Inl x \<Rightarrow> Inl x
      | Inr (rc, stdout, stderr) \<Rightarrow>
          let blob = (if stdout = [] then cps ''[]'' else stdout);
              parsed = parse_docker_inspect_array (dx_loads e) (dx_repr e) blob ids in
          if rc \<noteq> 0
          then (case parsed of
                  Inr (successes, failures) \<Rightarrow>
                    if failures = [] then Inl (DockerError (classify_docker_failure stderr)) else Inr (successes, failures)
                | Inl _ \<Rightarrow> Inl (DockerError (classify_docker_failure stderr)))
          else parsed)"

subsection \<open>What the adapter promises\<close>

text \<open>
  An answer of \<open>inspect\<close> is keyed by the ids of its results, has every id once and accounts for every
  requested id.
\<close>

definition answer_ok :: "string list \<Rightarrow> inspect_answer \<Rightarrow> bool" where
  "answer_ok ids a \<longleftrightarrow>
     distinct (map fst (fst a)) \<and> list_all (\<lambda>(k, r). ir_container_id r = k) (fst a) \<and>
     list_all (\<lambda>i. i \<in> fst ` set (fst a) \<or> i \<in> ce_container_id ` set (snd a)) ids"

lemma inspect_entries_keys:
  assumes "distinct (map fst s)" "list_all (\<lambda>(k, r). ir_container_id r = k) s"
    and "inspect_entries repr es (s, f) = (s', f')"
  shows "distinct (map fst s') \<and> list_all (\<lambda>(k, r). ir_container_id r = k) s'"
  using assms
proof (induction es arbitrary: s f)
  case (Cons e es)
  show ?case
  proof (cases "normalize_one repr e")
    case (Inl x)
    then obtain c m where "x = (c, m)" by (cases x)
    with Cons Inl show ?thesis by (auto simp del: normalize_one.simps)
  next
    case (Inr r)
    let ?s = "AList.update (ir_container_id r) r s"
    have "distinct (map fst ?s)" using Cons.prems(1) by (simp add: AList.distinct_update)
    moreover have "list_all (\<lambda>(k, r). ir_container_id r = k) ?s" using Cons.prems(2)
      by (induction s) (auto split: if_splits)
    ultimately show ?thesis using Cons.IH [of ?s f] Cons.prems(3) Inr by (simp del: normalize_one.simps)
  qed
qed simp

lemma missing_entries_cover:
  "set f \<subseteq> set (missing_entries ids (s, f)) \<and>
   list_all (\<lambda>i. i \<in> fst ` set s \<or> i \<in> ce_container_id ` set (missing_entries ids (s, f))) ids"
proof (induction ids arbitrary: f)
  case (Cons i ids)
  let ?f = "if i \<in> fst ` set s \<or> list_ex (\<lambda>f. ce_container_id f = i) f then f
        else f @ [\<lparr>ce_container_id = i, ce_code = ''docker_malformed'',
               ce_message = ''docker inspect omitted requested id '' @ i\<rparr>]"
  have new: "i \<in> fst ` set s \<or> i \<in> ce_container_id ` set ?f" by (auto simp: list_ex_iff)
  have old: "set f \<subseteq> set ?f" by auto
  have eq: "missing_entries (i # ids) (s, f) = missing_entries ids (s, ?f)" by simp
  from Cons.IH [of ?f] old have "set f \<subseteq> set (missing_entries (i # ids) (s, f))" unfolding eq by blast
  moreover from Cons.IH [of ?f] new have "i \<in> fst ` set s \<or> i \<in> ce_container_id ` set (missing_entries (i # ids) (s, f))"
    unfolding eq by blast
  ultimately show ?case using Cons.IH [of ?f] unfolding eq by (simp only: list.pred_inject simp_thms)
qed simp

lemma parse_inspect_answer:
  assumes "parse_docker_inspect_array loads repr blob ids = Inr a"
  shows "answer_ok ids a"
proof -
  from assms obtain parsed s f where "inspect_entries repr parsed ([], []) = (s, f)"
    and a: "a = (s, missing_entries ids (s, f))"
    by (auto simp: parse_docker_inspect_array_def split: option.splits json.splits prod.splits)
  then have "distinct (map fst s) \<and> list_all (\<lambda>(k, r). ir_container_id r = k) s"
    using inspect_entries_keys [of "[]"] by auto
  then show ?thesis using missing_entries_cover [of f ids s] by (simp add: a answer_ok_def)
qed

locale docker_adapter =
  fixes running :: "'e \<Rightarrow> exc + container_summary list"
    and inspect :: "'e \<Rightarrow> string list \<Rightarrow> exc + inspect_answer"
  assumes inspect_answer: "inspect e ids = Inr a \<Longrightarrow> answer_ok ids a"
    and inspect_none: "inspect e [] = Inr ([], [])"
begin

lemma accounts_for:
  "inspect e ids = Inr (s, f) \<Longrightarrow> i \<in> set ids \<Longrightarrow> i \<notin> fst ` set s \<Longrightarrow> i \<in> ce_container_id ` set f"
  using inspect_answer [of e ids "(s, f)"] by (auto simp: answer_ok_def list_all_iff)

lemma keyed_by_id:
  "inspect e ids = Inr (s, f) \<Longrightarrow> distinct (map fst s) \<and> (\<forall>(k, r) \<in> set s. ir_container_id r = k)"
  using inspect_answer [of e ids "(s, f)"] by (auto simp: answer_ok_def list_all_iff)

end

interpretation subprocess_docker: docker_adapter list_running inspect_containers
proof
  fix e ids a
  assume "inspect_containers e ids = Inr a"
  then show "answer_ok ids a"
  proof (cases "ids = []")
    case False
    with \<open>inspect_containers e ids = Inr a\<close> obtain rc out err
      where "docker_run e (''inspect'' # ids) = Inr (rc, out, err)"
      by (auto simp: inspect_containers_def split: sum.splits)
    with \<open>inspect_containers e ids = Inr a\<close> False
    have "parse_docker_inspect_array (dx_loads e) (dx_repr e) (if out = [] then cps ''[]'' else out) ids = Inr a"
      unfolding inspect_containers_def by (simp add: Let_def split: if_split_asm sum.split_asm prod.split_asm)
    then show ?thesis by (rule parse_inspect_answer)
  qed (auto simp: inspect_containers_def answer_ok_def)
qed (simp add: inspect_containers_def)

end
