(* ===== verification/Agent_Service.thy ===== *)
theory Agent_Service
  imports Log_Service Docker_Adapter
begin

text \<open>
  Registration of agents (\<open>agents/service.py\<close>), with the validators (\<open>agents/validation.py\<close>), the permission
  table (\<open>agents/permissions.py\<close>) and the statements on the \<open>agents\<close> table (\<open>state/agents.py\<close>). The methods
  are state-passing functions like those of \<open>Log_Service\<close>; the per-pane and per-agent locks serialize calls
  and have no state of their own here. \<open>TypeError\<close> and \<open>ValueError\<close>, which are always caught together, are
  both \<open>ValueError\<close>.
\<close>

subsection \<open>Environment\<close>

text \<open>
  Beside the environment of the log service: the clock, the text of JSON values that are no strings, the
  decimal digits outside ASCII, what \<open>int\<close> raises on a float that is no finite number (\<open>ValueError\<close> or an
  \<open>OverflowError\<close>), the random tokens, and the failures of the insert and of the audit append.
\<close>

record register_env =
  ge_log :: log_env
  ge_now :: timestamp
  ge_repr :: "json \<Rightarrow> string"
  ge_decimal :: decimal_digits
  ge_int_nonfinite :: exc
  ge_token :: "nat \<Rightarrow> string"
  ge_insert_error :: bool
  ge_role_audit_error :: "exc option"
  ge_log_service :: bool

subsection \<open>Permissions of a role\<close>

definition permissions_table :: "(string \<times> effective_permissions) list" where
  "permissions_table =
     [(''master'', \<lparr>can_send = True, can_receive = False, can_send_to_roles = [''slave'', ''swarm'']\<rparr>),
      (''slave'', \<lparr>can_send = False, can_receive = True, can_send_to_roles = []\<rparr>),
      (''swarm'', \<lparr>can_send = False, can_receive = True, can_send_to_roles = []\<rparr>),
      (''test-runner'', \<lparr>can_send = False, can_receive = False, can_send_to_roles = []\<rparr>),
      (''shell'', \<lparr>can_send = False, can_receive = False, can_send_to_roles = []\<rparr>),
      (''unknown'', \<lparr>can_send = False, can_receive = False, can_send_to_roles = []\<rparr>)]"

definition permissions_of_role :: "string \<Rightarrow> exc + effective_permissions" where
  "permissions_of_role role = (case map_of permissions_table role of None \<Rightarrow> Inl KeyError | Some p \<Rightarrow> Inr p)"

subsection \<open>Validators\<close>

definition valid_roles :: "string list" where
  "valid_roles = [''master'', ''slave'', ''swarm'', ''test-runner'', ''shell'', ''unknown'']"

definition valid_capabilities :: "string list" where
  "valid_capabilities = [''claude'', ''codex'', ''gemini'', ''opencode'', ''shell'', ''test-runner'', ''unknown'']"

definition label_max :: nat where
  "label_max = 64"

definition project_path_max :: nat where
  "project_path_max = 4096"

definition member_of :: "string list \<Rightarrow> json \<Rightarrow> exc + string" where
  "member_of allowed v =
     (case v of
        JStr s \<Rightarrow> if s \<in> set allowed then Inr s else Inl (RegistrationError ''value_out_of_set'')
      | _ \<Rightarrow> Inl (RegistrationError ''value_out_of_set''))"

definition validate_role :: "json \<Rightarrow> exc + string" where
  "validate_role = member_of valid_roles"

definition validate_capability :: "json \<Rightarrow> exc + string" where
  "validate_capability = member_of valid_capabilities"

definition validate_label :: "json \<Rightarrow> exc + string" where
  "validate_label v =
     (case v of
        JStr s \<Rightarrow>
          (let (cleaned, truncated) = sanitize_text (Some s) label_max in
           if truncated then Inl (RegistrationError ''field_too_long'') else Inr cleaned)
      | _ \<Rightarrow> Inl (RegistrationError ''value_out_of_set''))"

definition validate_project_path :: "json \<Rightarrow> exc + string" where
  "validate_project_path v =
     (let invalid = Inl (RegistrationError ''project_path_invalid'') in
      case v of
        JStr s \<Rightarrow>
          if CHR 0x00 \<in> set s then invalid
          else
            let cleaned = filter (\<lambda>c. (of_char c :: nat) \<ge> 0x20 \<and> c \<noteq> CHR 0x7F) s in
            if py_len cleaned > project_path_max then Inl (RegistrationError ''field_too_long'')
            else if cleaned = [] then invalid
            else if \<not> py_startswith cleaned ''/'' then invalid
            else if ''..'' \<in> set (py_split (CHR ''/'') cleaned) then invalid
            else Inr cleaned
      | _ \<Rightarrow> invalid)"

text \<open>\<open>^[0-9a-f]{12}([0-9a-f]{52})?$\<close>; the \<open>$\<close> also matches before a newline that ends the text.\<close>

definition container_id_re :: "string \<Rightarrow> bool" where
  "container_id_re v \<longleftrightarrow>
     (let h = (if v \<noteq> [] \<and> last v = CHR 0x0A then butlast v else v) in
      list_all hex_digit h \<and> (length h = 12 \<or> length h = 64))"

definition validate_container_id_filter :: "json \<Rightarrow> exc + string" where
  "validate_container_id_filter v =
     (case v of
        JStr s \<Rightarrow> if container_id_re s then Inr s else Inl (RegistrationError ''value_out_of_set'')
      | _ \<Rightarrow> Inl (RegistrationError ''value_out_of_set''))"

definition validate_parent_agent_id_shape :: "json \<Rightarrow> exc + string" where
  "validate_parent_agent_id_shape v =
     (case v of
        JStr s \<Rightarrow> if agent_id_re s then Inr s else Inl (RegistrationError ''value_out_of_set'')
      | _ \<Rightarrow> Inl (RegistrationError ''value_out_of_set''))"

subsection \<open>Statements on the agents table\<close>

datatype insert_outcome =
    Inserted "agent list"
  | Primary_key_violation
  | Insert_fails

text \<open>The primary key, the unique pane key and the two checks of the table.\<close>

definition insert_agent :: "bool \<Rightarrow> agent \<Rightarrow> agent list \<Rightarrow> insert_outcome" where
  "insert_agent fails a agents =
     (if fails \<or> ag_role a \<notin> set valid_roles \<or> ag_capability a \<notin> set valid_capabilities then Insert_fails
      else if ag_agent_id a \<in> set (map ag_agent_id agents) then Primary_key_violation
      else if agent_pane_key a \<in> set (map agent_pane_key agents) then Insert_fails
      else Inserted (agents @ [a]))"

definition update_agent_mutable_fields ::
  "string \<Rightarrow> string \<Rightarrow> string \<Rightarrow> string \<Rightarrow> string \<Rightarrow> effective_permissions \<Rightarrow> timestamp \<Rightarrow> bool \<Rightarrow> agent list \<Rightarrow> agent list" where
  "update_agent_mutable_fields agent_id role capability label project_path perms last_registered_at active =
     update_where (\<lambda>a. ag_agent_id a = agent_id)
       (\<lambda>a. a\<lparr>ag_role := role, ag_capability := capability, ag_label := label, ag_project_path := project_path,
              ag_effective_permissions := perms, ag_last_registered_at := last_registered_at, ag_active := active\<rparr>)"

definition update_agent_role :: "string \<Rightarrow> string \<Rightarrow> effective_permissions \<Rightarrow> agent list \<Rightarrow> agent list" where
  "update_agent_role agent_id role perms =
     update_where (\<lambda>a. ag_agent_id a = agent_id) (\<lambda>a. a\<lparr>ag_role := role, ag_effective_permissions := perms\<rparr>)"

definition update_agent_label :: "string \<Rightarrow> string \<Rightarrow> agent list \<Rightarrow> agent list" where
  "update_agent_label agent_id label = update_where (\<lambda>a. ag_agent_id a = agent_id) (\<lambda>a. a\<lparr>ag_label := label\<rparr>)"

definition update_agent_capability :: "string \<Rightarrow> string \<Rightarrow> agent list \<Rightarrow> agent list" where
  "update_agent_capability agent_id capability =
     update_where (\<lambda>a. ag_agent_id a = agent_id) (\<lambda>a. a\<lparr>ag_capability := capability\<rparr>)"

definition select_agent_by_pane_key :: "agent list \<Rightarrow> pane_key \<Rightarrow> agent option" where
  "select_agent_by_pane_key agents key = lookup_row agent_pane_key key agents"

definition select_active_for_role_and_container :: "registry \<Rightarrow> string \<Rightarrow> (bool \<times> bool option) option" where
  "select_active_for_role_and_container g agent_id =
     map_option (\<lambda>a. (ag_active a, map_option cn_active (lookup_row cn_container_id (ag_container_id a) (rg_containers g))))
       (select_agent_by_id (rg_agents g) agent_id)"

definition select_active_for_bound_pane :: "registry \<Rightarrow> pane_key \<Rightarrow> (bool \<times> bool) option" where
  "select_active_for_bound_pane g key =
     map_option (\<lambda>p. (pn_active p,
         case lookup_row cn_container_id (fst (pn_key p)) (rg_containers g) of None \<Rightarrow> False | Some c \<Rightarrow> cn_active c))
       (lookup_row pn_key key (rg_panes g))"

subsection \<open>The pane key of a request\<close>

definition pane_field_max_bytes :: nat where
  "pane_field_max_bytes = 4096"

definition sanitize_pane_field :: "string \<Rightarrow> string" where
  "sanitize_pane_field s = fst (sanitize_text (Some s) pane_field_max_bytes)"

text \<open>\<open>int(value)\<close>; a float is truncated towards zero.\<close>

fun int_of_json :: "register_env \<Rightarrow> json \<Rightarrow> exc + int" where
  "int_of_json e (JInt i) = Inr i"
| "int_of_json e (JBool b) = Inr (if b then 1 else 0)"
| "int_of_json e (JFloat (Some t)) = Inr (if t < 0 then - ((- t) div 1000) else t div 1000)"
| "int_of_json e (JFloat None) = Inl (ge_int_nonfinite e)"
| "int_of_json e (JStr s) =
     (case Option.bind (codepoints_of_string s) (py_int (ge_decimal e)) of None \<Rightarrow> Inl ValueError | Some i \<Rightarrow> Inr i)"
| "int_of_json e _ = Inl ValueError"

definition pane_key_fields :: "string list" where
  "pane_key_fields = [''container_id'', ''tmux_socket_path'', ''tmux_session_name'', ''tmux_window_index'',
     ''tmux_pane_index'', ''tmux_pane_id'']"

definition coerce_pane_key :: "register_env \<Rightarrow> json \<Rightarrow> exc + pane_key" where
  "coerce_pane_key e v =
     (case v of
        JObj obj \<Rightarrow>
          if \<not> list_all (\<lambda>k. k \<in> set (map fst obj)) pane_key_fields then Inl (RegistrationError ''bad_request'')
          else
            let field = (\<lambda>k. sanitize_pane_field (str_of_json (ge_repr e) (json_get obj k)));
                malformed = (\<lambda>x. if x = ValueError then RegistrationError ''tmux_pane_malformed'' else x)
            in map_sum malformed (\<lambda>(w, p). (field ''container_id'', field ''tmux_socket_path'', field ''tmux_session_name'',
                   w, p, field ''tmux_pane_id''))
                 (sum_bind (int_of_json e (json_get obj ''tmux_window_index'')) (\<lambda>w.
                  sum_bind (int_of_json e (json_get obj ''tmux_pane_index'')) (\<lambda>p. Inr (w, p))))
      | _ \<Rightarrow> Inl (RegistrationError ''bad_request''))"

subsection \<open>The parameters of a registration\<close>

text \<open>\<open>None\<close> is a field that the request does not have; a parent may be given as \<open>null\<close>.\<close>

record register_args =
  ra_pane_key :: pane_key
  ra_role :: "string option"
  ra_capability :: "string option"
  ra_label :: "string option"
  ra_project_path :: "string option"
  ra_parent :: "string option option"
  ra_attach_log :: json
  ra_schema_version :: json

definition opt_param :: "json_object \<Rightarrow> string \<Rightarrow> (json \<Rightarrow> exc + 'a) \<Rightarrow> exc + 'a option" where
  "opt_param params k check = (case map_of params k of None \<Rightarrow> Inr None | Some v \<Rightarrow> map_sum id Some (check v))"

definition register_agent_allowed_keys :: "string list" where
  "register_agent_allowed_keys = [''schema_version'', ''container_id'', ''pane_composite_key'', ''role'', ''capability'',
     ''label'', ''project_path'', ''parent_agent_id'', ''attach_log'']"

text \<open>Container and pane key, which must name the same container.\<close>

definition register_identity :: "register_env \<Rightarrow> json_object \<Rightarrow> exc + pane_key" where
  "register_identity e params =
     (case json_get params ''container_id'' of
        JStr container_id \<Rightarrow>
          if container_id = [] then Inl (RegistrationError ''value_out_of_set'')
          else sum_bind (coerce_pane_key e (json_get params ''pane_composite_key'')) (\<lambda>key.
            if fst key \<noteq> container_id then Inl (RegistrationError ''value_out_of_set'') else Inr key)
      | _ \<Rightarrow> Inl (RegistrationError ''bad_request''))"

text \<open>The rules on roles and parents that need no table.\<close>

definition check_role_and_parent :: "string option \<Rightarrow> string option option \<Rightarrow> exc + unit" where
  "check_role_and_parent role parent =
     (if role = Some ''master'' then Inl (RegistrationError ''master_via_register_self_rejected'')
      else if role = Some ''swarm'' \<and> (parent = None \<or> parent = Some None) then Inl (RegistrationError ''swarm_parent_required'')
      else if parent \<noteq> None \<and> parent \<noteq> Some None \<and> role \<noteq> None \<and> role \<noteq> Some ''swarm''
        then Inl (RegistrationError ''parent_role_mismatch'')
      else Inr ())"

definition register_params :: "register_env \<Rightarrow> json_object \<Rightarrow> exc + register_args" where
  "register_params e params =
     sum_bind (check_unknown_keys params register_agent_allowed_keys) (\<lambda>_.
     sum_bind (check_schema_version params (se_schema_version (ge_log e))) (\<lambda>_.
     sum_bind (register_identity e params) (\<lambda>key.
     sum_bind (opt_param params ''role'' validate_role) (\<lambda>role.
     sum_bind (opt_param params ''capability'' validate_capability) (\<lambda>capability.
     sum_bind (opt_param params ''label'' validate_label) (\<lambda>label.
     sum_bind (opt_param params ''project_path'' (\<lambda>v. if v = JStr [] then Inr [] else validate_project_path v)) (\<lambda>project_path.
     sum_bind (opt_param params ''parent_agent_id''
       (\<lambda>v. if v = JNull then Inr None else map_sum id Some (validate_parent_agent_id_shape v))) (\<lambda>parent.
     sum_bind (check_role_and_parent role parent) (\<lambda>_.
       Inr \<lparr>ra_pane_key = key, ra_role = role, ra_capability = capability, ra_label = label,
            ra_project_path = project_path, ra_parent = parent, ra_attach_log = json_get params ''attach_log'',
            ra_schema_version = json_get params ''schema_version''\<rparr>)))))))))"

subsection \<open>Agents with their container and pane\<close>

record agent_full =
  fr_agent :: agent
  fr_container_name :: "string option"
  fr_container_user :: "string option"
  fr_pane_pid :: "int option"
  fr_cwd :: "string option"

definition coalesce :: "'a option \<Rightarrow> 'a option \<Rightarrow> 'a option" where
  "coalesce x y = (case x of Some a \<Rightarrow> Some a | None \<Rightarrow> y)"

definition row_to_full_record :: "registry \<Rightarrow> agent \<Rightarrow> agent_full" where
  "row_to_full_record g a =
     (let container = lookup_row cn_container_id (ag_container_id a) (rg_containers g);
          pane = lookup_row pn_key (agent_pane_key a) (rg_panes g)
      in \<lparr>fr_agent = a,
          fr_container_name = coalesce (map_option cn_name container) (map_option pn_container_name pane),
          fr_container_user = coalesce (Option.bind container cn_config_user) (map_option pn_container_user pane),
          fr_pane_pid = map_option pn_pane_pid pane, fr_cwd = map_option pn_pane_current_path pane\<rparr>)"

definition select_agent_full_by_id :: "registry \<Rightarrow> string \<Rightarrow> agent_full option" where
  "select_agent_full_by_id g agent_id = map_option (row_to_full_record g) (select_agent_by_id (rg_agents g) agent_id)"

definition list_agents_full ::
  "registry \<Rightarrow> string list \<Rightarrow> string option \<Rightarrow> bool \<Rightarrow> string option \<Rightarrow> exc + agent_full list" where
  "list_agents_full g role container_id active_only parent_agent_id =
     map_sum id (map (row_to_full_record g)) (list_agents role container_id active_only parent_agent_id (rg_agents g))"

subsection \<open>Writing the registration\<close>

definition agent_id_retry_limit :: nat where
  "agent_id_retry_limit = 5"

definition generate_agent_id :: "string \<Rightarrow> string" where
  "generate_agent_id token = ''agt_'' @ token"

text \<open>One attempt per token; only a collision of the id is tried again.\<close>

primrec insert_with_savepoint_retry ::
  "bool \<Rightarrow> (string \<Rightarrow> agent) \<Rightarrow> agent list \<Rightarrow> string list \<Rightarrow> exc + (string \<times> agent list)" where
  "insert_with_savepoint_retry fails new agents [] = Inl (RegistrationError ''internal_error'')"
| "insert_with_savepoint_retry fails new agents (token # tokens) =
     (case insert_agent fails (new (generate_agent_id token)) agents of
        Inserted rows \<Rightarrow> Inr (generate_agent_id token, rows)
      | Primary_key_violation \<Rightarrow> insert_with_savepoint_retry fails new agents tokens
      | Insert_fails \<Rightarrow> Inl (RegistrationError ''internal_error''))"

definition validate_parent_for_swarm :: "agent list \<Rightarrow> string \<Rightarrow> exc + unit" where
  "validate_parent_for_swarm agents parent_agent_id =
     sum_bind (map_sum RegistrationError id (validate_agent_id_shape parent_agent_id)) (\<lambda>_.
       case select_agent_by_id agents parent_agent_id of
         None \<Rightarrow> Inl (RegistrationError ''parent_not_found'')
       | Some p \<Rightarrow>
           if \<not> ag_active p then Inl (RegistrationError ''parent_inactive'')
           else if ag_role p \<noteq> ''slave'' then Inl (RegistrationError ''parent_role_invalid'')
           else Inr ())"

text \<open>What was written: the table, the agent's id, what happened, and the prior role if the role changed.\<close>

record register_write =
  rw_agents :: "agent list"
  rw_agent_id :: string
  rw_outcome :: string
  rw_role_change :: "(string option \<times> string) option"

definition new_agent :: "pane_key \<Rightarrow> string \<Rightarrow> string \<Rightarrow> string \<Rightarrow> string \<Rightarrow> string option \<Rightarrow> effective_permissions \<Rightarrow> timestamp \<Rightarrow> string \<Rightarrow> agent" where
  "new_agent key role capability label project_path parent perms now agent_id =
     (case key of (container_id, socket, session, window, pane, pane_id) \<Rightarrow>
        \<lparr>ag_agent_id = agent_id, ag_container_id = container_id, ag_tmux_socket_path = socket,
         ag_tmux_session_name = session, ag_tmux_window_index = window, ag_tmux_pane_index = pane,
         ag_tmux_pane_id = pane_id, ag_role = role, ag_capability = capability, ag_label = label,
         ag_project_path = project_path, ag_parent_agent_id = parent, ag_effective_permissions = perms,
         ag_created_at = now, ag_last_registered_at = now, ag_last_seen_at = None, ag_active = True\<rparr>)"

definition given :: "'a option \<Rightarrow> 'a \<Rightarrow> 'a" where
  "given x d = (case x of None \<Rightarrow> d | Some v \<Rightarrow> v)"

definition create_agent :: "register_env \<Rightarrow> register_args \<Rightarrow> agent list \<Rightarrow> exc + register_write" where
  "create_agent e x agents =
     (let role = given (ra_role x) ''unknown''; parent = given (ra_parent x) None in
      if parent \<noteq> None \<and> role \<noteq> ''swarm'' then Inl (RegistrationError ''parent_role_mismatch'')
      else
        sum_bind (case parent of None \<Rightarrow> Inr () | Some p \<Rightarrow> validate_parent_for_swarm agents p) (\<lambda>_.
        sum_bind (permissions_of_role role) (\<lambda>perms.
        sum_bind (insert_with_savepoint_retry (ge_insert_error e)
            (new_agent (ra_pane_key x) role (given (ra_capability x) ''unknown'') (given (ra_label x) [])
              (given (ra_project_path x) []) parent perms (ge_now e))
            agents (map (ge_token e) [0..<agent_id_retry_limit])) (\<lambda>(agent_id, rows).
          Inr \<lparr>rw_agents = rows, rw_agent_id = agent_id, rw_outcome = ''created'', rw_role_change = Some (None, role)\<rparr>))))"

definition reregister_agent :: "register_env \<Rightarrow> register_args \<Rightarrow> agent \<Rightarrow> agent list \<Rightarrow> exc + register_write" where
  "reregister_agent e x old agents =
     (let role = given (ra_role x) (ag_role old); parent = given (ra_parent x) (ag_parent_agent_id old) in
      if ra_parent x \<noteq> None \<and> ra_parent x \<noteq> Some (ag_parent_agent_id old) then Inl (RegistrationError ''parent_immutable'')
      else if ra_role x \<noteq> None \<and> role = ''master'' then Inl (RegistrationError ''master_via_register_self_rejected'')
      else if parent \<noteq> None \<and> role \<noteq> ''swarm'' then Inl (RegistrationError ''parent_role_mismatch'')
      else
        sum_bind (permissions_of_role role) (\<lambda>perms.
          Inr \<lparr>rw_agents = update_agent_mutable_fields (ag_agent_id old) role (given (ra_capability x) (ag_capability old))
                 (given (ra_label x) (ag_label old)) (given (ra_project_path x) (ag_project_path old)) perms (ge_now e) True agents,
               rw_agent_id = ag_agent_id old, rw_outcome = (if ag_active old then ''updated'' else ''reactivated''),
               rw_role_change = (if role \<noteq> ag_role old then Some (Some (ag_role old), role) else None)\<rparr>))"

text \<open>The statements of the transaction before the log is attached.\<close>

definition register_rows :: "register_env \<Rightarrow> register_args \<Rightarrow> registry \<Rightarrow> exc + register_write" where
  "register_rows e x g =
     (if select_active_for_bound_pane g (ra_pane_key x) \<noteq> Some (True, True)
      then Inl (RegistrationError ''pane_unknown_to_daemon'')
      else case select_agent_by_pane_key (rg_agents g) (ra_pane_key x) of
             None \<Rightarrow> create_agent e x (rg_agents g)
           | Some old \<Rightarrow> reregister_agent e x old (rg_agents g))"

definition register_attach ::
  "register_env \<Rightarrow> register_args \<Rightarrow> agent \<Rightarrow> attach_result option svc" where
  "register_attach e x a =
     (case ra_attach_log x of
        JNull \<Rightarrow> svc_return None
      | JObj envelope \<Rightarrow>
          if \<not> ge_log_service e then svc_raise ''internal_error''
          else svc_bind svc_registry (\<lambda>g.
            case resolve_active_container g (ag_container_id a) of
              Inl err \<Rightarrow> (\<lambda>s. (Inl err, s))
            | Inr c \<Rightarrow>
                svc_bind (attach_log_in_transaction (ge_log e)
                    ((''agent_id'', JStr (ag_agent_id a)) #
                     (case map_of envelope ''log_path'' of None \<Rightarrow> [] | Some p \<Rightarrow> [(''log_path'', p)]) @
                     (if ra_schema_version x = JNull then [] else [(''schema_version'', ra_schema_version x)]))
                    a c ''register_self'' True) (\<lambda>r. svc_return (Some r)))
      | _ \<Rightarrow> svc_raise ''bad_request'')"

definition register_tx ::
  "register_env \<Rightarrow> register_args \<Rightarrow> (register_write \<times> agent_full \<times> attach_result option) svc" where
  "register_tx e x =
     svc_bind svc_registry (\<lambda>g.
       case register_rows e x g of
         Inl err \<Rightarrow> (\<lambda>s. (Inl err, s))
       | Inr w \<Rightarrow>
           svc_bind (svc_sql (\<lambda>g. Inr (g\<lparr>rg_agents := rw_agents w\<rparr>))) (\<lambda>_.
           svc_bind svc_registry (\<lambda>g'.
             case select_agent_full_by_id g' (rw_agent_id w) of
               None \<Rightarrow> (\<lambda>s. (Inl AssertionError, s))
             | Some full \<Rightarrow>
                 svc_bind (register_attach e x (fr_agent full)) (\<lambda>att.
                 svc_bind (svc_fail_if (se_commit_error (ge_log e))) (\<lambda>_. svc_return (w, full, att))))))"

text \<open>After the commit: the audit lines, whose failures are logged only.\<close>

definition safe_append_audit :: "register_env \<Rightarrow> string \<Rightarrow> role_change \<Rightarrow> service_state \<Rightarrow> service_state" where
  "safe_append_audit e method_name c s =
     (case append_audit_line (ge_role_audit_error e) (Agent_role_change c) (lw_audit (ss_log s)) of
        Inr rows \<Rightarrow> s\<lparr>ss_log := (ss_log s)\<lparr>lw_audit := rows\<rparr>\<rparr>
      | Inl _ \<Rightarrow>
          if se_logger (ge_log e)
          then put_lifecycle ((lw_lifecycle (ss_log s))\<lparr>lf_log := lf_log (lw_lifecycle (ss_log s)) @
                 [Audit_append_failed method_name (rc_agent_id c) []]\<rparr>) s
          else s)"

definition append_deferred_audit :: "register_env \<Rightarrow> string \<Rightarrow> attachment_change \<Rightarrow> service_state \<Rightarrow> service_state" where
  "append_deferred_audit e agent_id c s =
     (case svc_audit (ge_log e) c s of
        (Inr _, s') \<Rightarrow> s'
      | (Inl _, s') \<Rightarrow>
          if se_logger (ge_log e)
          then put_lifecycle ((lw_lifecycle (ss_log s'))\<lparr>lf_log := lf_log (lw_lifecycle (ss_log s')) @
                 [Audit_append_failed ''register_agent.attach_log'' agent_id []]\<rparr>) s'
          else s')"

record register_result =
  rr_full :: agent_full
  rr_outcome :: string
  rr_attach_log :: "attach_result option"

definition register_agent_locked :: "register_env \<Rightarrow> register_args \<Rightarrow> register_result svc" where
  "register_agent_locked e x s =
     (case se_begin_error (ge_log e) of
        Some err \<Rightarrow> (Inl err, s)
      | None \<Rightarrow>
          (case register_tx e x s of
             (Inl err, s') \<Rightarrow> (Inl err, put_registry (lw_registry (ss_log s)) s')
           | (Inr (w, full, att), s1) \<Rightarrow>
               let s2 = (case rw_role_change w of
                     None \<Rightarrow> s1
                   | Some (prior, role) \<Rightarrow> safe_append_audit e ''register_agent''
                       \<lparr>rc_agent_id = rw_agent_id w, rc_prior_role = prior, rc_new_role = role,
                        rc_confirm_provided = False, rc_socket_peer_uid = se_peer_uid (ge_log e)\<rparr> s1);
                   s3 = (case Option.bind att at_deferred_audit of
                     None \<Rightarrow> s2
                   | Some c \<Rightarrow> append_deferred_audit e (rw_agent_id w) c s2)
               in (Inr \<lparr>rr_full = full, rr_outcome = rw_outcome w, rr_attach_log = att\<rparr>, s3)))"

definition register_agent :: "register_env \<Rightarrow> json_object \<Rightarrow> register_result svc" where
  "register_agent e params s =
     (case register_params e params of Inl err \<Rightarrow> (Inl err, s) | Inr x \<Rightarrow> register_agent_locked e x s)"

subsection \<open>Listing\<close>

definition list_agents_allowed_keys :: "string list" where
  "list_agents_allowed_keys = [''schema_version'', ''role'', ''container_id'', ''active_only'', ''parent_agent_id'']"

record agents_listing =
  al_role :: "string list option"
  al_container_id :: "string option"
  al_active_only :: bool
  al_parent_agent_id :: "string option"
  al_agents :: "agent_full list"

fun validate_all :: "(json \<Rightarrow> exc + 'a) \<Rightarrow> json list \<Rightarrow> exc + 'a list" where
  "validate_all check [] = Inr []"
| "validate_all check (v # vs) = sum_bind (check v) (\<lambda>a. sum_bind (validate_all check vs) (\<lambda>as. Inr (a # as)))"

definition role_filter :: "json \<Rightarrow> exc + string list option" where
  "role_filter v =
     (case v of
        JNull \<Rightarrow> Inr None
      | JStr _ \<Rightarrow> map_sum id (\<lambda>r. Some [r]) (validate_role v)
      | JList vs \<Rightarrow> map_sum id Some (validate_all validate_role vs)
      | _ \<Rightarrow> Inl (RegistrationError ''value_out_of_set''))"

definition null_or :: "(json \<Rightarrow> exc + 'a) \<Rightarrow> json \<Rightarrow> exc + 'a option" where
  "null_or check v = (if v = JNull then Inr None else map_sum id Some (check v))"

definition list_agents_method :: "register_env \<Rightarrow> json_object \<Rightarrow> registry \<Rightarrow> exc + agents_listing" where
  "list_agents_method e params g =
     sum_bind (check_schema_version params (se_schema_version (ge_log e))) (\<lambda>_.
     if \<not> list_all (\<lambda>(k, _). k \<in> set list_agents_allowed_keys) params then Inl (RegistrationError ''unknown_filter'')
     else
       sum_bind (role_filter (json_get params ''role'')) (\<lambda>roles.
       sum_bind (null_or validate_container_id_filter (json_get params ''container_id'')) (\<lambda>container_id.
       sum_bind (case map_of params ''active_only'' of
           None \<Rightarrow> Inr False | Some (JBool b) \<Rightarrow> Inr b | Some _ \<Rightarrow> Inl (RegistrationError ''value_out_of_set'')) (\<lambda>active_only.
       sum_bind (null_or validate_parent_agent_id_shape (json_get params ''parent_agent_id'')) (\<lambda>parent.
       sum_bind (list_agents_full g (given roles []) container_id active_only parent) (\<lambda>rows.
         Inr \<lparr>al_role = roles, al_container_id = container_id, al_active_only = active_only,
              al_parent_agent_id = parent, al_agents = rows\<rparr>))))))"

subsection \<open>Changing an agent\<close>

record set_result =
  sr_agent_id :: string
  sr_field :: string
  sr_prior_value :: string
  sr_new_value :: string
  sr_effective_permissions :: "effective_permissions option"
  sr_audit_appended :: bool

definition set_role_allowed_keys :: "string list" where
  "set_role_allowed_keys = [''schema_version'', ''agent_id'', ''role'', ''confirm'']"

definition set_label_allowed_keys :: "string list" where
  "set_label_allowed_keys = [''schema_version'', ''agent_id'', ''label'']"

definition set_capability_allowed_keys :: "string list" where
  "set_capability_allowed_keys = [''schema_version'', ''agent_id'', ''capability'']"

definition set_role_params :: "register_env \<Rightarrow> json_object \<Rightarrow> exc + (string \<times> string \<times> bool)" where
  "set_role_params e params =
     sum_bind (agent_param (ge_log e) set_role_allowed_keys params) (\<lambda>agent_id.
     sum_bind (require_string params ''role'') (\<lambda>raw.
     sum_bind (validate_role (JStr raw)) (\<lambda>role.
     sum_bind (case map_of params ''confirm'' of
         None \<Rightarrow> Inr False | Some (JBool b) \<Rightarrow> Inr b | Some _ \<Rightarrow> Inl (RegistrationError ''bad_request'')) (\<lambda>confirm.
       if role = ''swarm'' then Inl (RegistrationError ''swarm_role_via_set_role_rejected'')
       else if role = ''master'' \<and> \<not> confirm then Inl (RegistrationError ''master_confirm_required'')
       else Inr (agent_id, role, confirm)))))"

text \<open>The new table, or \<open>None\<close> when the agent has the role already, with the agent before the change.\<close>

definition set_role_rows :: "registry \<Rightarrow> string \<Rightarrow> string \<Rightarrow> effective_permissions \<Rightarrow> exc + (agent \<times> agent list option)" where
  "set_role_rows g agent_id role perms =
     (case select_active_for_role_and_container g agent_id of
        None \<Rightarrow> Inl (RegistrationError ''agent_not_found'')
      | Some (agent_active, container_active) \<Rightarrow>
          if \<not> agent_active then Inl (RegistrationError ''agent_inactive'')
          else case select_agent_by_id (rg_agents g) agent_id of
                 None \<Rightarrow> Inl AssertionError
               | Some fresh \<Rightarrow>
                   if role = ''master'' \<and> container_active \<noteq> Some True then Inl (RegistrationError ''agent_inactive'')
                   else if ag_role fresh = role then Inr (fresh, None)
                   else Inr (fresh, Some (update_agent_role agent_id role perms (rg_agents g))))"

text \<open>One transaction that reads an agent and may write the agents table.\<close>

definition agents_tx :: "register_env \<Rightarrow> (registry \<Rightarrow> exc + (agent \<times> agent list option)) \<Rightarrow> (agent \<times> bool) svc" where
  "agents_tx e f =
     svc_bind (svc_fail_if (se_begin_error (ge_log e))) (\<lambda>_.
     svc_bind svc_registry (\<lambda>g.
       case f g of
         Inl err \<Rightarrow> (\<lambda>s. (Inl err, s))
       | Inr (fresh, rows) \<Rightarrow>
           svc_bind (svc_fail_if (se_commit_error (ge_log e))) (\<lambda>_.
             case rows of
               None \<Rightarrow> svc_return (fresh, False)
             | Some as \<Rightarrow> svc_bind (svc_sql (\<lambda>g. Inr (g\<lparr>rg_agents := as\<rparr>))) (\<lambda>_. svc_return (fresh, True)))))"

definition set_role :: "register_env \<Rightarrow> json_object \<Rightarrow> set_result svc" where
  "set_role e params s =
     (case sum_bind (set_role_params e params) (\<lambda>(agent_id, role, confirm).
             sum_bind (permissions_of_role role) (\<lambda>perms. Inr (agent_id, role, confirm, perms))) of
        Inl err \<Rightarrow> (Inl err, s)
      | Inr (agent_id, role, confirm, perms) \<Rightarrow>
          (case agents_tx e (\<lambda>g. set_role_rows g agent_id role perms) s of
             (Inl err, s') \<Rightarrow> (Inl err, s')
           | (Inr (fresh, changed), s1) \<Rightarrow>
               (Inr \<lparr>sr_agent_id = agent_id, sr_field = ''role'', sr_prior_value = ag_role fresh, sr_new_value = role,
                     sr_effective_permissions = Some (if changed then perms else ag_effective_permissions fresh),
                     sr_audit_appended = changed\<rparr>,
                if changed
                then safe_append_audit e ''set_role''
                       \<lparr>rc_agent_id = agent_id, rc_prior_role = Some (ag_role fresh), rc_new_role = role,
                        rc_confirm_provided = confirm, rc_socket_peer_uid = se_peer_uid (ge_log e)\<rparr> s1
                else s1)))"

definition set_field_rows ::
  "(agent \<Rightarrow> string) \<Rightarrow> (string \<Rightarrow> string \<Rightarrow> agent list \<Rightarrow> agent list) \<Rightarrow> registry \<Rightarrow> string \<Rightarrow> string \<Rightarrow> exc + (agent \<times> agent list option)" where
  "set_field_rows get update g agent_id v =
     (case select_agent_by_id (rg_agents g) agent_id of
        None \<Rightarrow> Inl (RegistrationError ''agent_not_found'')
      | Some fresh \<Rightarrow>
          if \<not> ag_active fresh then Inl (RegistrationError ''agent_inactive'')
          else Inr (fresh, if get fresh = v then None else Some (update agent_id v (rg_agents g))))"

definition set_field ::
  "register_env \<Rightarrow> string list \<Rightarrow> string \<Rightarrow> (json \<Rightarrow> exc + string) \<Rightarrow> (agent \<Rightarrow> string) \<Rightarrow>
   (string \<Rightarrow> string \<Rightarrow> agent list \<Rightarrow> agent list) \<Rightarrow> json_object \<Rightarrow> set_result svc" where
  "set_field e allowed field check get update params s =
     (case sum_bind (agent_param (ge_log e) allowed params) (\<lambda>agent_id.
             case map_of params field of
               None \<Rightarrow> Inl (RegistrationError ''bad_request'')
             | Some raw \<Rightarrow> sum_bind (check raw) (\<lambda>v. Inr (agent_id, v))) of
        Inl err \<Rightarrow> (Inl err, s)
      | Inr (agent_id, v) \<Rightarrow>
          svc_bind (agents_tx e (\<lambda>g. set_field_rows get update g agent_id v)) (\<lambda>(fresh, changed).
            svc_return \<lparr>sr_agent_id = agent_id, sr_field = field, sr_prior_value = get fresh, sr_new_value = v,
              sr_effective_permissions = None, sr_audit_appended = False\<rparr>) s)"

definition set_label :: "register_env \<Rightarrow> json_object \<Rightarrow> set_result svc" where
  "set_label e = set_field e set_label_allowed_keys ''label'' validate_label ag_label update_agent_label"

definition set_capability :: "register_env \<Rightarrow> json_object \<Rightarrow> set_result svc" where
  "set_capability e =
     set_field e set_capability_allowed_keys ''capability'' validate_capability ag_capability update_agent_capability"

end
