(* ===== verification/Log_Service_Facts.thy ===== *)
theory Log_Service_Facts
  imports Log_Service
begin

text \<open>
  Invariants of the attachment tables under attach, detach and the reader's observations: an agent has at
  most one attachment that is not superseded, and it is the most recent one; there is one attachment
  per agent and path, and each has its offsets.
\<close>

abbreviation reg :: "service_state \<Rightarrow> registry" where
  "reg s \<equiv> lw_registry (ss_log s)"

declare split_paired_All [simp del] split_paired_Ex [simp del]

subsection \<open>Methods step by step\<close>

lemma svc_bind_Inr_iff:
  "svc_bind m k s = (Inr b, s') \<longleftrightarrow> (\<exists>a s1. m s = (Inr a, s1) \<and> k a s1 = (Inr b, s'))"
  by (auto simp: svc_bind_def split: prod.splits sum.splits)

lemma reg_put [simp]: "reg (put_registry g s) = g" "reg (put_lifecycle l s) = reg s"
  by (simp_all add: put_registry_def put_lifecycle_def)

lemma svc_return_Inr [simp]: "svc_return a s = (Inr b, s') \<longleftrightarrow> b = a \<and> s' = s"
  by (auto simp: svc_return_def)

lemma svc_raise_Inr [simp]: "svc_raise c s \<noteq> (Inr b, s')"
  by (simp add: svc_raise_def)

lemma svc_registry_Inr [simp]: "svc_registry s = (Inr g, s') \<longleftrightarrow> g = reg s \<and> s' = s"
  by (auto simp: svc_registry_def)

lemma svc_sql_Inr: "svc_sql f s = (Inr u, s') \<longleftrightarrow> (\<exists>g. f (reg s) = Inr g \<and> s' = put_registry g s)"
  by (auto simp: svc_sql_def split: sum.splits)

lemma svc_fail_if_Inr [simp]: "svc_fail_if x s = (Inr u, s') \<longleftrightarrow> x = None \<and> s' = s"
  by (auto simp: svc_fail_if_def split: option.splits)

definition keeps_tables :: "'a svc \<Rightarrow> bool" where
  "keeps_tables m \<longleftrightarrow> (\<forall>s. reg (snd (m s)) = reg s)"

lemma keeps_tablesD: "keeps_tables m \<Longrightarrow> m s = (r, s') \<Longrightarrow> reg s' = reg s"
  unfolding keeps_tables_def by (metis snd_conv)

lemma keeps_bind [intro]: "keeps_tables m \<Longrightarrow> (\<And>a. keeps_tables (k a)) \<Longrightarrow> keeps_tables (svc_bind m k)"
  unfolding keeps_tables_def svc_bind_def by (auto split: prod.splits sum.splits) (metis snd_conv)+

lemma keeps_simps [simp, intro]:
  "keeps_tables (svc_return a)" "keeps_tables (svc_raise c)" "keeps_tables svc_registry" "keeps_tables (svc_fail_if x)"
  "keeps_tables (svc_lifecycle f)" "keeps_tables (svc_docker e argv)" "keeps_tables (svc_audit e change)"
  by (auto simp: keeps_tables_def svc_return_def svc_raise_def svc_registry_def svc_fail_if_def svc_lifecycle_def
      svc_docker_def svc_audit_def split: option.splits sum.splits)

lemma keeps_issue [simp, intro]: "keeps_tables (issue e argv)"
  unfolding issue_def by (rule keeps_bind) (auto split: option.splits)

lemma keeps_if: "keeps_tables a \<Longrightarrow> keeps_tables b \<Longrightarrow> keeps_tables (if c then a else b)"
  by simp

lemma keeps_switch_pipe [simp, intro]: "keeps_tables (switch_pipe e x)"
  unfolding switch_pipe_def Let_def by (intro keeps_bind keeps_if keeps_issue) auto

lemma keeps_emit [simp, intro]: "keeps_tables (emit_or_defer_audit e x c)"
  unfolding emit_or_defer_audit_def by (intro keeps_if keeps_bind) auto

lemma keeps_commit [simp, intro]: "keeps_tables (commit e x)"
  unfolding commit_def by (intro keeps_if) auto

subsection \<open>Failures\<close>

lemma agent_param_error: "agent_param e ks params = Inl x \<Longrightarrow> x \<in> range RegistrationError"
  by (auto simp: agent_param_def sum_bind_def check_unknown_keys_def check_schema_version_def require_string_def
      validate_agent_id_shape_def split: sum.splits if_splits option.splits json.splits)

lemma resolve_agent_error: "resolve_agent e g i = Inl x \<Longrightarrow> x \<in> range RegistrationError"
  by (auto simp: resolve_agent_def sum_bind_def resolve_active_agent_def resolve_active_container_def
      require_active_pane_def split: sum.splits if_splits option.splits)

lemma call_prefix_error:
  "sum_bind (agent_param e ks params) (resolve_agent e g) = Inl x \<Longrightarrow> x \<in> range RegistrationError"
  using agent_param_error resolve_agent_error by (auto simp: sum_bind_def split: sum.splits)

lemma to_registration_error_code: "to_registration_error x \<in> range RegistrationError"
  by (cases x) auto

lemma resolve_attach_target_tables:
  "resolve_attach_target e params a c s = (r, s1) \<Longrightarrow>
    reg s1 = reg s \<and> (r = Inl x \<longrightarrow> x \<in> range RegistrationError \<or> x \<in> {OSError ''realpath'', AssertionError})"
  by (auto simp: resolve_attach_target_def Let_def
      split: option.splits json.splits sum.splits path_error.splits list.splits if_splits)

text \<open>The two ways a call of attach ends: before the pipeline, with the tables untouched, or in it.\<close>

lemma attach_log_cases:
  obtains (early) x s1 where "attach_log e params source dfr s = (Inl x, s1)" "reg s1 = reg s"
      "x \<in> range RegistrationError \<or> x \<in> {OSError ''realpath'', AssertionError}"
  | (run) y s1 where "attach_log e params source dfr s = attach_log_locked e y s1" "reg s1 = reg s" "aa_manage_transaction y"
proof (cases "sum_bind (agent_param e attach_allowed_keys params) (resolve_agent e (reg s))")
  case (Inl x)
  then show thesis using early [of x s] call_prefix_error [OF Inl] by (simp add: attach_log_def)
next
  case (Inr p)
  obtain a c where p: "p = (a, c)" by (cases p)
  obtain r s1 where t: "resolve_attach_target e params a c s = (r, s1)" by fastforce
  show thesis
  proof (cases r)
    case (Inl x)
    then show ?thesis
      using early [of x s1] resolve_attach_target_tables [OF t, of x] Inr by (simp add: attach_log_def p svc_bind_def t)
  next
    case (Inr q)
    show ?thesis
    proof (rule run)
      show "attach_log e params source dfr s = attach_log_locked e \<lparr>aa_agent = a, aa_user = ci_bench_user c, aa_proof = q,
          aa_source = source, aa_defer_audit = dfr, aa_manage_transaction = True\<rparr> s1"
        using Inr \<open>sum_bind _ _ = Inr p\<close> by (simp add: attach_log_def p svc_bind_def t)
    qed (use resolve_attach_target_tables [OF t] in auto)
  qed
qed

lemma attach_log_locked_failure:
  assumes "attach_log_locked e y s = (Inl x, s')" "aa_manage_transaction y"
  shows "reg s' = reg s \<and> x \<in> range RegistrationError"
  using assms to_registration_error_code by (auto simp: attach_log_locked_def split: prod.splits sum.splits)

lemma attach_log_failure:
  assumes "attach_log e params source dfr s = (Inl x, s')"
  shows "reg s' = reg s \<and> (x \<in> range RegistrationError \<or> x \<in> {OSError ''realpath'', AssertionError})"
proof (cases rule: attach_log_cases [of e params source dfr s])
  case (early x' s1)
  then show ?thesis using assms by simp
next
  case (run y s1)
  then show ?thesis using assms attach_log_locked_failure [of e y s1 x s'] by simp
qed

lemma detach_log_locked_failure:
  "detach_log_locked e a u s = (Inl x, s') \<Longrightarrow> reg s' = reg s \<and> x \<in> range RegistrationError"
  using to_registration_error_code by (auto simp: detach_log_locked_def Let_def split: prod.splits sum.splits)

lemma detach_log_failure:
  assumes "detach_log e params s = (Inl x, s')"
  shows "reg s' = reg s \<and> x \<in> range RegistrationError"
proof (cases "sum_bind (agent_param e detach_allowed_keys params) (resolve_agent e (reg s))")
  case (Inl y)
  then show ?thesis using assms call_prefix_error [OF Inl] by (simp add: detach_log_def)
next
  case (Inr p)
  then show ?thesis using assms detach_log_locked_failure [of e "fst p" "ci_bench_user (snd p)" s x s']
    by (cases p) (simp add: detach_log_def)
qed

text \<open>
  A failed attach or detach changes no table. Whatever goes wrong in a call of attach or detach on a
  transaction of its own, a parameter, the container, the shell commands, a constraint, the commit, the
  audit append, the attachments and the offsets are what they were, and attach and detach raise an
  error with a code (or, when the host cannot resolve a path, the error of the operating system).
\<close>

lemma failed_attach_changes_no_table:
  "(case attach_log e params source dfr s of
      (Inl err, s') \<Rightarrow> reg s' = reg s \<and> (err \<in> range RegistrationError \<or> err \<in> {OSError ''realpath'', AssertionError})
    | (Inr _, _) \<Rightarrow> True) \<and>
   (case detach_log e params s of
      (Inl err, s') \<Rightarrow> reg s' = reg s \<and> err \<in> range RegistrationError
    | (Inr _, _) \<Rightarrow> True)"
proof -
  obtain r1 s1 r2 s2 where r: "attach_log e params source dfr s = (r1, s1)" "detach_log e params s = (r2, s2)" by fastforce
  show ?thesis
    using attach_log_failure [of e params source dfr s _ s1] detach_log_failure [of e params s _ s2]
    unfolding r by (cases r1; cases r2) auto
qed

subsection \<open>The invariant\<close>

definition row_stamp :: "attachment_row \<Rightarrow> timestamp \<times> timestamp \<times> string" where
  "row_stamp r = (la_last_status_at r, la_created_at r, la_attachment_id r)"

definition row_place :: "attachment_row \<Rightarrow> string \<times> string" where
  "row_place r = (la_agent_id r, la_log_path r)"

definition live :: "attachment_row \<Rightarrow> bool" where
  "live r \<longleftrightarrow> la_status r \<noteq> Att_superseded"

text \<open>\<open>r\<close> does not contradict \<open>q\<close>: of two rows of an agent only one is live, and it has the later stamp.\<close>

definition rows_agree :: "attachment_row \<Rightarrow> attachment_row \<Rightarrow> bool" where
  "rows_agree r q \<longleftrightarrow> \<not> (live r \<and> la_agent_id q = la_agent_id r \<and> la_attachment_id q \<noteq> la_attachment_id r) \<or>
     (row_stamp q < row_stamp r \<and> \<not> live q)"

definition attachments_inv :: "registry \<Rightarrow> bool" where
  "attachments_inv g \<longleftrightarrow> attachments_ok (rg_attachments g) \<and>
     distinct (map row_place (rg_attachments g)) \<and> distinct (map offset_key (rg_offsets g)) \<and>
     list_all (\<lambda>r. row_place r \<in> set (map offset_key (rg_offsets g)) \<and> la_created_at r \<le> la_last_status_at r)
       (rg_attachments g) \<and>
     list_all (\<lambda>r. list_all (rows_agree r) (rg_attachments g)) (rg_attachments g)"

text \<open>Every stamp in the table is before \<open>now\<close>.\<close>

definition clock_after :: "timestamp \<Rightarrow> registry \<Rightarrow> bool" where
  "clock_after now g \<longleftrightarrow> list_all (\<lambda>r. la_last_status_at r < now) (rg_attachments g)"

lemma attachments_invD:
  assumes "attachments_inv g"
  shows "attachments_ok (rg_attachments g)" "distinct (map la_attachment_id (rg_attachments g))"
    "distinct (map row_place (rg_attachments g))" "distinct (map offset_key (rg_offsets g))"
    "r \<in> set (rg_attachments g) \<Longrightarrow> row_place r \<in> set (map offset_key (rg_offsets g))"
    "r \<in> set (rg_attachments g) \<Longrightarrow> la_created_at r \<le> la_last_status_at r"
    "r \<in> set (rg_attachments g) \<Longrightarrow> q \<in> set (rg_attachments g) \<Longrightarrow> rows_agree r q"
  using assms by (auto simp: attachments_inv_def attachments_ok_def list_all_iff)

lemma same_id_same_row:
  "attachments_inv g \<Longrightarrow> r \<in> set (rg_attachments g) \<Longrightarrow> q \<in> set (rg_attachments g) \<Longrightarrow>
    la_attachment_id r = la_attachment_id q \<Longrightarrow> r = q"
  using attachments_invD(2) by (fastforce simp: distinct_map inj_on_def)

text \<open>The live row of an agent is its most recent row.\<close>

lemma live_is_most_recent:
  assumes "attachments_inv g" "r \<in> set (rg_attachments g)" "live r"
  shows "select_most_recent_for_agent g (la_agent_id r) = Some r"
proof -
  let ?rows = "filter (\<lambda>q. la_agent_id q = la_agent_id r) (rg_attachments g)"
  obtain q where q: "select_most_recent_for_agent g (la_agent_id r) = Some q"
    using assms(2) by (cases "select_most_recent_for_agent g (la_agent_id r)")
      (auto simp: select_most_recent_for_agent_def filter_empty_conv)
  then have f: "first_max row_stamp ?rows = Some q" by (simp add: select_most_recent_for_agent_def row_stamp_def [abs_def])
  have in_rows: "q \<in> set (rg_attachments g)" "la_agent_id q = la_agent_id r" and ge: "row_stamp r \<le> row_stamp q"
    using first_max_in [OF f] first_max_ge [OF f, of r] assms(2) by auto
  have "la_attachment_id q = la_attachment_id r"
    using attachments_invD(7) [OF assms(1,2) in_rows(1)] in_rows(2) assms(3) ge by (auto simp: rows_agree_def)
  then have "q = r" using same_id_same_row [OF assms(1) in_rows(1) assms(2)] by simp
  then show ?thesis using q by simp
qed

lemma find_distinct_key: "distinct (map key rows) \<Longrightarrow> r \<in> set rows \<Longrightarrow> find (\<lambda>q. key q = key r) rows = Some r"
  by (induction rows) (auto simp: image_iff)

lemma select_for_agent_path_place:
  assumes "attachments_inv g"
  shows "select_for_agent_path g a p = find (\<lambda>r. row_place r = (a, p)) (rg_attachments g)"
proof -
  have one: "length (filter (\<lambda>r. row_place r = k) rows) \<le> 1" if "distinct (map row_place rows)" for rows k
    using that by (induction rows) (auto simp: filter_empty_conv image_iff)
  have fm: "first_max f (filter P rows) = find P rows" if "length (filter P rows) \<le> 1" for P rows and f :: "_ \<Rightarrow> timestamp"
    using that by (induction rows) (auto simp: filter_empty_conv find_None_iff)
  have "(\<lambda>r. la_agent_id r = a \<and> la_log_path r = p) = (\<lambda>r. row_place r = (a, p))"
    by (auto simp: row_place_def)
  then show ?thesis
    using fm [OF one [OF attachments_invD(3) [OF assms]]] by (simp add: select_for_agent_path_def)
qed

lemma select_for_agent_path_SomeD:
  assumes "select_for_agent_path g a p = Some r"
  shows "r \<in> set (rg_attachments g)" "la_agent_id r = a" "la_log_path r = p"
  using assms by (auto simp: select_for_agent_path_def dest!: first_max_in)

lemma select_for_agent_path_None:
  assumes "select_for_agent_path g a p = None" "r \<in> set (rg_attachments g)"
  shows "row_place r \<noteq> (a, p)"
  using assms by (auto simp: select_for_agent_path_def filter_empty_conv row_place_def)

lemma supersede_target_SomeD:
  assumes "supersede_target g a p = Some t"
  shows "t \<in> set (rg_attachments g)" "la_agent_id t = a" "la_log_path t \<noteq> p" "live t"
  using assms first_max_in [of _ "filter (\<lambda>r. la_agent_id r = a) (rg_attachments g)" t]
  by (auto simp: supersede_target_def select_most_recent_for_agent_def live_def split: option.splits if_splits)

lemma supersede_target_None:
  assumes "attachments_inv g" "supersede_target g a p = None" "r \<in> set (rg_attachments g)" "la_agent_id r = a" "live r"
  shows "la_log_path r = p"
  using live_is_most_recent [OF assms(1,3,5)] assms(2,4,5)
  by (auto simp: supersede_target_def live_def split: if_splits)

text \<open>A change of the live row, with a later stamp.\<close>

lemma inv_update_live:
  assumes "attachments_inv g" "clock_after now g" "r \<in> set (rg_attachments g)" "live r"
    and "la_update_status (la_attachment_id r) st now x y g = Inr g'"
  shows "attachments_inv g'"
proof -
  let ?f = "\<lambda>r. r\<lparr>la_status := st, la_last_status_at := now, la_superseded_at := x, la_superseded_by := y\<rparr>"
  let ?P = "\<lambda>q. la_attachment_id q = la_attachment_id r"
  have g': "g' = g\<lparr>rg_attachments := update_where ?P ?f (rg_attachments g)\<rparr>"
    "attachments_ok (update_where ?P ?f (rg_attachments g))"
    using assms(5) by (auto simp: la_update_status_def Let_def split: if_splits)
  have lt: "la_last_status_at q < now" if "q \<in> set (rg_attachments g)" for q
    using assms(2) that by (auto simp: clock_after_def list_all_iff)
  have "{q \<in> set (rg_attachments g). ?P q} = {r}"
    using same_id_same_row [OF assms(1) _ assms(3)] assms(3) by blast
  then have rows: "set (rg_attachments g') = insert (?f r) {q \<in> set (rg_attachments g). la_attachment_id q \<noteq> la_attachment_id r}"
    by (simp add: g'(1) set_update_where)
  have place: "map row_place (rg_attachments g') = map row_place (rg_attachments g)"
    by (simp add: g'(1)) (rule map_key_update_where, simp add: row_place_def)
  have dead: "\<not> live q" if "q \<in> set (rg_attachments g)" "la_agent_id q = la_agent_id r" "la_attachment_id q \<noteq> la_attachment_id r" for q
    using attachments_invD(7) [OF assms(1,3) that(1)] that assms(4) by (auto simp: rows_agree_def)
  have agree: "rows_agree a b" if ab: "a \<in> set (rg_attachments g')" "b \<in> set (rg_attachments g')" for a b
  proof -
    consider "a = ?f r" "b = ?f r" | "a = ?f r" "b \<in> set (rg_attachments g)" "la_attachment_id b \<noteq> la_attachment_id r"
      | "a \<in> set (rg_attachments g)" "la_attachment_id a \<noteq> la_attachment_id r" "b = ?f r"
      | "a \<in> set (rg_attachments g)" "b \<in> set (rg_attachments g)" using ab unfolding rows by blast
    then show ?thesis
    proof cases
      case 1
      then show ?thesis by (simp add: rows_agree_def)
    next
      case 2
      then show ?thesis using dead [of b] lt [of b] by (auto simp: rows_agree_def row_stamp_def)
    next
      case 3
      then show ?thesis using dead [of a] by (auto simp: rows_agree_def)
    next
      case 4
      then show ?thesis using attachments_invD(7) [OF assms(1)] by blast
    qed
  qed
  show ?thesis
    unfolding attachments_inv_def list_all_iff
  proof (intro conjI ballI)
    show "attachments_ok (rg_attachments g')" using g' by simp
    show "distinct (map row_place (rg_attachments g'))" unfolding place by (rule attachments_invD(3) [OF assms(1)])
    show "distinct (map offset_key (rg_offsets g'))" using attachments_invD(4) [OF assms(1)] g'(1) by simp
    fix a assume a: "a \<in> set (rg_attachments g')"
    have "row_place a \<in> set (map row_place (rg_attachments g))" using a unfolding place [symmetric] by simp
    then show "row_place a \<in> set (map offset_key (rg_offsets g'))"
      using attachments_invD(5) [OF assms(1)] g'(1) by auto
    show "la_created_at a \<le> la_last_status_at a"
      using a attachments_invD(6) [OF assms(1)] order.trans [OF attachments_invD(6) [OF assms(1,3)] less_imp_le [OF lt [OF assms(3)]]]
      unfolding rows by auto
  qed (use agree in blast)
qed

text \<open>A new row at a place without offsets, when no row of the agent is live.\<close>

lemma inv_insert:
  assumes "attachments_inv g" "\<And>q. q \<in> set (rg_attachments g) \<Longrightarrow> la_last_status_at q \<le> now \<and> la_created_at q < now"
    and "\<And>q. q \<in> set (rg_attachments g) \<Longrightarrow> la_agent_id q = la_agent_id n \<Longrightarrow> \<not> live q"
    and "la_last_status_at n = now" "la_created_at n = now"
    and "la_insert n g = Inr g1" "lo_insert_initial (la_agent_id n) (la_log_path n) t g1 = Inr g2"
  shows "attachments_inv g2"
proof -
  have g1: "g1 = g\<lparr>rg_attachments := rg_attachments g @ [n]\<rparr>" "attachments_ok (rg_attachments g @ [n])"
    using assms(6) by (auto simp: la_insert_def split: if_splits)
  obtain o' where g2: "g2 = g1\<lparr>rg_offsets := rg_offsets g1 @ [o']\<rparr>" "offset_key o' = row_place n"
    "row_place n \<notin> set (map offset_key (rg_offsets g))"
    using assms(7) g1(1) by (auto simp: lo_insert_initial_def row_place_def offset_key_def split: if_splits)
  have fresh: "row_place n \<notin> set (map row_place (rg_attachments g))"
    using g2(3) attachments_invD(5) [OF assms(1)] by auto
  have before: "row_stamp q < row_stamp n" if "q \<in> set (rg_attachments g)" for q
    using assms(2) [OF that] assms(4,5) by (auto simp: row_stamp_def)
  have agree: "rows_agree a b" if ab: "a \<in> set (rg_attachments g2)" "b \<in> set (rg_attachments g2)" for a b
  proof -
    consider "a = n" "b = n" | "a = n" "b \<in> set (rg_attachments g)" | "a \<in> set (rg_attachments g)" "b = n"
      | "a \<in> set (rg_attachments g)" "b \<in> set (rg_attachments g)" using ab by (auto simp: g2(1) g1(1))
    then show ?thesis
    proof cases
      case 1
      then show ?thesis by (simp add: rows_agree_def)
    next
      case 2
      then show ?thesis using before [of b] assms(3) [of b] by (auto simp: rows_agree_def)
    next
      case 3
      then show ?thesis using assms(3) [of a] by (auto simp: rows_agree_def)
    next
      case 4
      then show ?thesis using attachments_invD(7) [OF assms(1)] by blast
    qed
  qed
  show ?thesis
    unfolding attachments_inv_def list_all_iff
  proof (intro conjI ballI)
    show "attachments_ok (rg_attachments g2)" using g1 by (simp add: g2(1))
    show "distinct (map row_place (rg_attachments g2))"
      using attachments_invD(3) [OF assms(1)] fresh by (simp add: g2(1) g1(1))
    show "distinct (map offset_key (rg_offsets g2))"
      using attachments_invD(4) [OF assms(1)] g2(2,3) by (simp add: g2(1) g1(1))
    fix a assume a: "a \<in> set (rg_attachments g2)"
    then show "row_place a \<in> set (map offset_key (rg_offsets g2))"
      using attachments_invD(5) [OF assms(1)] g2(2) by (auto simp: g2(1) g1(1))
    show "la_created_at a \<le> la_last_status_at a"
      using a attachments_invD(6) [OF assms(1)] assms(4,5) by (auto simp: g2(1) g1(1))
  qed (use agree in blast)
qed

lemma inv_lo_reset [simp]: "attachments_inv (lo_reset a p i n t g) \<longleftrightarrow> attachments_inv g"
proof -
  have "map offset_key (rg_offsets (lo_reset a p i n t g)) = map offset_key (rg_offsets g)"
    by (simp add: lo_reset_def lo_update_def) (rule map_key_update_where, simp add: offset_key_def)
  moreover have "rg_attachments (lo_reset a p i n t g) = rg_attachments g" by (simp add: lo_reset_def lo_update_def)
  ultimately show ?thesis unfolding attachments_inv_def by metis
qed

lemma keeps_case_option: "keeps_tables a \<Longrightarrow> (\<And>y. keeps_tables (b y)) \<Longrightarrow> keeps_tables (case z of None \<Rightarrow> a | Some y \<Rightarrow> b y)"
  by (cases z) auto

lemma svc_bind_keeps:
  assumes "svc_bind m k s = (Inr b, s')" "\<And>a. keeps_tables (k a)"
  obtains a s1 where "m s = (Inr a, s1)" "reg s' = reg s1"
  using assms(1) keeps_tablesD [OF assms(2)] by (auto simp: svc_bind_Inr_iff)

lemma svc_bind_sql:
  assumes "svc_bind (svc_sql f) k s = (Inr b, s')"
  obtains g where "f (reg s) = Inr g" "k () (put_registry g s) = (Inr b, s')"
  using assms by (auto simp: svc_bind_Inr_iff svc_sql_Inr)

lemma insert_attachment_tables:
  assumes "insert_attachment e x new_id target prior s = (Inr r, s')"
  obtains n g1 where "la_agent_id n = ag_agent_id (aa_agent x)" "la_log_path n = aa_path x"
    "la_last_status_at n = se_now e" "la_created_at n = se_now e" "la_pane_key n = agent_pane_key (aa_agent x)"
    "la_insert n (reg s) = Inr g1" "lo_insert_initial (ag_agent_id (aa_agent x)) (aa_path x) (se_now e) g1 = Inr (reg s')"
proof -
  have "\<exists>n k. insert_attachment e x new_id target prior = svc_bind (svc_sql (la_insert n)) (\<lambda>_.
        svc_bind (svc_sql (lo_insert_initial (ag_agent_id (aa_agent x)) (aa_path x) (se_now e))) k) \<and>
      (\<forall>u. keeps_tables (k u)) \<and> la_agent_id n = ag_agent_id (aa_agent x) \<and> la_log_path n = aa_path x \<and>
      la_last_status_at n = se_now e \<and> la_created_at n = se_now e \<and> la_pane_key n = agent_pane_key (aa_agent x)"
    unfolding insert_attachment_def Let_def by (intro exI conjI, rule refl) (auto intro!: keeps_bind)
  then obtain n k where n: "insert_attachment e x new_id target prior = svc_bind (svc_sql (la_insert n)) (\<lambda>_.
        svc_bind (svc_sql (lo_insert_initial (ag_agent_id (aa_agent x)) (aa_path x) (se_now e))) k)" "\<And>u. keeps_tables (k u)"
    "la_agent_id n = ag_agent_id (aa_agent x)" "la_log_path n = aa_path x" "la_last_status_at n = se_now e" "la_created_at n = se_now e"
    "la_pane_key n = agent_pane_key (aa_agent x)"
    by blast
  obtain g1 where g1: "la_insert n (reg s) = Inr g1" and
      m: "svc_bind (svc_sql (lo_insert_initial (ag_agent_id (aa_agent x)) (aa_path x) (se_now e))) k (put_registry g1 s) = (Inr r, s')"
    using assms unfolding n(1) by (rule svc_bind_sql) auto
  obtain u s1 where s1: "svc_sql (lo_insert_initial (ag_agent_id (aa_agent x)) (aa_path x) (se_now e)) (put_registry g1 s) = (Inr u, s1)"
      "reg s' = reg s1"
    using svc_bind_keeps [OF m n(2)] by blast
  show thesis using that [OF n(3-7) g1] s1 by (auto simp: svc_sql_Inr)
qed

lemma reactivate_tables:
  assumes "reactivate e x q prior s = (Inr r, s')"
  obtains g1 where "la_update_status (la_attachment_id q) Att_active (se_now e) None None (reg s) = Inr g1"
    "reg s' = g1 \<or> (\<exists>i n. reg s' = lo_reset (ag_agent_id (aa_agent x)) (aa_path x) i n (se_now e) g1)"
proof -
  let ?a = "ag_agent_id (aa_agent x)" and ?p = "aa_path x"
  have "\<exists>(m :: registry \<Rightarrow> (int \<times> int) svc) k. reactivate e x q prior = svc_bind (svc_sql (la_update_status (la_attachment_id q) Att_active (se_now e) None None)) (\<lambda>_.
      svc_bind svc_registry (\<lambda>g. svc_bind (m g) k)) \<and> (\<forall>u. keeps_tables (k u)) \<and>
      (\<forall>g s s1 y. m g s = (Inr y, s1) \<longrightarrow> reg s1 = reg s \<or> (\<exists>i n. reg s1 = lo_reset ?a ?p i n (se_now e) (reg s)))"
    unfolding reactivate_def Let_def
    apply (intro exI conjI, rule refl)
     apply (auto intro!: keeps_bind split: prod.splits)[1]
    apply (auto simp: svc_bind_Inr_iff svc_sql_Inr svc_lifecycle_def split: option.splits if_splits)
    done
  then obtain m :: "registry \<Rightarrow> (int \<times> int) svc" and k where e1: "reactivate e x q prior = svc_bind (svc_sql (la_update_status (la_attachment_id q) Att_active (se_now e) None None)) (\<lambda>_.
      svc_bind svc_registry (\<lambda>g. svc_bind (m g) k))" and k: "\<And>u. keeps_tables (k u)"
    and m: "\<And>g s s1 y. m g s = (Inr y, s1) \<Longrightarrow> reg s1 = reg s \<or> (\<exists>i n. reg s1 = lo_reset ?a ?p i n (se_now e) (reg s))"
    by blast
  obtain g1 where g1: "la_update_status (la_attachment_id q) Att_active (se_now e) None None (reg s) = Inr g1"
      and r: "svc_bind svc_registry (\<lambda>g. svc_bind (m g) k) (put_registry g1 s) = (Inr r, s')"
    using assms unfolding e1 by (rule svc_bind_sql) auto
  have "svc_bind (m g1) k (put_registry g1 s) = (Inr r, s')" using r by (auto simp: svc_bind_Inr_iff)
  then obtain y s1 where "m g1 (put_registry g1 s) = (Inr y, s1)" "reg s' = reg s1" by (rule svc_bind_keeps [OF _ k])
  then show thesis using that [OF g1] m [of g1 "put_registry g1 s" y s1] by simp
qed

text \<open>What \<^const>\<open>attach_rest\<close> did when it succeeded: a row was superseded, or none, and then one was reactivated or inserted.\<close>

lemma attach_rest_steps:
  assumes "attach_rest e x existing target s = (Inr r, s')"
  obtains prior new_id s1 where
    "case target of None \<Rightarrow> reg s1 = reg s
     | Some t \<Rightarrow> la_update_status (la_attachment_id t) Att_superseded (se_now e) (Some (se_now e)) (Some new_id) (reg s) = Inr (reg s1)"
    "(case existing of Some q \<Rightarrow> la_status q \<in> {Att_stale, Att_detached} \<and> reactivate e x q prior s1 = (Inr r, s') | None \<Rightarrow> False) \<or>
     (case existing of Some q \<Rightarrow> la_status q \<notin> {Att_stale, Att_detached} | None \<Rightarrow> True) \<and>
     insert_attachment e x new_id target prior s1 = (Inr r, s')"
proof -
  let ?sup = "\<lambda>new_id. case target of None \<Rightarrow> svc_return ()
     | Some t \<Rightarrow> svc_bind (svc_sql (la_update_status (la_attachment_id t) Att_superseded (se_now e) (Some (se_now e)) (Some new_id)))
         (\<lambda>_. svc_lifecycle (reset_suppression_for_path (ag_agent_id (aa_agent x)) (la_log_path t)))"
  let ?fin = "\<lambda>new_id prior. case existing of
       Some r \<Rightarrow> if la_status r \<in> {Att_stale, Att_detached} then reactivate e x r prior
          else insert_attachment e x new_id target prior
     | None \<Rightarrow> insert_attachment e x new_id target prior"
  obtain prior s0 where s0: "switch_pipe e x s = (Inr prior, s0)"
    and k0: "(case allocate_attachment_id e (reg s0) of Inl err \<Rightarrow> (\<lambda>s. (Inl err, s))
       | Inr new_id \<Rightarrow> svc_bind (?sup new_id) (\<lambda>_. ?fin new_id prior)) s0 = (Inr r, s')"
    using assms unfolding attach_rest_def Let_def svc_bind_Inr_iff [of "switch_pipe e x"] svc_bind_Inr_iff [of svc_registry]
    by auto
  then obtain new_id where "svc_bind (?sup new_id) (\<lambda>_. ?fin new_id prior) s0 = (Inr r, s')"
    by (cases "allocate_attachment_id e (reg s0)") simp_all
  then obtain s1 where s1: "?sup new_id s0 = (Inr (), s1)" and r: "?fin new_id prior s1 = (Inr r, s')"
    unfolding svc_bind_Inr_iff [of "?sup new_id"] by auto
  have tables: "case target of None \<Rightarrow> reg s1 = reg s
     | Some t \<Rightarrow> la_update_status (la_attachment_id t) Att_superseded (se_now e) (Some (se_now e)) (Some new_id) (reg s) = Inr (reg s1)"
    using s1 keeps_tablesD [OF keeps_switch_pipe s0]
    by (auto simp: svc_bind_Inr_iff svc_sql_Inr svc_lifecycle_def split: option.splits)
  show thesis by (rule that [OF tables, of prior]) (use r in \<open>auto split: option.splits if_splits\<close>)
qed

lemma superseded_rows:
  assumes "la_update_status i Att_superseded now x y g = Inr g'" "q \<in> set (rg_attachments g')"
  shows "q \<in> set (rg_attachments g) \<and> la_attachment_id q \<noteq> i \<or>
    \<not> live q \<and> la_last_status_at q = now \<and> (\<exists>q' \<in> set (rg_attachments g). la_created_at q = la_created_at q')"
proof -
  have "g' = g\<lparr>rg_attachments := update_where (\<lambda>r. la_attachment_id r = i)
      (\<lambda>r. r\<lparr>la_status := Att_superseded, la_last_status_at := now, la_superseded_at := x, la_superseded_by := y\<rparr>)
      (rg_attachments g)\<rparr>"
    using assms(1) by (auto simp: la_update_status_def Let_def split: if_splits)
  then show ?thesis using assms(2) by (auto simp: set_update_where live_def)
qed

lemma attach_rest_inv:
  assumes "attach_rest e x (select_for_agent_path (reg s) a p) (supersede_target (reg s) a p) s = (Inr r, s')"
    and "a = ag_agent_id (aa_agent x)" "p = aa_path x"
    and "attachments_inv (reg s)" "clock_after (se_now e) (reg s)"
    and "\<And>q. select_for_agent_path (reg s) a p = Some q \<Longrightarrow> la_status q \<noteq> Att_active"
  shows "attachments_inv (reg s')"
proof -
  let ?g = "reg s" and ?ex = "select_for_agent_path (reg s) a p" and ?tg = "supersede_target (reg s) a p"
  obtain prior new_id s1 where
    tables: "case ?tg of None \<Rightarrow> reg s1 = ?g
     | Some t \<Rightarrow> la_update_status (la_attachment_id t) Att_superseded (se_now e) (Some (se_now e)) (Some new_id) ?g = Inr (reg s1)"
    and fin: "(case ?ex of Some q \<Rightarrow> la_status q \<in> {Att_stale, Att_detached} \<and> reactivate e x q prior s1 = (Inr r, s') | None \<Rightarrow> False) \<or>
     (case ?ex of Some q \<Rightarrow> la_status q \<notin> {Att_stale, Att_detached} | None \<Rightarrow> True) \<and>
     insert_attachment e x new_id ?tg prior s1 = (Inr r, s')"
    by (rule attach_rest_steps [OF assms(1)])
  have stamps: "la_last_status_at q < se_now e" "la_created_at q < se_now e" if "q \<in> set (rg_attachments ?g)" for q
    using assms(5) that attachments_invD(6) [OF assms(4) that] by (auto simp: clock_after_def list_all_iff)
  from fin show ?thesis
  proof
    assume "case ?ex of Some q \<Rightarrow> la_status q \<in> {Att_stale, Att_detached} \<and> reactivate e x q prior s1 = (Inr r, s') | None \<Rightarrow> False"
    then obtain q where q: "?ex = Some q" "live q" "reactivate e x q prior s1 = (Inr r, s')"
      by (auto simp: live_def split: option.splits)
    note in_q = select_for_agent_path_SomeD [OF q(1)]
    have "?tg = None" using live_is_most_recent [OF assms(4) in_q(1) q(2)] in_q by (simp add: supersede_target_def)
    then have s1: "reg s1 = ?g" using tables by simp
    obtain g1 where g1: "la_update_status (la_attachment_id q) Att_active (se_now e) None None ?g = Inr g1"
      "reg s' = g1 \<or> (\<exists>i n. reg s' = lo_reset (ag_agent_id (aa_agent x)) (aa_path x) i n (se_now e) g1)"
      using reactivate_tables [OF q(3)] unfolding s1 by blast
    have "attachments_inv g1" by (rule inv_update_live [OF assms(4,5) in_q(1) q(2) g1(1)])
    then show ?thesis using g1(2) by auto
  next
    assume ins: "(case ?ex of Some q \<Rightarrow> la_status q \<notin> {Att_stale, Att_detached} | None \<Rightarrow> True) \<and>
      insert_attachment e x new_id ?tg prior s1 = (Inr r, s')"
    have dead: "\<not> live q" if "q \<in> set (rg_attachments ?g)" "row_place q = (a, p)" for q
    proof -
      have "?ex = Some q"
        using find_distinct_key [OF attachments_invD(3) [OF assms(4)] that(1)] that(2)
        by (simp add: select_for_agent_path_place [OF assms(4)])
      then show ?thesis using ins assms(6) by (cases "la_status q") (auto simp: live_def)
    qed
    have s1: "attachments_inv (reg s1) \<and> (\<forall>q \<in> set (rg_attachments (reg s1)). la_last_status_at q \<le> se_now e \<and>
        la_created_at q < se_now e \<and> (la_agent_id q = a \<longrightarrow> \<not> live q))"
    proof (cases ?tg)
      case None
      then have "reg s1 = ?g" using tables by simp
      then show ?thesis
        using assms(4) stamps dead supersede_target_None [OF assms(4) None]
        by (auto simp: row_place_def intro: less_imp_le)
    next
      case (Some t)
      note t = supersede_target_SomeD [OF Some]
      have u: "la_update_status (la_attachment_id t) Att_superseded (se_now e) (Some (se_now e)) (Some new_id) ?g = Inr (reg s1)"
        using tables Some by simp
      have others: "\<not> live q" if "q \<in> set (rg_attachments ?g)" "la_agent_id q = a" "la_attachment_id q \<noteq> la_attachment_id t" for q
        using attachments_invD(7) [OF assms(4) t(1) that(1)] that t(2,4) by (auto simp: rows_agree_def)
      have rows: "q \<in> set (rg_attachments (reg s1)) \<Longrightarrow> q \<in> set (rg_attachments ?g) \<and> la_attachment_id q \<noteq> la_attachment_id t \<or>
          \<not> live q \<and> la_last_status_at q = se_now e \<and> (\<exists>q' \<in> set (rg_attachments ?g). la_created_at q = la_created_at q')" for q
        by (rule superseded_rows [OF u])
      have "la_last_status_at q \<le> se_now e \<and> la_created_at q < se_now e \<and> (la_agent_id q = a \<longrightarrow> \<not> live q)"
        if q: "q \<in> set (rg_attachments (reg s1))" for q
        using rows [OF q] stamps [THEN less_imp_le] stamps(2) others by (elim disjE) auto
      then show ?thesis using inv_update_live [OF assms(4,5) t(1,4) u] by blast
    qed
    obtain n g1 where n: "la_agent_id n = a" "la_log_path n = p" "la_last_status_at n = se_now e" "la_created_at n = se_now e"
      "la_insert n (reg s1) = Inr g1" "lo_insert_initial a p (se_now e) g1 = Inr (reg s')"
      using insert_attachment_tables [OF conjunct2 [OF ins]] assms(2,3) by metis
    show ?thesis
      by (rule inv_insert [of "reg s1" "se_now e" n g1 "se_now e"]) (use s1 n in auto)
  qed
qed

lemma attach_pipeline_cases:
  assumes "attach_pipeline e x s = (Inr r, s')" and "g = reg s" "a = ag_agent_id (aa_agent x)" "p = aa_path x"
  obtains (same) q where "select_for_agent_path g a p = Some q" "la_status q = Att_active" "reg s' = g"
  | (rest) "attach_rest e x (select_for_agent_path g a p) (supersede_target g a p) s = (Inr r, s')"
      "\<And>q. select_for_agent_path g a p = Some q \<Longrightarrow> la_status q \<noteq> Att_active"
proof -
  let ?idem = "\<lambda>k1 k2. svc_bind (if se_ensure_fails e then svc_raise ''internal_error'' else svc_return ()) (\<lambda>_ :: unit.
      svc_bind (issue e (attach_argv x)) (\<lambda>_. svc_bind (commit e x) (\<lambda>_.
      case lo_select g a p of None \<Rightarrow> svc_return (k1 :: attach_result) | Some off \<Rightarrow> svc_return (k2 off))))"
  have idem: "keeps_tables (?idem k1 k2)" for k1 k2
    by (intro keeps_bind keeps_case_option keeps_if) auto
  show thesis
  proof (cases "select_for_agent_path g a p")
    case None
    then show thesis using assms rest by (auto simp: attach_pipeline_def Let_def svc_bind_Inr_iff split: if_splits)
  next
    case (Some q)
    show thesis
    proof (cases "la_status q = Att_active")
      case True
      then have "\<exists>k1 k2. ?idem k1 k2 s = (Inr r, s')"
        using assms Some unfolding attach_pipeline_def Let_def svc_bind_Inr_iff [of "if aa_manage_transaction x then _ else _"]
          svc_bind_Inr_iff [of svc_registry]
        by (auto split: if_splits)
      then show thesis using same [OF Some True] keeps_tablesD [OF idem] assms(2) by blast
    next
      case False
      then show thesis using assms Some rest by (auto simp: attach_pipeline_def Let_def svc_bind_Inr_iff split: if_splits)
    qed
  qed
qed

lemma attach_log_locked_inv:
  assumes "attachments_inv (reg s)" "clock_after (se_now e) (reg s)" "attach_log_locked e x s = (Inr r, s')"
  shows "attachments_inv (reg s')"
proof -
  have "attach_pipeline e x s = (Inr r, s')" using assms(3) by (auto simp: attach_log_locked_def split: prod.splits sum.splits)
  then show ?thesis
    by (rule attach_pipeline_cases [OF _ refl refl refl]) (use assms attach_rest_inv in auto)
qed

lemma detach_pipeline_tables:
  assumes "detach_pipeline e a u s = (Inr (q, d), s')"
  shows "select_active_for_agent (reg s) (ag_agent_id a) = Some q"
    "la_update_status (la_attachment_id q) Att_detached (se_now e) None None (reg s) = Inr (reg s')"
    "d = \<lparr>de_attachment_id = la_attachment_id q, de_log_path = la_log_path q,
          de_byte_offset = (case lo_select (reg s') (ag_agent_id a) (la_log_path q) of None \<Rightarrow> 0 | Some r \<Rightarrow> lo_byte_offset r),
          de_line_offset = (case lo_select (reg s') (ag_agent_id a) (la_log_path q) of None \<Rightarrow> 0 | Some r \<Rightarrow> lo_line_offset r),
          de_last_status_at = se_now e\<rparr>"
  using assms keeps_tablesD [OF keeps_issue]
  by (auto simp: detach_pipeline_def svc_bind_Inr_iff svc_sql_Inr Let_def split: option.splits)

lemma detach_log_locked_tables:
  assumes "detach_log_locked e a u s = (Inr d, s')"
  obtains q s1 where "detach_pipeline e a u s = (Inr (q, d), s1)" "reg s' = reg s1"
proof (cases "detach_pipeline e a u s")
  case (Pair r s1)
  then show thesis
  proof (cases r)
    case (Inl x)
    then show thesis using assms Pair by (simp add: detach_log_locked_def)
  next
    case (Inr p)
    obtain q d1 where p: "p = (q, d1)" by (cases p)
    have "d1 = d \<and> reg s' = reg s1"
      using assms Pair keeps_tablesD [OF keeps_simps(7)]
      by (auto simp: detach_log_locked_def Let_def Inr p split: prod.splits sum.splits if_splits)
    then show thesis using that [of q s1] Pair Inr p by simp
  qed
qed

lemma detach_log_locked_inv:
  assumes "attachments_inv (reg s)" "clock_after (se_now e) (reg s)" "detach_log_locked e a u s = (Inr d, s')"
  shows "attachments_inv (reg s')"
proof -
  obtain q s1 where q: "detach_pipeline e a u s = (Inr (q, d), s1)" "reg s' = reg s1"
    by (rule detach_log_locked_tables [OF assms(3)])
  note t = detach_pipeline_tables [OF q(1)]
  have "q \<in> set (rg_attachments (reg s)) \<and> live q"
    using first_max_in [OF t(1) [unfolded select_active_for_agent_def]] by (auto simp: live_def)
  then show ?thesis using inv_update_live [OF assms(1,2) _ _ t(2)] q(2) by simp
qed

text \<open>
  C21: the shape of the attachment tables. Attach and detach, whatever their arguments and the behaviour
  of the container, of the disk and of the database, keep this: one row per agent and path, with its
  offsets; at most one row of an agent is not superseded, and it is the one last touched, which is
  the one that status reports. The clock of the call must be past the stamps in the table.
\<close>

theorem attach_detach_keep_tables:
  assumes "attachments_inv (reg s)" "clock_after (se_now e) (reg s)"
  shows "attachments_inv (reg (snd (attach_log e params source dfr s))) \<and>
    attachments_inv (reg (snd (detach_log e params s)))"
proof
  show "attachments_inv (reg (snd (attach_log e params source dfr s)))"
  proof (cases rule: attach_log_cases [of e params source dfr s])
    case (early x s1)
    then show ?thesis using assms by simp
  next
    case (run y s1)
    obtain r s2 where l: "attach_log_locked e y s1 = (r, s2)" by fastforce
    then show ?thesis
      using run assms attach_log_locked_failure [of e y s1 _ s2] attach_log_locked_inv [of s1 e y _ s2] by (cases r) auto
  qed
  obtain r s2 where d: "detach_log e params s = (r, s2)" by fastforce
  show "attachments_inv (reg (snd (detach_log e params s)))"
  proof (cases r)
    case (Inl x)
    then show ?thesis using assms d detach_log_failure [of e params s x s2] by simp
  next
    case (Inr y)
    then obtain a u where "detach_log_locked e a u s = (Inr y, s2)"
      using d by (auto simp: detach_log_def split: sum.splits prod.splits)
    then show ?thesis using assms detach_log_locked_inv d by simp
  qed
qed

text \<open>
  C38: a superseded path is lost to its agent. Once the log of an agent moved from a path to another, an
  attach of the first path fails, with whatever environment and whatever way of asking: the pipeline goes
  on to insert the offsets of the path, whose row is still there.
\<close>

theorem superseded_path_is_lost:
  assumes "attachments_inv (reg s)" "q \<in> set (rg_attachments (reg s))" "la_status q = Att_superseded"
    and "row_place q = (ag_agent_id (aa_agent x), aa_path x)"
  shows "\<exists>code. fst (attach_log_locked e x s) = Inl (RegistrationError code)"
proof -
  let ?g = "reg s" and ?a = "ag_agent_id (aa_agent x)" and ?p = "aa_path x"
  have ex: "select_for_agent_path ?g ?a ?p = Some q"
    using find_distinct_key [OF attachments_invD(3) [OF assms(1)] assms(2)] assms(4)
    by (simp add: select_for_agent_path_place [OF assms(1)])
  have taken: "(?a, ?p) \<in> set (map offset_key (rg_offsets ?g))" using attachments_invD(5) [OF assms(1,2)] assms(4) by simp
  have no: "attach_pipeline e x s \<noteq> (Inr r, s')" for r s'
  proof
    assume "attach_pipeline e x s = (Inr r, s')"
    then have "attach_rest e x (Some q) (supersede_target ?g ?a ?p) s = (Inr r, s')"
      by (rule attach_pipeline_cases [OF _ refl refl refl]) (use ex assms(3) in auto)
    then obtain prior new_id s1 where
      t: "case supersede_target ?g ?a ?p of None \<Rightarrow> reg s1 = ?g
        | Some t \<Rightarrow> la_update_status (la_attachment_id t) Att_superseded (se_now e) (Some (se_now e)) (Some new_id) ?g = Inr (reg s1)"
      and i: "insert_attachment e x new_id (supersede_target ?g ?a ?p) prior s1 = (Inr r, s')"
      by (rule attach_rest_steps) (use assms(3) in auto)
    obtain n g1 where n: "la_insert n (reg s1) = Inr g1" "lo_insert_initial ?a ?p (se_now e) g1 = Inr (reg s')"
      by (rule insert_attachment_tables [OF i])
    have "rg_offsets (reg s1) = rg_offsets ?g"
      using t la_update_status_offsets by (cases "supersede_target ?g ?a ?p") auto
    then have "rg_offsets g1 = rg_offsets ?g" using n(1) by (auto simp: la_insert_def split: if_splits)
    then show False using n(2) taken by (simp add: lo_insert_initial_def)
  qed
  obtain y s' where "attach_pipeline e x s = (y, s')" by fastforce
  then have "\<exists>z. fst (attach_log_locked e x s) = Inl (to_registration_error z)"
    using no by (cases y) (auto simp: attach_log_locked_def)
  then show ?thesis using to_registration_error_code by (auto simp: image_iff)
qed

lemma reactivate_detached:
  assumes "reactivate e x q prior s = (Inr r, s')" "la_status q = Att_detached"
  defines "off \<equiv> lo_select (reg s) (ag_agent_id (aa_agent x)) (aa_path x)"
  shows "rg_offsets (reg s') = rg_offsets (reg s)" "at_is_new r = False" "at_attachment_id r = la_attachment_id q"
    "at_byte_offset r = (case off of None \<Rightarrow> 0 | Some o' \<Rightarrow> lo_byte_offset o')"
    "at_line_offset r = (case off of None \<Rightarrow> 0 | Some o' \<Rightarrow> lo_line_offset o')"
proof -
  let ?a = "ag_agent_id (aa_agent x)" and ?p = "aa_path x"
  let ?k = "\<lambda>b n deferred. render_attach_result q b n False (Some (la_status q)) (se_now e) deferred"
  let ?rest = "\<lambda>b n. svc_bind (svc_lifecycle (reset_suppression_for_path ?a ?p)) (\<lambda>_.
      svc_bind (emit_or_defer_audit e x (change_record e x (la_attachment_id q) (Some (la_status q)) (Some (la_log_path q)) prior)) (\<lambda>deferred.
      svc_bind (commit e x) (\<lambda>_. svc_return (?k b n deferred))))"
  have keeps: "keeps_tables (?rest b n)" for b n by (intro keeps_bind) auto
  obtain g1 where g1: "la_update_status (la_attachment_id q) Att_active (se_now e) None None (reg s) = Inr g1"
    and r: "(case lo_select g1 ?a ?p of None \<Rightarrow> ?rest 0 0 | Some o' \<Rightarrow> ?rest (lo_byte_offset o') (lo_line_offset o')) (put_registry g1 s) = (Inr r, s')"
    using assms(1,2) unfolding reactivate_def Let_def
    by (elim svc_bind_sql) (auto simp: svc_bind_def svc_registry_def svc_return_def split: option.splits)
  note same = la_update_status_offsets [OF g1]
  then have off: "lo_select g1 ?a ?p = off" by (simp add: off_def lo_select_def)
  obtain b n where bn: "?rest b n (put_registry g1 s) = (Inr r, s')"
    "b = (case off of None \<Rightarrow> 0 | Some o' \<Rightarrow> lo_byte_offset o')" "n = (case off of None \<Rightarrow> 0 | Some o' \<Rightarrow> lo_line_offset o')"
    using r unfolding off by (cases off) auto
  have "\<exists>d. r = ?k b n d" using bn(1) by (auto simp: svc_bind_Inr_iff)
  then show "at_is_new r = False" "at_attachment_id r = la_attachment_id q"
    "at_byte_offset r = (case off of None \<Rightarrow> 0 | Some o' \<Rightarrow> lo_byte_offset o')"
    "at_line_offset r = (case off of None \<Rightarrow> 0 | Some o' \<Rightarrow> lo_line_offset o')"
    using bn(2,3) by (auto simp: render_attach_result_def)
  show "rg_offsets (reg s') = rg_offsets (reg s)" using keeps_tablesD [OF keeps bn(1)] same by simp
qed

lemma la_update_status_row:
  assumes "la_update_status (la_attachment_id q) st now x y g = Inr g'" "q \<in> set (rg_attachments g)"
  shows "q\<lparr>la_status := st, la_last_status_at := now, la_superseded_at := x, la_superseded_by := y\<rparr> \<in> set (rg_attachments g')"
  using assms by (auto simp: la_update_status_def Let_def set_update_where split: if_splits)

text \<open>
  C22: detaching and attaching again resumes. When an agent's log is detached and, with the tables as the
  detach left them, attached again at the same path, the row is the same one, its offsets are those that
  the detach reported and no offset has changed, so no byte of the file is read twice or skipped.
\<close>

theorem detach_attach_resumes:
  assumes "attachments_inv (reg s)" "clock_after (se_now e) (reg s)"
    and "detach_log_locked e a u s = (Inr d, s1)" "reg s2 = reg s1"
    and "attach_log_locked e' x s2 = (Inr r, s3)" "aa_agent x = a" "aa_path x = de_log_path d"
  shows "\<not> at_is_new r \<and> at_attachment_id r = de_attachment_id d \<and> at_byte_offset r = de_byte_offset d \<and>
    at_line_offset r = de_line_offset d \<and> rg_offsets (reg s3) = rg_offsets (reg s)"
proof -
  obtain q s0 where q: "detach_pipeline e a u s = (Inr (q, d), s0)" "reg s1 = reg s0"
    by (rule detach_log_locked_tables [OF assms(3)])
  note t = detach_pipeline_tables [OF q(1)]
  have in_q: "q \<in> set (rg_attachments (reg s))" "la_agent_id q = ag_agent_id a"
    using first_max_in [OF t(1) [unfolded select_active_for_agent_def]] by auto
  have inv: "attachments_inv (reg s2)" using detach_log_locked_inv [OF assms(1-3)] assms(4) by simp
  define q' where "q' = q\<lparr>la_status := Att_detached, la_last_status_at := se_now e, la_superseded_at := None, la_superseded_by := None\<rparr>"
  have q': "q' \<in> set (rg_attachments (reg s2))" "la_status q' = Att_detached" "la_attachment_id q' = la_attachment_id q"
      "row_place q' = (ag_agent_id (aa_agent x), aa_path x)"
    using la_update_status_row [OF t(2) in_q(1)] assms(4,6,7) q(2) in_q(2) t(3) by (auto simp: q'_def row_place_def)
  have ex: "select_for_agent_path (reg s2) (ag_agent_id (aa_agent x)) (aa_path x) = Some q'"
    using find_distinct_key [OF attachments_invD(3) [OF inv] q'(1)] q'(4) by (simp add: select_for_agent_path_place [OF inv])
  have tg: "supersede_target (reg s2) (ag_agent_id (aa_agent x)) (aa_path x) = None"
    using live_is_most_recent [OF inv q'(1)] q'(2,4) by (simp add: supersede_target_def live_def row_place_def)
  have "attach_pipeline e' x s2 = (Inr r, s3)" using assms(5) by (auto simp: attach_log_locked_def split: prod.splits sum.splits)
  then have "attach_rest e' x (Some q') None s2 = (Inr r, s3)"
    by (rule attach_pipeline_cases [OF _ refl refl refl]) (use ex tg q'(2) in auto)
  then obtain prior s4 where s4: "reg s4 = reg s2" "reactivate e' x q' prior s4 = (Inr r, s3)"
    by (rule attach_rest_steps) (use q'(2) in auto)
  note d = reactivate_detached [OF s4(2) q'(2)]
  have "rg_offsets (reg s2) = rg_offsets (reg s)" using la_update_status_offsets [OF t(2)] assms(4) q(2) by simp
  then show ?thesis using d s4(1) t(3) q'(3,4) assms(4,6,7) q(2) by (simp add: row_place_def)
qed

end
