(* ===== verification/Agent_Facts.thy ===== *)
theory Agent_Facts
  imports Agent_Service Log_Service_Facts
begin

text \<open>
  What registration and the changes of an agent keep: the agents table stays well formed, nobody becomes
  master but by a confirmed change of role, a call that fails changes no table, and the audit lines replay
  to the roles in the table.
\<close>

subsection \<open>Well-formed agents\<close>

definition agent_ok :: "agent list \<Rightarrow> agent \<Rightarrow> bool" where
  "agent_ok agents a \<longleftrightarrow> ag_role a \<in> set valid_roles \<and> ag_capability a \<in> set valid_capabilities \<and>
     permissions_of_role (ag_role a) = Inr (ag_effective_permissions a) \<and>
     (ag_role a = ''swarm'' \<longrightarrow> ag_parent_agent_id a \<noteq> None) \<and>
     (case ag_parent_agent_id a of None \<Rightarrow> True | Some p \<Rightarrow> p \<in> set (map ag_agent_id agents))"

definition agents_ok :: "agent list \<Rightarrow> bool" where
  "agents_ok agents \<longleftrightarrow> distinct (map ag_agent_id agents) \<and> distinct (map agent_pane_key agents) \<and>
     list_all (agent_ok agents) agents"

lemma agents_okD:
  assumes "agents_ok agents"
  shows "distinct (map ag_agent_id agents)" "distinct (map agent_pane_key agents)" "a \<in> set agents \<Longrightarrow> agent_ok agents a"
  using assms by (auto simp: agents_ok_def list_all_iff)

lemma agent_ok_mono: "agent_ok agents a \<Longrightarrow> set (map ag_agent_id agents) \<subseteq> set (map ag_agent_id rows) \<Longrightarrow> agent_ok rows a"
  by (auto simp: agent_ok_def split: option.splits)

lemma agents_ok_update:
  assumes "agents_ok agents" "\<And>a. ag_agent_id (f a) = ag_agent_id a" "\<And>a. agent_pane_key (f a) = agent_pane_key a"
    and "\<And>a. a \<in> set agents \<Longrightarrow> P a \<Longrightarrow> agent_ok agents (f a)"
  shows "agents_ok (update_where P f agents)"
proof -
  have ids: "map ag_agent_id (update_where P f agents) = map ag_agent_id agents"
    and keys: "map agent_pane_key (update_where P f agents) = map agent_pane_key agents"
    by (simp_all add: map_key_update_where assms)
  have "agent_ok (update_where P f agents) a" if "a \<in> set (update_where P f agents)" for a
  proof (rule agent_ok_mono)
    show "agent_ok agents a" using that assms(4) agents_okD(3) [OF assms(1)] by (auto simp: set_update_where)
  qed (simp only: ids order.refl)
  then show ?thesis using agents_okD(1,2) [OF assms(1)] by (simp add: agents_ok_def ids keys list_all_iff)
qed

lemma agents_ok_snoc:
  assumes "agents_ok agents" "ag_agent_id a \<notin> set (map ag_agent_id agents)" "agent_pane_key a \<notin> set (map agent_pane_key agents)"
    and "agent_ok agents a"
  shows "agents_ok (agents @ [a])"
  using assms agents_okD [OF assms(1)] agent_ok_mono [of agents _ "agents @ [a]"]
  by (auto simp: agents_ok_def list_all_iff)

subsection \<open>Checked parameters\<close>

lemma sum_bind_Inr_iff: "sum_bind m k = Inr b \<longleftrightarrow> (\<exists>a. m = Inr a \<and> k a = Inr b)"
  by (auto simp: sum_bind_def split: sum.splits)

lemma member_of_Inr: "member_of allowed v = Inr s \<longleftrightarrow> v = JStr s \<and> s \<in> set allowed"
  by (auto simp: member_of_def split: json.splits)

lemma map_sum_Inr_iff: "map_sum f g x = Inr b \<longleftrightarrow> (\<exists>a. x = Inr a \<and> b = g a)"
  by (cases x) auto

lemma opt_param_Inr:
  "opt_param params k check = Inr r \<Longrightarrow> case r of None \<Rightarrow> map_of params k = None | Some v \<Rightarrow> \<exists>raw. check raw = Inr v"
  by (cases "map_of params k") (auto simp: opt_param_def map_sum_Inr_iff)

definition args_ok :: "register_args \<Rightarrow> bool" where
  "args_ok x \<longleftrightarrow> (case ra_role x of None \<Rightarrow> True | Some r \<Rightarrow> r \<in> set valid_roles \<and> r \<noteq> ''master'') \<and>
     (case ra_capability x of None \<Rightarrow> True | Some c \<Rightarrow> c \<in> set valid_capabilities) \<and>
     (ra_role x = Some ''swarm'' \<longrightarrow> (\<exists>p. ra_parent x = Some (Some p)))"

lemma register_params_parts:
  assumes "register_params e params = Inr x"
  shows "opt_param params ''role'' validate_role = Inr (ra_role x)"
    "opt_param params ''capability'' validate_capability = Inr (ra_capability x)"
    "check_role_and_parent (ra_role x) (ra_parent x) = Inr ()"
    "register_identity e params = Inr (ra_pane_key x)"
  using assms unfolding register_params_def sum_bind_Inr_iff by (elim exE conjE, auto)+

lemma register_params_ok:
  assumes "register_params e params = Inr x"
  shows "args_ok x"
proof -
  note parts = register_params_parts [OF assms]
  have "case ra_role x of None \<Rightarrow> True | Some r \<Rightarrow> r \<in> set valid_roles"
    using opt_param_Inr [OF parts(1)] by (auto simp: validate_role_def member_of_Inr split: option.splits)
  moreover have "case ra_capability x of None \<Rightarrow> True | Some c \<Rightarrow> c \<in> set valid_capabilities"
    using opt_param_Inr [OF parts(2)] by (auto simp: validate_capability_def member_of_Inr split: option.splits)
  ultimately show ?thesis
    using parts(3) by (cases "ra_parent x"; cases "the (ra_parent x)"; cases "ra_role x")
       (auto simp: args_ok_def check_role_and_parent_def split: if_splits)
qed

subsection \<open>The rows of a registration\<close>

lemma insert_with_savepoint_retry_Inr:
  assumes "insert_with_savepoint_retry fails new agents tokens = Inr (i, rows)" "\<And>i. ag_agent_id (new i) = i"
  shows "rows = agents @ [new i]" "i \<notin> set (map ag_agent_id agents)"
    "agent_pane_key (new i) \<notin> set (map agent_pane_key agents)"
    "ag_role (new i) \<in> set valid_roles" "ag_capability (new i) \<in> set valid_capabilities"
    "\<exists>token \<in> set tokens. i = generate_agent_id token"
  using assms by (induction tokens) (auto simp: insert_agent_def split: if_splits insert_outcome.splits)

lemma new_agent_simps [simp]:
  "ag_agent_id (new_agent key role cap label path parent perms now i) = i"
  "agent_pane_key (new_agent key role cap label path parent perms now i) = key"
  "ag_role (new_agent key role cap label path parent perms now i) = role"
  "ag_capability (new_agent key role cap label path parent perms now i) = cap"
  "ag_parent_agent_id (new_agent key role cap label path parent perms now i) = parent"
  "ag_effective_permissions (new_agent key role cap label path parent perms now i) = perms"
  "ag_active (new_agent key role cap label path parent perms now i) = True"
  by (simp_all add: new_agent_def agent_pane_key_def split: prod.splits)

lemma validate_parent_Inr:
  assumes "validate_parent_for_swarm agents p = Inr u"
  shows "\<exists>a \<in> set agents. ag_agent_id a = p \<and> ag_active a \<and> ag_role a = ''slave''"
  using assms lookup_row_SomeD
  by (fastforce simp: validate_parent_for_swarm_def sum_bind_Inr_iff select_agent_by_id_def split: option.splits if_splits)

text \<open>A new row: a fresh id on the pane, with a role that is not master.\<close>

lemma create_agent_row:
  assumes "create_agent e x agents = Inr w" "args_ok x"
  obtains a where "rw_agents w = agents @ [a]" "ag_agent_id a = rw_agent_id w" "agent_pane_key a = ra_pane_key x"
    "ag_active a" "ag_role a \<noteq> ''master''" "rw_role_change w = Some (None, ag_role a)"
    "rw_agent_id w \<notin> set (map ag_agent_id agents)" "ra_pane_key x \<notin> set (map agent_pane_key agents)" "agent_ok agents a"
proof -
  let ?role = "given (ra_role x) ''unknown''" and ?parent = "given (ra_parent x) None"
  from assms(1) obtain perms i rows where ok: "\<not> (?parent \<noteq> None \<and> ?role \<noteq> ''swarm'')"
    and par: "(case ?parent of None \<Rightarrow> Inr () | Some p \<Rightarrow> validate_parent_for_swarm agents p) = Inr ()"
    and perms: "permissions_of_role ?role = Inr perms"
    and ins: "insert_with_savepoint_retry (ge_insert_error e)
        (new_agent (ra_pane_key x) ?role (given (ra_capability x) ''unknown'') (given (ra_label x) [])
          (given (ra_project_path x) []) ?parent perms (ge_now e)) agents (map (ge_token e) [0..<agent_id_retry_limit]) = Inr (i, rows)"
    and w: "w = \<lparr>rw_agents = rows, rw_agent_id = i, rw_outcome = ''created'', rw_role_change = Some (None, ?role)\<rparr>"
    unfolding create_agent_def Let_def sum_bind_Inr_iff by (auto split: if_splits simp: sum_bind_Inr_iff)
  note row = insert_with_savepoint_retry_Inr [OF ins, simplified]
  have "?role \<noteq> ''master''" "?role = ''swarm'' \<Longrightarrow> ?parent \<noteq> None"
    using assms(2) by (auto simp: args_ok_def given_def split: option.splits)
  moreover have "case ?parent of None \<Rightarrow> True | Some p \<Rightarrow> p \<in> set (map ag_agent_id agents)"
    using par validate_parent_Inr [of agents _ "()"] by (cases ?parent) (auto simp: image_iff)
  ultimately show thesis
    using row perms w by (intro that [of "last rows"]) (auto simp: agent_ok_def)
qed

lemma reregister_agent_row:
  assumes "reregister_agent e x old agents = Inr w" "args_ok x"
  obtains role cap label path perms where
    "rw_agents w = update_agent_mutable_fields (ag_agent_id old) role cap label path perms (ge_now e) True agents"
    "rw_agent_id w = ag_agent_id old" "permissions_of_role role = Inr perms"
    "role = ''master'' \<Longrightarrow> ag_role old = ''master''" "role \<noteq> ag_role old \<Longrightarrow> role \<in> set valid_roles"
    "cap = ag_capability old \<or> cap \<in> set valid_capabilities"
    "role = ''swarm'' \<Longrightarrow> ag_role old = ''swarm'' \<or> ag_parent_agent_id old \<noteq> None"
    "rw_role_change w = (if role \<noteq> ag_role old then Some (Some (ag_role old), role) else None)"
proof -
  let ?role = "given (ra_role x) (ag_role old)"
  from assms(1) obtain perms where ok: "ra_parent x = None \<or> ra_parent x = Some (ag_parent_agent_id old)"
    "ra_role x = None \<or> ?role \<noteq> ''master''"
    and perms: "permissions_of_role ?role = Inr perms"
    and w: "w = \<lparr>rw_agents = update_agent_mutable_fields (ag_agent_id old) ?role (given (ra_capability x) (ag_capability old))
                 (given (ra_label x) (ag_label old)) (given (ra_project_path x) (ag_project_path old)) perms (ge_now e) True agents,
               rw_agent_id = ag_agent_id old, rw_outcome = (if ag_active old then ''updated'' else ''reactivated''),
               rw_role_change = (if ?role \<noteq> ag_role old then Some (Some (ag_role old), ?role) else None)\<rparr>"
    unfolding reregister_agent_def Let_def by (auto split: if_splits simp: sum_bind_Inr_iff)
  show thesis
    by (rule that [of ?role "given (ra_capability x) (ag_capability old)" "given (ra_label x) (ag_label old)"
          "given (ra_project_path x) (ag_project_path old)" perms])
       (use ok perms assms(2) in \<open>auto simp: w args_ok_def given_def split: option.splits\<close>)
qed

lemma register_rows_cases:
  assumes "register_rows e x g = Inr w" "args_ok x"
  obtains (created) a where "rw_agents w = rg_agents g @ [a]" "ag_agent_id a = rw_agent_id w" "agent_pane_key a = ra_pane_key x"
    "ag_active a" "ag_role a \<noteq> ''master''" "rw_role_change w = Some (None, ag_role a)"
    "rw_agent_id w \<notin> set (map ag_agent_id (rg_agents g))" "ra_pane_key x \<notin> set (map agent_pane_key (rg_agents g))"
    "agent_ok (rg_agents g) a" "select_active_for_bound_pane g (ra_pane_key x) = Some (True, True)"
  | (updated) old role cap label path perms where "old \<in> set (rg_agents g)" "agent_pane_key old = ra_pane_key x"
    "rw_agents w = update_agent_mutable_fields (ag_agent_id old) role cap label path perms (ge_now e) True (rg_agents g)"
    "rw_agent_id w = ag_agent_id old" "permissions_of_role role = Inr perms"
    "role = ''master'' \<Longrightarrow> ag_role old = ''master''" "role \<noteq> ag_role old \<Longrightarrow> role \<in> set valid_roles"
    "cap = ag_capability old \<or> cap \<in> set valid_capabilities"
    "role = ''swarm'' \<Longrightarrow> ag_role old = ''swarm'' \<or> ag_parent_agent_id old \<noteq> None"
    "rw_role_change w = (if role \<noteq> ag_role old then Some (Some (ag_role old), role) else None)"
    "select_active_for_bound_pane g (ra_pane_key x) = Some (True, True)"
proof -
  have pane: "select_active_for_bound_pane g (ra_pane_key x) = Some (True, True)"
    using assms(1) by (auto simp: register_rows_def split: if_splits)
  show thesis
  proof (cases "select_agent_by_pane_key (rg_agents g) (ra_pane_key x)")
    case None
    with assms(1) pane have "create_agent e x (rg_agents g) = Inr w" by (simp add: register_rows_def)
    then show thesis by (rule create_agent_row [OF _ assms(2)]) (rule created; use pane in simp)
  next
    case (Some old)
    have old: "old \<in> set (rg_agents g)" "agent_pane_key old = ra_pane_key x"
      using lookup_row_SomeD [OF Some [unfolded select_agent_by_pane_key_def]] by auto
    from Some assms(1) pane have "reregister_agent e x old (rg_agents g) = Inr w" by (simp add: register_rows_def)
    then show thesis by (rule reregister_agent_row [OF _ assms(2)]) (rule updated; use pane old in simp)
  qed
qed

lemma register_rows_ok:
  assumes "register_rows e x g = Inr w" "args_ok x" "agents_ok (rg_agents g)"
  shows "agents_ok (rw_agents w)"
  using assms(1,2)
proof (cases rule: register_rows_cases)
  case (created a)
  then show ?thesis using agents_ok_snoc [OF assms(3), of a] by simp
next
  case (updated old role cap label path perms)
  have one: "a = old" if "a \<in> set (rg_agents g)" "ag_agent_id a = ag_agent_id old" for a
    using that updated(1) agents_okD(1) [OF assms(3)] by (auto simp: distinct_map inj_on_def)
  show ?thesis
    unfolding updated(3) update_agent_mutable_fields_def
  proof (rule agents_ok_update [OF assms(3)])
    fix a assume "a \<in> set (rg_agents g)" "ag_agent_id a = ag_agent_id old"
    then have "a = old" by (rule one)
    then show "agent_ok (rg_agents g) (a\<lparr>ag_role := role, ag_capability := cap, ag_label := label, ag_project_path := path,
        ag_effective_permissions := perms, ag_last_registered_at := ge_now e, ag_active := True\<rparr>)"
      using agents_okD(3) [OF assms(3) updated(1)] updated(5-9)
      by (cases "role = ag_role old") (auto simp: agent_ok_def)
  qed (simp_all add: agent_pane_key_def)
qed

subsection \<open>A call that fails\<close>

lemma register_agent_locked_Inl:
  "register_agent_locked e x s = (Inl err, s') \<Longrightarrow> reg s' = reg s"
  by (auto simp: register_agent_locked_def Let_def split: option.splits prod.splits sum.splits)

lemma safe_append_audit_reg [simp]: "reg (safe_append_audit e m c s) = reg s"
  by (simp add: safe_append_audit_def split: sum.splits)

lemma append_deferred_audit_reg [simp]: "reg (append_deferred_audit e i c s) = reg s"
proof -
  obtain r s1 where a: "svc_audit (ge_log e) c s = (r, s1)" by fastforce
  have "reg s1 = reg s" by (rule keeps_tablesD [OF keeps_simps(7) a])
  with a show ?thesis by (simp add: append_deferred_audit_def split: sum.splits)
qed

lemma agents_tx_cases:
  obtains (failed) err where "agents_tx e f s = (Inl err, s)"
  | (same) fresh where "agents_tx e f s = (Inr (fresh, False), s)" "f (reg s) = Inr (fresh, None)"
  | (changed) fresh rows where "agents_tx e f s = (Inr (fresh, True), put_registry ((reg s)\<lparr>rg_agents := rows\<rparr>) s)"
      "f (reg s) = Inr (fresh, Some rows)"
proof (cases "se_begin_error (ge_log e)")
  case (Some x)
  then show thesis by (intro failed) (simp add: agents_tx_def svc_bind_def svc_fail_if_def)
next
  case None
  then have run: "agents_tx e f s =
      (case f (reg s) of Inl err \<Rightarrow> (Inl err, s) | Inr (fresh, rows) \<Rightarrow>
         (case se_commit_error (ge_log e) of Some err \<Rightarrow> (Inl err, s)
          | None \<Rightarrow> (case rows of None \<Rightarrow> (Inr (fresh, False), s)
                     | Some as \<Rightarrow> (Inr (fresh, True), put_registry ((reg s)\<lparr>rg_agents := as\<rparr>) s))))"
    by (auto simp: agents_tx_def svc_bind_def svc_fail_if_def svc_registry_def svc_return_def svc_sql_def
        split: sum.splits option.splits)
  show thesis
  proof (cases "f (reg s)")
    case (Inl err)
    then show thesis using run failed by simp
  next
    case (Inr p)
    obtain fresh rows where p: "p = (fresh, rows)" by (cases p)
    show thesis
      by (cases "se_commit_error (ge_log e)"; cases rows)
         (use run Inr p failed same changed in auto)
  qed
qed

lemma set_role_cases:
  obtains (failed) err where "set_role e params s = (Inl err, s)"
  | (same) r where "set_role e params s = (Inr r, s)"
  | (changed) i role confirm perms fresh r where "set_role_params e params = Inr (i, role, confirm)"
      "permissions_of_role role = Inr perms"
      "set_role_rows (reg s) i role perms = Inr (fresh, Some (update_agent_role i role perms (rg_agents (reg s))))"
      "set_role e params s = (Inr r, safe_append_audit e ''set_role''
         \<lparr>rc_agent_id = i, rc_prior_role = Some (ag_role fresh), rc_new_role = role, rc_confirm_provided = confirm,
          rc_socket_peer_uid = se_peer_uid (ge_log e)\<rparr>
         (put_registry ((reg s)\<lparr>rg_agents := update_agent_role i role perms (rg_agents (reg s))\<rparr>) s))"
proof (cases "set_role_params e params")
  case (Inl err)
  then show thesis by (intro failed) (simp add: set_role_def sum_bind_def)
next
  case (Inr p)
  obtain i role confirm where p: "p = (i, role, confirm)" by (cases p)
  show thesis
  proof (cases "permissions_of_role role")
    case (Inl err)
    with Inr p show thesis by (intro failed) (simp add: set_role_def sum_bind_def \<open>set_role_params e params = Inr p\<close>)
  next
    case (Inr perms)
    let ?f = "\<lambda>g. set_role_rows g i role perms"
    note run = set_role_def [of e params s, unfolded \<open>set_role_params e params = Inr p\<close> p sum_bind_def sum.case prod.case Inr]
    show thesis
    proof (cases rule: agents_tx_cases [of e ?f s])
      case (failed err)
      then show thesis using run by (intro that(1)) simp
    next
      case (same fresh)
      then show thesis using run by (intro that(2)) simp
    next
      case (changed fresh rows)
      have rows: "rows = update_agent_role i role perms (rg_agents (reg s))"
        using changed(2) by (auto simp: set_role_rows_def split: option.splits if_splits)
      show thesis
        by (rule that(3) [OF \<open>set_role_params e params = Inr p\<close> [unfolded p] Inr changed(2) [unfolded rows]])
           (use run changed(1) rows in simp)
    qed
  qed
qed

lemma set_field_cases:
  obtains (failed) err where "set_field e allowed field check get update params s = (Inl err, s)"
  | (same) r where "set_field e allowed field check get update params s = (Inr r, s)"
  | (changed) r raw i v where "set_field e allowed field check get update params s =
        (Inr r, put_registry ((reg s)\<lparr>rg_agents := update i v (rg_agents (reg s))\<rparr>) s)" "check raw = Inr v"
proof -
  let ?p = "sum_bind (agent_param (ge_log e) allowed params) (\<lambda>agent_id.
             case map_of params field of
               None \<Rightarrow> Inl (RegistrationError ''bad_request'')
             | Some raw \<Rightarrow> sum_bind (check raw) (\<lambda>v. Inr (agent_id, v)))"
  show thesis
  proof (cases ?p)
    case (Inl err)
    then show thesis by (intro failed) (simp add: set_field_def)
  next
    case (Inr p)
    obtain i v where p: "p = (i, v)" by (cases p)
    obtain raw where raw: "check raw = Inr v"
      using Inr p by (auto simp: sum_bind_Inr_iff split: option.splits)
    note run = set_field_def [of e allowed field check get update params s, unfolded Inr p sum.case prod.case]
    show thesis
    proof (cases rule: agents_tx_cases [of e "\<lambda>g. set_field_rows get update g i v" s])
      case (failed err)
      then show thesis using run by (intro that(1)) (simp add: svc_bind_def)
    next
      case (same fresh)
      then show thesis using run by (intro that(2)) (simp add: svc_bind_def svc_return_def)
    next
      case (changed fresh rows)
      then have "rows = update i v (rg_agents (reg s))"
        by (auto simp: set_field_rows_def split: option.splits if_splits)
      then show thesis using run changed(1) by (intro that(3) [OF _ raw]) (simp add: svc_bind_def svc_return_def)
    qed
  qed
qed

subsection \<open>What attaching does to the rows\<close>

definition same_row :: "attachment_row \<Rightarrow> attachment_row \<Rightarrow> bool" where
  "same_row r r' \<longleftrightarrow> la_attachment_id r = la_attachment_id r' \<and> la_agent_id r = la_agent_id r' \<and> la_pane_key r = la_pane_key r'"

text \<open>The other tables stay; a row that becomes active is one of the agent, on the agent's pane if it is new.\<close>

definition attach_evolves :: "agent \<Rightarrow> registry \<Rightarrow> registry \<Rightarrow> bool" where
  "attach_evolves a g g' \<longleftrightarrow> rg_agents g' = rg_agents g \<and> rg_panes g' = rg_panes g \<and> rg_containers g' = rg_containers g \<and>
     attachments_ok (rg_attachments g') \<and>
     list_all (\<lambda>r'. la_agent_id r' = ag_agent_id a \<and> la_pane_key r' = agent_pane_key a \<or>
       list_ex (\<lambda>r. same_row r r' \<and> (la_status r' = Att_active \<longrightarrow> la_status r = Att_active \<or> la_agent_id r = ag_agent_id a))
         (rg_attachments g)) (rg_attachments g')"

lemma attach_evolves_refl: "attachments_ok (rg_attachments g) \<Longrightarrow> attach_evolves a g g"
  by (auto simp: attach_evolves_def list_all_iff list_ex_iff same_row_def)

lemma la_update_status_evolves:
  assumes "la_update_status i st now x y g = Inr g'"
  shows "rg_agents g' = rg_agents g" "rg_panes g' = rg_panes g" "rg_containers g' = rg_containers g"
    "attachments_ok (rg_attachments g')"
  using assms by (auto simp: la_update_status_def Let_def split: if_splits)

lemma la_update_status_from:
  assumes "la_update_status i st now x y g = Inr g'" "r' \<in> set (rg_attachments g')"
  shows "\<exists>r \<in> set (rg_attachments g). same_row r r' \<and>
       (la_attachment_id r = i \<and> la_status r' = st \<or> la_status r' = la_status r)"
proof -
  have "r' \<in> set (update_where (\<lambda>r. la_attachment_id r = i)
      (\<lambda>r. r\<lparr>la_status := st, la_last_status_at := now, la_superseded_at := x, la_superseded_by := y\<rparr>) (rg_attachments g))"
    using assms by (auto simp: la_update_status_def Let_def split: if_splits)
  then show ?thesis by (rule in_update_where_cases) (auto simp: same_row_def)
qed

lemma attach_evolves_insert:
  assumes "la_insert n g = Inr g1" "lo_insert_initial i p t g1 = Inr g2"
    and "la_agent_id n = ag_agent_id a" "la_pane_key n = agent_pane_key a"
  shows "attach_evolves a g g2"
proof -
  have "attachments_ok (rg_attachments g @ [n])" "g1 = g\<lparr>rg_attachments := rg_attachments g @ [n]\<rparr>"
    using assms(1) by (auto simp: la_insert_def split: if_splits)
  moreover obtain o' where "g2 = g1\<lparr>rg_offsets := o'\<rparr>"
    using assms(2) by (auto simp: lo_insert_initial_def split: if_splits)
  ultimately show ?thesis
    using assms(3,4) by (auto simp: attach_evolves_def list_all_iff list_ex_iff same_row_def)
qed

text \<open>A row of the agent becomes active, after another was superseded or not.\<close>

lemma attach_evolves_then:
  assumes "rg_agents g1 = rg_agents g" "rg_panes g1 = rg_panes g" "rg_containers g1 = rg_containers g"
    and "\<And>r'. r' \<in> set (rg_attachments g1) \<Longrightarrow> \<exists>r \<in> set (rg_attachments g). same_row r r' \<and>
           (la_status r' = Att_active \<longrightarrow> la_status r = Att_active)"
    and "attach_evolves a g1 g2"
  shows "attach_evolves a g g2"
proof -
  have "la_agent_id r2 = ag_agent_id a \<and> la_pane_key r2 = agent_pane_key a \<or>
      (\<exists>r \<in> set (rg_attachments g). same_row r r2 \<and> (la_status r2 = Att_active \<longrightarrow> la_status r = Att_active \<or> la_agent_id r = ag_agent_id a))"
    if r2: "r2 \<in> set (rg_attachments g2)" for r2
  proof -
    from assms(5) r2 have "la_agent_id r2 = ag_agent_id a \<and> la_pane_key r2 = agent_pane_key a \<or>
        (\<exists>r1 \<in> set (rg_attachments g1). same_row r1 r2 \<and>
          (la_status r2 = Att_active \<longrightarrow> la_status r1 = Att_active \<or> la_agent_id r1 = ag_agent_id a))"
      by (simp add: attach_evolves_def list_all_iff list_ex_iff)
    then show ?thesis
    proof
      assume "\<exists>r1 \<in> set (rg_attachments g1). same_row r1 r2 \<and>
          (la_status r2 = Att_active \<longrightarrow> la_status r1 = Att_active \<or> la_agent_id r1 = ag_agent_id a)"
      then obtain r1 where r1: "r1 \<in> set (rg_attachments g1)" "same_row r1 r2"
        "la_status r2 = Att_active \<longrightarrow> la_status r1 = Att_active \<or> la_agent_id r1 = ag_agent_id a" by blast
      obtain r where "r \<in> set (rg_attachments g)" "same_row r r1" "la_status r1 = Att_active \<longrightarrow> la_status r = Att_active"
        using assms(4) [OF r1(1)] by blast
      with r1 show ?thesis by (intro disjI2 bexI [of _ r]) (auto simp: same_row_def)
    qed simp
  qed
  with assms show ?thesis by (simp add: attach_evolves_def list_all_iff list_ex_iff)
qed

lemma lo_reset_evolves [simp]: "attach_evolves a g (lo_reset i p n t u g') \<longleftrightarrow> attach_evolves a g g'"
  by (simp add: attach_evolves_def lo_reset_def lo_update_def)

lemma reactivate_evolves:
  assumes "la_update_status (la_attachment_id q) Att_active now None None g = Inr g'"
    and "\<And>r. r \<in> set (rg_attachments g) \<Longrightarrow> la_attachment_id r = la_attachment_id q \<Longrightarrow> la_agent_id r = ag_agent_id a"
  shows "attach_evolves a g g'"
proof -
  have "\<exists>r \<in> set (rg_attachments g). same_row r r' \<and> (la_status r' = Att_active \<longrightarrow> la_status r = Att_active \<or> la_agent_id r = ag_agent_id a)"
    if "r' \<in> set (rg_attachments g')" for r'
    using la_update_status_from [OF assms(1) that] assms(2) by metis
  then show ?thesis
    using la_update_status_evolves [OF assms(1)] by (auto simp: attach_evolves_def list_all_iff list_ex_iff)
qed

lemma attach_rest_evolves:
  assumes "attach_rest e x (select_for_agent_path (reg s) (ag_agent_id (aa_agent x)) p) target s = (Inr r, s')"
    and "attachments_ok (rg_attachments (reg s))"
  shows "attach_evolves (aa_agent x) (reg s) (reg s')"
proof -
  let ?a = "aa_agent x" and ?ex = "select_for_agent_path (reg s) (ag_agent_id (aa_agent x)) p"
  obtain prior new_id s1 where
    tables: "case target of None \<Rightarrow> reg s1 = reg s
     | Some t \<Rightarrow> la_update_status (la_attachment_id t) Att_superseded (se_now e) (Some (se_now e)) (Some new_id) (reg s) = Inr (reg s1)"
    and fin: "(case ?ex of Some q \<Rightarrow> la_status q \<in> {Att_stale, Att_detached} \<and> reactivate e x q prior s1 = (Inr r, s') | None \<Rightarrow> False) \<or>
     (case ?ex of Some q \<Rightarrow> la_status q \<notin> {Att_stale, Att_detached} | None \<Rightarrow> True) \<and>
     insert_attachment e x new_id target prior s1 = (Inr r, s')"
    by (rule attach_rest_steps [OF assms(1)])
  have first: "rg_agents (reg s1) = rg_agents (reg s)" "rg_panes (reg s1) = rg_panes (reg s)" "rg_containers (reg s1) = rg_containers (reg s)"
    "\<exists>r \<in> set (rg_attachments (reg s)). same_row r r' \<and> (la_status r' = Att_active \<longrightarrow> la_status r = Att_active)"
    if "r' \<in> set (rg_attachments (reg s1))" for r'
  proof -
    have "\<exists>r \<in> set (rg_attachments (reg s)). same_row r r' \<and> (la_status r' = Att_superseded \<or> la_status r' = la_status r)"
    proof (cases target)
      case None
      then show ?thesis using tables that by (auto simp: same_row_def)
    next
      case (Some t)
      with tables have "la_update_status (la_attachment_id t) Att_superseded (se_now e) (Some (se_now e)) (Some new_id) (reg s) = Inr (reg s1)"
        by simp
      then show ?thesis using la_update_status_from [OF _ that] by blast
    qed
    then show "\<exists>r \<in> set (rg_attachments (reg s)). same_row r r' \<and> (la_status r' = Att_active \<longrightarrow> la_status r = Att_active)"
      by force
  qed (use tables la_update_status_evolves in \<open>cases target; fastforce\<close>)+
  have "attach_evolves ?a (reg s1) (reg s')"
    using fin
  proof
    assume "case ?ex of Some q \<Rightarrow> la_status q \<in> {Att_stale, Att_detached} \<and> reactivate e x q prior s1 = (Inr r, s') | None \<Rightarrow> False"
    then obtain q where q: "?ex = Some q" "reactivate e x q prior s1 = (Inr r, s')" by (auto split: option.splits)
    note in_q = select_for_agent_path_SomeD [OF q(1)]
    have owner: "la_agent_id r1 = ag_agent_id ?a"
      if r1: "r1 \<in> set (rg_attachments (reg s1))" "la_attachment_id r1 = la_attachment_id q" for r1
    proof -
      obtain r0 where r0: "r0 \<in> set (rg_attachments (reg s))" "same_row r0 r1" using first(4) [OF r1(1)] by blast
      then have "r0 = q" using r1(2) in_q(1) assms(2) by (auto simp: attachments_ok_def same_row_def distinct_map inj_on_def)
      with r0 in_q(2) show ?thesis by (simp add: same_row_def)
    qed
    obtain g1 where g1: "la_update_status (la_attachment_id q) Att_active (se_now e) None None (reg s1) = Inr g1"
      "reg s' = g1 \<or> (\<exists>i n. reg s' = lo_reset (ag_agent_id (aa_agent x)) (aa_path x) i n (se_now e) g1)"
      using reactivate_tables [OF q(2)] by blast
    have "attach_evolves ?a (reg s1) g1" using g1(1) owner by (rule reactivate_evolves)
    with g1(2) show ?thesis by auto
  next
    assume "(case ?ex of Some q \<Rightarrow> la_status q \<notin> {Att_stale, Att_detached} | None \<Rightarrow> True) \<and>
      insert_attachment e x new_id target prior s1 = (Inr r, s')"
    then obtain n g1 where "la_agent_id n = ag_agent_id ?a" "la_pane_key n = agent_pane_key ?a"
      "la_insert n (reg s1) = Inr g1" "lo_insert_initial (ag_agent_id ?a) (aa_path x) (se_now e) g1 = Inr (reg s')"
      using insert_attachment_tables by blast
    then show ?thesis by (intro attach_evolves_insert)
  qed
  then show ?thesis by (rule attach_evolves_then [rotated -1]) (use first tables la_update_status_evolves in \<open>auto split: option.splits\<close>)
qed

lemma attach_log_locked_evolves:
  assumes "attach_log_locked e x s = (Inr r, s')" "attachments_ok (rg_attachments (reg s))"
  shows "attach_evolves (aa_agent x) (reg s) (reg s')"
proof -
  have "attach_pipeline e x s = (Inr r, s')" using assms(1) by (auto simp: attach_log_locked_def split: prod.splits sum.splits)
  then show ?thesis
    by (rule attach_pipeline_cases [OF _ refl refl refl]) (use assms(2) attach_evolves_refl attach_rest_evolves in auto)
qed

subsection \<open>A registration that returns\<close>

lemma register_attach_Inr:
  assumes "register_attach e x a s = (Inr att, s')"
  obtains (none) "att = None" "s' = s"
  | (attached) y s1 r where "att = Some r" "attach_log_locked (ge_log e) y s1 = (Inr r, s')" "aa_agent y = a" "reg s1 = reg s"
      "lw_audit (ss_log s1) = lw_audit (ss_log s)"
proof (cases "ra_attach_log x = JNull")
  case True
  with assms show thesis by (intro none) (simp_all add: register_attach_def)
next
  case False
  with assms obtain params c r where r: "att = Some r"
    and run: "attach_log_in_transaction (ge_log e) params a c ''register_self'' True s = (Inr r, s')"
    unfolding register_attach_def
    by (auto simp: svc_bind_Inr_iff split: json.splits if_splits sum.splits)
  from run obtain proof' s1 where t: "resolve_attach_target (ge_log e) params a c s = (Inr proof', s1)"
    and l: "attach_log_locked (ge_log e) \<lparr>aa_agent = a, aa_user = ci_bench_user c, aa_proof = proof', aa_source = ''register_self'',
              aa_defer_audit = True, aa_manage_transaction = False\<rparr> s1 = (Inr r, s')"
    by (auto simp: attach_log_in_transaction_def svc_bind_Inr_iff split: sum.splits if_splits)
  have "lw_audit (ss_log s1) = lw_audit (ss_log s)"
    using t by (auto simp: resolve_attach_target_def Let_def put_lifecycle_def
        split: option.splits json.splits sum.splits path_error.splits list.splits if_splits)
  then show thesis
    by (intro attached [OF r l]) (use resolve_attach_target_tables [OF t, of AssertionError] in simp_all)
qed

lemma register_agent_cases:
  obtains (failed) err s' where "register_agent e params s = (Inl err, s')" "reg s' = reg s"
  | (written) x w a att s1 r where "register_params e params = Inr x" "register_rows e x (reg s) = Inr w"
      "select_agent_by_id (rw_agents w) (rw_agent_id w) = Some a"
      "register_attach e x a (put_registry ((reg s)\<lparr>rg_agents := rw_agents w\<rparr>) s) = (Inr att, s1)"
      "register_agent e params s = (Inr r,
         (\<lambda>s2. case Option.bind att at_deferred_audit of None \<Rightarrow> s2 | Some c \<Rightarrow> append_deferred_audit e (rw_agent_id w) c s2)
         (case rw_role_change w of
            None \<Rightarrow> s1
          | Some (prior, role) \<Rightarrow> safe_append_audit e ''register_agent''
              \<lparr>rc_agent_id = rw_agent_id w, rc_prior_role = prior, rc_new_role = role,
               rc_confirm_provided = False, rc_socket_peer_uid = se_peer_uid (ge_log e)\<rparr> s1))"
proof (cases "register_params e params")
  case (Inl err)
  then show thesis by (intro failed) (simp_all add: register_agent_def)
next
  case (Inr x)
  obtain q s' where locked: "register_agent_locked e x s = (q, s')" by fastforce
  with Inr have run: "register_agent e params s = (q, s')" by (simp add: register_agent_def)
  show thesis
  proof (cases q)
    case (Inl err)
    show thesis by (rule failed [OF run [unfolded Inl] register_agent_locked_Inl [OF locked [unfolded Inl]]])
  next
    case q: (Inr r)
    from locked [unfolded q register_agent_locked_def] obtain w full att s1
      where tx: "register_tx e x s = (Inr (w, full, att), s1)"
        and fin: "s' = (\<lambda>s2. case Option.bind att at_deferred_audit of None \<Rightarrow> s2 | Some c \<Rightarrow> append_deferred_audit e (rw_agent_id w) c s2)
           (case rw_role_change w of
              None \<Rightarrow> s1
            | Some (prior, role) \<Rightarrow> safe_append_audit e ''register_agent''
                \<lparr>rc_agent_id = rw_agent_id w, rc_prior_role = prior, rc_new_role = role,
                 rc_confirm_provided = False, rc_socket_peer_uid = se_peer_uid (ge_log e)\<rparr> s1)"
      by (auto simp: Let_def split: option.splits prod.splits sum.splits)
    from tx obtain "register_rows e x (reg s) = Inr w" "select_agent_by_id (rw_agents w) (rw_agent_id w) = Some (fr_agent full)"
      "register_attach e x (fr_agent full) (put_registry ((reg s)\<lparr>rg_agents := rw_agents w\<rparr>) s) = (Inr att, s1)"
      by (auto simp: register_tx_def svc_bind_Inr_iff svc_sql_Inr select_agent_full_by_id_def row_to_full_record_def Let_def
          split: sum.splits option.splits)
    with Inr run q fin show thesis by (intro written) simp_all
  qed
qed

lemma register_agent_reg:
  assumes "register_agent e params s = (Inr r, s')" "attachments_ok (rg_attachments (reg s))"
  obtains x w a where "register_params e params = Inr x" "register_rows e x (reg s) = Inr w"
    "select_agent_by_id (rw_agents w) (rw_agent_id w) = Some a"
    "attach_evolves a ((reg s)\<lparr>rg_agents := rw_agents w\<rparr>) (reg s')"
proof (cases rule: register_agent_cases [of e params s])
  case (failed err s1)
  with assms show thesis by simp
next
  case (written x w a att s1 r1)
  let ?g = "(reg s)\<lparr>rg_agents := rw_agents w\<rparr>"
  have "attach_evolves a ?g (reg s1)"
    using written(4)
  proof (cases rule: register_attach_Inr)
    case none
    then show ?thesis using assms(2) by (simp add: attach_evolves_refl)
  next
    case (attached y s2 r2)
    then show ?thesis using attach_log_locked_evolves [OF attached(2)] assms(2) by simp
  qed
  moreover have "reg s' = reg s1"
    using assms(1) written(5) by (auto split: option.splits prod.splits)
  ultimately show thesis using that written(1-3) by simp
qed

subsection \<open>Masters\<close>

definition masters :: "registry \<Rightarrow> string set" where
  "masters g = ag_agent_id ` {a \<in> set (rg_agents g). ag_role a = ''master''}"

text \<open>The agent that a confirmed request names, if it is active in an active container.\<close>

definition promotable :: "json_object \<Rightarrow> registry \<Rightarrow> string set" where
  "promotable params g =
     {i. map_of params ''agent_id'' = Some (JStr i) \<and> map_of params ''role'' = Some (JStr ''master'') \<and>
         map_of params ''confirm'' = Some (JBool True) \<and>
         (\<exists>a \<in> set (rg_agents g). ag_agent_id a = i \<and> ag_active a \<and>
            (\<exists>c \<in> set (rg_containers g). cn_container_id c = ag_container_id a \<and> cn_active c))}"

lemma masters_update:
  assumes "\<And>a. ag_agent_id (f a) = ag_agent_id a"
    and "\<And>a. a \<in> set agents \<Longrightarrow> P a \<Longrightarrow> ag_role (f a) = ''master'' \<Longrightarrow> ag_agent_id a \<in> S"
  shows "masters (g\<lparr>rg_agents := update_where P f agents\<rparr>) \<subseteq> masters (g\<lparr>rg_agents := agents\<rparr>) \<union> S"
  using assms by (auto simp: masters_def set_update_where)

lemma register_rows_masters:
  assumes "register_rows e x g = Inr w" "args_ok x"
  shows "masters (g\<lparr>rg_agents := rw_agents w\<rparr>) \<subseteq> masters g"
  using assms
proof (cases rule: register_rows_cases)
  case (created a)
  then show ?thesis by (auto simp: masters_def)
next
  case (updated old role cap label path perms)
  have "masters (g\<lparr>rg_agents := rw_agents w\<rparr>) \<subseteq> masters (g\<lparr>rg_agents := rg_agents g\<rparr>) \<union> masters g"
    unfolding updated(3) update_agent_mutable_fields_def
  proof (rule masters_update)
    fix a assume "ag_agent_id a = ag_agent_id old" "ag_role (a\<lparr>ag_role := role, ag_capability := cap, ag_label := label,
        ag_project_path := path, ag_effective_permissions := perms, ag_last_registered_at := ge_now e, ag_active := True\<rparr>) = ''master''"
    then show "ag_agent_id a \<in> masters g" using updated(1,6) by (auto simp: masters_def)
  qed simp
  then show ?thesis by simp
qed

lemma set_role_rows_Some:
  assumes "set_role_rows g i role perms = Inr (fresh, Some rows)"
  shows "fresh \<in> set (rg_agents g)" "ag_agent_id fresh = i" "ag_active fresh" "ag_role fresh \<noteq> role"
    "rows = update_agent_role i role perms (rg_agents g)" "lookup_row ag_agent_id i (rg_agents g) = Some fresh"
    "role = ''master'' \<Longrightarrow> \<exists>c \<in> set (rg_containers g). cn_container_id c = ag_container_id fresh \<and> cn_active c"
proof -
  have l: "lookup_row ag_agent_id i (rg_agents g) = Some fresh" "ag_active fresh" "ag_role fresh \<noteq> role"
    "rows = update_agent_role i role perms (rg_agents g)"
    "role = ''master'' \<Longrightarrow> map_option cn_active (lookup_row cn_container_id (ag_container_id fresh) (rg_containers g)) = Some True"
    using assms by (auto simp: set_role_rows_def select_active_for_role_and_container_def select_agent_by_id_def
        split: option.splits if_splits)
  then show "fresh \<in> set (rg_agents g)" "ag_agent_id fresh = i" "ag_active fresh" "ag_role fresh \<noteq> role"
    "rows = update_agent_role i role perms (rg_agents g)" "lookup_row ag_agent_id i (rg_agents g) = Some fresh"
    using lookup_row_SomeD [OF l(1)] by auto
  assume "role = ''master''"
  then obtain c where c: "lookup_row cn_container_id (ag_container_id fresh) (rg_containers g) = Some c" "cn_active c"
    using l(5) by auto
  then show "\<exists>c \<in> set (rg_containers g). cn_container_id c = ag_container_id fresh \<and> cn_active c"
    using lookup_row_SomeD [OF c(1)] by blast
qed

lemma set_role_params_Inr:
  assumes "set_role_params e params = Inr (i, role, confirm)"
  shows "map_of params ''agent_id'' = Some (JStr i)" "map_of params ''role'' = Some (JStr role)" "role \<in> set valid_roles"
    "role \<noteq> ''swarm''" "role = ''master'' \<Longrightarrow> map_of params ''confirm'' = Some (JBool True)"
proof -
  have "agent_param (ge_log e) set_role_allowed_keys params = Inr i"
    and rest: "map_of params ''role'' = Some (JStr role) \<and> role \<in> set valid_roles \<and> role \<noteq> ''swarm'' \<and>
      (role = ''master'' \<longrightarrow> map_of params ''confirm'' = Some (JBool True))"
    using assms unfolding set_role_params_def sum_bind_Inr_iff
    by (auto simp: require_string_def validate_role_def member_of_Inr split: option.splits json.splits if_splits)
  then show "map_of params ''agent_id'' = Some (JStr i)"
    by (auto simp: agent_param_def sum_bind_Inr_iff require_string_def validate_agent_id_shape_def map_sum_Inr_iff
        split: option.splits json.splits if_splits)
  show "map_of params ''role'' = Some (JStr role)" "role \<in> set valid_roles" "role \<noteq> ''swarm''"
    "role = ''master'' \<Longrightarrow> map_of params ''confirm'' = Some (JBool True)"
    using rest by auto
qed

lemma set_field_masters:
  assumes "\<And>i v g. masters (g\<lparr>rg_agents := update i v (rg_agents g)\<rparr>) \<subseteq> masters g"
  shows "masters (reg (snd (set_field e allowed field check get update params s))) \<subseteq> masters (reg s)"
  by (cases rule: set_field_cases [of e allowed field check get update params s])
     (simp_all add: assms)

subsection \<open>Attaching touches no agent and no role\<close>

fun role_line :: "audit_line \<Rightarrow> bool" where
  "role_line (Agent_role_change c) = True"
| "role_line _ = False"

text \<open>The agents stay and no line on a role is appended.\<close>

definition frame :: "service_state \<Rightarrow> service_state \<Rightarrow> bool" where
  "frame s s' \<longleftrightarrow> rg_agents (reg s') = rg_agents (reg s) \<and>
     (\<exists>ls. lw_audit (ss_log s') = map_option (\<lambda>rows. rows @ ls) (lw_audit (ss_log s)) \<and> list_all (\<lambda>l. \<not> role_line l) ls)"

definition framed :: "'a svc \<Rightarrow> bool" where
  "framed m \<longleftrightarrow> (\<forall>s. frame s (snd (m s)))"

lemma frame_refl [simp]: "frame s s"
  by (auto simp: frame_def option.map_ident intro: exI [of _ "[]"])

lemma frame_trans: "frame s t \<Longrightarrow> frame t u \<Longrightarrow> frame s u"
  unfolding frame_def
proof (elim conjE exE, intro conjI)
  fix ls ks
  assume "lw_audit (ss_log t) = map_option (\<lambda>rows. rows @ ls) (lw_audit (ss_log s))" "list_all (\<lambda>l. \<not> role_line l) ls"
    "lw_audit (ss_log u) = map_option (\<lambda>rows. rows @ ks) (lw_audit (ss_log t))" "list_all (\<lambda>l. \<not> role_line l) ks"
  then show "\<exists>ls. lw_audit (ss_log u) = map_option (\<lambda>rows. rows @ ls) (lw_audit (ss_log s)) \<and> list_all (\<lambda>l. \<not> role_line l) ls"
    by (intro exI [of _ "ls @ ks"]) (simp add: option.map_comp comp_def)
qed simp

lemma frame_same: "rg_agents (reg s') = rg_agents (reg s) \<Longrightarrow> lw_audit (ss_log s') = lw_audit (ss_log s) \<Longrightarrow> frame s s'"
  by (auto simp: frame_def option.map_ident intro: exI [of _ "[]"])

lemma frame_put [simp]: "frame s (put_lifecycle l s)"
  "rg_agents g = rg_agents (reg s) \<Longrightarrow> frame s (put_registry g s)"
  by (auto intro!: frame_same simp: put_lifecycle_def put_registry_def)

lemma framedD: "framed m \<Longrightarrow> m s = (r, s') \<Longrightarrow> frame s s'"
  unfolding framed_def by (metis snd_conv)

lemma framed_bind [framed_intros]: "framed m \<Longrightarrow> (\<And>a. framed (k a)) \<Longrightarrow> framed (svc_bind m k)"
  unfolding framed_def svc_bind_def by (auto split: prod.splits sum.splits) (metis frame_trans snd_conv)+

lemma framed_audit [framed_intros]: "framed (svc_audit e c)"
  unfolding framed_def
proof
  fix s
  show "frame s (snd (svc_audit e c s))"
    by (cases "lw_audit (ss_log s)"; cases "se_audit_error e")
       (auto simp: svc_audit_def append_log_attachment_change_def append_audit_line_def frame_def intro: exI [of _ "[]"])
qed

lemma framed_sql: "(\<And>g g'. f g = Inr g' \<Longrightarrow> rg_agents g' = rg_agents g) \<Longrightarrow> framed (svc_sql f)"
  by (auto simp: framed_def svc_sql_def split: sum.splits)

lemma framed_statements [framed_intros]:
  "framed (svc_sql (la_update_status i st now x y))" "framed (svc_sql (la_insert r))"
  "framed (svc_sql (lo_insert_initial a p now))" "framed (svc_sql (\<lambda>g. Inr (lo_reset a p n z now g)))"
  by (rule framed_sql; auto simp: la_update_status_def la_insert_def lo_insert_initial_def lo_reset_def lo_update_def Let_def
      split: if_splits)+

lemma framed_simps [framed_intros]:
  "framed (svc_return a)" "framed (svc_raise c)" "framed svc_registry" "framed (svc_fail_if x)"
  "framed (svc_lifecycle f)" "framed (svc_docker e argv)" "framed (\<lambda>s. (Inl err, s))"
  by (auto simp: framed_def svc_return_def svc_raise_def svc_registry_def svc_fail_if_def svc_lifecycle_def
      svc_docker_def intro: frame_same split: option.splits)

lemma framed_split [framed_intros]:
  "framed a \<Longrightarrow> framed b \<Longrightarrow> framed (if c then a else b)"
  "framed n \<Longrightarrow> (\<And>y. framed (f y)) \<Longrightarrow> framed (case z of None \<Rightarrow> n | Some y \<Rightarrow> f y)"
  "(\<And>x y. framed (h x y)) \<Longrightarrow> framed (case p of (x, y) \<Rightarrow> h x y)"
  "(\<And>x. framed (l x)) \<Longrightarrow> (\<And>x. framed (m x)) \<Longrightarrow> framed (case q of Inl x \<Rightarrow> l x | Inr x \<Rightarrow> m x)"
  by (simp_all split: option.splits prod.splits sum.splits)

lemma framed_issue [framed_intros]: "framed (issue e argv)"
  unfolding issue_def by (intro framed_intros)

lemma framed_attach_pipeline [framed_intros]: "framed (attach_pipeline e x)"
  unfolding attach_pipeline_def attach_rest_def insert_attachment_def reactivate_def switch_pipe_def commit_def
    emit_or_defer_audit_def Let_def
  by (intro framed_intros)

lemma attach_log_locked_frame:
  assumes "attach_log_locked e x s = (Inr r, s')"
  shows "frame s s'"
proof -
  have "attach_pipeline e x s = (Inr r, s')" using assms by (auto simp: attach_log_locked_def split: prod.splits sum.splits)
  then show ?thesis by (rule framedD [OF framed_attach_pipeline])
qed

lemma attach_log_locked_agents: "attach_log_locked e x s = (Inr r, s') \<Longrightarrow> rg_agents (reg s') = rg_agents (reg s)"
  using attach_log_locked_frame by (auto simp: frame_def)

subsection \<open>Nobody else becomes master\<close>

lemma masters_set_label: "masters (g\<lparr>rg_agents := update_agent_label i v (rg_agents g)\<rparr>) \<subseteq> masters g"
  by (auto simp: update_agent_label_def masters_def set_update_where)

lemma masters_set_capability: "masters (g\<lparr>rg_agents := update_agent_capability i v (rg_agents g)\<rparr>) \<subseteq> masters g"
  by (auto simp: update_agent_capability_def masters_def set_update_where)

lemma masters_register:
  "masters (reg (snd (register_agent e params s))) \<subseteq> masters (reg s)"
proof (cases rule: register_agent_cases [of e params s])
  case (failed err s')
  then show ?thesis by simp
next
  case (written x w a att s1 r)
  have "rg_agents (reg s1) = rw_agents w"
    using written(4)
  proof (cases rule: register_attach_Inr)
    case (attached y s2 r2)
    then show ?thesis using attach_log_locked_agents [OF attached(2)] by simp
  qed simp
  then have "masters (reg s1) = masters ((reg s)\<lparr>rg_agents := rw_agents w\<rparr>)" by (simp add: masters_def)
  moreover have "reg (snd (register_agent e params s)) = reg s1" using written(5) by (auto split: option.splits prod.splits)
  ultimately show ?thesis using register_rows_masters [OF written(2) register_params_ok [OF written(1)]] by simp
qed

lemma masters_set_role:
  "masters (reg (snd (set_role e params s))) \<subseteq> masters (reg s) \<union> promotable params (reg s)"
proof (cases rule: set_role_cases [of e params s])
  case (changed i role confirm perms fresh r)
  note p = set_role_params_Inr [OF changed(1)] and f = set_role_rows_Some [OF changed(3)]
  have "masters ((reg s)\<lparr>rg_agents := update_agent_role i role perms (rg_agents (reg s))\<rparr>) \<subseteq>
      masters ((reg s)\<lparr>rg_agents := rg_agents (reg s)\<rparr>) \<union> promotable params (reg s)"
    unfolding update_agent_role_def
  proof (rule masters_update)
    fix a assume "ag_agent_id a = i" "ag_role (a\<lparr>ag_role := role, ag_effective_permissions := perms\<rparr>) = ''master''"
    then show "ag_agent_id a \<in> promotable params (reg s)" using p f unfolding promotable_def by auto
  qed simp
  then show ?thesis by (simp add: changed(4))
qed auto

text \<open>
  C8: nobody becomes master but by a confirmed change of role. Neither a registration, whatever it asks
  for and whether it creates an agent or brings one back, nor a change of label or capability adds a
  master; a change of role adds at most the agent it names, when the request asks for master with
  \<open>confirm\<close> true and the agent and its container are active.
\<close>

theorem master_only_by_confirmed_set_role:
  "masters (reg (snd (register_agent e params s))) \<subseteq> masters (reg s) \<and>
   masters (reg (snd (set_label e params s))) \<subseteq> masters (reg s) \<and>
   masters (reg (snd (set_capability e params s))) \<subseteq> masters (reg s) \<and>
   masters (reg (snd (set_role e params s))) \<subseteq> masters (reg s) \<union> promotable params (reg s)"
  using masters_register masters_set_role set_field_masters [OF masters_set_label] set_field_masters [OF masters_set_capability]
  unfolding set_label_def set_capability_def by (intro conjI)

subsection \<open>Roles that a swarm agent leaves\<close>

text \<open>
  C36: \<open>set_role\<close> takes an agent out of the role swarm and leaves its parent, and the parent is immutable.
  From then on its pane can only be registered as swarm again: any other registration of that pane is
  refused, also one that gives no role at all.
\<close>

theorem former_swarm_cannot_register:
  assumes "agents_ok (rg_agents (reg s))" "a \<in> set (rg_agents (reg s))" "ag_parent_agent_id a \<noteq> None" "ag_role a \<noteq> ''swarm''"
    and "register_params e params = Inr x" "ra_pane_key x = agent_pane_key a" "ra_role x \<noteq> Some ''swarm''"
  shows "\<exists>err. fst (register_agent e params s) = Inl err"
proof (cases rule: register_agent_cases [of e params s])
  case (failed err s')
  then show ?thesis by simp
next
  case (written x' w a' att s1 r)
  have x: "x' = x" using written(1) assms(5) by simp
  have "lookup_row agent_pane_key (ra_pane_key x) (rg_agents (reg s)) = Some a"
    unfolding assms(6) by (rule lookup_row_unique [OF agents_okD(2) [OF assms(1)] assms(2)])
  then have "reregister_agent e x a (rg_agents (reg s)) = Inr w"
    using written(2) by (auto simp: x register_rows_def select_agent_by_pane_key_def split: if_splits)
  then show ?thesis
    using assms(3,4,7) by (auto simp: reregister_agent_def Let_def given_def split: if_splits option.splits)
qed

subsection \<open>The audit lines replay to the roles\<close>

definition role_map :: "agent list \<Rightarrow> string \<Rightarrow> string option" where
  "role_map agents i = map_option ag_role (select_agent_by_id agents i)"

text \<open>The roles after some lines; \<open>None\<close> if a line gives a prior role that was not the role then.\<close>

fun role_history :: "(string \<Rightarrow> string option) \<Rightarrow> audit_line list \<Rightarrow> (string \<Rightarrow> string option) option" where
  "role_history m [] = Some m"
| "role_history m (Agent_role_change c # ls) =
     (if m (rc_agent_id c) = rc_prior_role c then role_history (m(rc_agent_id c \<mapsto> rc_new_role c)) ls else None)"
| "role_history m (_ # ls) = role_history m ls"

lemma role_history_append:
  "role_history m (xs @ ys) = Option.bind (role_history m xs) (\<lambda>n. role_history n ys)"
  by (induction m xs rule: role_history.induct) (auto simp: fun_upd_def)

lemma role_history_silent: "list_all (\<lambda>l. \<not> role_line l) ls \<Longrightarrow> role_history m ls = Some m"
  by (induction m ls rule: role_history.induct) auto

definition audited :: "service_state \<Rightarrow> service_state \<Rightarrow> bool" where
  "audited s s' \<longleftrightarrow>
     (case lw_audit (ss_log s) of
        None \<Rightarrow> True
      | Some rows \<Rightarrow> \<exists>ls. lw_audit (ss_log s') = Some (rows @ ls) \<and>
          role_history (role_map (rg_agents (reg s))) ls = Some (role_map (rg_agents (reg s'))))"

lemma frame_audited: "frame s s' \<Longrightarrow> audited s s'"
  by (auto simp: frame_def audited_def role_history_silent split: option.splits)

lemma audited_frame_trans: "audited s t \<Longrightarrow> frame t u \<Longrightarrow> audited s u"
  unfolding audited_def frame_def
  by (auto simp: role_history_append role_history_silent split: option.splits)

lemma append_deferred_audit_frame: "frame s (append_deferred_audit e i c s)"
proof -
  obtain r s1 where a: "svc_audit (ge_log e) c s = (r, s1)" by fastforce
  have f: "frame s s1" by (rule framedD [OF framed_audit a])
  show ?thesis using frame_trans [OF f frame_put(1)] f by (cases r) (simp_all add: append_deferred_audit_def a)
qed

text \<open>A write of the agents followed by the line on the role that it changed.\<close>

lemma safe_append_audit_audited:
  assumes "ge_role_audit_error e = None" "frame (put_registry g s) s1"
    and "role_map (rg_agents (reg s)) (rc_agent_id c) = rc_prior_role c"
    and "role_map (rg_agents g) = (role_map (rg_agents (reg s)))(rc_agent_id c \<mapsto> rc_new_role c)"
  shows "audited s (safe_append_audit e m c s1)"
proof (cases "lw_audit (ss_log s)")
  case (Some rows)
  from assms(2) obtain ls where g: "rg_agents (reg s1) = rg_agents g" and
      ls: "lw_audit (ss_log s1) = Some (rows @ ls)" "list_all (\<lambda>l. \<not> role_line l) ls"
    using Some by (auto simp: frame_def put_registry_def)
  then have "lw_audit (ss_log (safe_append_audit e m c s1)) = Some (rows @ ls @ [Agent_role_change c])"
    by (simp add: safe_append_audit_def append_audit_line_def assms(1))
  moreover have "role_history (role_map (rg_agents (reg s))) (ls @ [Agent_role_change c]) = Some (role_map (rg_agents g))"
    using role_history_silent [OF ls(2)] by (simp add: role_history_append assms(3,4))
  ultimately show ?thesis using Some g by (auto simp: audited_def)
qed (simp add: audited_def)

lemma unchanged_roles_audited:
  assumes "frame (put_registry g s) s1" "role_map (rg_agents g) = role_map (rg_agents (reg s))"
  shows "audited s s1"
proof (cases "lw_audit (ss_log s)")
  case (Some rows)
  with assms show ?thesis
    by (auto simp: audited_def frame_def put_registry_def role_history_silent)
qed (simp add: audited_def)

lemma role_map_update:
  assumes "\<And>a. ag_agent_id (f a) = ag_agent_id a" "\<And>a. ag_agent_id a = i \<Longrightarrow> ag_role (f a) = role"
    and "select_agent_by_id agents i \<noteq> None"
  shows "role_map (update_where (\<lambda>a. ag_agent_id a = i) f agents) = (role_map agents)(i \<mapsto> role)"
proof
  fix j
  show "role_map (update_where (\<lambda>a. ag_agent_id a = i) f agents) j = ((role_map agents)(i \<mapsto> role)) j"
  proof (cases "select_agent_by_id agents j")
    case None
    with assms(3) show ?thesis
      by (auto simp: role_map_def select_agent_by_id_def lookup_row_update_where [where key = ag_agent_id, OF assms(1)])
  next
    case (Some a)
    with assms(2) show ?thesis
      using lookup_row_SomeD [OF Some [unfolded select_agent_by_id_def]]
      by (auto simp: role_map_def select_agent_by_id_def lookup_row_update_where [where key = ag_agent_id, OF assms(1)])
  qed
qed

lemma role_map_keep:
  assumes "\<And>a. ag_agent_id (f a) = ag_agent_id a" "\<And>a. ag_role (f a) = ag_role a"
  shows "role_map (update_where P f agents) = role_map agents"
  by (auto simp: role_map_def select_agent_by_id_def lookup_row_update_where [where key = ag_agent_id, OF assms(1)] assms(2) option.map_comp comp_def
      if_distrib [of ag_role] intro!: ext option.map_cong)

lemma role_map_snoc:
  assumes "ag_agent_id a \<notin> set (map ag_agent_id agents)"
  shows "role_map (agents @ [a]) = (role_map agents)(ag_agent_id a \<mapsto> ag_role a)"
proof -
  have "lookup_row ag_agent_id (ag_agent_id a) agents = None" using assms by (simp add: lookup_row_None_iff)
  then show ?thesis by (auto simp: role_map_def select_agent_by_id_def lookup_row_append intro!: ext split: option.splits)
qed

lemma register_rows_roles:
  assumes "register_rows e x g = Inr w" "args_ok x" "agents_ok (rg_agents g)"
  shows "case rw_role_change w of
      None \<Rightarrow> role_map (rw_agents w) = role_map (rg_agents g)
    | Some (prior, role) \<Rightarrow> role_map (rg_agents g) (rw_agent_id w) = prior \<and>
        role_map (rw_agents w) = (role_map (rg_agents g))(rw_agent_id w \<mapsto> role)"
  using assms(1,2)
proof (cases rule: register_rows_cases)
  case (created a)
  then have "role_map (rg_agents g) (rw_agent_id w) = None"
    by (simp add: role_map_def select_agent_by_id_def lookup_row_None_iff)
  with created role_map_snoc [of a "rg_agents g"] show ?thesis by simp
next
  case (updated old role cap label path perms)
  have old: "select_agent_by_id (rg_agents g) (ag_agent_id old) = Some old"
    unfolding select_agent_by_id_def by (rule lookup_row_unique [OF agents_okD(1) [OF assms(3)] updated(1)])
  have "role_map (rw_agents w) = (role_map (rg_agents g))(ag_agent_id old \<mapsto> role)"
    unfolding updated(3) update_agent_mutable_fields_def by (rule role_map_update) (simp_all add: old)
  moreover have "role_map (rg_agents g) (ag_agent_id old) = Some (ag_role old)" by (simp add: role_map_def old)
  ultimately show ?thesis using updated(4,10) by (auto split: if_splits)
qed

lemma framed_attach_log_locked [framed_intros]:
  "framed (attach_log_locked e x)"
  unfolding framed_def
proof
  fix s
  obtain q s1 where p: "attach_pipeline e x s = (q, s1)" by fastforce
  have f: "frame s s1" by (rule framedD [OF framed_attach_pipeline p])
  then have "frame s1 (put_registry (reg s) s1)" by (intro frame_put(2)) (simp add: frame_def)
  with f show "frame s (snd (attach_log_locked e x s))"
    by (cases q) (auto simp: attach_log_locked_def p intro: frame_trans)
qed

lemma framed_resolve_attach_target [framed_intros]: "framed (resolve_attach_target e params a c)"
  unfolding framed_def
  by (auto simp: resolve_attach_target_def Let_def split: option.splits json.splits sum.splits path_error.splits list.splits if_splits)

lemma framed_register_attach [framed_intros]: "framed (register_attach e x a)"
proof -
  have "framed (attach_log_in_transaction le params a c src d)" for le params c src d
  proof (cases "agent_param le attach_allowed_keys params")
    case (Inl err)
    then show ?thesis by (simp add: framed_def attach_log_in_transaction_def)
  next
    case (Inr i)
    have "attach_log_in_transaction le params a c src d =
        (if i \<noteq> ag_agent_id a then (\<lambda>s. (Inl (RegistrationError ''bad_request''), s))
         else svc_bind (resolve_attach_target le params a c) (\<lambda>proof. attach_log_locked le
            \<lparr>aa_agent = a, aa_user = ci_bench_user c, aa_proof = proof, aa_source = src, aa_defer_audit = d, aa_manage_transaction = False\<rparr>))"
      by (rule ext) (simp add: attach_log_in_transaction_def Inr)
    then show ?thesis by (auto intro!: framed_intros)
  qed
  then show ?thesis
    unfolding register_attach_def by (cases "ra_attach_log x") (auto intro!: framed_intros)
qed

text \<open>The lines of a transaction that may fail: none on a role.\<close>

lemma register_tx_lines:
  assumes "register_tx e x s = (q, s1)"
  shows "\<exists>ls. lw_audit (ss_log s1) = map_option (\<lambda>rows. rows @ ls) (lw_audit (ss_log s)) \<and> list_all (\<lambda>l. \<not> role_line l) ls"
proof (cases "register_rows e x (reg s)")
  case (Inl err)
  with assms have "s1 = s" by (simp add: register_tx_def svc_bind_def svc_registry_def)
  then show ?thesis using frame_refl [of s] unfolding frame_def by blast
next
  case (Inr w)
  let ?s = "put_registry ((reg s)\<lparr>rg_agents := rw_agents w\<rparr>) s"
  let ?k = "case select_agent_full_by_id (reg ?s) (rw_agent_id w) of
               None \<Rightarrow> (\<lambda>s. (Inl AssertionError, s))
             | Some full \<Rightarrow>
                 svc_bind (register_attach e x (fr_agent full)) (\<lambda>att.
                 svc_bind (svc_fail_if (se_commit_error (ge_log e))) (\<lambda>_. svc_return (w, full, att)))"
  have run: "register_tx e x s = ?k ?s"
    by (simp add: register_tx_def svc_bind_def [of svc_registry] svc_bind_def [of "svc_sql _"] svc_registry_def svc_sql_def Inr)
  have "framed ?k" by (intro framed_intros)
  then have "frame ?s s1" by (rule framedD) (use assms run in simp)
  then show ?thesis by (simp add: frame_def put_registry_def)
qed

lemma register_agent_failed_frame:
  assumes "register_agent e params s = (Inl err, s')"
  shows "frame s s'"
proof (cases "register_params e params")
  case (Inl x)
  with assms show ?thesis by (simp add: register_agent_def)
next
  case (Inr x)
  with assms have l: "register_agent_locked e x s = (Inl err, s')" by (simp add: register_agent_def)
  obtain q s1 where tx: "register_tx e x s = (q, s1)" by fastforce
  show ?thesis
  proof (cases "se_begin_error (ge_log e)")
    case None
    with l tx have s': "s' = put_registry (reg s) s1"
      by (auto simp: register_agent_locked_def Let_def split: sum.splits prod.splits)
    have "\<exists>ls. lw_audit (ss_log s1) = map_option (\<lambda>rows. rows @ ls) (lw_audit (ss_log s)) \<and> list_all (\<lambda>l. \<not> role_line l) ls"
      by (rule register_tx_lines [OF tx])
    then show ?thesis by (auto simp: s' frame_def put_registry_def)
  qed (use l in \<open>simp add: register_agent_locked_def\<close>)
qed

lemma register_audited:
  assumes "agents_ok (rg_agents (reg s))" "ge_role_audit_error e = None"
  shows "audited s (snd (register_agent e params s))"
proof (cases rule: register_agent_cases [of e params s])
  case (failed err s')
  have "frame s s'" by (rule register_agent_failed_frame [OF failed(1)])
  then show ?thesis using failed by (simp add: frame_audited)
next
  case (written x w a att s1 r)
  let ?g = "(reg s)\<lparr>rg_agents := rw_agents w\<rparr>"
  let ?c = "\<lambda>prior role. \<lparr>rc_agent_id = rw_agent_id w, rc_prior_role = prior, rc_new_role = role,
              rc_confirm_provided = False, rc_socket_peer_uid = se_peer_uid (ge_log e)\<rparr>"
  let ?s2 = "case rw_role_change w of None \<Rightarrow> s1
      | Some (prior, role) \<Rightarrow> safe_append_audit e ''register_agent'' (?c prior role) s1"
  have f: "frame (put_registry ?g s) s1"
    using written(4)
  proof (cases rule: register_attach_Inr)
    case (attached y s2 r2)
    have "frame (put_registry ?g s) s2" by (rule frame_same) (simp_all add: attached)
    then show ?thesis by (rule frame_trans) (rule attach_log_locked_frame [OF attached(2)])
  qed simp
  note roles = register_rows_roles [OF written(2) register_params_ok [OF written(1)] assms(1)]
  have "audited s ?s2"
  proof (cases "rw_role_change w")
    case None
    with roles show ?thesis using unchanged_roles_audited [OF f] by simp
  next
    case (Some p)
    obtain prior role where p: "p = (prior, role)" by (cases p)
    show ?thesis using roles safe_append_audit_audited [OF assms(2) f, of "?c prior role"] by (simp add: Some p)
  qed
  then show ?thesis
    unfolding written(5) snd_conv
    by (cases "Option.bind att at_deferred_audit") (auto intro: audited_frame_trans append_deferred_audit_frame)
qed

lemma set_role_audited:
  assumes "ge_role_audit_error e = None"
  shows "audited s (snd (set_role e params s))"
proof (cases rule: set_role_cases [of e params s])
  case (changed i role confirm perms fresh r)
  note f = set_role_rows_Some [OF changed(3)]
  have "role_map (update_agent_role i role perms (rg_agents (reg s))) = (role_map (rg_agents (reg s)))(i \<mapsto> role)"
    unfolding update_agent_role_def by (rule role_map_update) (simp_all add: select_agent_by_id_def f(6))
  then show ?thesis
    unfolding changed(4) snd_conv
    by (intro safe_append_audit_audited [OF assms frame_refl]) (simp_all add: role_map_def select_agent_by_id_def f(6))
qed (simp_all add: frame_audited)

lemma set_field_audited:
  assumes "\<And>i v agents. role_map (update i v agents) = role_map agents"
  shows "audited s (snd (set_field e allowed field check get update params s))"
  by (cases rule: set_field_cases [of e allowed field check get update params s])
     (simp_all add: frame_audited unchanged_roles_audited [OF frame_refl] assms)

lemma set_label_audited: "audited s (snd (set_label e params s))"
  unfolding set_label_def by (rule set_field_audited) (simp add: update_agent_label_def role_map_keep)

lemma set_capability_audited: "audited s (snd (set_capability e params s))"
  unfolding set_capability_def by (rule set_field_audited) (simp add: update_agent_capability_def role_map_keep)

end
