(* ===== verification/Container_Scan.thy ===== *)
theory Container_Scan
  imports Docker_Adapter Reader_Recovery
begin

text \<open>
  The scan of containers: the rule for bench names (\<open>discovery/matching.py\<close>), the statements on the
  containers (\<open>state/containers.py\<close>), the reconciliation (\<open>discovery/reconcile.py\<close>) and the service
  that runs a scan (\<open>discovery/service.py\<close>). \<open>str.casefold\<close>, clock readings, fresh ids and failures of
  storage and of the audit file are choices of the environment; the mutex serializes scans. Message
  texts of scans and their lines in the daemon's log are left out.
\<close>

subsection \<open>State\<close>

record container_scan_row =
  cr_scan_id :: string
  cr_started_at :: timestamp
  cr_completed_at :: timestamp
  cr_status :: string
  cr_matched_count :: nat
  cr_inactive_reconciled_count :: nat
  cr_ignored_count :: nat
  cr_error_code :: "string option"
  cr_error_details :: "container_error list option"

record pane_scan_row =
  pr_scan_id :: string
  pr_started_at :: timestamp
  pr_completed_at :: timestamp
  pr_status :: string
  pr_containers_scanned :: nat
  pr_sockets_scanned :: nat
  pr_panes_seen :: nat
  pr_panes_newly_active :: nat
  pr_panes_reconciled_inactive :: nat
  pr_containers_skipped_inactive :: nat
  pr_containers_tmux_unavailable :: nat
  pr_error_code :: "string option"
  pr_error_details :: "scope_error list option"

record scan_world =
  sw_log :: log_world
  sw_container_scans :: "container_scan_row list"
  sw_pane_scans :: "pane_scan_row list"

definition sw_registry :: "scan_world \<Rightarrow> registry" where
  "sw_registry w = lw_registry (sw_log w)"

definition set_registry :: "registry \<Rightarrow> scan_world \<Rightarrow> scan_world" where
  "set_registry g w = w\<lparr>sw_log := (sw_log w)\<lparr>lw_registry := g\<rparr>\<rparr>"

definition append_scan_line :: "exc option \<Rightarrow> audit_line \<Rightarrow> scan_world \<Rightarrow> exc + scan_world" where
  "append_scan_line fails line w =
     (case append_audit_line fails line (lw_audit (sw_log w)) of
        Inl x \<Rightarrow> Inl x
      | Inr f \<Rightarrow> Inr (w\<lparr>sw_log := (sw_log w)\<lparr>lw_audit := f\<rparr>\<rparr>))"

subsection \<open>Matching\<close>

record matching_rule =
  mu_name_contains :: "string list"

definition default_rule :: matching_rule where
  "default_rule = \<lparr>mu_name_contains = [''bench'']\<rparr>"

definition rule_matches_name :: "(string \<Rightarrow> string) \<Rightarrow> matching_rule \<Rightarrow> string \<Rightarrow> bool" where
  "rule_matches_name casefold rule name \<longleftrightarrow>
     list_ex (\<lambda>needle. needle \<noteq> [] \<and> py_contains (casefold needle) (casefold name)) (mu_name_contains rule)"

subsection \<open>JSON columns\<close>

text \<open>\<open>json.dumps(\<dots>, separators=(",", ":"), ensure_ascii=False)\<close> for the shapes that are stored.\<close>

definition dump_hex :: "nat \<Rightarrow> char" where
  "dump_hex n = char_of (if n < 10 then 48 + n else 87 + n)"

definition dump_char :: "char \<Rightarrow> string" where
  "dump_char c =
     (let n = (of_char c :: nat) in
      if c = CHR 0x22 then [CHR 0x5C, CHR 0x22]
      else if c = CHR 0x5C then [CHR 0x5C, CHR 0x5C]
      else if n = 10 then [CHR 0x5C, CHR ''n'']
      else if n = 13 then [CHR 0x5C, CHR ''r'']
      else if n = 9 then [CHR 0x5C, CHR ''t'']
      else if n = 12 then [CHR 0x5C, CHR ''f'']
      else if n = 8 then [CHR 0x5C, CHR ''b'']
      else if n < 32 then [CHR 0x5C] @ ''u00'' @ [dump_hex (n div 16), dump_hex (n mod 16)]
      else [c])"

definition dump_str :: "string \<Rightarrow> string" where
  "dump_str s = [CHR 0x22] @ concat (map dump_char s) @ [CHR 0x22]"

definition dump_dict :: "(string \<times> string) list \<Rightarrow> string" where
  "dump_dict kvs = ''{'' @ py_join '','' (map (\<lambda>(k, v). dump_str k @ '':'' @ v) kvs) @ ''}''"

definition dump_list :: "string list \<Rightarrow> string" where
  "dump_list vs = ''['' @ py_join '','' vs @ '']''"

definition dump_option :: "string option \<Rightarrow> string" where
  "dump_option v = (case v of None \<Rightarrow> ''null'' | Some s \<Rightarrow> dump_str s)"

definition labels_json :: "(string \<times> string) list \<Rightarrow> string" where
  "labels_json labels = dump_dict (map (\<lambda>(k, v). (k, dump_str v)) labels)"

definition mount_json :: "mount \<Rightarrow> string" where
  "mount_json m = dump_dict [(''source'', dump_str (mt_source m)), (''target'', dump_str (mt_target m)),
     (''type'', dump_str (mt_type m)), (''mode'', dump_str (mt_mode m)), (''rw'', if mt_rw m then ''true'' else ''false'')]"

definition inspect_json :: "inspect_result \<Rightarrow> string" where
  "inspect_json r = dump_dict [(''config_user'', dump_option (ir_config_user r)),
     (''working_dir'', dump_option (ir_working_dir r)), (''env_keys'', dump_list (map dump_str (ir_env_keys r))),
     (''full_status'', dump_str (ir_status r))]"

subsection \<open>Reconciliation\<close>

record container_write_set =
  ws_upserts :: "container_row list"
  ws_touch_only :: "string list"
  ws_inactivate :: "string list"
  ws_matched_count :: nat
  ws_inactive_reconciled_count :: nat

text \<open>The row an inspected container gives; its times are those of the write.\<close>

definition inspect_to_upsert :: "inspect_result \<Rightarrow> string \<Rightarrow> container_row" where
  "inspect_to_upsert r summary_status =
     \<lparr>cn_container_id = ir_container_id r, cn_name = (if ir_name r = [] then ir_container_id r else ir_name r),
      cn_image = ir_image r, cn_status = (if ir_status r = [] then summary_status else ir_status r),
      cn_labels_json = labels_json (ir_labels r), cn_mounts_json = dump_list (map mount_json (ir_mounts r)),
      cn_inspect_json = inspect_json r, cn_config_user = ir_config_user r, cn_working_dir = ir_working_dir r,
      cn_active = True, cn_first_seen_at = [], cn_last_scanned_at = []\<rparr>"

text \<open>A dictionary comprehension over the summaries keeps the last status of an id.\<close>

definition summary_status :: "container_summary list \<Rightarrow> string \<Rightarrow> string" where
  "summary_status matching cid =
     (case map_of (rev (map (\<lambda>s. (cs_container_id s, cs_status s)) matching)) cid of None \<Rightarrow> [] | Some s \<Rightarrow> s)"

definition reconcile_containers ::
  "container_summary list \<Rightarrow> (string \<times> inspect_result) list \<Rightarrow> string list \<Rightarrow> string list \<Rightarrow> string list \<Rightarrow> container_write_set" where
  "reconcile_containers matching successes failed_ids prior_active prior_known =
     (let touch_only = filter (\<lambda>c. c \<in> set prior_known) failed_ids;
          inactivate = sort (filter (\<lambda>c. c \<notin> fst ` set successes \<and> c \<notin> set touch_only) (remdups prior_active))
      in \<lparr>ws_upserts = map (\<lambda>(cid, r). inspect_to_upsert r (summary_status matching cid)) successes,
          ws_touch_only = touch_only, ws_inactivate = inactivate, ws_matched_count = length matching,
          ws_inactive_reconciled_count = length inactivate\<rparr>)"

subsection \<open>Statements\<close>

definition select_active_container_ids :: "container_row list \<Rightarrow> string list" where
  "select_active_container_ids rows = map cn_container_id (filter cn_active rows)"

definition select_known_container_ids :: "container_row list \<Rightarrow> string list" where
  "select_known_container_ids rows = map cn_container_id rows"

definition upsert_container :: "timestamp \<Rightarrow> container_row \<Rightarrow> container_row list \<Rightarrow> container_row list" where
  "upsert_container now u rows =
     (if cn_container_id u \<in> cn_container_id ` set rows
      then update_where (\<lambda>r. cn_container_id r = cn_container_id u)
             (\<lambda>r. u\<lparr>cn_first_seen_at := cn_first_seen_at r, cn_last_scanned_at := now\<rparr>) rows
      else rows @ [u\<lparr>cn_first_seen_at := now, cn_last_scanned_at := now\<rparr>])"

definition mark_inactive :: "timestamp \<Rightarrow> string list \<Rightarrow> container_row list \<Rightarrow> container_row list" where
  "mark_inactive now ids rows =
     update_where (\<lambda>r. cn_active r \<and> cn_container_id r \<in> set ids) (\<lambda>r. r\<lparr>cn_active := False, cn_last_scanned_at := now\<rparr>) rows"

definition touch_last_scanned :: "timestamp \<Rightarrow> string list \<Rightarrow> container_row list \<Rightarrow> container_row list" where
  "touch_last_scanned now ids rows =
     update_where (\<lambda>r. cn_container_id r \<in> set ids) (\<lambda>r. r\<lparr>cn_last_scanned_at := now\<rparr>) rows"

definition apply_container_write_set :: "timestamp \<Rightarrow> container_write_set \<Rightarrow> container_row list \<Rightarrow> container_row list" where
  "apply_container_write_set now ws rows =
     mark_inactive now (ws_inactivate ws)
       (touch_last_scanned now (ws_touch_only ws) (fold (upsert_container now) (ws_upserts ws) rows))"

definition insert_container_scan :: "container_scan_row \<Rightarrow> scan_world \<Rightarrow> exc + scan_world" where
  "insert_container_scan r w =
     (if cr_scan_id r \<in> cr_scan_id ` set (sw_container_scans w) then Inl IntegrityError
      else Inr (w\<lparr>sw_container_scans := sw_container_scans w @ [r]\<rparr>))"

subsection \<open>The service\<close>

record container_scan_env =
  se_casefold :: "string \<Rightarrow> string"
  se_rule :: "matching_rule option"
  se_scan_id :: string
  se_started_at :: timestamp
  se_write_at :: timestamp
  se_completed_at :: timestamp
  se_tx_error :: "exc option"
  se_audit_error :: "exc option"

definition unique_in_order :: "string list \<Rightarrow> string list" where
  "unique_in_order xs = rev (remdups (rev xs))"

fun order_by_ids :: "string list \<Rightarrow> container_error list \<Rightarrow> container_error list \<Rightarrow> container_error list" where
  "order_by_ids [] failures ordered = ordered"
| "order_by_ids (i # ids) failures ordered =
     order_by_ids ids failures
       (case find (\<lambda>f. ce_container_id f = i \<and> f \<notin> set ordered) failures of None \<Rightarrow> ordered | Some f \<Rightarrow> ordered @ [f])"

definition ordered_error_details :: "container_error list \<Rightarrow> string list \<Rightarrow> container_error list" where
  "ordered_error_details failures ids =
     fold (\<lambda>f ordered. if f \<in> set ordered then ordered else ordered @ [f]) failures (order_by_ids ids failures [])"

text \<open>
  An \<open>OSError\<close> of the audit file becomes a \<open>PostCommitSideEffectError\<close>; a transaction that fails, in its
  \<open>BEGIN\<close> or later, changes nothing.
\<close>

definition emit_jsonl_degraded :: "container_scan_env \<Rightarrow> string option \<Rightarrow> container_error list \<Rightarrow> scan_world \<Rightarrow> (exc option) \<times> scan_world" where
  "emit_jsonl_degraded e code details w =
     (case append_scan_line (se_audit_error e) (Container_scan_degraded (se_scan_id e) code details) w of
        Inr w' \<Rightarrow> (None, w')
      | Inl (OSError _) \<Rightarrow> (Some PostCommitSideEffectError, w)
      | Inl x \<Rightarrow> (Some x, w))"

definition commit_scan_row :: "container_scan_env \<Rightarrow> container_scan_row \<Rightarrow> scan_world \<Rightarrow> exc + scan_world" where
  "commit_scan_row e r w = (case se_tx_error e of Some x \<Rightarrow> Inl x | None \<Rightarrow> insert_container_scan r w)"

definition record_whole_failure ::
  "container_scan_env \<Rightarrow> nat \<Rightarrow> nat \<Rightarrow> string \<Rightarrow> scan_world \<Rightarrow> (exc option) \<times> scan_world" where
  "record_whole_failure e matched ignored code w =
     (case commit_scan_row e
        \<lparr>cr_scan_id = se_scan_id e, cr_started_at = se_started_at e, cr_completed_at = se_completed_at e,
         cr_status = ''degraded'', cr_matched_count = matched, cr_inactive_reconciled_count = 0,
         cr_ignored_count = ignored, cr_error_code = Some code, cr_error_details = None\<rparr> w of
        Inl x \<Rightarrow> (Some x, w)
      | Inr w1 \<Rightarrow> emit_jsonl_degraded e (Some code) [] w1)"

text \<open>The scan fails with the error that was recorded, unless recording it raises.\<close>

definition fail_scan ::
  "container_scan_env \<Rightarrow> nat \<Rightarrow> nat \<Rightarrow> exc \<Rightarrow> scan_world \<Rightarrow> (exc + 'a) \<times> scan_world" where
  "fail_scan e matched ignored x w =
     (case x of
        DockerError code \<Rightarrow>
          (case record_whole_failure e matched ignored code w of
             (Some y, w') \<Rightarrow> (Inl y, w')
           | (None, w') \<Rightarrow> (Inl x, w'))
      | _ \<Rightarrow> (Inl x, w))"

definition build_write_set ::
  "registry \<Rightarrow> container_summary list \<Rightarrow> (string \<times> inspect_result) list \<Rightarrow> container_error list \<Rightarrow> container_write_set" where
  "build_write_set g matching successes failures =
     reconcile_containers matching successes
       (filter (\<lambda>i. i \<in> cs_container_id ` set matching) (map ce_container_id failures))
       (select_active_container_ids (rg_containers g)) (select_known_container_ids (rg_containers g))"

definition persist_reconciled_scan ::
  "container_scan_env \<Rightarrow> container_summary list \<Rightarrow> (string \<times> inspect_result) list \<Rightarrow> container_error list \<Rightarrow> nat \<Rightarrow> scan_world \<Rightarrow>
   (exc + container_scan_row) \<times> scan_world" where
  "persist_reconciled_scan e matching successes failures ignored w =
     (let g = sw_registry w; ws = build_write_set g matching successes failures;
          details = ordered_error_details failures (map cs_container_id matching);
          row = \<lparr>cr_scan_id = se_scan_id e, cr_started_at = se_started_at e, cr_completed_at = se_completed_at e,
            cr_status = (if details \<noteq> [] then ''degraded'' else ''ok''), cr_matched_count = ws_matched_count ws,
            cr_inactive_reconciled_count = ws_inactive_reconciled_count ws, cr_ignored_count = ignored,
            cr_error_code = (case details of [] \<Rightarrow> None | d # _ \<Rightarrow> Some (ce_code d)),
            cr_error_details = (if details = [] then None else Some details)\<rparr>
      in case commit_scan_row e row
             (set_registry (g\<lparr>rg_containers := apply_container_write_set (se_write_at e) ws (rg_containers g)\<rparr>) w) of
           Inl x \<Rightarrow> (Inl x, w)
         | Inr w1 \<Rightarrow>
             if details = [] then (Inr row, w1)
             else (case emit_jsonl_degraded e (cr_error_code row) details w1 of
                     (Some x, w2) \<Rightarrow> (Inl x, w2)
                   | (None, w2) \<Rightarrow> (Inr row, w2)))"

definition scan_containers ::
  "container_scan_env \<Rightarrow> (exc + container_summary list) \<Rightarrow> (string list \<Rightarrow> exc + inspect_answer) \<Rightarrow> scan_world \<Rightarrow>
   (exc + container_scan_row) \<times> scan_world" where
  "scan_containers e running inspect w =
     (case se_rule e of
        None \<Rightarrow> fail_scan e 0 0 (DockerError ''config_invalid'') w
      | Some rule \<Rightarrow>
          (case running of
             Inl x \<Rightarrow> fail_scan e 0 0 x w
           | Inr summaries \<Rightarrow>
               let matching = filter (\<lambda>s. rule_matches_name (se_casefold e) rule (cs_name s)) summaries;
                   ignored = length summaries - length matching;
                   unique_ids = unique_in_order (map cs_container_id matching) in
               if unique_ids = [] then persist_reconciled_scan e matching [] [] ignored w
               else (case inspect unique_ids of
                       Inl x \<Rightarrow> fail_scan e (length unique_ids) ignored x w
                     | Inr (successes, failures) \<Rightarrow> persist_reconciled_scan e matching successes failures ignored w)))"

subsection \<open>What a scan does to the containers\<close>

definition active_container_ids :: "scan_world \<Rightarrow> string set" where
  "active_container_ids w = set (select_active_container_ids (rg_containers (sw_registry w)))"

definition containers_ok :: "registry \<Rightarrow> bool" where
  "containers_ok g \<longleftrightarrow> distinct (map cn_container_id (rg_containers g))"

lemma sw_registry_simps [simp]:
  "sw_registry (set_registry g w) = g" "sw_registry (w\<lparr>sw_container_scans := cs\<rparr>) = sw_registry w"
  "sw_registry (w\<lparr>sw_pane_scans := ps\<rparr>) = sw_registry w"
  by (simp_all add: sw_registry_def set_registry_def)

lemma append_scan_line_registry: "append_scan_line x l w = Inr w' \<Longrightarrow> sw_registry w' = sw_registry w"
  by (auto simp: append_scan_line_def sw_registry_def split: sum.splits)

lemma emit_jsonl_registry: "emit_jsonl_degraded e c d w = (r, w') \<Longrightarrow> sw_registry w' = sw_registry w"
  by (auto simp: emit_jsonl_degraded_def dest: append_scan_line_registry split: sum.splits exc.splits)

lemma commit_scan_row_registry: "commit_scan_row e r w = Inr w' \<Longrightarrow> sw_registry w' = sw_registry w"
  by (auto simp: commit_scan_row_def insert_container_scan_def split: option.splits if_splits)

lemma record_whole_failure_registry: "record_whole_failure e m i c w = (r, w') \<Longrightarrow> sw_registry w' = sw_registry w"
  by (auto simp: record_whole_failure_def dest!: emit_jsonl_registry commit_scan_row_registry split: sum.splits)

lemma fail_scan_registry: "fail_scan e m i x w = (r, w') \<Longrightarrow> sw_registry w' = sw_registry w \<and> (\<exists>y. r = Inl y)"
  unfolding fail_scan_def
  by (cases x) (auto dest: record_whole_failure_registry split: prod.splits option.splits)

lemma lookup_upsert_container:
  "lookup_row cn_container_id c (upsert_container now u rows) =
     (if c = cn_container_id u
      then Some (u\<lparr>cn_first_seen_at := (case lookup_row cn_container_id c rows of None \<Rightarrow> now | Some r \<Rightarrow> cn_first_seen_at r),
                   cn_last_scanned_at := now\<rparr>)
      else lookup_row cn_container_id c rows)"
proof -
  have upd: "lookup_row cn_container_id c (update_where (\<lambda>r. cn_container_id r = cn_container_id u) f rows) =
      (if c = cn_container_id u then map_option f (lookup_row cn_container_id c rows) else lookup_row cn_container_id c rows)"
    if "\<And>r. cn_container_id (f r) = cn_container_id u" for f
    using that by (induction rows) (auto simp: lookup_row_def)
  show ?thesis
  proof (cases "cn_container_id u \<in> cn_container_id ` set rows")
    case True
    then obtain r where "lookup_row cn_container_id (cn_container_id u) rows = Some r"
      using lookup_row_None_iff [of cn_container_id "cn_container_id u" rows] by fastforce
    with True show ?thesis by (simp add: upsert_container_def upd)
  next
    case False
    then have "lookup_row cn_container_id (cn_container_id u) rows = None" by (simp add: lookup_row_None_iff)
    with False show ?thesis by (auto simp: upsert_container_def lookup_row_append split: option.splits)
  qed
qed

text \<open>Replacing the row of a key keeps the keys of a table.\<close>

lemma map_key_replace:
  assumes "\<And>r. key (f r) = k"
  shows "map key (update_where (\<lambda>r. key r = k) f rows) = map key rows"
    and "key ` set (update_where (\<lambda>r. key r = k) f rows) = key ` set rows"
proof -
  show m: "map key (update_where (\<lambda>r. key r = k) f rows) = map key rows" using assms by (induction rows) auto
  show "key ` set (update_where (\<lambda>r. key r = k) f rows) = key ` set rows" using arg_cong [OF m, of set] by simp
qed

lemma upsert_container_ids:
  "cn_container_id ` set (upsert_container now u rows) = insert (cn_container_id u) (cn_container_id ` set rows)"
  "distinct (map cn_container_id rows) \<Longrightarrow> distinct (map cn_container_id (upsert_container now u rows))"
  by (simp_all add: upsert_container_def map_key_replace [where key = cn_container_id and k = "cn_container_id u"] insert_absorb)

lemma lookup_fold_upsert:
  assumes "distinct (map cn_container_id us)"
  shows "lookup_row cn_container_id c (fold (upsert_container now) us rows) =
     (case find (\<lambda>u. cn_container_id u = c) us of
        None \<Rightarrow> lookup_row cn_container_id c rows
      | Some u \<Rightarrow> Some (u\<lparr>cn_first_seen_at := (case lookup_row cn_container_id c rows of None \<Rightarrow> now | Some r \<Rightarrow> cn_first_seen_at r),
                        cn_last_scanned_at := now\<rparr>))"
  using assms
proof (induction us arbitrary: rows)
  case (Cons u us)
  show ?case
  proof (cases "cn_container_id u = c")
    case True
    with Cons.prems have "c \<notin> cn_container_id ` set us" by simp
    then have "find (\<lambda>u. cn_container_id u = c) us = None" by (auto simp: find_None_iff)
    with Cons True show ?thesis by (simp add: lookup_upsert_container)
  next
    case False
    with Cons show ?thesis by (simp add: lookup_upsert_container split: option.splits)
  qed
qed simp

lemma distinct_fold_upsert:
  "distinct (map cn_container_id rows) \<Longrightarrow> distinct (map cn_container_id (fold (upsert_container now) us rows))"
  by (induction us arbitrary: rows) (auto simp: upsert_container_ids)

lemma lookup_touch:
  "lookup_row cn_container_id c (touch_last_scanned now ids rows) =
     map_option (\<lambda>r. if c \<in> set ids then r\<lparr>cn_last_scanned_at := now\<rparr> else r) (lookup_row cn_container_id c rows)"
  by (induction rows) (auto simp: touch_last_scanned_def lookup_row_def)

lemma lookup_mark_inactive:
  "lookup_row cn_container_id c (mark_inactive now ids rows) =
     map_option (\<lambda>r. if cn_active r \<and> c \<in> set ids then r\<lparr>cn_active := False, cn_last_scanned_at := now\<rparr> else r)
       (lookup_row cn_container_id c rows)"
  by (induction rows) (auto simp: mark_inactive_def lookup_row_def)

text \<open>The row of a container after a scan.\<close>

definition container_after ::
  "timestamp \<Rightarrow> container_summary list \<Rightarrow> (string \<times> inspect_result) list \<Rightarrow> string set \<Rightarrow> container_row option \<Rightarrow> string \<Rightarrow>
   container_row option" where
  "container_after now matching successes failed before c =
     (case map_of successes c of
        Some r \<Rightarrow> Some ((inspect_to_upsert r (summary_status matching c))
           \<lparr>cn_first_seen_at := (case before of None \<Rightarrow> now | Some b \<Rightarrow> cn_first_seen_at b), cn_last_scanned_at := now\<rparr>)
      | None \<Rightarrow> map_option (\<lambda>b. if c \<in> failed then b\<lparr>cn_last_scanned_at := now\<rparr>
                              else if cn_active b then b\<lparr>cn_active := False, cn_last_scanned_at := now\<rparr> else b) before)"

lemma upserts_of_successes:
  assumes "list_all (\<lambda>(k, r). ir_container_id r = k) successes"
  shows "map cn_container_id (map (\<lambda>(cid, r). inspect_to_upsert r (f cid)) successes) = map fst successes"
    and "find (\<lambda>u. cn_container_id u = c) (map (\<lambda>(cid, r). inspect_to_upsert r (f cid)) successes) =
         map_option (\<lambda>r. inspect_to_upsert r (f c)) (map_of successes c)"
  using assms by (induction successes) (auto simp: inspect_to_upsert_def)

lemma apply_container_write_set_lookup:
  fixes matching :: "container_summary list" and failures :: "container_error list"
  assumes "containers_ok g" "distinct (map fst successes)" "list_all (\<lambda>(k, r). ir_container_id r = k) successes"
  defines "failed \<equiv> cs_container_id ` set matching \<inter> ce_container_id ` set failures"
  shows "lookup_row cn_container_id c
           (apply_container_write_set now (build_write_set g matching successes failures) (rg_containers g)) =
         container_after now matching successes failed (lookup_row cn_container_id c (rg_containers g)) c"
proof -
  let ?ws = "build_write_set g matching successes failures"
  let ?rows = "fold (upsert_container now) (ws_upserts ?ws) (rg_containers g)"
  let ?before = "lookup_row cn_container_id c (rg_containers g)"
  have ws: "ws_upserts ?ws = map (\<lambda>(cid, r). inspect_to_upsert r (summary_status matching cid)) successes"
    and touch: "set (ws_touch_only ?ws) = {i \<in> failed. i \<in> set (select_known_container_ids (rg_containers g))}"
    and inact: "set (ws_inactivate ?ws) = {i \<in> set (select_active_container_ids (rg_containers g)).
        i \<notin> fst ` set successes \<and> \<not> (i \<in> failed \<and> i \<in> set (select_known_container_ids (rg_containers g)))}"
    by (auto simp: build_write_set_def reconcile_containers_def Let_def failed_def)
  have up: "lookup_row cn_container_id c ?rows =
      (case map_of successes c of None \<Rightarrow> ?before
       | Some r \<Rightarrow> container_after now matching successes failed ?before c)"
  proof -
    have ids: "map cn_container_id (ws_upserts ?ws) = map fst successes"
      using upserts_of_successes(1) [OF assms(3), where f = "summary_status matching"] by (simp add: ws)
    have "find (\<lambda>u. cn_container_id u = c) (ws_upserts ?ws) =
        map_option (\<lambda>r. inspect_to_upsert r (summary_status matching c)) (map_of successes c)"
      using upserts_of_successes(2) [OF assms(3), where f = "summary_status matching"] by (simp add: ws)
    then show ?thesis using lookup_fold_upsert [of "ws_upserts ?ws" c now "rg_containers g"] assms(2)
      unfolding ids by (simp add: container_after_def split: option.splits)
  qed
  have known: "c \<in> set (select_known_container_ids (rg_containers g))" if "?before = Some b" for b
    using lookup_row_SomeD [OF that] by (auto simp: select_known_container_ids_def)
  have active: "c \<in> set (select_active_container_ids (rg_containers g)) \<longleftrightarrow> cn_active b" if "?before = Some b" for b
  proof -
    have one: "r = b" if r: "r \<in> set (rg_containers g)" "cn_container_id r = c" for r
      using lookup_row_unique [OF assms(1) [unfolded containers_ok_def] r(1)] r(2) \<open>?before = Some b\<close> by simp
    have in_b: "b \<in> set (rg_containers g)" "cn_container_id b = c" using lookup_row_SomeD [OF \<open>?before = Some b\<close>] by auto
    have "c \<in> set (select_active_container_ids (rg_containers g)) \<longleftrightarrow>
        (\<exists>r \<in> set (rg_containers g). cn_active r \<and> cn_container_id r = c)"
      by (auto simp: select_active_container_ids_def)
    with one in_b show ?thesis by blast
  qed
  have look: "lookup_row cn_container_id c (apply_container_write_set now ?ws (rg_containers g)) =
      map_option (\<lambda>r. let r' = (if c \<in> set (ws_touch_only ?ws) then r\<lparr>cn_last_scanned_at := now\<rparr> else r) in
          if cn_active r' \<and> c \<in> set (ws_inactivate ?ws) then r'\<lparr>cn_active := False, cn_last_scanned_at := now\<rparr> else r')
        (lookup_row cn_container_id c ?rows)"
    by (cases "lookup_row cn_container_id c ?rows") (simp_all add: apply_container_write_set_def lookup_mark_inactive lookup_touch Let_def)
  show ?thesis
  proof (cases "map_of successes c")
    case None
    then have "c \<notin> fst ` set successes" by (simp add: map_of_eq_None_iff)
    with None look up known active show ?thesis
      by (cases ?before) (simp_all add: container_after_def touch inact Let_def)
  next
    case (Some r)
    then have "c \<in> fst ` set successes" by (metis domI dom_map_of_conv_image_fst)
    with Some look up show ?thesis
      by (simp add: container_after_def inact Let_def)
  qed
qed

lemma active_iff_lookup:
  assumes "containers_ok (sw_registry w)"
  shows "c \<in> active_container_ids w \<longleftrightarrow>
    (\<exists>r. lookup_row cn_container_id c (rg_containers (sw_registry w)) = Some r \<and> cn_active r)"
proof
  assume "c \<in> active_container_ids w"
  then obtain r where r: "r \<in> set (rg_containers (sw_registry w))" "cn_active r" "cn_container_id r = c"
    by (auto simp: active_container_ids_def select_active_container_ids_def)
  with lookup_row_unique [OF assms [unfolded containers_ok_def] r(1)]
  show "\<exists>r. lookup_row cn_container_id c (rg_containers (sw_registry w)) = Some r \<and> cn_active r" by auto
next
  assume "\<exists>r. lookup_row cn_container_id c (rg_containers (sw_registry w)) = Some r \<and> cn_active r"
  then show "c \<in> active_container_ids w"
    by (auto simp: active_container_ids_def select_active_container_ids_def dest!: lookup_row_SomeD)
qed

lemma apply_container_write_set_ok: "containers_ok g \<Longrightarrow> containers_ok (g\<lparr>rg_containers := apply_container_write_set now ws (rg_containers g)\<rparr>)"
  unfolding containers_ok_def apply_container_write_set_def mark_inactive_def touch_last_scanned_def
  by (simp add: map_key_update_where distinct_fold_upsert)

lemma set_fold_append_new:
  "set (fold (\<lambda>f ordered. if f \<in> set ordered then ordered else ordered @ [f]) fs xs) = set fs \<union> set xs"
  by (induction fs arbitrary: xs) auto

lemma set_order_by_ids: "set xs \<subseteq> set fs \<Longrightarrow> set (order_by_ids ids fs xs) \<subseteq> set fs"
proof (induction ids arbitrary: xs)
  case (Cons i ids)
  have "f \<in> set fs" if "find (\<lambda>f. ce_container_id f = i \<and> f \<notin> set xs) fs = Some f" for f
    using that by (auto simp: find_Some_iff)
  with Cons show ?case by (auto split: option.splits)
qed simp

lemma set_ordered_error_details: "set (ordered_error_details fs ids) = set fs"
  using set_order_by_ids [of "[]" fs ids] by (auto simp: ordered_error_details_def set_fold_append_new)

lemma persist_reconciled_scan_Inr:
  assumes "persist_reconciled_scan e matching s f ignored w = (Inr row, w')"
  shows "sw_registry w' = (sw_registry w)\<lparr>rg_containers :=
      apply_container_write_set (se_write_at e) (build_write_set (sw_registry w) matching s f) (rg_containers (sw_registry w))\<rparr>"
    and "cr_status row = ''ok'' \<longleftrightarrow> f = []"
proof -
  have "ordered_error_details f (map cs_container_id matching) = [] \<longleftrightarrow> f = []"
    using set_ordered_error_details [of f "map cs_container_id matching"] by (metis set_empty)
  with assms show "cr_status row = ''ok'' \<longleftrightarrow> f = []"
    by (auto simp: persist_reconciled_scan_def Let_def split: sum.splits if_splits prod.splits option.splits)
  from assms show "sw_registry w' = (sw_registry w)\<lparr>rg_containers :=
      apply_container_write_set (se_write_at e) (build_write_set (sw_registry w) matching s f) (rg_containers (sw_registry w))\<rparr>"
    by (auto simp: persist_reconciled_scan_def Let_def dest!: commit_scan_row_registry emit_jsonl_registry
        split: sum.splits if_splits prod.splits option.splits)
qed

lemma persist_reconciled_scan_Inl:
  "persist_reconciled_scan e matching s f ignored w = (Inl x, w') \<Longrightarrow> sw_registry w' = sw_registry w \<or> se_audit_error e \<noteq> None"
  by (auto simp: persist_reconciled_scan_def Let_def emit_jsonl_degraded_def append_scan_line_def append_audit_line_def
      split: sum.splits if_splits prod.splits option.splits exc.splits)

lemma failed_scan_keeps_registry:
  assumes "scan_containers e running inspect w = (Inl x, w')"
  shows "sw_registry w' = sw_registry w \<or> se_audit_error e \<noteq> None"
  using assms
  by (auto simp: scan_containers_def Let_def dest: fail_scan_registry persist_reconciled_scan_Inl
      split: option.splits sum.splits if_splits prod.splits)

text \<open>The containers after a scan that returned, given what the adapter answered.\<close>

lemma set_unique_in_order: "set (unique_in_order xs) = set xs"
  by (simp add: unique_in_order_def)

context docker_adapter
begin

lemma scan_answer:
  assumes "scan_containers e (running d) (inspect d) w = (Inr row, w')" "se_rule e = Some rule" "running d = Inr summaries"
  defines "bench \<equiv> filter (\<lambda>s. rule_matches_name (se_casefold e) rule (cs_name s)) summaries"
  obtains s f where "inspect d (unique_in_order (map cs_container_id bench)) = Inr (s, f)"
    "persist_reconciled_scan e bench s f (length summaries - length bench) w = (Inr row, w')"
proof (cases "unique_in_order (map cs_container_id bench) = []")
  case True
  then have "bench = []" using set_unique_in_order [of "map cs_container_id bench"] by simp
  with True assms(1-3) show ?thesis
    by (intro that [of "[]" "[]"]) (auto simp: scan_containers_def bench_def Let_def inspect_none)
next
  case False
  let ?ids = "unique_in_order (map cs_container_id bench)"
  have run: "scan_containers e (running d) (inspect d) w =
      (case inspect d ?ids of
         Inl x \<Rightarrow> fail_scan e (length ?ids) (length summaries - length bench) x w
       | Inr (s, f) \<Rightarrow> persist_reconciled_scan e bench s f (length summaries - length bench) w)"
    using False by (simp add: scan_containers_def assms(2,3) Let_def flip: bench_def)
  show ?thesis
  proof (cases "inspect d ?ids")
    case (Inl x)
    with run assms(1) have "fail_scan e (length ?ids) (length summaries - length bench) x w = (Inr row, w')" by simp
    then show ?thesis using fail_scan_registry by blast
  next
    case (Inr a)
    moreover obtain s f where "a = (s, f)" by (cases a)
    ultimately show ?thesis
      using run assms(1) by (intro that [of s f]) simp_all
  qed
qed

lemma scan_outcome:
  assumes "scan_containers e (running d) (inspect d) w = (Inr row, w')" "se_rule e = Some rule" "running d = Inr summaries"
    and "containers_ok (sw_registry w)"
  defines "bench \<equiv> filter (\<lambda>s. rule_matches_name (se_casefold e) rule (cs_name s)) summaries"
  shows "\<exists>s f. inspect d (unique_in_order (map cs_container_id bench)) = Inr (s, f) \<and>
     (\<forall>c. lookup_row cn_container_id c (rg_containers (sw_registry w')) =
        container_after (se_write_at e) bench s (cs_container_id ` set bench \<inter> ce_container_id ` set f)
          (lookup_row cn_container_id c (rg_containers (sw_registry w))) c) \<and>
     (cr_status row = ''ok'' \<longleftrightarrow> f = []) \<and> containers_ok (sw_registry w') \<and>
     rg_agents (sw_registry w') = rg_agents (sw_registry w) \<and> rg_panes (sw_registry w') = rg_panes (sw_registry w)"
proof -
  obtain s f where i: "inspect d (unique_in_order (map cs_container_id bench)) = Inr (s, f)"
    and p: "persist_reconciled_scan e bench s f (length summaries - length bench) w = (Inr row, w')"
    by (rule scan_answer [OF assms(1-3), folded bench_def])
  note r = persist_reconciled_scan_Inr [OF p]
  have k: "distinct (map fst s)" "list_all (\<lambda>(k, r). ir_container_id r = k) s"
    using keyed_by_id [OF i] by (auto simp: list_all_iff)
  have "containers_ok (sw_registry w')" unfolding r(1) by (rule apply_container_write_set_ok) (rule assms(4))
  moreover have "lookup_row cn_container_id c (rg_containers (sw_registry w')) =
        container_after (se_write_at e) bench s (cs_container_id ` set bench \<inter> ce_container_id ` set f)
          (lookup_row cn_container_id c (rg_containers (sw_registry w))) c" for c
    using apply_container_write_set_lookup [OF assms(4) k, of c "se_write_at e" bench f] by (simp add: r(1))
  moreover have "rg_agents (sw_registry w') = rg_agents (sw_registry w)" "rg_panes (sw_registry w') = rg_panes (sw_registry w)"
    by (simp_all add: r(1))
  ultimately show ?thesis using i r(2) by blast
qed

end

lemma container_after_active:
  "(\<exists>r. container_after now matching s failed before c = Some r \<and> cn_active r) \<longleftrightarrow>
     c \<in> fst ` set s \<or> c \<in> failed \<and> (\<exists>b. before = Some b \<and> cn_active b)"
proof (cases "map_of s c")
  case None
  then have "c \<notin> fst ` set s" by (simp add: map_of_eq_None_iff)
  with None show ?thesis by (cases before) (simp_all add: container_after_def)
next
  case (Some r)
  then have "c \<in> fst ` set s" by (metis domI dom_map_of_conv_image_fst)
  with Some show ?thesis by (simp add: container_after_def inspect_to_upsert_def)
qed

text \<open>
  C24: a scan that returns leaves active exactly the containers it inspected, and of the matching ones
  whose inspection failed those that were active before. So a bench container that still runs is never
  dropped, and when nothing failed all running bench containers are active. Agents and panes stay as
  they are.
\<close>

theorem container_scan_outcome:
  assumes "scan_containers e (list_running d) (inspect_containers d) w = (Inr row, w')"
    and "se_rule e = Some rule" "list_running d = Inr summaries" "containers_ok (sw_registry w)"
  defines "ids \<equiv> map cs_container_id (filter (\<lambda>s. rule_matches_name (se_casefold e) rule (cs_name s)) summaries)"
  defines "bench \<equiv> set ids"
  shows "\<exists>s f. inspect_containers d (unique_in_order ids) = Inr (s, f) \<and>
     active_container_ids w' = fst ` set s \<union> (bench \<inter> ce_container_id ` set f \<inter> active_container_ids w) \<and>
     bench \<subseteq> fst ` set s \<union> ce_container_id ` set f \<and>
     bench \<inter> active_container_ids w \<subseteq> active_container_ids w' \<and>
     (cr_status row = ''ok'' \<longrightarrow> bench \<subseteq> active_container_ids w') \<and>
     rg_agents (sw_registry w') = rg_agents (sw_registry w) \<and> rg_panes (sw_registry w') = rg_panes (sw_registry w)"
proof -
  let ?b = "filter (\<lambda>s. rule_matches_name (se_casefold e) rule (cs_name s)) summaries"
  have bench: "cs_container_id ` set ?b = bench" by (auto simp: bench_def ids_def)
  obtain s f where a: "inspect_containers d (unique_in_order ids) = Inr (s, f)"
    and rows: "\<forall>c. lookup_row cn_container_id c (rg_containers (sw_registry w')) =
        container_after (se_write_at e) ?b s (cs_container_id ` set ?b \<inter> ce_container_id ` set f)
          (lookup_row cn_container_id c (rg_containers (sw_registry w))) c"
    and st: "cr_status row = ''ok'' \<longleftrightarrow> f = []" and ok: "containers_ok (sw_registry w')"
    and rest: "rg_agents (sw_registry w') = rg_agents (sw_registry w)" "rg_panes (sw_registry w') = rg_panes (sw_registry w)"
    using subprocess_docker.scan_outcome [OF assms(1-4), folded ids_def] by (elim exE conjE) (rule that; assumption)
  have act: "c \<in> active_container_ids w' \<longleftrightarrow> c \<in> fst ` set s \<or> c \<in> bench \<inter> ce_container_id ` set f \<and> c \<in> active_container_ids w" for c
    unfolding active_iff_lookup [OF ok] active_iff_lookup [OF assms(4)] rows [rule_format, of c] bench
    by (rule container_after_active)
  have cover: "bench \<subseteq> fst ` set s \<union> ce_container_id ` set f"
    using subprocess_docker.accounts_for [OF a] by (auto simp: bench_def set_unique_in_order)
  show ?thesis
    by (intro exI [of _ s] exI [of _ f] conjI) (use a act cover st rest in auto)
qed

text \<open>
  A scan with two bench containers, one of them unknown before and one whose inspection is malformed, while
  a third one has stopped.
\<close>

definition sample_container :: "string \<Rightarrow> bool \<Rightarrow> container_row" where
  "sample_container c active =
     \<lparr>cn_container_id = c, cn_name = ''bench-'' @ c, cn_image = ''img'', cn_status = ''running'', cn_labels_json = ''{}'',
      cn_mounts_json = ''[]'', cn_inspect_json = ''{}'', cn_config_user = None, cn_working_dir = None, cn_active = active,
      cn_first_seen_at = ''t0'', cn_last_scanned_at = ''t0''\<rparr>"

definition sample_scan_world :: scan_world where
  "sample_scan_world =
     \<lparr>sw_log = \<lparr>lw_registry = \<lparr>rg_agents = [], rg_containers = [sample_container ''b'' True, sample_container ''z'' True],
         rg_panes = [], rg_attachments = [], rg_offsets = []\<rparr>,
        lw_lifecycle = \<lparr>lf_suppression = no_suppression, lf_log = []\<rparr>, lw_audit = Some []\<rparr>,
      sw_container_scans = [], sw_pane_scans = []\<rparr>"

definition sample_docker :: docker_env where
  "sample_docker =
     \<lparr>dx_docker = Some ''docker'',
      dx_run = (\<lambda>args. Completed 0 (stream_bytes (cps (
        if ''ps'' \<in> set args
        then ''a'' @ [CHR 0x09] @ ''/bench-a'' @ [CHR 0x09] @ ''img'' @ [CHR 0x09] @ ''Up'' @ [CHR 0x0A] @
             ''b'' @ [CHR 0x09] @ ''bench-b,alias'' @ [CHR 0x09] @ ''img'' @ [CHR 0x09] @ ''Up'' @ [CHR 0x0A]
        else ''inspected''))) []),
      dx_loads = (\<lambda>_. Some (JList [JObj [(''Id'', JStr ''a''), (''Name'', JStr ''/bench-a''), (''Config'', JObj [])],
                               JObj [(''Id'', JStr ''b''), (''Mounts'', JStr [])]])),
      dx_repr = (\<lambda>_. [])\<rparr>"

definition sample_scan_env :: container_scan_env where
  "sample_scan_env =
     \<lparr>se_casefold = py_lower, se_rule = Some default_rule, se_scan_id = ''s1'', se_started_at = ''t1'', se_write_at = ''t2'',
      se_completed_at = ''t3'', se_tx_error = None, se_audit_error = None\<rparr>"

definition sample_scan :: "(exc + container_scan_row) \<times> scan_world" where
  "sample_scan = scan_containers sample_scan_env (list_running sample_docker) (inspect_containers sample_docker) sample_scan_world"

theorem container_scan_outcome_witness:
  "containers_ok (sw_registry sample_scan_world) \<and> ''b'' \<in> active_container_ids sample_scan_world \<and>
   ''b'' \<in> active_container_ids (snd sample_scan)"
proof -
  have "case fst sample_scan of Inr _ \<Rightarrow> True | Inl _ \<Rightarrow> False" by code_simp
  then obtain row where run: "scan_containers sample_scan_env (list_running sample_docker) (inspect_containers sample_docker)
      sample_scan_world = (Inr row, snd sample_scan)"
    by (cases sample_scan; cases "fst sample_scan") (simp_all add: sample_scan_def)
  have rule: "se_rule sample_scan_env = Some default_rule" by (simp add: sample_scan_env_def)
  have "list_running sample_docker = Inr (projr (list_running sample_docker)) \<and>
      list_ex (\<lambda>s. cs_container_id s = ''b'' \<and> rule_matches_name (se_casefold sample_scan_env) default_rule (cs_name s))
        (projr (list_running sample_docker))"
    by code_simp
  then have ps: "list_running sample_docker = Inr (projr (list_running sample_docker))"
    and b: "\<exists>s \<in> set (projr (list_running sample_docker)).
        cs_container_id s = ''b'' \<and> rule_matches_name (se_casefold sample_scan_env) default_rule (cs_name s)"
    by (simp_all only: list_ex_iff)
  have ok: "containers_ok (sw_registry sample_scan_world)" by code_simp
  have act: "''b'' \<in> active_container_ids sample_scan_world" unfolding active_container_ids_def by code_simp
  have "''b'' \<in> set (map cs_container_id (filter (\<lambda>s. rule_matches_name (se_casefold sample_scan_env) default_rule (cs_name s))
      (projr (list_running sample_docker))))"
    using b by (auto intro: rev_image_eqI)
  with act container_scan_outcome [OF run rule ps ok] have "''b'' \<in> active_container_ids (snd sample_scan)"
    by (elim exE conjE) (rule subsetD [OF _ IntI])
  with act ok show ?thesis by simp
qed

end
