(* ===== verification/Pane_Scan.thy ===== *)
theory Pane_Scan
  imports Container_Scan Log_Paths
begin

text \<open>
  The scan of panes: the reconciliation of what tmux lists with the stored panes
  (\<open>discovery/pane_reconcile.py\<close>), the statements on panes and bound agents (\<open>state/panes.py\<close>,
  \<open>state/agents.py\<close>) and the service that runs a scan in one transaction with its cascades to agents and
  log attachments (\<open>discovery/pane_service.py\<close>). Python sets are lists in the order in which they are
  filled; where the code iterates over one, the order does not reach the tables.
\<close>

subsection \<open>Reconciliation\<close>

datatype socket_scan = OkSocketScan "parsed_pane list" | FailedSocketScan string

record container_meta =
  cm_container_name :: string
  cm_container_user :: string

type_synonym socket_results = "((string \<times> string) \<times> socket_scan) list"

abbreviation key_container :: "pane_key \<Rightarrow> string" where
  "key_container k \<equiv> fst k"

abbreviation key_socket :: "pane_key \<Rightarrow> string" where
  "key_socket k \<equiv> fst (snd k)"

definition clean_field ::
  "string \<Rightarrow> string \<Rightarrow> parsed_pane \<Rightarrow> string \<times> string \<times> nat \<Rightarrow> string \<times> truncation_note list" where
  "clean_field container_id socket_path parsed spec =
     (case spec of (field, v, max_length) \<Rightarrow>
        case sanitize_text (Some v) max_length of (cleaned, truncated) \<Rightarrow>
          (cleaned, if truncated then [\<lparr>tn_container_id = container_id, tn_tmux_socket_path = socket_path,
             tn_tmux_pane_id = pp_pane_id parsed, tn_field = field, tn_original_len = py_len (clean_chars v)\<rparr>] else []))"

definition build_upsert ::
  "string \<Rightarrow> string \<Rightarrow> container_meta \<Rightarrow> parsed_pane \<Rightarrow> timestamp \<Rightarrow> pane_row \<times> truncation_note list" where
  "build_upsert container_id socket_path meta parsed now =
     (let clean = clean_field container_id socket_path parsed;
          session = clean (''tmux_session_name'', pp_session_name parsed, max_default);
          pane = clean (''tmux_pane_id'', pp_pane_id parsed, max_default);
          name = clean (''container_name'', cm_container_name meta, max_default);
          user = clean (''container_user'', cm_container_user meta, max_default);
          tty = clean (''pane_tty'', pp_pane_tty parsed, max_default);
          command = clean (''pane_current_command'', pp_current_command parsed, max_command);
          path = clean (''pane_current_path'', pp_current_path parsed, max_path);
          title = clean (''pane_title'', pp_pane_title parsed, max_title)
      in (\<lparr>pn_key = (container_id, socket_path, fst session, pp_window_index parsed, pp_pane_index parsed, fst pane),
           pn_container_name = fst name, pn_container_user = fst user, pn_pane_pid = pp_pane_pid parsed,
           pn_pane_tty = fst tty, pn_pane_current_command = fst command, pn_pane_current_path = fst path,
           pn_pane_title = fst title, pn_pane_active = pp_pane_active parsed, pn_active = True,
           pn_first_seen_at = now, pn_last_scanned_at = now\<rparr>,
          snd session @ snd pane @ snd name @ snd user @ snd tty @ snd command @ snd path @ snd title))"

record pane_write_set =
  pw_upserts :: "pane_row list"
  pw_touch_only :: "pane_key list"
  pw_inactivate :: "pane_key list"
  pw_truncations :: "truncation_note list"
  pw_panes_newly_active :: nat
  pw_containers_skipped_inactive :: nat
  pw_containers_tmux_unavailable :: nat

definition meta_of :: "(string \<times> container_meta) list \<Rightarrow> string \<Rightarrow> container_meta" where
  "meta_of metadata c = (case map_of metadata c of Some m \<Rightarrow> m | None \<Rightarrow> \<lparr>cm_container_name = [], cm_container_user = []\<rparr>)"

definition upserts_of_socket ::
  "(string \<times> container_meta) list \<Rightarrow> timestamp \<Rightarrow> (string \<times> string) \<times> socket_scan \<Rightarrow> (pane_row \<times> truncation_note list) list" where
  "upserts_of_socket metadata now r =
     (case r of
        ((c, s), OkSocketScan panes) \<Rightarrow> map (\<lambda>p. build_upsert c s (meta_of metadata c) p now) panes
      | ((c, s), FailedSocketScan _) \<Rightarrow> [])"

text \<open>Step 1: the active panes of a listed socket that are not in its list.\<close>

definition vanished_of_socket ::
  "pane_row list \<Rightarrow> (string \<times> container_meta) list \<Rightarrow> timestamp \<Rightarrow> (string \<times> string) \<times> socket_scan \<Rightarrow> pane_key list" where
  "vanished_of_socket prior metadata now r =
     (case r of
        ((c, s), OkSocketScan panes) \<Rightarrow>
          filter (\<lambda>k. k \<notin> pn_key ` fst ` set (upserts_of_socket metadata now r))
            (map pn_key (filter (\<lambda>p. key_container (pn_key p) = c \<and> key_socket (pn_key p) = s \<and> pn_active p) prior))
      | ((c, s), FailedSocketScan _) \<Rightarrow> [])"

text \<open>Step 2: the panes of a socket whose listing failed.\<close>

definition touched_of_socket :: "pane_row list \<Rightarrow> string list \<Rightarrow> string list \<Rightarrow> (string \<times> string) \<times> socket_scan \<Rightarrow> pane_key list" where
  "touched_of_socket prior unavailable cascade r =
     (case r of
        ((c, s), OkSocketScan _) \<Rightarrow> []
      | ((c, s), FailedSocketScan _) \<Rightarrow>
          if c \<in> set unavailable \<or> c \<in> set cascade then []
          else map pn_key (filter (\<lambda>p. key_container (pn_key p) = c \<and> key_socket (pn_key p) = s) prior))"

definition panes_of :: "pane_row list \<Rightarrow> string \<Rightarrow> pane_row list" where
  "panes_of prior c = filter (\<lambda>p. key_container (pn_key p) = c) prior"

text \<open>Step 5: the panes of a reachable container on sockets that are no longer listed.\<close>

definition unlisted_panes :: "pane_row list \<Rightarrow> socket_results \<Rightarrow> string list \<Rightarrow> string list \<Rightarrow> pane_row list" where
  "unlisted_panes prior results unavailable cascade =
     concat (map (\<lambda>c. filter (\<lambda>p. (c, key_socket (pn_key p)) \<notin> fst ` set results) (panes_of prior c))
       (filter (\<lambda>c. c \<notin> set unavailable \<and> c \<notin> set cascade) (remdups (map (fst \<circ> fst) results))))"

definition reconcile_panes ::
  "pane_row list \<Rightarrow> socket_results \<Rightarrow> string list \<Rightarrow> string list \<Rightarrow> (string \<times> container_meta) list \<Rightarrow> timestamp \<Rightarrow> pane_write_set" where
  "reconcile_panes prior results unavailable cascade metadata now =
     (let built = concat (map (upserts_of_socket metadata now) results); upserts = map fst built;
          cascaded = concat (map (panes_of prior) cascade);
          unlisted = unlisted_panes prior results unavailable cascade
      in \<lparr>pw_upserts = upserts,
          pw_touch_only = concat (map (touched_of_socket prior unavailable cascade) results) @
            map pn_key (concat (map (panes_of prior) (filter (\<lambda>c. c \<notin> set cascade) unavailable))) @
            map pn_key (filter (\<lambda>p. \<not> pn_active p) cascaded) @ map pn_key (filter (\<lambda>p. \<not> pn_active p) unlisted),
          pw_inactivate = concat (map (vanished_of_socket prior metadata now) results) @
            map pn_key (filter pn_active cascaded) @ map pn_key (filter pn_active unlisted),
          pw_truncations = concat (map snd built),
          pw_panes_newly_active =
            length (filter (\<lambda>u. case lookup_row pn_key (pn_key u) prior of None \<Rightarrow> True | Some p \<Rightarrow> \<not> pn_active p) upserts),
          pw_containers_skipped_inactive = length (filter (\<lambda>c. panes_of prior c \<noteq> []) cascade),
          pw_containers_tmux_unavailable = length (filter (\<lambda>c. c \<notin> set cascade) unavailable)\<rparr>)"

subsection \<open>Statements\<close>

definition upsert_pane :: "pane_row \<Rightarrow> pane_row list \<Rightarrow> pane_row list" where
  "upsert_pane u rows =
     (if pn_key u \<in> pn_key ` set rows
      then update_where (\<lambda>r. pn_key r = pn_key u) (\<lambda>r. u\<lparr>pn_first_seen_at := pn_first_seen_at r\<rparr>) rows
      else rows @ [u])"

definition apply_pane_reconcile_writeset :: "timestamp \<Rightarrow> pane_write_set \<Rightarrow> pane_row list \<Rightarrow> pane_row list" where
  "apply_pane_reconcile_writeset now ws rows =
     update_where (\<lambda>r. pn_key r \<in> set (pw_inactivate ws)) (\<lambda>r. r\<lparr>pn_active := False, pn_last_scanned_at := now\<rparr>)
       (update_where (\<lambda>r. pn_key r \<in> set (pw_touch_only ws)) (\<lambda>r. r\<lparr>pn_last_scanned_at := now\<rparr>)
         (fold upsert_pane (pw_upserts ws) rows))"

definition update_last_seen_at :: "pane_key list \<Rightarrow> timestamp \<Rightarrow> agent list \<Rightarrow> agent list" where
  "update_last_seen_at keys now agents =
     update_where (\<lambda>a. agent_pane_key a \<in> set keys) (\<lambda>a. a\<lparr>ag_last_seen_at := Some now\<rparr>) agents"

definition cascade_agents_active_from_pane :: "pane_key list \<Rightarrow> agent list \<Rightarrow> agent list" where
  "cascade_agents_active_from_pane keys agents =
     update_where (\<lambda>a. agent_pane_key a \<in> set keys) (\<lambda>a. a\<lparr>ag_active := False\<rparr>) agents"

definition insert_pane_scan :: "pane_scan_row \<Rightarrow> scan_world \<Rightarrow> exc + scan_world" where
  "insert_pane_scan r w =
     (if pr_scan_id r \<in> pr_scan_id ` set (sw_pane_scans w) then Inl IntegrityError
      else Inr (w\<lparr>sw_pane_scans := sw_pane_scans w @ [r]\<rparr>))"

definition select_active_containers_with_user :: "container_row list \<Rightarrow> (string \<times> string \<times> string option) list" where
  "select_active_containers_with_user rows =
     map (\<lambda>r. (cn_container_id r, cn_name r, cn_config_user r)) (sort_key cn_container_id (filter cn_active rows))"

definition select_inactive_container_ids_with_panes :: "registry \<Rightarrow> string list" where
  "select_inactive_container_ids_with_panes g =
     remdups (filter (\<lambda>c. panes_of (rg_panes g) c \<noteq> []) (map cn_container_id (filter (\<lambda>r. \<not> cn_active r) (rg_containers g))))"

subsection \<open>One container\<close>

record pane_scan_env =
  pa_tmux :: tmux_env
  pa_env_user :: "string option"
  pa_pw_name :: "string option"
  pa_scan_id :: string
  pa_started_at :: timestamp
  pa_completed_at :: timestamp
  pa_started_error :: "exc option"
  pa_completed_error :: "exc option"
  pa_begin_error :: "exc option"
  pa_commit_error :: "exc option"
  pa_audit_error :: "exc option"
  pa_attachment_audit_error :: "string \<Rightarrow> exc option"
  pa_daemon_uid :: int

definition resolve_bench_user :: "string option \<Rightarrow> pane_scan_env \<Rightarrow> string option" where
  "resolve_bench_user config_user e =
     (let head = (case config_user of None \<Rightarrow> [] | Some u \<Rightarrow> py_strip (fst (py_partition CHR '':'' u))) in
      if head \<noteq> [] then Some head
      else case pa_env_user e of
        Some (c # cs) \<Rightarrow> Some (c # cs)
      | _ \<Rightarrow> (case pa_pw_name e of Some (c # cs) \<Rightarrow> Some (c # cs) | _ \<Rightarrow> None))"

record container_state =
  ct_sockets_scanned :: nat
  ct_failures :: "scope_error list"
  ct_outcomes :: socket_results
  ct_tmux_unavailable :: bool

definition per_scope_from_tmux_error :: "tmux_error \<Rightarrow> string option \<Rightarrow> scope_error" where
  "per_scope_from_tmux_error x socket_path =
     \<lparr>pe_container_id = (case te_container_id x of None \<Rightarrow> [] | Some c \<Rightarrow> c),
      pe_tmux_socket_path = (case socket_path of Some s \<Rightarrow> Some s | None \<Rightarrow> te_tmux_socket_path x),
      pe_error_code = te_code x, pe_pane_truncations = []\<rparr>"

text \<open>\<open>docker_unavailable\<close> and exceptions that are no \<open>TmuxError\<close> leave the scan of the container.\<close>

definition leaves_scan :: "adapter_exc \<Rightarrow> tmux_error option" where
  "leaves_scan x = (case x of Tmux_exc t \<Rightarrow> if te_code t = ''docker_unavailable'' then None else Some t | Other_exc _ \<Rightarrow> None)"

definition socket_path_of :: "string \<Rightarrow> string \<Rightarrow> string" where
  "socket_path_of uid name = ''/tmp/tmux-'' @ uid @ ''/'' @ name"

fun scan_sockets ::
  "pane_scan_env \<Rightarrow> string \<Rightarrow> string \<Rightarrow> string \<Rightarrow> string list \<Rightarrow> bool \<times> container_state \<Rightarrow> adapter_exc + (bool \<times> container_state)" where
  "scan_sockets e c user uid [] (any_success, st) = Inr (any_success, st)"
| "scan_sockets e c user uid (name # names) (any_success, st) =
     (let path = socket_path_of uid name; st1 = st\<lparr>ct_sockets_scanned := ct_sockets_scanned st + 1\<rparr> in
      case list_panes (pa_tmux e) c user path of
        Inr panes \<Rightarrow>
          scan_sockets e c user uid names (True, st1\<lparr>ct_outcomes := AList.update (c, path) (OkSocketScan panes) (ct_outcomes st1)\<rparr>)
      | Inl x \<Rightarrow>
          (case leaves_scan x of
             None \<Rightarrow> Inl x
           | Some t \<Rightarrow>
               let st2 = st1\<lparr>ct_failures := ct_failures st1 @ [per_scope_from_tmux_error t (Some path)]\<rparr> in
               if te_code t = ''output_malformed'' \<and> te_partial_panes t \<noteq> []
               then scan_sockets e c user uid names
                 (True, st2\<lparr>ct_outcomes := AList.update (c, path) (OkSocketScan (te_partial_panes t)) (ct_outcomes st2)\<rparr>)
               else scan_sockets e c user uid names
                 (any_success, st2\<lparr>ct_outcomes := AList.update (c, path) (FailedSocketScan (te_code t)) (ct_outcomes st2)\<rparr>)))"

definition unavailable_state :: "tmux_error \<Rightarrow> container_state" where
  "unavailable_state t = \<lparr>ct_sockets_scanned = 0, ct_failures = [per_scope_from_tmux_error t None], ct_outcomes = [],
     ct_tmux_unavailable = True\<rparr>"

definition scan_one_container :: "pane_scan_env \<Rightarrow> string \<Rightarrow> string \<Rightarrow> adapter_exc + container_state" where
  "scan_one_container e c user =
     (case resolve_uid (pa_tmux e) c user of
        Inl x \<Rightarrow> (case leaves_scan x of None \<Rightarrow> Inl x | Some t \<Rightarrow> Inr (unavailable_state t))
      | Inr uid \<Rightarrow>
          (case list_socket_dir (pa_tmux e) c user uid of
             Inl x \<Rightarrow> (case leaves_scan x of None \<Rightarrow> Inl x | Some t \<Rightarrow> Inr (unavailable_state t))
           | Inr listing \<Rightarrow>
               (case scan_sockets e c user uid (sl_sockets listing)
                       (False, \<lparr>ct_sockets_scanned = 0, ct_failures = [], ct_outcomes = [], ct_tmux_unavailable = False\<rparr>) of
                  Inl x \<Rightarrow> Inl x
                | Inr (any_success, st) \<Rightarrow>
                    Inr (st\<lparr>ct_tmux_unavailable := \<not> any_success \<and> sl_sockets listing \<noteq> []\<rparr>))))"

subsection \<open>The scan\<close>

record pane_gather =
  pg_results :: socket_results
  pg_unavailable :: "string list"
  pg_failures :: "scope_error list"
  pg_containers_scanned :: nat
  pg_sockets_scanned :: nat
  pg_metadata :: "(string \<times> container_meta) list"

definition nothing_gathered :: pane_gather where
  "nothing_gathered = \<lparr>pg_results = [], pg_unavailable = [], pg_failures = [], pg_containers_scanned = 0,
     pg_sockets_scanned = 0, pg_metadata = []\<rparr>"

fun gather_containers ::
  "pane_scan_env \<Rightarrow> (string \<times> string \<times> string option) list \<Rightarrow> pane_gather \<Rightarrow> adapter_exc + pane_gather" where
  "gather_containers e [] ga = Inr ga"
| "gather_containers e ((c, name, config_user) # rest) ga =
     (case resolve_bench_user config_user e of
        None \<Rightarrow>
          gather_containers e rest
            (ga\<lparr>pg_failures := pg_failures ga @ [\<lparr>pe_container_id = c, pe_tmux_socket_path = None,
                   pe_error_code = ''bench_user_unresolved'', pe_pane_truncations = []\<rparr>],
                 pg_unavailable := pg_unavailable ga @ [c],
                 pg_metadata := AList.update c \<lparr>cm_container_name = name, cm_container_user = []\<rparr> (pg_metadata ga)\<rparr>)
      | Some user \<Rightarrow>
          (case scan_one_container e c user of
             Inl x \<Rightarrow> Inl x
           | Inr st \<Rightarrow>
               gather_containers e rest
                 (ga\<lparr>pg_metadata := AList.update c \<lparr>cm_container_name = name, cm_container_user = user\<rparr> (pg_metadata ga),
                     pg_containers_scanned := pg_containers_scanned ga + 1,
                     pg_sockets_scanned := pg_sockets_scanned ga + ct_sockets_scanned st,
                     pg_results := fold (\<lambda>(k, v). AList.update k v) (ct_outcomes st) (pg_results ga),
                     pg_failures := pg_failures ga @ ct_failures st,
                     pg_unavailable := (if ct_tmux_unavailable st then pg_unavailable ga @ [c] else pg_unavailable ga)\<rparr>)))"

text \<open>Truncation notes are reported with the failure of their socket, or on their own.\<close>

definition notes_of :: "truncation_note list \<Rightarrow> string \<times> string \<Rightarrow> truncation_note list" where
  "notes_of notes scope = filter (\<lambda>n. (tn_container_id n, tn_tmux_socket_path n) = scope) notes"

definition failure_scope :: "scope_error \<Rightarrow> string \<times> string" where
  "failure_scope f = (pe_container_id f, case pe_tmux_socket_path f of None \<Rightarrow> [] | Some s \<Rightarrow> s)"

definition merge_error_details :: "scope_error list \<Rightarrow> truncation_note list \<Rightarrow> scope_error list" where
  "merge_error_details failures notes =
     (let out = map (\<lambda>f. if pe_tmux_socket_path f \<noteq> None \<and> notes_of notes (failure_scope f) \<noteq> []
                         then f\<lparr>pe_pane_truncations := notes_of notes (failure_scope f)\<rparr> else f) failures;
          scopes = rev (remdups (rev (map (\<lambda>n. (tn_container_id n, tn_tmux_socket_path n)) notes)))
      in out @ map (\<lambda>(c, s). \<lparr>pe_container_id = c, pe_tmux_socket_path = Some s, pe_error_code = ''output_malformed'',
                                pe_pane_truncations = notes_of notes (c, s)\<rparr>)
                 (filter (\<lambda>sc. sc \<notin> failure_scope ` set out) scopes))"

definition apply_pane_scan :: "timestamp \<Rightarrow> pane_write_set \<Rightarrow> registry \<Rightarrow> attachment_row list \<times> registry" where
  "apply_pane_scan now ws g =
     cascade_to_stale_for_panes (pw_inactivate ws) now
       (g\<lparr>rg_panes := apply_pane_reconcile_writeset now ws (rg_panes g),
          rg_agents := cascade_agents_active_from_pane (pw_inactivate ws)
            (update_last_seen_at (map pn_key (pw_upserts ws)) now (rg_agents g))\<rparr>)"

definition stale_change :: "int \<Rightarrow> attachment_row \<Rightarrow> attachment_change" where
  "stale_change uid r =
     \<lparr>ac_attachment_id = la_attachment_id r, ac_agent_id = la_agent_id r, ac_prior_status = Some Att_active,
      ac_new_status = Att_stale, ac_prior_path = Some (la_log_path r), ac_new_path = la_log_path r,
      ac_prior_pipe_target = la_prior_pipe_target r, ac_source = la_source r, ac_socket_peer_uid = uid\<rparr>"

text \<open>A line that cannot be appended is only noted in the daemon's log.\<close>

definition audit_stale :: "pane_scan_env \<Rightarrow> attachment_row \<Rightarrow> scan_world \<Rightarrow> scan_world" where
  "audit_stale e r w =
     (case append_scan_line (pa_attachment_audit_error e (la_attachment_id r))
             (Log_attachment_change (stale_change (pa_daemon_uid e) r)) w of
        Inr w' \<Rightarrow> w'
      | Inl _ \<Rightarrow> w\<lparr>sw_log := (sw_log w)\<lparr>lw_lifecycle := (lw_lifecycle (sw_log w))\<lparr>lf_log := lf_log (lw_lifecycle (sw_log w)) @
          [Audit_append_failed ''pane_reconcile.stale_cascade'' (la_agent_id r) (la_attachment_id r)]\<rparr>\<rparr>\<rparr>)"

definition commit_pane_scan :: "pane_scan_env \<Rightarrow> pane_write_set \<Rightarrow> pane_scan_row \<Rightarrow> scan_world \<Rightarrow> exc + scan_world" where
  "commit_pane_scan e ws row w =
     (case pa_begin_error e of
        Some x \<Rightarrow> Inl x
      | None \<Rightarrow>
          (case apply_pane_scan (pa_started_at e) ws (sw_registry w) of (cascaded, g) \<Rightarrow>
             case insert_pane_scan row (set_registry g w) of
               Inl x \<Rightarrow> Inl x
             | Inr w1 \<Rightarrow> (case pa_commit_error e of Some x \<Rightarrow> Inl x | None \<Rightarrow> Inr (fold (audit_stale e) cascaded w1))))"

definition emit_pane_scan_degraded ::
  "pane_scan_env \<Rightarrow> string option \<Rightarrow> scope_error list \<Rightarrow> scan_world \<Rightarrow> exc option \<times> scan_world" where
  "emit_pane_scan_degraded e code details w =
     (case append_scan_line (pa_audit_error e) (Pane_scan_degraded (pa_scan_id e) code details) w of
        Inr w' \<Rightarrow> (None, w')
      | Inl (OSError _) \<Rightarrow> (Some PostCommitSideEffectError, w)
      | Inl x \<Rightarrow> (Some x, w))"

definition pane_row_of_scan ::
  "pane_scan_env \<Rightarrow> pane_write_set \<Rightarrow> pane_gather \<Rightarrow> scope_error list \<Rightarrow> pane_scan_row" where
  "pane_row_of_scan e ws ga details =
     \<lparr>pr_scan_id = pa_scan_id e, pr_started_at = pa_started_at e, pr_completed_at = pa_completed_at e,
      pr_status = (if pg_failures ga \<noteq> [] \<or> pw_truncations ws \<noteq> [] then ''degraded'' else ''ok''),
      pr_containers_scanned = pg_containers_scanned ga, pr_sockets_scanned = pg_sockets_scanned ga,
      pr_panes_seen = length (pw_upserts ws), pr_panes_newly_active = pw_panes_newly_active ws,
      pr_panes_reconciled_inactive = length (pw_inactivate ws),
      pr_containers_skipped_inactive = pw_containers_skipped_inactive ws,
      pr_containers_tmux_unavailable = pw_containers_tmux_unavailable ws,
      pr_error_code = (case details of [] \<Rightarrow> None | d # _ \<Rightarrow> Some (pe_error_code d)),
      pr_error_details = (if details = [] then None else Some details)\<rparr>"

definition in_filter :: "string option \<Rightarrow> string \<Rightarrow> bool" where
  "in_filter container_filter c \<longleftrightarrow> (case container_filter of None \<Rightarrow> True | Some f \<Rightarrow> c = f)"

definition scan_panes_locked ::
  "pane_scan_env \<Rightarrow> string option \<Rightarrow> scan_world \<Rightarrow> (adapter_exc + pane_scan_row) \<times> scan_world" where
  "scan_panes_locked e container_filter w =
     (let g = sw_registry w;
          active_rows = filter (\<lambda>r. in_filter container_filter (fst r)) (select_active_containers_with_user (rg_containers g));
          cascade_ids = filter (in_filter container_filter) (select_inactive_container_ids_with_panes g) in
      case gather_containers e active_rows nothing_gathered of
        Inl x \<Rightarrow> (Inl x, w)
      | Inr ga \<Rightarrow>
          let ws = reconcile_panes (rg_panes g) (pg_results ga) (pg_unavailable ga) cascade_ids (pg_metadata ga) (pa_started_at e);
              details = merge_error_details (pg_failures ga) (pw_truncations ws);
              row = pane_row_of_scan e ws ga details in
          case commit_pane_scan e ws row w of
            Inl x \<Rightarrow> (Inl (Other_exc x), w)
          | Inr w1 \<Rightarrow>
              (case (if pr_status row = ''degraded'' then emit_pane_scan_degraded e (pr_error_code row) details w1 else (None, w1)) of
                 (Some x, w2) \<Rightarrow> (Inl (Other_exc x), w2)
               | (None, w2) \<Rightarrow>
                   if pa_completed_error e \<noteq> None then (Inl (Other_exc PostCommitSideEffectError), w2) else (Inr row, w2)))"

definition handle_docker_unavailable :: "pane_scan_env \<Rightarrow> scan_world \<Rightarrow> exc option \<times> scan_world" where
  "handle_docker_unavailable e w =
     (case pa_begin_error e of
        Some x \<Rightarrow> (Some x, w)
      | None \<Rightarrow>
          (case insert_pane_scan
             \<lparr>pr_scan_id = pa_scan_id e, pr_started_at = pa_started_at e, pr_completed_at = pa_completed_at e,
              pr_status = ''degraded'', pr_containers_scanned = 0, pr_sockets_scanned = 0, pr_panes_seen = 0,
              pr_panes_newly_active = 0, pr_panes_reconciled_inactive = 0, pr_containers_skipped_inactive = 0,
              pr_containers_tmux_unavailable = 0, pr_error_code = Some ''docker_unavailable'', pr_error_details = None\<rparr> w of
             Inl _ \<Rightarrow> (None, w)
           | Inr w1 \<Rightarrow>
               if pa_commit_error e \<noteq> None then (None, w)
               else emit_pane_scan_degraded e (Some ''docker_unavailable'') [] w1))"

definition scan_for_container ::
  "pane_scan_env \<Rightarrow> string option \<Rightarrow> scan_world \<Rightarrow> (adapter_exc + pane_scan_row) \<times> scan_world" where
  "scan_for_container e container_id w =
     (if pa_started_error e \<noteq> None then (Inl (Tmux_exc (plain_tmux_error ''internal_error'' None None None)), w)
      else case scan_panes_locked e container_id w of
        (Inl (Tmux_exc x), w1) \<Rightarrow>
          if te_code x = ''docker_unavailable''
          then (case handle_docker_unavailable e w1 of
                  (Some y, w2) \<Rightarrow> (Inl (Other_exc y), w2)
                | (None, w2) \<Rightarrow> (Inl (Tmux_exc x), w2))
          else (Inl (Tmux_exc x), w1)
      | r \<Rightarrow> r)"

subsection \<open>Listings\<close>

definition sort_desc :: "('a \<Rightarrow> 'k :: linorder) \<Rightarrow> 'a list \<Rightarrow> 'a list" where
  "sort_desc key xs = rev (sort_key key (rev xs))"

definition list_containers :: "registry \<Rightarrow> bool \<Rightarrow> container_row list" where
  "list_containers g active_only =
     sort_desc cn_active (sort_desc cn_last_scanned_at (sort_key cn_container_id
       (filter (\<lambda>r. active_only \<longrightarrow> cn_active r) (rg_containers g))))"

definition looks_like_container_id :: "string \<Rightarrow> bool" where
  "looks_like_container_id v \<longleftrightarrow> py_len v = 64 \<and> list_all (\<lambda>c. c \<in> set ''0123456789abcdef'') (py_lower v)"

definition pane_order :: "pane_row \<Rightarrow> string \<times> string \<times> string \<times> int \<times> int" where
  "pane_order p = (case pn_key p of (c, s, session, window, pane, _) \<Rightarrow> (c, s, session, window, pane))"

definition select_panes_for_listing :: "registry \<Rightarrow> bool \<Rightarrow> string option \<Rightarrow> pane_row list" where
  "select_panes_for_listing g active_only container_filter =
     sort_desc pn_active (sort_key pane_order
       (filter (\<lambda>p. key_container (pn_key p) \<in> cn_container_id ` set (rg_containers g) \<and> (active_only \<longrightarrow> pn_active p) \<and>
          (case container_filter of
             None \<Rightarrow> True
           | Some v \<Rightarrow>
               if looks_like_container_id v then key_container (pn_key p) = v
               else key_container (pn_key p) \<in> cn_container_id ` {r \<in> set (rg_containers g). cn_name r = v}))
         (rg_panes g)))"

end
