(* ===== verification/Pane_Scan_Facts.thy ===== *)
theory Pane_Scan_Facts
  imports Pane_Scan
begin

text \<open>
  What a scan of panes does: which panes are active afterwards, in terms of what tmux listed, and that
  the cascade keeps active agents and attachments on active panes.
\<close>

subsection \<open>What a scan gathers\<close>

lemma keys_fold_update:
  "distinct (map fst xs) \<Longrightarrow> distinct (map fst (fold (\<lambda>(k, v). AList.update k v) ys xs))"
  "fst ` set (fold (\<lambda>(k, v). AList.update k v) ys xs) = fst ` set xs \<union> fst ` set ys"
proof -
  show "distinct (map fst xs) \<Longrightarrow> distinct (map fst (fold (\<lambda>(k, v). AList.update k v) ys xs))"
    by (induction ys arbitrary: xs) (simp_all add: AList.distinct_update split_beta)
  show "fst ` set (fold (\<lambda>(k, v). AList.update k v) ys xs) = fst ` set xs \<union> fst ` set ys"
    by (induction ys arbitrary: xs) (simp_all add: AList.dom_update split_beta)
qed

definition keyed_by :: "string \<Rightarrow> socket_results \<Rightarrow> bool" where
  "keyed_by c outs \<longleftrightarrow> distinct (map fst outs) \<and> fst ` fst ` set outs \<subseteq> {c}"

lemma keyed_by_Nil [simp]: "keyed_by c []"
  by (simp add: keyed_by_def)

lemma keyed_by_update: "keyed_by c outs \<Longrightarrow> keyed_by c (AList.update (c, p) v outs)"
  by (simp add: keyed_by_def AList.distinct_update AList.dom_update)

lemma scan_sockets_keys:
  "scan_sockets e c user uid names (b, st) = Inr (b', st') \<Longrightarrow> keyed_by c (ct_outcomes st) \<Longrightarrow> keyed_by c (ct_outcomes st')"
proof (induction names arbitrary: b st)
  case (Cons name names)
  let ?path = "socket_path_of uid name"
  have step: "keyed_by c (ct_outcomes st')"
    if "scan_sockets e c user uid names (b1, st1\<lparr>ct_outcomes := AList.update (c, ?path) v (ct_outcomes st)\<rparr>) = Inr (b', st')" for b1 v st1
    using Cons.IH [OF that] keyed_by_update [OF Cons.prems(2)] by simp
  from Cons.prems(1) show ?case
    by (simp add: Let_def split: sum.split_asm option.split_asm if_split_asm) (erule step)+
qed simp

lemma scan_one_container_keys:
  "scan_one_container e c user = Inr st \<Longrightarrow> keyed_by c (ct_outcomes st)"
  by (auto simp: scan_one_container_def unavailable_state_def dest!: scan_sockets_keys split: sum.splits option.splits)

lemma gather_containers_keys:
  assumes "gather_containers e rows ga = Inr ga'" "distinct (map fst (pg_results ga))"
  shows "distinct (map fst (pg_results ga')) \<and>
    fst ` fst ` set (pg_results ga') \<subseteq> fst ` fst ` set (pg_results ga) \<union> fst ` set rows"
  using assms
proof (induction rows arbitrary: ga)
  case (Cons r rows)
  obtain c name cu where r: "r = (c, name, cu)" by (cases r)
  show ?case
  proof (cases "resolve_bench_user cu e")
    case None
    from Cons.prems(1) r None obtain ga1 where g: "gather_containers e rows ga1 = Inr ga'" "pg_results ga1 = pg_results ga" by simp
    have "fst ` set (r # rows) = insert c (fst ` set rows)" by (simp add: r)
    with Cons.IH [OF g(1)] g(2) Cons.prems(2) show ?thesis by (simp only:) blast
  next
    case (Some user)
    with Cons.prems r obtain st where st: "scan_one_container e c user = Inr st" by (auto split: sum.splits)
    let ?res = "fold (\<lambda>(k, v). AList.update k v) (ct_outcomes st) (pg_results ga)"
    from Cons.prems(1) r Some st obtain ga1 where g: "gather_containers e rows ga1 = Inr ga'" "pg_results ga1 = ?res" by simp
    have "fst ` fst ` set ?res \<subseteq> fst ` fst ` set (pg_results ga) \<union> {c}"
      using scan_one_container_keys [OF st] by (simp add: keys_fold_update(2) image_Un keyed_by_def) blast
    moreover have "fst ` set (r # rows) = insert c (fst ` set rows)" by (simp add: r)
    ultimately show ?thesis
      using Cons.IH [OF g(1)] g(2) keys_fold_update(1) [OF Cons.prems(2), of "ct_outcomes st"] by (simp only:) blast
  qed
qed simp

subsection \<open>Which panes are active after a scan\<close>

definition panes_ok :: "registry \<Rightarrow> bool" where
  "panes_ok g \<longleftrightarrow> distinct (map pn_key (rg_panes g))"

definition active_pane :: "pane_row list \<Rightarrow> pane_key \<Rightarrow> bool" where
  "active_pane rows k \<longleftrightarrow> list_ex (\<lambda>r. pn_key r = k \<and> pn_active r) rows"

lemma upsert_pane_keys:
  "pn_key ` set (upsert_pane u rows) = insert (pn_key u) (pn_key ` set rows)"
  "distinct (map pn_key rows) \<Longrightarrow> distinct (map pn_key (upsert_pane u rows))"
  by (simp_all add: upsert_pane_def map_key_replace [where key = pn_key and k = "pn_key u"] insert_absorb)

lemma active_upsert_pane:
  "active_pane (upsert_pane u rows) k \<longleftrightarrow> (if k = pn_key u then pn_active u else active_pane rows k)"
proof -
  have upd: "active_pane (update_where (\<lambda>r. pn_key r = pn_key u) (\<lambda>r. u\<lparr>pn_first_seen_at := pn_first_seen_at r\<rparr>) rows) k \<longleftrightarrow>
      (if k = pn_key u then k \<in> pn_key ` set rows \<and> pn_active u else active_pane rows k)"
    by (induction rows) (auto simp: active_pane_def)
  have none: "k \<notin> pn_key ` set rows \<Longrightarrow> \<not> active_pane rows k"
    by (auto simp: active_pane_def list_ex_iff)
  have new: "active_pane (rows @ [u]) k \<longleftrightarrow> active_pane rows k \<or> pn_key u = k \<and> pn_active u"
    by (simp add: active_pane_def)
  show ?thesis
  proof (cases "pn_key u \<in> pn_key ` set rows")
    case True
    then show ?thesis using upd by (auto simp: upsert_pane_def)
  next
    case False
    then show ?thesis using none new by (auto simp: upsert_pane_def)
  qed
qed

lemma active_fold_upsert:
  "list_all pn_active us \<Longrightarrow> active_pane (fold upsert_pane us rows) k \<longleftrightarrow> k \<in> pn_key ` set us \<or> active_pane rows k"
  by (induction us arbitrary: rows) (auto simp: active_upsert_pane)

lemma active_apply_writeset:
  assumes "list_all pn_active (pw_upserts ws)"
  shows "active_pane (apply_pane_reconcile_writeset now ws rows) k \<longleftrightarrow>
    (k \<in> pn_key ` set (pw_upserts ws) \<or> active_pane rows k) \<and> k \<notin> set (pw_inactivate ws)"
proof -
  have inact: "active_pane (update_where (\<lambda>r. pn_key r \<in> K) (\<lambda>r. r\<lparr>pn_active := False, pn_last_scanned_at := now\<rparr>) rs) k \<longleftrightarrow>
      active_pane rs k \<and> k \<notin> K" for K rs
    by (induction rs) (auto simp: active_pane_def)
  have touch: "active_pane (update_where (\<lambda>r. pn_key r \<in> K) (\<lambda>r. r\<lparr>pn_last_scanned_at := now\<rparr>) rs) k \<longleftrightarrow> active_pane rs k" for K rs
    by (induction rs) (auto simp: active_pane_def)
  show ?thesis
    unfolding apply_pane_reconcile_writeset_def inact touch using active_fold_upsert [OF assms] by auto
qed

lemma apply_writeset_keys:
  "distinct (map pn_key rows) \<Longrightarrow> distinct (map pn_key (apply_pane_reconcile_writeset now ws rows))"
proof -
  assume "distinct (map pn_key rows)"
  then have "distinct (map pn_key (fold upsert_pane us rows))" for us
    by (induction us arbitrary: rows) (simp_all add: upsert_pane_keys(2))
  then show ?thesis unfolding apply_pane_reconcile_writeset_def by (simp add: map_key_update_where)
qed

text \<open>The panes that were listed, and the conditions under which one that was not is given up.\<close>

definition listed_panes :: "pane_gather \<Rightarrow> timestamp \<Rightarrow> pane_key set" where
  "listed_panes ga now = pn_key ` fst ` set (concat (map (upserts_of_socket (pg_metadata ga) now) (pg_results ga)))"

definition given_up :: "pane_gather \<Rightarrow> string list \<Rightarrow> pane_key \<Rightarrow> bool" where
  "given_up ga cascade k \<longleftrightarrow>
     key_container k \<in> set cascade \<or>
     (case map_of (pg_results ga) (key_container k, key_socket k) of
        Some (OkSocketScan _) \<Rightarrow> True
      | Some (FailedSocketScan _) \<Rightarrow> False
      | None \<Rightarrow> key_container k \<in> fst ` fst ` set (pg_results ga) \<and> key_container k \<notin> set (pg_unavailable ga))"

lemma upsert_key:
  "u \<in> fst ` set (upserts_of_socket metadata now ((c, s), o')) \<Longrightarrow> key_container (pn_key u) = c \<and> key_socket (pn_key u) = s \<and> pn_active u"
  by (auto simp: upserts_of_socket_def build_upsert_def Let_def split: socket_scan.splits)

lemma upserts_active: "list_all pn_active (pw_upserts (reconcile_panes prior results un cascade metadata now))"
proof -
  have one: "list_all pn_active (map fst (upserts_of_socket metadata now r))" for r
    using upsert_key [of _ metadata now "fst (fst r)" "snd (fst r)" "snd r"] by (simp add: list_all_iff)
  have "list_all pn_active (map fst (concat (map (upserts_of_socket metadata now) results)))"
    by (induction results) (simp_all only: concat.simps list.map map_append list_all_append one list.pred_inject simp_thms)
  then show ?thesis by (simp only: reconcile_panes_def Let_def pane_write_set.select_convs)
qed

lemma listed_socket:
  assumes "distinct (map fst (pg_results ga))" "k \<in> listed_panes ga now"
  shows "\<exists>panes. map_of (pg_results ga) (key_container k, key_socket k) = Some (OkSocketScan panes) \<and>
     k \<in> pn_key ` fst ` set (upserts_of_socket (pg_metadata ga) now ((key_container k, key_socket k), OkSocketScan panes))"
proof -
  from assms(2) obtain r where r: "r \<in> set (pg_results ga)" "k \<in> pn_key ` fst ` set (upserts_of_socket (pg_metadata ga) now r)"
    unfolding listed_panes_def set_concat set_map image_UN by blast
  obtain c s o' where o': "r = ((c, s), o')" by (metis prod.collapse)
  with r(2) upsert_key have k: "key_container k = c" "key_socket k = s" by blast+
  from r(2) o' obtain panes where "o' = OkSocketScan panes" by (cases o') (auto simp: upserts_of_socket_def)
  with r o' k map_of_is_SomeI [OF assms(1)] show ?thesis by auto
qed

lemma listed_panesI:
  "r \<in> set (pg_results ga) \<Longrightarrow> k \<in> pn_key ` fst ` set (upserts_of_socket (pg_metadata ga) now r) \<Longrightarrow> k \<in> listed_panes ga now"
  unfolding listed_panes_def by auto

lemma set_pw_inactivate:
  "set (pw_inactivate (reconcile_panes prior results un cascade metadata now)) =
     (\<Union>r \<in> set results. set (vanished_of_socket prior metadata now r)) \<union>
     pn_key ` {p \<in> set prior. pn_active p \<and> key_container (pn_key p) \<in> set cascade} \<union>
     pn_key ` {p \<in> set (unlisted_panes prior results un cascade). pn_active p}"
  by (auto simp: reconcile_panes_def Let_def panes_of_def)

lemma set_unlisted_panes:
  "p \<in> set (unlisted_panes prior results un cascade) \<longleftrightarrow>
     p \<in> set prior \<and> key_container (pn_key p) \<in> fst ` fst ` set results \<and> key_container (pn_key p) \<notin> set un \<and>
     key_container (pn_key p) \<notin> set cascade \<and> (key_container (pn_key p), key_socket (pn_key p)) \<notin> fst ` set results"
  by (auto simp: unlisted_panes_def panes_of_def image_comp)

lemma vanished_iff:
  "k \<in> set (vanished_of_socket prior metadata now ((c, s), o')) \<longleftrightarrow>
     (\<exists>panes. o' = OkSocketScan panes) \<and> active_pane prior k \<and> key_container k = c \<and> key_socket k = s \<and>
     k \<notin> pn_key ` fst ` set (upserts_of_socket metadata now ((c, s), o'))"
  by (cases o') (auto simp: vanished_of_socket_def active_pane_def list_ex_iff)

lemma no_result_of_container: "c \<notin> fst ` fst ` set xs \<Longrightarrow> map_of xs (c, s) = None"
  by (metis fst_conv image_eqI map_of_eq_None_iff)

lemma inactivated_iff:
  fixes prior :: "pane_row list" and now :: timestamp
  assumes "distinct (map fst (pg_results ga))" "fst ` fst ` set (pg_results ga) \<inter> set cascade = {}"
  defines "ws \<equiv> reconcile_panes prior (pg_results ga) (pg_unavailable ga) cascade (pg_metadata ga) now"
  shows "k \<in> set (pw_inactivate ws) \<longleftrightarrow> active_pane prior k \<and> given_up ga cascade k \<and> k \<notin> listed_panes ga now"
proof -
  let ?key = "(key_container k, key_socket k)"
  have vanished: "(\<exists>r \<in> set (pg_results ga). k \<in> set (vanished_of_socket prior (pg_metadata ga) now r)) \<longleftrightarrow>
      (\<exists>panes. map_of (pg_results ga) ?key = Some (OkSocketScan panes)) \<and> active_pane prior k \<and> k \<notin> listed_panes ga now"
  proof
    assume "\<exists>r \<in> set (pg_results ga). k \<in> set (vanished_of_socket prior (pg_metadata ga) now r)"
    then obtain q where q: "q \<in> set (pg_results ga)" "k \<in> set (vanished_of_socket prior (pg_metadata ga) now q)" by blast
    obtain c s o' where "q = ((c, s), o')" by (metis prod.collapse)
    with q have r: "((c, s), o') \<in> set (pg_results ga)"
      "k \<in> set (vanished_of_socket prior (pg_metadata ga) now ((c, s), o'))" by simp_all
    then obtain panes where o': "o' = OkSocketScan panes" "active_pane prior k" "?key = (c, s)"
      "k \<notin> pn_key ` fst ` set (upserts_of_socket (pg_metadata ga) now ((c, s), o'))" by (auto simp: vanished_iff)
    then have m: "map_of (pg_results ga) ?key = Some (OkSocketScan panes)" using r(1) assms(1) by simp
    have "k \<notin> listed_panes ga now" using listed_socket [OF assms(1), of k now] m o' by auto
    with m o' show "(\<exists>panes. map_of (pg_results ga) ?key = Some (OkSocketScan panes)) \<and> active_pane prior k \<and> k \<notin> listed_panes ga now"
      by blast
  next
    assume a: "(\<exists>panes. map_of (pg_results ga) ?key = Some (OkSocketScan panes)) \<and> active_pane prior k \<and> k \<notin> listed_panes ga now"
    then obtain panes where "map_of (pg_results ga) ?key = Some (OkSocketScan panes)" by (elim conjE exE)
    then have r: "(?key, OkSocketScan panes) \<in> set (pg_results ga)" by (rule map_of_SomeD)
    have "k \<notin> pn_key ` fst ` set (upserts_of_socket (pg_metadata ga) now (?key, OkSocketScan panes))"
    proof
      assume "k \<in> pn_key ` fst ` set (upserts_of_socket (pg_metadata ga) now (?key, OkSocketScan panes))"
      with r have "k \<in> listed_panes ga now" by (rule listed_panesI)
      with a show False by simp
    qed
    with a have "k \<in> set (vanished_of_socket prior (pg_metadata ga) now (?key, OkSocketScan panes))"
      by (simp add: vanished_iff)
    with r show "\<exists>r \<in> set (pg_results ga). k \<in> set (vanished_of_socket prior (pg_metadata ga) now r)" by blast
  qed
  have cascaded: "k \<in> pn_key ` {p \<in> set prior. pn_active p \<and> key_container (pn_key p) \<in> set cascade} \<longleftrightarrow>
      active_pane prior k \<and> key_container k \<in> set cascade"
    by (auto simp: active_pane_def list_ex_iff)
  have unlisted: "k \<in> pn_key ` {p \<in> set (unlisted_panes prior (pg_results ga) (pg_unavailable ga) cascade). pn_active p} \<longleftrightarrow>
      active_pane prior k \<and> key_container k \<in> fst ` fst ` set (pg_results ga) \<and> key_container k \<notin> set (pg_unavailable ga) \<and>
      key_container k \<notin> set cascade \<and> map_of (pg_results ga) ?key = None"
    by (auto simp: set_unlisted_panes active_pane_def list_ex_iff map_of_eq_None_iff)
  have no_socket: "k \<notin> listed_panes ga now" if "map_of (pg_results ga) ?key = None"
    using listed_socket [OF assms(1), of k now] that by auto
  have in_cascade: "map_of (pg_results ga) ?key = None" if "key_container k \<in> set cascade"
    by (rule no_result_of_container) (use assms(2) that in blast)
  show ?thesis
    unfolding ws_def set_pw_inactivate Un_iff UN_iff vanished cascaded unlisted
  proof (cases "map_of (pg_results ga) ?key")
    case None
    with no_socket show "((\<exists>panes. map_of (pg_results ga) ?key = Some (OkSocketScan panes)) \<and> active_pane prior k \<and> k \<notin> listed_panes ga now \<or>
      active_pane prior k \<and> key_container k \<in> set cascade) \<or>
      active_pane prior k \<and> key_container k \<in> fst ` fst ` set (pg_results ga) \<and> key_container k \<notin> set (pg_unavailable ga) \<and>
      key_container k \<notin> set cascade \<and> map_of (pg_results ga) ?key = None \<longleftrightarrow>
      active_pane prior k \<and> given_up ga cascade k \<and> k \<notin> listed_panes ga now"
      by (simp add: given_up_def) blast
  next
    case (Some o')
    with in_cascade show "((\<exists>panes. map_of (pg_results ga) ?key = Some (OkSocketScan panes)) \<and> active_pane prior k \<and> k \<notin> listed_panes ga now \<or>
      active_pane prior k \<and> key_container k \<in> set cascade) \<or>
      active_pane prior k \<and> key_container k \<in> fst ` fst ` set (pg_results ga) \<and> key_container k \<notin> set (pg_unavailable ga) \<and>
      key_container k \<notin> set cascade \<and> map_of (pg_results ga) ?key = None \<longleftrightarrow>
      active_pane prior k \<and> given_up ga cascade k \<and> k \<notin> listed_panes ga now"
      by (cases o') (auto simp: given_up_def)
  qed
qed

subsection \<open>The whole scan\<close>

definition scan_gather :: "pane_scan_env \<Rightarrow> string option \<Rightarrow> scan_world \<Rightarrow> adapter_exc + pane_gather" where
  "scan_gather e container_filter w =
     gather_containers e (filter (\<lambda>r. in_filter container_filter (fst r))
       (select_active_containers_with_user (rg_containers (sw_registry w)))) nothing_gathered"

definition scan_cascade :: "string option \<Rightarrow> scan_world \<Rightarrow> string list" where
  "scan_cascade container_filter w = filter (in_filter container_filter) (select_inactive_container_ids_with_panes (sw_registry w))"

definition scan_write_set :: "pane_scan_env \<Rightarrow> string option \<Rightarrow> scan_world \<Rightarrow> pane_gather \<Rightarrow> pane_write_set" where
  "scan_write_set e container_filter w ga =
     reconcile_panes (rg_panes (sw_registry w)) (pg_results ga) (pg_unavailable ga) (scan_cascade container_filter w)
       (pg_metadata ga) (pa_started_at e)"

lemma audit_stale_registry: "sw_registry (audit_stale e r w) = sw_registry w"
  by (auto simp: audit_stale_def sw_registry_def append_scan_line_def split: sum.splits)

lemma fold_audit_stale_registry: "sw_registry (fold (audit_stale e) rs w) = sw_registry w"
  by (induction rs arbitrary: w) (simp_all add: audit_stale_registry)

lemma commit_pane_scan_registry:
  assumes "commit_pane_scan e ws row w = Inr w'"
  shows "sw_registry w' = snd (apply_pane_scan (pa_started_at e) ws (sw_registry w))"
  using assms
  by (auto simp: commit_pane_scan_def insert_pane_scan_def fold_audit_stale_registry split: option.splits prod.splits if_splits)

lemma emit_pane_registry: "emit_pane_scan_degraded e c d w = (r, w') \<Longrightarrow> sw_registry w' = sw_registry w"
  by (auto simp: emit_pane_scan_degraded_def dest: append_scan_line_registry split: sum.splits exc.splits)

text \<open>A scan changes no table of the registry, or applies the write set of what it gathered.\<close>

lemma scan_panes_locked_cases:
  assumes "scan_panes_locked e f w = (r, w')"
  obtains (unchanged) x where "r = Inl x" "w' = w"
    | (committed) ga where "scan_gather e f w = Inr ga"
        "sw_registry w' = snd (apply_pane_scan (pa_started_at e) (scan_write_set e f w ga) (sw_registry w))"
proof (cases "scan_gather e f w")
  case (Inl x)
  with assms have "r = Inl x" "w' = w" by (simp_all add: scan_panes_locked_def scan_gather_def Let_def)
  then show ?thesis by (rule unchanged)
next
  case (Inr ga)
  let ?ws = "scan_write_set e f w ga"
  let ?d = "merge_error_details (pg_failures ga) (pw_truncations ?ws)"
  let ?row = "pane_row_of_scan e ?ws ga ?d"
  have run: "scan_panes_locked e f w =
      (case commit_pane_scan e ?ws ?row w of
            Inl x \<Rightarrow> (Inl (Other_exc x), w)
          | Inr w1 \<Rightarrow>
              (case (if pr_status ?row = ''degraded'' then emit_pane_scan_degraded e (pr_error_code ?row) ?d w1 else (None, w1)) of
                 (Some x, w2) \<Rightarrow> (Inl (Other_exc x), w2)
               | (None, w2) \<Rightarrow>
                   if pa_completed_error e \<noteq> None then (Inl (Other_exc PostCommitSideEffectError), w2) else (Inr ?row, w2)))"
    unfolding scan_panes_locked_def scan_write_set_def scan_cascade_def Let_def Inr [unfolded scan_gather_def] sum.case
    by (rule refl)
  show ?thesis
  proof (cases "commit_pane_scan e ?ws ?row w")
    case (Inl x)
    with assms have "r = Inl (Other_exc x)" "w' = w" by (simp_all add: run)
    then show ?thesis by (rule unchanged)
  next
    case (Inr w1)
    obtain y w2 where em: "(if pr_status ?row = ''degraded'' then emit_pane_scan_degraded e (pr_error_code ?row) ?d w1 else (None, w1)) = (y, w2)"
      by (rule prod.exhaust)
    then have "sw_registry w2 = sw_registry w1" by (auto dest: emit_pane_registry split: if_splits)
    moreover have "w' = w2" using assms unfolding run Inr sum.case em by (auto split: option.splits if_splits)
    ultimately show ?thesis using commit_pane_scan_registry [OF Inr] \<open>scan_gather e f w = Inr ga\<close> by (intro committed) simp_all
  qed
qed

lemma handle_docker_unavailable_registry:
  "handle_docker_unavailable e w = (x, w') \<Longrightarrow> sw_registry w' = sw_registry w"
  by (auto simp: handle_docker_unavailable_def insert_pane_scan_def dest!: emit_pane_registry split: option.splits if_splits sum.splits)

lemma scan_for_container_cases:
  assumes "scan_for_container e f w = (r, w')"
  obtains (unchanged) x where "r = Inl x" "sw_registry w' = sw_registry w"
    | (committed) ga where "scan_gather e f w = Inr ga"
        "sw_registry w' = snd (apply_pane_scan (pa_started_at e) (scan_write_set e f w ga) (sw_registry w))"
proof (cases "pa_started_error e")
  case (Some y)
  with assms have "r = Inl (Tmux_exc (plain_tmux_error ''internal_error'' None None None))" "sw_registry w' = sw_registry w"
    by (simp_all add: scan_for_container_def)
  then show ?thesis by (rule unchanged)
next
  case None
  obtain r1 w1 where l: "scan_panes_locked e f w = (r1, w1)" by (rule prod.exhaust)
  have reg: "sw_registry w' = sw_registry w1"
    using assms None l by (auto simp: scan_for_container_def dest: handle_docker_unavailable_registry
        split: sum.splits adapter_exc.splits if_splits prod.splits option.splits)
  have err: "\<exists>x. r = Inl x" if "r1 = Inl y" for y
    using assms None l that by (auto simp: scan_for_container_def
        split: sum.splits adapter_exc.splits if_splits prod.splits option.splits)
  from l show ?thesis
  proof (cases rule: scan_panes_locked_cases)
    case (unchanged x)
    with err reg show ?thesis using that(1) by blast
  next
    case (committed ga)
    with reg show ?thesis using that(2) by simp
  qed
qed

lemma scan_gather_disjoint:
  assumes "scan_gather e f w = Inr ga" "containers_ok (sw_registry w)"
  shows "distinct (map fst (pg_results ga))" "fst ` fst ` set (pg_results ga) \<inter> set (scan_cascade f w) = {}"
proof -
  let ?rows = "rg_containers (sw_registry w)"
  have k: "distinct (map fst (pg_results ga)) \<and> fst ` fst ` set (pg_results ga) \<subseteq>
      fst ` set (filter (\<lambda>r. in_filter f (fst r)) (select_active_containers_with_user ?rows))"
    using gather_containers_keys [OF assms(1) [unfolded scan_gather_def]] by (simp add: nothing_gathered_def)
  then show "distinct (map fst (pg_results ga))" by simp
  have act: "fst ` set (filter (\<lambda>r. in_filter f (fst r)) (select_active_containers_with_user ?rows)) \<subseteq>
      cn_container_id ` {r \<in> set ?rows. cn_active r}"
    by (auto simp: select_active_containers_with_user_def)
  have inact: "set (scan_cascade f w) \<subseteq> cn_container_id ` {r \<in> set ?rows. \<not> cn_active r}"
    by (auto simp: scan_cascade_def select_inactive_container_ids_with_panes_def)
  have "cn_container_id ` {r \<in> set ?rows. cn_active r} \<inter> cn_container_id ` {r \<in> set ?rows. \<not> cn_active r} = {}"
    using assms(2) by (auto simp: containers_ok_def distinct_map inj_on_def)
  with k act inact show "fst ` fst ` set (pg_results ga) \<inter> set (scan_cascade f w) = {}" by blast
qed

lemma listed_upserts:
  "pn_key ` set (pw_upserts (scan_write_set e f w ga)) = listed_panes ga (pa_started_at e)"
  by (simp add: scan_write_set_def reconcile_panes_def Let_def listed_panes_def)

lemma scan_outcome_of:
  assumes "scan_for_container e f w = (Inr row, w')" "containers_ok (sw_registry w)"
  shows "\<exists>ga. scan_gather e f w = Inr ga \<and>
    (\<forall>k. active_pane (rg_panes (sw_registry w')) k \<longleftrightarrow>
       k \<in> listed_panes ga (pa_started_at e) \<or>
       active_pane (rg_panes (sw_registry w)) k \<and> \<not> given_up ga (scan_cascade f w) k)"
  using assms(1)
proof (cases rule: scan_for_container_cases)
  case (committed ga)
  let ?ws = "scan_write_set e f w ga"
  note d = scan_gather_disjoint [OF committed(1) assms(2)]
  have panes: "rg_panes (sw_registry w') = apply_pane_reconcile_writeset (pa_started_at e) ?ws (rg_panes (sw_registry w))"
    by (simp add: committed(2) apply_pane_scan_def cascade_to_stale_for_panes_def Let_def)
  have act: "list_all pn_active (pw_upserts ?ws)" unfolding scan_write_set_def by (rule upserts_active)
  have "active_pane (rg_panes (sw_registry w')) k \<longleftrightarrow>
       k \<in> listed_panes ga (pa_started_at e) \<or>
       active_pane (rg_panes (sw_registry w)) k \<and> \<not> given_up ga (scan_cascade f w) k" for k
    unfolding panes active_apply_writeset [OF act] listed_upserts
    using inactivated_iff [OF d, of k "rg_panes (sw_registry w)" "pa_started_at e"]
    unfolding scan_write_set_def [symmetric] by blast
  with committed(1) show ?thesis by blast
qed simp


subsection \<open>Bindings\<close>

text \<open>Active agents and active attachments sit on active panes.\<close>

definition bindings_ok :: "registry \<Rightarrow> bool" where
  "bindings_ok g \<longleftrightarrow>
     list_all (\<lambda>a. ag_active a \<longrightarrow> active_pane (rg_panes g) (agent_pane_key a)) (rg_agents g) \<and>
     list_all (\<lambda>r. la_status r = Att_active \<longrightarrow> active_pane (rg_panes g) (la_pane_key r)) (rg_attachments g)"

lemma agents_after_scan:
  assumes "a \<in> set (cascade_agents_active_from_pane ks (update_last_seen_at us now agents))"
  obtains b where "b \<in> set agents" "agent_pane_key a = agent_pane_key b" "ag_agent_id a = ag_agent_id b"
    "ag_active a \<longleftrightarrow> ag_active b \<and> agent_pane_key b \<notin> set ks"
  using assms
  by (auto simp: cascade_agents_active_from_pane_def update_last_seen_at_def update_where_def agent_pane_key_def
      split: if_splits)

lemma attachments_after_scan:
  assumes "r \<in> set (rg_attachments (snd (cascade_to_stale_for_panes ks now g)))" "la_status r = Att_active"
  shows "r \<in> set (rg_attachments g) \<and> la_pane_key r \<notin> set ks"
  using assms
  by (auto simp: cascade_to_stale_for_panes_def Let_def update_where_def select_actives_for_pane_def split: if_splits)

lemma apply_pane_scan_bindings:
  assumes "bindings_ok g" "list_all pn_active (pw_upserts ws)"
  shows "bindings_ok (snd (apply_pane_scan now ws g))"
proof -
  let ?g = "snd (apply_pane_scan now ws g)"
  have panes: "rg_panes ?g = apply_pane_reconcile_writeset now ws (rg_panes g)"
    and agents: "rg_agents ?g = cascade_agents_active_from_pane (pw_inactivate ws)
            (update_last_seen_at (map pn_key (pw_upserts ws)) now (rg_agents g))"
    by (simp_all add: apply_pane_scan_def cascade_to_stale_for_panes_def Let_def)
  have stay: "active_pane (rg_panes ?g) k" if "active_pane (rg_panes g) k" "k \<notin> set (pw_inactivate ws)" for k
    using that by (simp add: panes active_apply_writeset [OF assms(2)])
  have "active_pane (rg_panes ?g) (agent_pane_key a)" if a: "a \<in> set (rg_agents ?g)" "ag_active a" for a
  proof -
    obtain b where "b \<in> set (rg_agents g)" "agent_pane_key a = agent_pane_key b" "ag_active b"
      "agent_pane_key b \<notin> set (pw_inactivate ws)"
      using a agents_after_scan [OF a(1) [unfolded agents]] by metis
    with assms(1) stay show ?thesis by (simp add: bindings_ok_def list_all_iff)
  qed
  moreover have "active_pane (rg_panes ?g) (la_pane_key r)" if r: "r \<in> set (rg_attachments ?g)" "la_status r = Att_active" for r
  proof -
    have "r \<in> set (rg_attachments g)" "la_pane_key r \<notin> set (pw_inactivate ws)"
      using attachments_after_scan [OF r [unfolded apply_pane_scan_def]] by simp_all
    with assms(1) r(2) stay show ?thesis by (simp add: bindings_ok_def list_all_iff)
  qed
  ultimately show ?thesis by (simp add: bindings_ok_def list_all_iff)
qed

lemma pane_scan_keeps_bindings:
  assumes "scan_for_container e f w = (r, w')" "bindings_ok (sw_registry w)"
  shows "bindings_ok (sw_registry w')"
  using assms(1)
proof (cases rule: scan_for_container_cases)
  case (committed ga)
  with assms(2) show ?thesis
    unfolding committed(2) by (intro apply_pane_scan_bindings) (simp_all add: scan_write_set_def upserts_active)
qed (use assms(2) in simp)

lemma pane_scan_keeps_keys:
  assumes "scan_for_container e f w = (r, w')" "panes_ok (sw_registry w)"
  shows "panes_ok (sw_registry w') \<and> rg_containers (sw_registry w') = rg_containers (sw_registry w)"
  using assms(1)
proof (cases rule: scan_for_container_cases)
  case (committed ga)
  then show ?thesis
    using assms(2) by (simp add: panes_ok_def apply_pane_scan_def cascade_to_stale_for_panes_def Let_def apply_writeset_keys)
qed (use assms(2) in simp)

subsection \<open>A container without sockets\<close>

definition no_sockets :: "pane_scan_env \<Rightarrow> string \<Rightarrow> bool" where
  "no_sockets e c \<longleftrightarrow>
     (\<forall>user uid. list_socket_dir (pa_tmux e) c user uid = Inr \<lparr>sl_container_id = c, sl_uid = uid, sl_sockets = []\<rparr>)"

lemma scan_one_container_empty:
  "no_sockets e c \<Longrightarrow> scan_one_container e c user = Inr st \<Longrightarrow> ct_outcomes st = []"
  by (auto simp: no_sockets_def scan_one_container_def unavailable_state_def split: sum.splits option.splits)

lemma gather_no_sockets:
  assumes "gather_containers e rows ga = Inr ga'" "no_sockets e c" "c \<notin> fst ` fst ` set (pg_results ga)"
  shows "c \<notin> fst ` fst ` set (pg_results ga')"
  using assms
proof (induction rows arbitrary: ga)
  case (Cons r rows)
  obtain c' name cu where r: "r = (c', name, cu)" by (cases r)
  show ?case
  proof (cases "resolve_bench_user cu e")
    case None
    from Cons.prems(1) r None obtain ga1 where g: "gather_containers e rows ga1 = Inr ga'" "pg_results ga1 = pg_results ga" by simp
    show ?thesis by (rule Cons.IH [OF g(1) Cons.prems(2)]) (simp add: g(2) Cons.prems(3))
  next
    case (Some user)
    with Cons.prems r obtain st where st: "scan_one_container e c' user = Inr st" by (auto split: sum.splits)
    let ?res = "fold (\<lambda>(k, v). AList.update k v) (ct_outcomes st) (pg_results ga)"
    from Cons.prems(1) r Some st obtain ga1 where g: "gather_containers e rows ga1 = Inr ga'" "pg_results ga1 = ?res" by simp
    have "fst ` fst ` set ?res = fst ` fst ` set (pg_results ga) \<union> fst ` fst ` set (ct_outcomes st)"
      by (simp only: keys_fold_update(2) image_Un)
    moreover have "c \<notin> fst ` fst ` set (ct_outcomes st)"
    proof (cases "c' = c")
      case True
      with scan_one_container_empty [OF Cons.prems(2)] st show ?thesis by simp
    next
      case False
      with scan_one_container_keys [OF st] show ?thesis by (auto simp: keyed_by_def)
    qed
    ultimately show ?thesis using Cons.prems(3) by (intro Cons.IH [OF g(1) Cons.prems(2)]) (simp add: g(2))
  qed
qed simp

text \<open>
  C37: the panes of an active container whose socket directory is empty, because its last tmux server has
  ended, stay active through every scan: none of the steps of the reconciliation gives them up.
\<close>

theorem empty_socket_dir_keeps_panes:
  assumes "scan_for_container e f w = (Inr row, w')" "containers_ok (sw_registry w)" "no_sockets e c"
    and "c \<in> active_container_ids w" "key_container k = c"
  shows "active_pane (rg_panes (sw_registry w')) k \<longleftrightarrow> active_pane (rg_panes (sw_registry w)) k"
proof -
  obtain ga where ga: "scan_gather e f w = Inr ga"
    and out: "\<And>k. active_pane (rg_panes (sw_registry w')) k \<longleftrightarrow>
       k \<in> listed_panes ga (pa_started_at e) \<or>
       active_pane (rg_panes (sw_registry w)) k \<and> \<not> given_up ga (scan_cascade f w) k"
    using scan_outcome_of [OF assms(1,2)] by blast
  have none: "c \<notin> fst ` fst ` set (pg_results ga)"
    using gather_no_sockets [OF ga [unfolded scan_gather_def] assms(3)] by (simp add: nothing_gathered_def)
  then have m: "map_of (pg_results ga) (key_container k, key_socket k) = None"
    unfolding assms(5) by (rule no_result_of_container)
  have "c \<notin> set (scan_cascade f w)"
  proof
    assume "c \<in> set (scan_cascade f w)"
    then obtain r where r: "r \<in> set (rg_containers (sw_registry w))" "\<not> cn_active r" "cn_container_id r = c"
      by (auto simp: scan_cascade_def select_inactive_container_ids_with_panes_def)
    from assms(4) obtain q where q: "q \<in> set (rg_containers (sw_registry w))" "cn_active q" "cn_container_id q = c"
      by (auto simp: active_container_ids_def select_active_container_ids_def)
    from r q assms(2) have "r = q" by (auto simp: containers_ok_def distinct_map inj_on_def)
    with r q show False by simp
  qed
  with m none have "\<not> given_up ga (scan_cascade f w) k" by (simp add: given_up_def assms(5))
  moreover have "k \<notin> listed_panes ga (pa_started_at e)"
    using listed_socket [OF scan_gather_disjoint(1) [OF ga assms(2)], of k] m by auto
  ultimately show ?thesis by (simp add: out)
qed

subsection \<open>Sample runs\<close>

definition sample_pane_row :: "string \<Rightarrow> pane_row" where
  "sample_pane_row c =
     \<lparr>pn_key = (c, ''/tmp/tmux-1000/default'', ''main'', 0, 0, ''%0''), pn_container_name = ''bench-'' @ c,
      pn_container_user = ''dev'', pn_pane_pid = 1, pn_pane_tty = ''/dev/pts/0'', pn_pane_current_command = ''bash'',
      pn_pane_current_path = ''/'', pn_pane_title = [], pn_pane_active = True, pn_active = True, pn_first_seen_at = ''t0'',
      pn_last_scanned_at = ''t0''\<rparr>"

definition sample_pane_world :: scan_world where
  "sample_pane_world = set_registry ((sw_registry sample_scan_world)\<lparr>rg_panes := [sample_pane_row ''b'', sample_pane_row ''z'']\<rparr>)
     sample_scan_world"

text \<open>Container \<open>b\<close> lists two panes on one socket; container \<open>z\<close> has an empty socket directory.\<close>

definition sample_pane_tmux :: tmux_env where
  "sample_pane_tmux =
     \<lparr>tx_docker = Some ''docker'',
      tx_run = (\<lambda>args _. Completed 0
        (if ''ls'' \<in> set args then (if ''z'' \<in> set args then [] else stream_bytes (cps (''default'' @ [CHR 0x0A])))
         else if ''id'' \<in> set args then stream_bytes (cps (''1000'' @ [CHR 0x0A]))
         else stream_bytes (panes_text sample_panes)) []),
      tx_digits = ascii_digits\<rparr>"

definition sample_pane_env :: pane_scan_env where
  "sample_pane_env =
     \<lparr>pa_tmux = sample_pane_tmux, pa_env_user = Some ''dev'', pa_pw_name = None, pa_scan_id = ''p1'', pa_started_at = ''t1'',
      pa_completed_at = ''t2'', pa_started_error = None, pa_completed_error = None, pa_begin_error = None,
      pa_commit_error = None, pa_audit_error = None, pa_attachment_audit_error = (\<lambda>_. None), pa_daemon_uid = 1000\<rparr>"

definition sample_pane_scan :: "(adapter_exc + pane_scan_row) \<times> scan_world" where
  "sample_pane_scan = scan_for_container sample_pane_env None sample_pane_world"

lemma sample_pane_scan_returns:
  obtains row where "scan_for_container sample_pane_env None sample_pane_world = (Inr row, snd sample_pane_scan)"
proof -
  have "case fst sample_pane_scan of Inr _ \<Rightarrow> True | Inl _ \<Rightarrow> False" by code_simp
  then show ?thesis
    by (cases sample_pane_scan; cases "fst sample_pane_scan") (simp_all add: sample_pane_scan_def that)
qed

lemma sample_pane_world_ok: "containers_ok (sw_registry sample_pane_world)"
  by code_simp


theorem empty_socket_dir_keeps_panes_witness:
  "''z'' \<in> active_container_ids sample_pane_world \<and>
   active_pane (rg_panes (sw_registry (snd sample_pane_scan))) (pn_key (sample_pane_row ''z''))"
proof -
  obtain row where run: "scan_for_container sample_pane_env None sample_pane_world = (Inr row, snd sample_pane_scan)"
    by (rule sample_pane_scan_returns)
  have "text_stream [] = Some []" by code_simp
  then have none: "no_sockets sample_pane_env ''z''"
    by (simp add: no_sockets_def sample_pane_env_def sample_pane_tmux_def list_socket_dir_def run_text_def run_process_def
        resolve_docker_def exec_args_def parse_socket_listing_def)
  have act: "''z'' \<in> active_container_ids sample_pane_world" unfolding active_container_ids_def by code_simp
  have k: "key_container (pn_key (sample_pane_row ''z'')) = ''z''" by (simp add: sample_pane_row_def)
  have "active_pane (rg_panes (sw_registry sample_pane_world)) (pn_key (sample_pane_row ''z''))" by code_simp
  with empty_socket_dir_keeps_panes [OF run sample_pane_world_ok none act k] act show ?thesis by simp
qed

end
