(* ===== verification/Registry_System.thy ===== *)
theory Registry_System
  imports Agent_Facts Pane_Scan_Facts
begin

text \<open>
  The registry as a whole: containers and panes come and go with the scans, agents are registered and
  changed, logs are attached, detached and lost, in any order. Every operation is one step; its own
  transaction makes it atomic on the tables.
\<close>

subsection \<open>The invariant\<close>

text \<open>An attachment belongs to an agent and to that agent's pane.\<close>

definition attachments_bound :: "registry \<Rightarrow> bool" where
  "attachments_bound g \<longleftrightarrow>
     list_all (\<lambda>r. list_ex (\<lambda>a. ag_agent_id a = la_agent_id r \<and> agent_pane_key a = la_pane_key r) (rg_agents g)) (rg_attachments g)"

definition registry_inv :: "registry \<Rightarrow> bool" where
  "registry_inv g \<longleftrightarrow> agents_ok (rg_agents g) \<and> containers_ok g \<and> panes_ok g \<and> attachments_ok (rg_attachments g) \<and>
     attachments_bound g \<and> bindings_ok g"

lemma registry_invD:
  assumes "registry_inv g"
  shows "agents_ok (rg_agents g)" "containers_ok g" "panes_ok g" "attachments_ok (rg_attachments g)"
    "attachments_bound g" "bindings_ok g"
  using assms by (simp_all add: registry_inv_def)

lemma boundD:
  "attachments_bound g \<Longrightarrow> r \<in> set (rg_attachments g) \<Longrightarrow>
     \<exists>a \<in> set (rg_agents g). ag_agent_id a = la_agent_id r \<and> agent_pane_key a = la_pane_key r"
  by (simp add: attachments_bound_def list_all_iff list_ex_iff)

lemma bindings_okD:
  assumes "bindings_ok g"
  shows "a \<in> set (rg_agents g) \<Longrightarrow> ag_active a \<Longrightarrow> active_pane (rg_panes g) (agent_pane_key a)"
    "r \<in> set (rg_attachments g) \<Longrightarrow> la_status r = Att_active \<Longrightarrow> active_pane (rg_panes g) (la_pane_key r)"
  using assms by (simp_all add: bindings_ok_def list_all_iff)

subsection \<open>Changes of the agents\<close>

lemma inv_agents_update:
  assumes "registry_inv g" "\<And>a. ag_agent_id (f a) = ag_agent_id a" "\<And>a. agent_pane_key (f a) = agent_pane_key a"
    and "\<And>a. a \<in> set (rg_agents g) \<Longrightarrow> P a \<Longrightarrow> agent_ok (rg_agents g) (f a)"
    and "\<And>a. a \<in> set (rg_agents g) \<Longrightarrow> P a \<Longrightarrow> ag_active (f a) \<Longrightarrow> active_pane (rg_panes g) (agent_pane_key a)"
  shows "registry_inv (g\<lparr>rg_agents := update_where P f (rg_agents g)\<rparr>)"
proof -
  note d = registry_invD [OF assms(1)]
  have key: "\<exists>b \<in> set (update_where P f (rg_agents g)). ag_agent_id b = ag_agent_id a \<and> agent_pane_key b = agent_pane_key a"
    if "a \<in> set (rg_agents g)" for a
    using that assms(2,3) by (cases "P a") (auto simp: set_update_where)
  have "attachments_bound (g\<lparr>rg_agents := update_where P f (rg_agents g)\<rparr>)"
    unfolding attachments_bound_def list_all_iff list_ex_iff
  proof
    fix r assume "r \<in> set (rg_attachments (g\<lparr>rg_agents := update_where P f (rg_agents g)\<rparr>))"
    then obtain a where a: "a \<in> set (rg_agents g)" "ag_agent_id a = la_agent_id r" "agent_pane_key a = la_pane_key r"
      using boundD [OF d(5)] by auto
    from key [OF a(1)] a(2,3)
    show "\<exists>a \<in> set (rg_agents (g\<lparr>rg_agents := update_where P f (rg_agents g)\<rparr>)).
        ag_agent_id a = la_agent_id r \<and> agent_pane_key a = la_pane_key r" by simp
  qed
  moreover have "active_pane (rg_panes g) (agent_pane_key a)" if "a \<in> set (update_where P f (rg_agents g))" "ag_active a" for a
    using that(1)
  proof (rule in_update_where_cases)
    assume "a \<in> set (rg_agents g)"
    then show ?thesis using bindings_okD(1) [OF d(6)] that(2) by simp
  next
    fix b assume "b \<in> set (rg_agents g)" "P b" "a = f b"
    then show ?thesis using assms(3,5) [of b] that(2) by simp
  qed
  then have "bindings_ok (g\<lparr>rg_agents := update_where P f (rg_agents g)\<rparr>)"
    using bindings_okD(2) [OF d(6)] by (simp add: bindings_ok_def list_all_iff)
  ultimately show ?thesis
    using d agents_ok_update [OF d(1) assms(2,3,4)]
    by (simp add: registry_inv_def containers_ok_def panes_ok_def)
qed

lemma bound_pane_active:
  "select_active_for_bound_pane g k = Some (True, True) \<Longrightarrow> active_pane (rg_panes g) k"
  unfolding select_active_for_bound_pane_def active_pane_def list_ex_iff
  by (cases "lookup_row pn_key k (rg_panes g)") (auto dest: lookup_row_SomeD)

lemma inv_register_rows:
  assumes "registry_inv g" "register_rows e x g = Inr w" "args_ok x"
  shows "registry_inv (g\<lparr>rg_agents := rw_agents w\<rparr>)"
    and "select_agent_by_id (rw_agents w) (rw_agent_id w) = Some a \<Longrightarrow> active_pane (rg_panes g) (agent_pane_key a)"
proof -
  note d = registry_invD [OF assms(1)]
  have ok: "agents_ok (rw_agents w)" by (rule register_rows_ok [OF assms(2,3) d(1)])
  have both: "registry_inv (g\<lparr>rg_agents := rw_agents w\<rparr>) \<and>
      (\<exists>b \<in> set (rw_agents w). ag_agent_id b = rw_agent_id w \<and> active_pane (rg_panes g) (agent_pane_key b))"
    using assms(2,3)
  proof (cases rule: register_rows_cases)
    case (created b)
    have act: "active_pane (rg_panes g) (agent_pane_key b)" using bound_pane_active [OF created(10)] created(3) by simp
    have "attachments_bound (g\<lparr>rg_agents := rw_agents w\<rparr>)"
      using d(5) created(1) by (auto simp: attachments_bound_def list_all_iff)
    moreover have "bindings_ok (g\<lparr>rg_agents := rw_agents w\<rparr>)" using d(6) act created(1) by (simp add: bindings_ok_def)
    ultimately have "registry_inv (g\<lparr>rg_agents := rw_agents w\<rparr>)"
      using d ok by (simp add: registry_inv_def containers_ok_def panes_ok_def)
    with act created(1,2) show ?thesis by auto
  next
    case (updated old role cap label path perms)
    let ?f = "\<lambda>a. a\<lparr>ag_role := role, ag_capability := cap, ag_label := label, ag_project_path := path,
        ag_effective_permissions := perms, ag_last_registered_at := ge_now e, ag_active := True\<rparr>"
    have one: "a = old" if "a \<in> set (rg_agents g)" "ag_agent_id a = ag_agent_id old" for a
      using that updated(1) agents_okD(1) [OF d(1)] by (auto simp: distinct_map inj_on_def)
    have act: "active_pane (rg_panes g) (agent_pane_key old)" using bound_pane_active [OF updated(11)] updated(2) by simp
    have rows: "rw_agents w = update_where (\<lambda>a. ag_agent_id a = ag_agent_id old) ?f (rg_agents g)"
      by (simp add: updated(3) update_agent_mutable_fields_def)
    have in_rows: "?f old \<in> set (rw_agents w)" using updated(1) by (auto simp: rows set_update_where)
    have "agent_ok (rg_agents g) (?f a)" if "a \<in> set (rg_agents g)" "ag_agent_id a = ag_agent_id old" for a
    proof (rule agent_ok_mono)
      have "?f a = ?f old" using one [OF that] by simp
      then show "agent_ok (rw_agents w) (?f a)" using agents_okD(3) [OF ok in_rows] by simp
      show "set (map ag_agent_id (rw_agents w)) \<subseteq> set (map ag_agent_id (rg_agents g))"
        unfolding rows by (simp add: map_key_update_where flip: set_map)
    qed
    then have "registry_inv (g\<lparr>rg_agents := rw_agents w\<rparr>)"
      unfolding rows using act one by (intro inv_agents_update [OF assms(1)]) (auto simp: agent_pane_key_def)
    moreover have "agent_pane_key (?f old) = agent_pane_key old" by (simp add: agent_pane_key_def)
    ultimately show ?thesis using in_rows act updated(4) by (intro conjI bexI [of _ "?f old"]) simp_all
  qed
  then show "registry_inv (g\<lparr>rg_agents := rw_agents w\<rparr>)" by simp
  from both obtain b where b: "b \<in> set (rw_agents w)" "ag_agent_id b = rw_agent_id w" "active_pane (rg_panes g) (agent_pane_key b)"
    by blast
  assume "select_agent_by_id (rw_agents w) (rw_agent_id w) = Some a"
  then have "a = b" using lookup_row_unique [OF agents_okD(1) [OF ok] b(1)] b(2) by (simp add: select_agent_by_id_def)
  with b show "active_pane (rg_panes g) (agent_pane_key a)" by simp
qed

subsection \<open>Changes of the attachments\<close>

lemma inv_attach:
  assumes "registry_inv g" "attach_evolves a g g'" "a \<in> set (rg_agents g)" "active_pane (rg_panes g) (agent_pane_key a)"
  shows "registry_inv g'"
proof -
  note d = registry_invD [OF assms(1)]
  have same: "rg_agents g' = rg_agents g" "rg_panes g' = rg_panes g" "rg_containers g' = rg_containers g"
      "attachments_ok (rg_attachments g')"
    and from_old: "la_agent_id r' = ag_agent_id a \<and> la_pane_key r' = agent_pane_key a \<or>
       (\<exists>r \<in> set (rg_attachments g). same_row r r' \<and> (la_status r' = Att_active \<longrightarrow> la_status r = Att_active \<or> la_agent_id r = ag_agent_id a))"
    if "r' \<in> set (rg_attachments g')" for r'
    using assms(2) that by (simp_all add: attach_evolves_def list_all_iff list_ex_iff)
  have tables: "rg_agents g' = rg_agents g" "rg_panes g' = rg_panes g" "rg_containers g' = rg_containers g"
    "attachments_ok (rg_attachments g')" using assms(2) by (simp_all add: attach_evolves_def)
  have owner: "la_pane_key r = agent_pane_key a" if r: "r \<in> set (rg_attachments g)" "la_agent_id r = ag_agent_id a" for r
  proof -
    obtain b where b: "b \<in> set (rg_agents g)" "ag_agent_id b = la_agent_id r" "agent_pane_key b = la_pane_key r"
      using boundD [OF d(5) r(1)] by blast
    then have "b = a" using r(2) assms(3) agents_okD(1) [OF d(1)] by (auto simp: distinct_map inj_on_def)
    with b show ?thesis by simp
  qed
  have "\<exists>b \<in> set (rg_agents g). ag_agent_id b = la_agent_id r' \<and> agent_pane_key b = la_pane_key r'"
    if "r' \<in> set (rg_attachments g')" for r'
    using from_old [OF that] assms(3) boundD [OF d(5)] unfolding same_row_def by metis
  moreover have "active_pane (rg_panes g) (la_pane_key r')" if "r' \<in> set (rg_attachments g')" "la_status r' = Att_active" for r'
    using from_old [OF that(1)] that(2) assms(4) owner bindings_okD(2) [OF d(6)] unfolding same_row_def by metis
  ultimately show ?thesis
    using d tables by (simp add: registry_inv_def containers_ok_def panes_ok_def attachments_bound_def bindings_ok_def
        list_all_iff list_ex_iff)
qed

text \<open>Rows that change their status to another one than active.\<close>

lemma inv_attachments:
  assumes "registry_inv g" "attachments_ok rows"
    and "\<And>r'. r' \<in> set rows \<Longrightarrow> \<exists>r \<in> set (rg_attachments g). same_row r r' \<and> (la_status r' = Att_active \<longrightarrow> la_status r = Att_active)"
  shows "registry_inv (g\<lparr>rg_attachments := rows\<rparr>)"
proof -
  note d = registry_invD [OF assms(1)]
  have "\<exists>b \<in> set (rg_agents g). ag_agent_id b = la_agent_id r' \<and> agent_pane_key b = la_pane_key r'" if "r' \<in> set rows" for r'
    using assms(3) [OF that] boundD [OF d(5)] unfolding same_row_def by metis
  moreover have "active_pane (rg_panes g) (la_pane_key r')" if "r' \<in> set rows" "la_status r' = Att_active" for r'
    using assms(3) [OF that(1)] that(2) bindings_okD(2) [OF d(6)] unfolding same_row_def by metis
  ultimately show ?thesis
    using d assms(2) by (simp add: registry_inv_def containers_ok_def panes_ok_def attachments_bound_def bindings_ok_def
        list_all_iff list_ex_iff)
qed

lemma inv_offsets [simp]: "registry_inv (g\<lparr>rg_offsets := os\<rparr>) \<longleftrightarrow> registry_inv g"
  by (simp add: registry_inv_def containers_ok_def panes_ok_def attachments_bound_def bindings_ok_def)

lemma inv_reset [simp]: "registry_inv (lo_reset a p i n t g) \<longleftrightarrow> registry_inv g"
  by (simp add: lo_reset_def lo_update_def)

lemma inv_update_status:
  assumes "registry_inv g" "la_update_status i st now x y g = Inr g'" "st \<noteq> Att_active"
  shows "registry_inv g'"
proof -
  have "g' = g\<lparr>rg_attachments := rg_attachments g'\<rparr>" using assms(2) by (auto simp: la_update_status_def Let_def split: if_splits)
  moreover have "registry_inv (g\<lparr>rg_attachments := rg_attachments g'\<rparr>)"
  proof (rule inv_attachments [OF assms(1) la_update_status_evolves(4) [OF assms(2)]])
    fix r' assume "r' \<in> set (rg_attachments g')"
    from la_update_status_from [OF assms(2) this] assms(3)
    show "\<exists>r \<in> set (rg_attachments g). same_row r r' \<and> (la_status r' = Att_active \<longrightarrow> la_status r = Att_active)" by auto
  qed
  ultimately show ?thesis by simp
qed

subsection \<open>The methods\<close>

lemma inv_register_agent [keeps_inv]:
  assumes "registry_inv (reg s)"
  shows "registry_inv (reg (snd (register_agent e params s)))"
proof -
  obtain q s' where run: "register_agent e params s = (q, s')" by fastforce
  show ?thesis
  proof (cases q)
    case (Inl err)
    then show ?thesis
      by (cases rule: register_agent_cases [of e params s]) (use run assms in simp_all)
  next
    case (Inr r)
    obtain x w a where x: "register_params e params = Inr x" "register_rows e x (reg s) = Inr w"
      "select_agent_by_id (rw_agents w) (rw_agent_id w) = Some a" "attach_evolves a ((reg s)\<lparr>rg_agents := rw_agents w\<rparr>) (reg s')"
      using register_agent_reg [OF run [unfolded Inr] registry_invD(4) [OF assms]] by blast
    note w = inv_register_rows [OF assms x(2) register_params_ok [OF x(1)]]
    have "a \<in> set (rw_agents w)" using lookup_row_SomeD [OF x(3) [unfolded select_agent_by_id_def]] by simp
    with inv_attach [OF w(1) x(4)] w(2) [OF x(3)] run show ?thesis by simp
  qed
qed

lemma inv_set_role [keeps_inv]:
  assumes "registry_inv (reg s)"
  shows "registry_inv (reg (snd (set_role e params s)))"
proof (cases rule: set_role_cases [of e params s])
  case (changed i role confirm perms fresh r)
  note p = set_role_params_Inr [OF changed(1)] and f = set_role_rows_Some [OF changed(3)] and d = registry_invD [OF assms]
  have one: "a = fresh" if "a \<in> set (rg_agents (reg s))" "ag_agent_id a = i" for a
    using that f(1,2) agents_okD(1) [OF d(1)] by (auto simp: distinct_map inj_on_def)
  have "registry_inv ((reg s)\<lparr>rg_agents := update_agent_role i role perms (rg_agents (reg s))\<rparr>)"
    unfolding update_agent_role_def
  proof (rule inv_agents_update [OF assms])
    fix a assume a: "a \<in> set (rg_agents (reg s))" "ag_agent_id a = i"
    then show "agent_ok (rg_agents (reg s)) (a\<lparr>ag_role := role, ag_effective_permissions := perms\<rparr>)"
      using agents_okD(3) [OF d(1) a(1)] p(3,4) changed(2) by (simp add: agent_ok_def)
    show "active_pane (rg_panes (reg s)) (agent_pane_key a)"
      using bindings_okD(1) [OF d(6) f(1,3)] one [OF a] by simp
  qed (simp_all add: agent_pane_key_def)
  then show ?thesis by (simp add: changed(4))
qed (use assms in simp_all)

lemma inv_set_field:
  assumes "registry_inv (reg s)"
    and "\<And>raw i v g. registry_inv g \<Longrightarrow> check raw = Inr v \<Longrightarrow> registry_inv (g\<lparr>rg_agents := update i v (rg_agents g)\<rparr>)"
  shows "registry_inv (reg (snd (set_field e allowed field check get update params s)))"
  by (cases rule: set_field_cases [of e allowed field check get update params s]) (use assms in auto)

lemma inv_set_label [keeps_inv]: "registry_inv (reg s) \<Longrightarrow> registry_inv (reg (snd (set_label e params s)))"
  unfolding set_label_def
proof (rule inv_set_field)
  fix i v and g :: registry
  assume g: "registry_inv g"
  note d = registry_invD [OF g]
  show "registry_inv (g\<lparr>rg_agents := update_agent_label i v (rg_agents g)\<rparr>)"
    unfolding update_agent_label_def
    using agents_okD(3) [OF d(1)] bindings_okD(1) [OF d(6)]
    by (intro inv_agents_update [OF g]) (auto simp: agent_pane_key_def agent_ok_def)
qed

lemma inv_set_capability [keeps_inv]: "registry_inv (reg s) \<Longrightarrow> registry_inv (reg (snd (set_capability e params s)))"
  unfolding set_capability_def
proof (rule inv_set_field)
  fix raw i v and g :: registry
  assume g: "registry_inv g" and v: "validate_capability raw = Inr v"
  note d = registry_invD [OF g]
  show "registry_inv (g\<lparr>rg_agents := update_agent_capability i v (rg_agents g)\<rparr>)"
    unfolding update_agent_capability_def
    using agents_okD(3) [OF d(1)] bindings_okD(1) [OF d(6)] v
    by (intro inv_agents_update [OF g]) (auto simp: agent_pane_key_def agent_ok_def validate_capability_def member_of_Inr)
qed

lemma resolve_agent_Inr:
  assumes "resolve_agent e g i = Inr (a, c)"
  shows "a \<in> set (rg_agents g)" "active_pane (rg_panes g) (agent_pane_key a)"
proof -
  have "resolve_active_agent g i = Inr a" and p: "require_active_pane g a = Inr ()"
    using assms by (auto simp: resolve_agent_def sum_bind_Inr_iff)
  then show "a \<in> set (rg_agents g)"
    using lookup_row_SomeD by (fastforce simp: resolve_active_agent_def select_agent_by_id_def split: option.splits if_splits)
  from p obtain r where r: "lookup_row pn_key (agent_pane_key a) (rg_panes g) = Some r" "pn_active r"
    by (auto simp: require_active_pane_def split: option.splits if_splits)
  then show "active_pane (rg_panes g) (agent_pane_key a)"
    using lookup_row_SomeD [OF r(1)] by (auto simp: active_pane_def list_ex_iff)
qed

lemma inv_attach_log [keeps_inv]:
  assumes "registry_inv (reg s)"
  shows "registry_inv (reg (snd (attach_log e params source dfr s)))"
proof -
  obtain q s' where run: "attach_log e params source dfr s = (q, s')" by fastforce
  show ?thesis
  proof (cases q)
    case (Inl err)
    with attach_log_failure [of e params source dfr s err s'] run assms show ?thesis by simp
  next
    case (Inr r)
    from run [unfolded Inr attach_log_def] obtain a c
      where res: "sum_bind (agent_param e attach_allowed_keys params) (resolve_agent e (reg s)) = Inr (a, c)"
        and bind: "svc_bind (resolve_attach_target e params a c) (\<lambda>proof. attach_log_locked e
            \<lparr>aa_agent = a, aa_user = ci_bench_user c, aa_proof = proof, aa_source = source,
             aa_defer_audit = dfr, aa_manage_transaction = True\<rparr>) s = (Inr r, s')"
      by (auto split: sum.splits prod.splits)
    from bind obtain p s1 where t: "resolve_attach_target e params a c s = (Inr p, s1)"
      and l: "attach_log_locked e \<lparr>aa_agent = a, aa_user = ci_bench_user c, aa_proof = p, aa_source = source,
             aa_defer_audit = dfr, aa_manage_transaction = True\<rparr> s1 = (Inr r, s')"
      by (auto simp: svc_bind_Inr_iff)
    have s1: "reg s1 = reg s" using resolve_attach_target_tables [OF t, of AssertionError] by simp
    have "attach_evolves a (reg s) (reg s')"
      using attach_log_locked_evolves [OF l] registry_invD(4) [OF assms] by (simp add: s1)
    moreover obtain i where "resolve_agent e (reg s) i = Inr (a, c)" using res by (auto simp: sum_bind_Inr_iff)
    ultimately have "registry_inv (reg s')" using inv_attach [OF assms] resolve_agent_Inr by blast
    with run show ?thesis by simp
  qed
qed

lemma inv_detach_log [keeps_inv]:
  assumes "registry_inv (reg s)"
  shows "registry_inv (reg (snd (detach_log e params s)))"
proof -
  obtain q s' where run: "detach_log e params s = (q, s')" by fastforce
  show ?thesis
  proof (cases q)
    case (Inl err)
    with detach_log_failure [of e params s err s'] run assms show ?thesis by simp
  next
    case (Inr r)
    from run [unfolded Inr] obtain a u where "detach_log_locked e a u s = (Inr r, s')"
      by (auto simp: detach_log_def split: sum.splits prod.splits)
    then obtain o' s1 where o': "detach_pipeline e a u s = (Inr (o', r), s1)" "reg s' = reg s1" by (rule detach_log_locked_tables)
    have "registry_inv (reg s1)"
      by (rule inv_update_status [OF assms detach_pipeline_tables(2) [OF o'(1)]]) simp
    with o'(2) run show ?thesis by simp
  qed
qed

subsection \<open>The scans and the reader\<close>

lemma persist_reconciled_scan_registry:
  assumes "persist_reconciled_scan e matching s f ignored w = (r, w')"
  shows "sw_registry w' = sw_registry w \<or>
    sw_registry w' = (sw_registry w)\<lparr>rg_containers :=
      apply_container_write_set (se_write_at e) (build_write_set (sw_registry w) matching s f) (rg_containers (sw_registry w))\<rparr>"
  using assms
  by (auto simp: persist_reconciled_scan_def Let_def dest!: commit_scan_row_registry emit_jsonl_registry
      split: sum.splits if_splits prod.splits option.splits)

lemma inv_containers:
  "registry_inv g \<Longrightarrow> containers_ok (g\<lparr>rg_containers := cs\<rparr>) \<Longrightarrow> registry_inv (g\<lparr>rg_containers := cs\<rparr>)"
  by (simp add: registry_inv_def containers_ok_def panes_ok_def attachments_bound_def bindings_ok_def)

lemma scan_containers_registry:
  assumes "scan_containers e running inspect w = (r, w')"
  obtains (unchanged) "sw_registry w' = sw_registry w"
  | (committed) matching s f where "sw_registry w' = (sw_registry w)\<lparr>rg_containers :=
      apply_container_write_set (se_write_at e) (build_write_set (sw_registry w) matching s f) (rg_containers (sw_registry w))\<rparr>"
proof -
  have "sw_registry w' = sw_registry w \<or> (\<exists>matching s f. sw_registry w' = (sw_registry w)\<lparr>rg_containers :=
      apply_container_write_set (se_write_at e) (build_write_set (sw_registry w) matching s f) (rg_containers (sw_registry w))\<rparr>)"
    using assms unfolding scan_containers_def Let_def
    by (auto dest: fail_scan_registry persist_reconciled_scan_registry split: option.splits sum.splits if_splits prod.splits)
  with that show thesis by blast
qed

lemma inv_scan_containers [keeps_inv]:
  assumes "registry_inv (sw_registry w)"
  shows "registry_inv (sw_registry (snd (scan_containers e running inspect w)))"
proof -
  obtain r w' where run: "scan_containers e running inspect w = (r, w')" by fastforce
  then show ?thesis
  proof (cases rule: scan_containers_registry)
    case (committed matching s f)
    then show ?thesis
      using inv_containers [OF assms apply_container_write_set_ok [OF registry_invD(2) [OF assms]]] run by simp
  qed (use assms run in simp)
qed

lemma attachments_ok_stale:
  assumes "attachments_ok rows"
  shows "attachments_ok (update_where P (\<lambda>r. r\<lparr>la_status := Att_stale, la_last_status_at := now\<rparr>) rows)"
  using assms unfolding attachments_ok_def
  by (intro conjI) (simp add: map_key_update_where, intro distinct_active_paths_update, simp_all)

lemma inv_apply_pane_scan:
  assumes "registry_inv g" "list_all pn_active (pw_upserts ws)" "panes_ok (snd (apply_pane_scan now ws g))"
  shows "registry_inv (snd (apply_pane_scan now ws g))"
proof -
  note d = registry_invD [OF assms(1)]
  let ?seen = "update_last_seen_at (map pn_key (pw_upserts ws)) now (rg_agents g)"
  let ?agents = "cascade_agents_active_from_pane (pw_inactivate ws) ?seen"
  have seen: "agents_ok ?seen"
    unfolding update_last_seen_at_def using agents_okD(3) [OF d(1)]
    by (intro agents_ok_update [OF d(1)]) (auto simp: agent_pane_key_def agent_ok_def)
  have agents: "agents_ok ?agents"
    unfolding cascade_agents_active_from_pane_def using agents_okD(3) [OF seen]
    by (intro agents_ok_update [OF seen]) (auto simp: agent_pane_key_def agent_ok_def)
  have pairs: "map (\<lambda>a. (ag_agent_id a, agent_pane_key a)) ?agents = map (\<lambda>a. (ag_agent_id a, agent_pane_key a)) (rg_agents g)"
    unfolding cascade_agents_active_from_pane_def update_last_seen_at_def
    by (simp add: map_key_update_where agent_pane_key_def)
  have g: "rg_agents (snd (apply_pane_scan now ws g)) = ?agents"
    "rg_containers (snd (apply_pane_scan now ws g)) = rg_containers g"
    by (simp_all add: apply_pane_scan_def cascade_to_stale_for_panes_def Let_def)
  obtain P where rows: "rg_attachments (snd (apply_pane_scan now ws g)) =
      update_where P (\<lambda>r. r\<lparr>la_status := Att_stale, la_last_status_at := now\<rparr>) (rg_attachments g)"
    by (simp add: apply_pane_scan_def cascade_to_stale_for_panes_def Let_def)
  have "\<exists>a \<in> set ?agents. ag_agent_id a = la_agent_id r' \<and> agent_pane_key a = la_pane_key r'"
    if member: "r' \<in> set (update_where P (\<lambda>r. r\<lparr>la_status := Att_stale, la_last_status_at := now\<rparr>) (rg_attachments g))" for r'
  proof -
    obtain r where r: "r \<in> set (rg_attachments g)" "la_agent_id r' = la_agent_id r" "la_pane_key r' = la_pane_key r"
      using member by (rule in_update_where_cases) auto
    obtain a where "a \<in> set (rg_agents g)" "ag_agent_id a = la_agent_id r" "agent_pane_key a = la_pane_key r"
      using boundD [OF d(5) r(1)] by blast
    then have "(la_agent_id r', la_pane_key r') \<in> set (map (\<lambda>a. (ag_agent_id a, agent_pane_key a)) ?agents)"
      unfolding pairs using r(2,3) by force
    then show ?thesis by auto
  qed
  then have "attachments_bound (snd (apply_pane_scan now ws g))"
    by (simp add: attachments_bound_def list_all_iff list_ex_iff g(1) rows)
  then show ?thesis
    using agents attachments_ok_stale [OF d(4)] apply_pane_scan_bindings [OF d(6) assms(2), of now] assms(3) d(2)
    by (simp add: registry_inv_def g rows containers_ok_def)
qed

lemma inv_scan_for_container [keeps_inv]:
  assumes "registry_inv (sw_registry w)"
  shows "registry_inv (sw_registry (snd (scan_for_container e f w)))"
proof -
  obtain r w' where run: "scan_for_container e f w = (r, w')" by fastforce
  then show ?thesis
  proof (cases rule: scan_for_container_cases)
    case (committed ga)
    have "panes_ok (sw_registry w')" using pane_scan_keeps_keys [OF run registry_invD(3) [OF assms]] by simp
    with committed assms have "registry_inv (sw_registry w')"
      unfolding committed(2) by (intro inv_apply_pane_scan) (simp_all add: scan_write_set_def upserts_active)
    with run show ?thesis by simp
  qed (use assms run in simp)
qed

lemma inv_recovery:
  assumes "registry_inv (lw_registry l)"
  shows "registry_inv (lw_registry (snd (reader_cycle_offset_recovery e a p now l)))"
proof -
  have missing: "registry_inv (lw_registry (snd (handle_missing e att off now l)))" for att off
  proof (cases "la_update_status (la_attachment_id att) Att_stale now None None (lw_registry l)")
    case (Inl x)
    then show ?thesis using assms by (simp add: handle_missing_def Let_def split: option.splits prod.splits)
  next
    case (Inr g)
    have "registry_inv g" using inv_update_status [OF assms Inr] by simp
    then show ?thesis using assms Inr by (simp add: handle_missing_def Let_def split: option.splits prod.splits sum.splits)
  qed
  have rotation: "registry_inv (lw_registry (snd (handle_rotation e att off st change now l)))" for att off st change
    using assms by (simp add: handle_rotation_def Let_def split: option.splits prod.splits)
  show ?thesis
    using assms missing rotation unfolding reader_cycle_offset_recovery_def
    by (simp add: Let_def split: option.splits attachment_status.splits prod.splits)
qed

subsection \<open>Lines that are not about a role\<close>

definition no_role_lines :: "log_world \<Rightarrow> log_world \<Rightarrow> bool" where
  "no_role_lines l l' \<longleftrightarrow> (\<exists>ls. lw_audit l' = map_option (\<lambda>rows. rows @ ls) (lw_audit l) \<and> list_all (\<lambda>x. \<not> role_line x) ls)"

definition log_state :: "log_world \<Rightarrow> service_state" where
  "log_state l = \<lparr>ss_log = l, ss_exec = []\<rparr>"

lemma no_role_lines_same: "lw_audit l' = lw_audit l \<Longrightarrow> no_role_lines l l'"
  by (auto simp: no_role_lines_def option.map_ident intro!: exI [of _ "[]"])

lemma no_role_lines_refl [simp]: "no_role_lines l l"
  by (simp add: no_role_lines_same)

lemma no_role_lines_trans: "no_role_lines l m \<Longrightarrow> no_role_lines m n \<Longrightarrow> no_role_lines l n"
  unfolding no_role_lines_def
  by (elim exE conjE, rule_tac x = "ls @ lsa" in exI) (simp add: option.map_comp comp_def)

lemma no_role_lines_append: "append_audit_line x line (lw_audit l) = Inr rows \<Longrightarrow> \<not> role_line line \<Longrightarrow> no_role_lines l (l'\<lparr>lw_audit := rows\<rparr>)"
  unfolding no_role_lines_def append_audit_line_def
  by (rule exI [of _ "[line]"]) (auto split: option.splits)

lemma no_role_lines_audited:
  assumes "no_role_lines l l'" "role_map (rg_agents (lw_registry l')) = role_map (rg_agents (lw_registry l))"
  shows "audited (log_state l) (log_state l')"
  using assms by (cases "lw_audit l") (auto simp: no_role_lines_def audited_def log_state_def role_history_silent)

lemma append_scan_line_no_role_lines: "append_scan_line x line w = Inr w' \<Longrightarrow> \<not> role_line line \<Longrightarrow> no_role_lines (sw_log w) (sw_log w')"
  by (auto simp: append_scan_line_def intro: no_role_lines_append split: sum.splits)

lemma emit_jsonl_no_role_lines: "emit_jsonl_degraded e c d w = (r, w') \<Longrightarrow> no_role_lines (sw_log w) (sw_log w')"
  by (auto simp: emit_jsonl_degraded_def dest!: append_scan_line_no_role_lines split: sum.splits exc.splits)

lemma emit_pane_scan_no_role_lines: "emit_pane_scan_degraded e c d w = (r, w') \<Longrightarrow> no_role_lines (sw_log w) (sw_log w')"
  by (auto simp: emit_pane_scan_degraded_def dest!: append_scan_line_no_role_lines split: sum.splits exc.splits)

lemma commit_scan_row_log: "commit_scan_row e r w = Inr w' \<Longrightarrow> sw_log w' = sw_log w"
  by (auto simp: commit_scan_row_def insert_container_scan_def split: option.splits if_splits)

lemma no_role_lines_set_registry [simp]: "no_role_lines (sw_log w) (sw_log (set_registry g w))"
  by (simp add: set_registry_def no_role_lines_same)

lemma fail_scan_no_role_lines: "fail_scan e m i x w = (r, w') \<Longrightarrow> no_role_lines (sw_log w) (sw_log w')"
proof (cases x)
  case (DockerError c)
  assume f: "fail_scan e m i x w = (r, w')"
  obtain q w1 where a: "record_whole_failure e m i c w = (q, w1)" by fastforce
  have "no_role_lines (sw_log w) (sw_log w1)"
    using a by (auto simp: record_whole_failure_def dest: emit_jsonl_no_role_lines commit_scan_row_log split: sum.splits)
      (metis commit_scan_row_log emit_jsonl_no_role_lines)
  with f show ?thesis by (auto simp: fail_scan_def DockerError a split: option.splits)
qed (auto simp: fail_scan_def)

lemma persist_reconciled_scan_no_role_lines:
  assumes "persist_reconciled_scan e matching s f ignored w = (r, w')"
  shows "no_role_lines (sw_log w) (sw_log w')"
proof -
  have step: "no_role_lines (sw_log w) (sw_log w2)" if "commit_scan_row e row (set_registry g w) = Inr w1" "emit_jsonl_degraded e c d w1 = (q, w2)"
    for row g w1 c d q w2
    using emit_jsonl_no_role_lines [OF that(2)] no_role_lines_set_registry [of w g] commit_scan_row_log [OF that(1)] by (metis no_role_lines_trans)
  have here: "no_role_lines (sw_log w) (sw_log w1)" if "commit_scan_row e row (set_registry g w) = Inr w1" for row g w1
    using commit_scan_row_log [OF that] by simp
  show ?thesis
    using assms unfolding persist_reconciled_scan_def Let_def
    by (auto intro: step here split: sum.splits if_splits prod.splits option.splits)
qed

lemma scan_containers_no_role_lines: "scan_containers e running inspect w = (r, w') \<Longrightarrow> no_role_lines (sw_log w) (sw_log w')"
  unfolding scan_containers_def Let_def
  by (auto dest: fail_scan_no_role_lines persist_reconciled_scan_no_role_lines split: option.splits sum.splits if_splits prod.splits)

lemma audit_stale_no_role_lines: "no_role_lines (sw_log w) (sw_log (audit_stale e r w))"
  by (auto simp: audit_stale_def no_role_lines_same dest!: append_scan_line_no_role_lines split: sum.splits)

lemma fold_audit_stale_no_role_lines: "no_role_lines (sw_log w) (sw_log (fold (audit_stale e) rs w))"
  by (induction rs arbitrary: w) (auto intro: no_role_lines_trans audit_stale_no_role_lines)

lemma handle_docker_unavailable_no_role_lines: "handle_docker_unavailable e w = (r, w') \<Longrightarrow> no_role_lines (sw_log w) (sw_log w')"
proof -
  have "no_role_lines (sw_log w) (sw_log w2)" if "insert_pane_scan row w = Inr w1" "emit_pane_scan_degraded e c d w1 = (q, w2)" for row w1 c d q w2
    using emit_pane_scan_no_role_lines [OF that(2)] that(1) by (auto simp: insert_pane_scan_def split: if_splits)
  then show "handle_docker_unavailable e w = (r, w') \<Longrightarrow> no_role_lines (sw_log w) (sw_log w')"
    by (auto simp: handle_docker_unavailable_def split: option.splits sum.splits if_splits)
qed

lemma commit_pane_scan_no_role_lines: "commit_pane_scan e ws row w = Inr w' \<Longrightarrow> no_role_lines (sw_log w) (sw_log w')"
proof -
  have "no_role_lines (sw_log w) (sw_log (fold (audit_stale e) rs w1))" if "insert_pane_scan row (set_registry g w) = Inr w1" for g rs w1
  proof -
    have "sw_log w1 = sw_log (set_registry g w)" using that by (auto simp: insert_pane_scan_def split: if_splits)
    then show ?thesis using no_role_lines_trans [OF no_role_lines_set_registry [of w g]] fold_audit_stale_no_role_lines [of w1 e rs] by simp
  qed
  then show "commit_pane_scan e ws row w = Inr w' \<Longrightarrow> no_role_lines (sw_log w) (sw_log w')"
    by (auto simp: commit_pane_scan_def split: option.splits sum.splits if_splits prod.splits)
qed

lemma scan_panes_locked_no_role_lines: "scan_panes_locked e f w = (r, w') \<Longrightarrow> no_role_lines (sw_log w) (sw_log w')"
  unfolding scan_panes_locked_def Let_def
  by (auto dest!: commit_pane_scan_no_role_lines emit_pane_scan_no_role_lines intro: no_role_lines_trans split: sum.splits if_splits prod.splits option.splits)

lemma scan_for_container_no_role_lines: "scan_for_container e f w = (r, w') \<Longrightarrow> no_role_lines (sw_log w) (sw_log w')"
  unfolding scan_for_container_def
  by (auto dest!: scan_panes_locked_no_role_lines handle_docker_unavailable_no_role_lines intro: no_role_lines_trans
      split: sum.splits if_splits prod.splits option.splits adapter_exc.splits)

lemma recovery_no_role_lines: "no_role_lines l (snd (reader_cycle_offset_recovery e a p now l))"
proof -
  have missing: "no_role_lines l (snd (handle_missing e att off now l))" for att off
    unfolding handle_missing_def append_log_attachment_change_def
    by (auto simp: Let_def no_role_lines_same intro: no_role_lines_append split: option.splits prod.splits sum.splits)
  have rotation: "no_role_lines l (snd (handle_rotation e att off st change now l))" for att off st change
    by (auto simp: handle_rotation_def Let_def no_role_lines_same split: option.splits prod.splits)
  show ?thesis
    using missing rotation unfolding reader_cycle_offset_recovery_def
    by (auto simp: Let_def no_role_lines_same split: option.splits attachment_status.splits prod.splits)
qed

section \<open>Histories of the daemon\<close>

text \<open>
  What changes the registry: the six methods of the socket that write it, a scan of the containers, a
  scan of the panes and the recovery of the reader. A history runs them one after the other, each to its end, failed ones
  included; the environment of an operation has everything that the clock, docker, tmux, the file
  system and the storage may answer. A scan that reads the tables while a method writes them is not a
  history of this kind.
\<close>

datatype registry_op =
    Op_register register_env json_object
  | Op_set_role register_env json_object
  | Op_set_label register_env json_object
  | Op_set_capability register_env json_object
  | Op_attach log_env json_object string bool
  | Op_detach log_env json_object
  | Op_scan_containers container_scan_env docker_env
  | Op_scan_panes pane_scan_env "string option"
  | Op_recover recovery_env string string timestamp

definition run_method :: "'a svc \<Rightarrow> scan_world \<Rightarrow> scan_world" where
  "run_method m w = w\<lparr>sw_log := ss_log (snd (m (log_state (sw_log w))))\<rparr>"

fun registry_apply :: "registry_op \<Rightarrow> scan_world \<Rightarrow> scan_world" where
  "registry_apply (Op_register e params) w = run_method (register_agent e params) w"
| "registry_apply (Op_set_role e params) w = run_method (set_role e params) w"
| "registry_apply (Op_set_label e params) w = run_method (set_label e params) w"
| "registry_apply (Op_set_capability e params) w = run_method (set_capability e params) w"
| "registry_apply (Op_attach e params source defer_audit) w = run_method (attach_log e params source defer_audit) w"
| "registry_apply (Op_detach e params) w = run_method (detach_log e params) w"
| "registry_apply (Op_scan_containers e d) w = snd (scan_containers e (list_running d) (inspect_containers d) w)"
| "registry_apply (Op_scan_panes e f) w = snd (scan_for_container e f w)"
| "registry_apply (Op_recover e a p now) w = w\<lparr>sw_log := snd (reader_cycle_offset_recovery e a p now (sw_log w))\<rparr>"

definition fresh_world :: scan_world where
  "fresh_world =
     \<lparr>sw_log = \<lparr>lw_registry = \<lparr>rg_agents = [], rg_containers = [], rg_panes = [], rg_attachments = [], rg_offsets = []\<rparr>,
        lw_lifecycle = \<lparr>lf_suppression = no_suppression, lf_log = []\<rparr>, lw_audit = Some []\<rparr>,
      sw_container_scans = [], sw_pane_scans = []\<rparr>"

definition run_history :: "registry_op list \<Rightarrow> scan_world" where
  "run_history ops = fold registry_apply ops fresh_world"

text \<open>The append of the line on a role does not fail.\<close>

fun role_audit_works :: "registry_op \<Rightarrow> bool" where
  "role_audit_works (Op_register e params) \<longleftrightarrow> ge_role_audit_error e = None"
| "role_audit_works (Op_set_role e params) \<longleftrightarrow> ge_role_audit_error e = None"
| "role_audit_works _ \<longleftrightarrow> True"

lemma run_method_registry: "sw_registry (run_method m w) = reg (snd (m (log_state (sw_log w))))"
  by (simp add: run_method_def sw_registry_def)

lemma log_state_reg [simp]: "reg (log_state (sw_log w)) = sw_registry w" "ss_log (log_state l) = l"
  by (simp_all add: log_state_def sw_registry_def)

lemma inv_registry_apply:
  assumes "registry_inv (sw_registry w)"
  shows "registry_inv (sw_registry (registry_apply op w))"
  using assms inv_recovery [of "sw_log w"]
  by (cases op) (simp_all add: run_method_registry keeps_inv sw_registry_def [of "sw_log_update _ _"]
      sw_registry_def [symmetric])

lemma inv_fresh_world: "registry_inv (sw_registry fresh_world)"
  by code_simp

lemma inv_fold:
  "registry_inv (sw_registry w) \<Longrightarrow> registry_inv (sw_registry (fold registry_apply ops w))"
  by (induction ops arbitrary: w) (simp_all add: inv_registry_apply)

lemma audited_log_state: "audited (log_state l) s \<Longrightarrow> audited (log_state l) (log_state (ss_log s))"
  by (auto simp: audited_def log_state_def split: option.splits)

lemma audited_method:
  "audited (log_state (sw_log w)) (snd (m (log_state (sw_log w)))) \<Longrightarrow>
   audited (log_state (sw_log w)) (log_state (sw_log (run_method m w)))"
  by (simp add: run_method_def audited_log_state)

lemma audited_trans: "audited s t \<Longrightarrow> audited t u \<Longrightarrow> audited s u"
  unfolding audited_def
  by (auto simp: role_history_append split: option.splits)

lemma framed_attach_log: "framed (attach_log e params source dfr)"
proof -
  have "frame s (snd (attach_log e params source dfr s))" for s
  proof (cases "sum_bind (agent_param e attach_allowed_keys params) (resolve_agent e (reg s))")
    case (Inr p)
    obtain a c where p: "p = (a, c)" by (cases p)
    have "framed (svc_bind (resolve_attach_target e params a c) (\<lambda>proof.
            attach_log_locked e \<lparr>aa_agent = a, aa_user = ci_bench_user c, aa_proof = proof, aa_source = source,
              aa_defer_audit = dfr, aa_manage_transaction = True\<rparr>))"
      by (intro framed_intros)
    then show ?thesis using Inr p by (simp add: attach_log_def framed_def)
  qed (simp add: attach_log_def)
  then show ?thesis by (simp add: framed_def)
qed

lemma framed_detach_pipeline: "framed (detach_pipeline e a user)"
  unfolding detach_pipeline_def Let_def
  by (intro framed_intros)

lemma framed_detach_log: "framed (detach_log e params)"
proof -
  have locked: "frame s (snd (detach_log_locked e a user s))" for a user s
  proof -
    obtain q s1 where p: "detach_pipeline e a user s = (q, s1)" by fastforce
    have f: "frame s s1" by (rule framedD [OF framed_detach_pipeline p])
    have undone: "frame s1 (put_registry (reg s) s1)" using f by (intro frame_put(2)) (simp add: frame_def)
    have aud: "frame s1 s2" if "svc_audit e c s1 = (z, s2)" for c z s2 by (rule framedD [OF framed_audit that])
    show ?thesis
    proof (cases q)
      case (Inl err)
      then show ?thesis using frame_trans [OF f undone] by (simp add: detach_log_locked_def p)
    next
      case (Inr x)
      then show ?thesis
        using f by (auto simp: detach_log_locked_def p Let_def split: prod.splits sum.splits
            intro: frame_trans aud frame_trans [OF aud frame_put(1)])
    qed
  qed
  show ?thesis unfolding framed_def by (auto simp: detach_log_def locked split: sum.splits)
qed

lemma role_map_apply_pane_scan: "role_map (rg_agents (snd (apply_pane_scan now ws g))) = role_map (rg_agents g)"
  by (simp add: apply_pane_scan_def cascade_to_stale_for_panes_def Let_def cascade_agents_active_from_pane_def
      update_last_seen_at_def role_map_keep)

lemma recovery_agents:
  "rg_agents (lw_registry (snd (reader_cycle_offset_recovery e a p now l))) = rg_agents (lw_registry l)"
proof -
  have missing: "rg_agents (lw_registry (snd (handle_missing e att off now l))) = rg_agents (lw_registry l)" for att off
    by (auto simp: handle_missing_def Let_def la_update_status_def split: option.splits prod.splits sum.splits if_splits)
  have rotation: "rg_agents (lw_registry (snd (handle_rotation e att off st change now l))) = rg_agents (lw_registry l)" for att off st change
    by (auto simp: handle_rotation_def Let_def lo_reset_def lo_update_def split: option.splits prod.splits)
  show ?thesis
    using missing rotation unfolding reader_cycle_offset_recovery_def
    by (simp add: Let_def split: option.splits attachment_status.splits prod.splits)
qed

lemma audited_registry_apply:
  assumes "registry_inv (sw_registry w)" "role_audit_works op"
  shows "audited (log_state (sw_log w)) (log_state (sw_log (registry_apply op w)))"
proof -
  have ok: "agents_ok (rg_agents (reg (log_state (sw_log w))))" using registry_invD(1) [OF assms(1)] by (simp add: sw_registry_def)
  have tables: "role_map (rg_agents (lw_registry (sw_log w'))) = role_map (rg_agents (lw_registry (sw_log w)))"
    if "rg_agents (sw_registry w') = rg_agents (sw_registry w)" for w'
    using that by (simp add: sw_registry_def)
  show ?thesis
  proof (cases op)
    case (Op_scan_containers e d)
    obtain r w' where run: "scan_containers e (list_running d) (inspect_containers d) w = (r, w')" by fastforce
    then have "rg_agents (sw_registry w') = rg_agents (sw_registry w)" by (cases rule: scan_containers_registry) simp_all
    from no_role_lines_audited [OF scan_containers_no_role_lines [OF run] tables [OF this]] show ?thesis by (simp add: Op_scan_containers run)
  next
    case (Op_scan_panes e f)
    obtain r w' where run: "scan_for_container e f w = (r, w')" by fastforce
    then have "role_map (rg_agents (sw_registry w')) = role_map (rg_agents (sw_registry w))"
      by (cases rule: scan_for_container_cases) (simp_all add: role_map_apply_pane_scan)
    with no_role_lines_audited [OF scan_for_container_no_role_lines [OF run]] show ?thesis
      by (simp add: Op_scan_panes run sw_registry_def)
  next
    case (Op_recover e a p now)
    have "rg_agents (lw_registry (snd (reader_cycle_offset_recovery e a p now (sw_log w)))) = rg_agents (lw_registry (sw_log w))"
      by (rule recovery_agents)
    with no_role_lines_audited [OF recovery_no_role_lines] show ?thesis by (simp add: Op_recover)
  next
    case (Op_attach e params source dfr)
    show ?thesis using framed_attach_log unfolding Op_attach registry_apply.simps
      by (intro audited_method frame_audited) (simp add: framed_def)
  next
    case (Op_detach e params)
    show ?thesis using framed_detach_log unfolding Op_detach registry_apply.simps
      by (intro audited_method frame_audited) (simp add: framed_def)
  next
    case (Op_set_label e params)
    show ?thesis unfolding Op_set_label registry_apply.simps by (rule audited_method, rule set_label_audited)
  next
    case (Op_set_capability e params)
    show ?thesis unfolding Op_set_capability registry_apply.simps by (rule audited_method, rule set_capability_audited)
  qed (use assms(2) in \<open>simp_all add: audited_method register_audited [OF ok] set_role_audited\<close>)
qed

lemma audited_fold:
  assumes "registry_inv (sw_registry w)" "list_all role_audit_works ops"
  shows "audited (log_state (sw_log w)) (log_state (sw_log (fold registry_apply ops w)))"
  using assms
proof (induction ops arbitrary: w)
  case (Cons op ops)
  then have "audited (log_state (sw_log w)) (log_state (sw_log (registry_apply op w)))"
    by (intro audited_registry_apply) simp_all
  with Cons show ?case by (auto intro: audited_trans inv_registry_apply)
qed (simp add: frame_audited)

section \<open>Properties\<close>

text \<open>
  C6: the registry stays consistent. After any history of registrations, role, label and capability
  changes, attaches, detaches, container and pane scans and recoveries of the reader, whatever docker,
  tmux, the disk and the storage answered and whichever operations failed half way: agent ids are unique
  and a pane has at most one agent; every agent has a known role and capability, exactly the permissions
  of its role, a parent if it is a swarm agent, and no parent that is not registered; container ids, pane
  keys and attachment ids are unique, and no two active attachments share a log path; every attachment
  is of a registered agent and of the pane of that agent; and the pane of every active agent and of every active attachment is
  active.
\<close>

theorem registry_history_ok: "registry_inv (sw_registry (run_history ops))"
  unfolding run_history_def by (rule inv_fold [OF inv_fresh_world])


end
