(* ===== verification/Log_Service_Samples.thy ===== *)
theory Log_Service_Samples
  imports Log_Service_Facts
begin

text \<open>
  A container with one agent whose log is attached, moved to another path, detached and attached again.
\<close>

definition sample_logger :: agent where
  "sample_logger =
     \<lparr>ag_agent_id = ''agt_0123456789ab'', ag_container_id = ''c1'', ag_tmux_socket_path = ''/tmp/tmux-0/default'',
      ag_tmux_session_name = ''main'', ag_tmux_window_index = 0, ag_tmux_pane_index = 0,
      ag_tmux_pane_id = ''%3'', ag_role = ''slave'', ag_capability = ''codex'', ag_label = ''w'',
      ag_project_path = ''/work'', ag_parent_agent_id = None,
      ag_effective_permissions = \<lparr>can_send = False, can_receive = True, can_send_to_roles = []\<rparr>, ag_created_at = ''t0'',
      ag_last_registered_at = ''t0'', ag_last_seen_at = None, ag_active = True\<rparr>"

definition sample_registry :: registry where
  "sample_registry =
     \<lparr>rg_agents = [sample_logger],
      rg_containers = [\<lparr>cn_container_id = ''c1'', cn_name = ''bench'', cn_image = ''i'', cn_status = ''running'',
        cn_labels_json = ''{}'', cn_mounts_json = ''m'', cn_inspect_json = ''{}'', cn_config_user = Some ''u'',
        cn_working_dir = None, cn_active = True, cn_first_seen_at = ''t0'', cn_last_scanned_at = ''t0''\<rparr>],
      rg_panes = [\<lparr>pn_key = agent_pane_key sample_logger, pn_container_name = ''bench'', pn_container_user = ''u'',
        pn_pane_pid = 7, pn_pane_tty = ''/dev/pts/1'', pn_pane_current_command = ''bash'', pn_pane_current_path = ''/work'',
        pn_pane_title = ''t'', pn_pane_active = True, pn_active = True, pn_first_seen_at = ''t0'',
        pn_last_scanned_at = ''t0''\<rparr>],
      rg_attachments = [], rg_offsets = []\<rparr>"

definition sample_log_state :: service_state where
  "sample_log_state =
     \<lparr>ss_log = \<lparr>lw_registry = sample_registry, lw_lifecycle = \<lparr>lf_suppression = no_suppression, lf_log = []\<rparr>,
        lw_audit = Some []\<rparr>, ss_exec = []\<rparr>"

definition sample_log_env :: "timestamp \<Rightarrow> log_env" where
  "sample_log_env now =
     \<lparr>se_now = now, se_home = ''/home/u'', se_schema_version = 1, se_peer_uid = 0, se_fs = plain_host,
      se_mounts = (\<lambda>_. Some home_mount),
      se_docker = (\<lambda>_. \<lparr>dr_returncode = 0, dr_stdout = ''0 '', dr_stderr = [], dr_failure_kind = None\<rparr>),
      se_ensure_fails = False, se_stat = (\<lambda>_. None),
      se_candidates = [''lat_000000000001'', ''lat_000000000002'', ''lat_000000000003''],
      se_begin_error = None, se_commit_error = None, se_audit_error = None, se_logger = True\<rparr>"

definition sample_params :: json_object where
  "sample_params = [(''agent_id'', JStr ''agt_0123456789ab'')]"

definition sample_attached :: service_state where
  "sample_attached = snd (attach_log (sample_log_env ''t1'') (sample_params @ [(''log_path'', JStr ''/home/u/a.log'')])
     ''explicit'' False sample_log_state)"

definition sample_moved :: service_state where
  "sample_moved = snd (attach_log (sample_log_env ''t2'') (sample_params @ [(''log_path'', JStr ''/home/u/b.log'')])
     ''explicit'' False sample_attached)"

definition sample_args :: "string \<Rightarrow> attach_args" where
  "sample_args path = \<lparr>aa_agent = sample_logger, aa_user = ''u'', aa_proof = \<lparr>vp_host_path = path, vp_container_path = path,
     vp_mount_destination = ''/home/u'', vp_mount_source = ''/home/u''\<rparr>, aa_source = ''explicit'', aa_defer_audit = False,
     aa_manage_transaction = True\<rparr>"

lemma sample_moved_ok:
  "attachments_inv (reg sample_moved)" "clock_after ''t3'' (reg sample_moved)"
  "map (\<lambda>r. (la_log_path r, la_status r)) (rg_attachments (reg sample_moved)) =
     [(''/home/u/a.log'', Att_superseded), (''/home/u/b.log'', Att_active)]"
  by code_simp+

theorem attach_detach_keep_tables_witness:
  "clock_after ''t3'' (reg sample_moved) \<and>
   attachments_inv (reg (snd (attach_log (sample_log_env ''t3'') sample_params ''explicit'' False sample_moved))) \<and>
   attachments_inv (reg (snd (detach_log (sample_log_env ''t3'') sample_params sample_moved)))"
proof -
  have "clock_after (se_now (sample_log_env ''t3'')) (reg sample_moved)" using sample_moved_ok(2) by (simp add: sample_log_env_def)
  from attach_detach_keep_tables [OF sample_moved_ok(1) this] show ?thesis using sample_moved_ok(2) by blast
qed

theorem superseded_path_is_lost_witness:
  "\<exists>code. fst (attach_log_locked (sample_log_env ''t3'') (sample_args ''/home/u/a.log'') sample_moved) = Inl (RegistrationError code)"
proof -
  let ?q = "hd (rg_attachments (reg sample_moved))"
  have "rg_attachments (reg sample_moved) \<noteq> []" using sample_moved_ok(3) by auto
  then have "?q \<in> set (rg_attachments (reg sample_moved))" by simp
  moreover have "la_status ?q = Att_superseded"
    "row_place ?q = (ag_agent_id (aa_agent (sample_args ''/home/u/a.log'')), aa_path (sample_args ''/home/u/a.log''))"
    by code_simp+
  ultimately show ?thesis using superseded_path_is_lost [OF sample_moved_ok(1)] by blast
qed

definition sample_detached :: "(exc + detach_result) \<times> service_state" where
  "sample_detached = detach_log_locked (sample_log_env ''t3'') sample_logger ''u'' sample_moved"

definition sample_resumed :: "(exc + attach_result) \<times> service_state" where
  "sample_resumed = attach_log_locked (sample_log_env ''t4'') (sample_args ''/home/u/b.log'') (snd sample_detached)"

theorem detach_attach_resumes_witness:
  "\<exists>d r. fst sample_detached = Inr d \<and> fst sample_resumed = Inr r \<and> \<not> at_is_new r \<and> at_attachment_id r = de_attachment_id d"
proof -
  have d: "case fst sample_detached of Inr d \<Rightarrow> de_log_path d = ''/home/u/b.log'' | Inl _ \<Rightarrow> False" by code_simp
  have r: "case fst sample_resumed of Inr _ \<Rightarrow> True | Inl _ \<Rightarrow> False" by code_simp
  obtain d s1 where d1: "sample_detached = (Inr d, s1)" "de_log_path d = ''/home/u/b.log''"
    using d by (cases "fst sample_detached") (simp_all, metis prod.collapse)
  obtain r s3 where r1: "sample_resumed = (Inr r, s3)" using r by (cases "fst sample_resumed") (simp_all, metis prod.collapse)
  have clk: "clock_after (se_now (sample_log_env ''t3'')) (reg sample_moved)" using sample_moved_ok(2) by (simp add: sample_log_env_def)
  have a: "attach_log_locked (sample_log_env ''t4'') (sample_args ''/home/u/b.log'') s1 = (Inr r, s3)"
    using r1 unfolding sample_resumed_def d1(1) by simp
  show ?thesis
    using detach_attach_resumes [OF sample_moved_ok(1) clk d1(1) [unfolded sample_detached_def] refl a] d1(2)
    unfolding d1(1) r1 by (simp add: sample_args_def aa_path_def)
qed

end
