(* ===== verification/Registry_Samples.thy ===== *)
theory Registry_Samples
  imports Registry_System Log_Service_Samples
begin

text \<open>
  A history of the registry from empty tables: the scans find a container and its two panes, one pane
  registers as slave and the other as its swarm agent, the second is given another role and the first
  becomes master.
\<close>

definition sample_register_env :: "string \<Rightarrow> timestamp \<Rightarrow> register_env" where
  "sample_register_env token now =
     \<lparr>ge_log = sample_log_env now, ge_now = now, ge_repr = (\<lambda>_. []), ge_decimal = (\<lambda>_. None),
      ge_int_nonfinite = ValueError, ge_token = (\<lambda>_. token), ge_insert_error = False, ge_role_audit_error = None,
      ge_log_service = True\<rparr>"

definition sample_pane_params :: "int \<Rightarrow> int \<Rightarrow> string \<Rightarrow> json_object" where
  "sample_pane_params window pane pane_id =
     [(''container_id'', JStr ''a''),
      (''pane_composite_key'', JObj [(''container_id'', JStr ''a''), (''tmux_socket_path'', JStr ''/tmp/tmux-1000/default''),
         (''tmux_session_name'', JStr ''main''), (''tmux_window_index'', JInt window), (''tmux_pane_index'', JInt pane),
         (''tmux_pane_id'', JStr pane_id)])]"

definition sample_again :: json_object where
  "sample_again = sample_pane_params 10 0 ''%4'' @ [(''label'', JStr ''again'')]"

definition sample_ops :: "registry_op list" where
  "sample_ops =
     [Op_scan_containers sample_scan_env sample_docker,
      Op_scan_panes sample_pane_env None,
      Op_register (sample_register_env ''000000000001'' ''t3'') (sample_pane_params 0 1 ''%3'' @ [(''role'', JStr ''slave'')]),
      Op_register (sample_register_env ''000000000002'' ''t4'')
        (sample_pane_params 10 0 ''%4'' @ [(''role'', JStr ''swarm''), (''parent_agent_id'', JStr ''agt_000000000001'')]),
      Op_set_role (sample_register_env [] ''t5'') [(''agent_id'', JStr ''agt_000000000002''), (''role'', JStr ''shell'')],
      Op_set_role (sample_register_env [] ''t6'')
        [(''agent_id'', JStr ''agt_000000000001''), (''role'', JStr ''master''), (''confirm'', JBool True)]]"

definition sample_history :: scan_world where
  "sample_history = run_history sample_ops"

lemma sample_history_agents:
  "map (\<lambda>a. (ag_agent_id a, ag_role a, ag_parent_agent_id a)) (rg_agents (sw_registry sample_history)) =
     [(''agt_000000000001'', ''master'', None), (''agt_000000000002'', ''shell'', Some ''agt_000000000001'')]"
  by code_simp

definition sample_former :: agent where
  "sample_former = last (rg_agents (sw_registry sample_history))"

lemma sample_former_ok:
  "rg_agents (sw_registry sample_history) \<noteq> []" "ag_parent_agent_id sample_former = Some ''agt_000000000001''"
  "ag_role sample_former = ''shell''" "agent_pane_key sample_former = (''a'', ''/tmp/tmux-1000/default'', ''main'', 10, 0, ''%4'')"
  by code_simp+

lemma sample_again_params:
  "case register_params (sample_register_env ''000000000003'' ''t7'') sample_again of
     Inl _ \<Rightarrow> False
   | Inr x \<Rightarrow> ra_pane_key x = (''a'', ''/tmp/tmux-1000/default'', ''main'', 10, 0, ''%4'') \<and> ra_role x = None"
  by code_simp

theorem former_swarm_cannot_register_witness:
  "ag_role sample_former = ''shell'' \<and> ag_active sample_former \<and>
   (\<exists>err. fst (register_agent (sample_register_env ''000000000003'' ''t7'') sample_again (log_state (sw_log sample_history))) = Inl err)"
proof -
  let ?s = "log_state (sw_log sample_history)"
  have reg: "reg ?s = sw_registry sample_history" by (simp add: sw_registry_def)
  have ok: "agents_ok (rg_agents (reg ?s))"
    unfolding reg by code_simp
  have a: "sample_former \<in> set (rg_agents (reg ?s))"
    unfolding reg sample_former_def using sample_former_ok(1) by (rule last_in_set)
  obtain x where x: "register_params (sample_register_env ''000000000003'' ''t7'') sample_again = Inr x"
    "ra_pane_key x = agent_pane_key sample_former" "ra_role x \<noteq> Some ''swarm''"
    using sample_again_params sample_former_ok(4) by (auto split: sum.splits)
  have "ag_parent_agent_id sample_former \<noteq> None" "ag_role sample_former \<noteq> ''swarm''" by (simp_all add: sample_former_ok)
  from former_swarm_cannot_register [OF ok a this x] have
    "\<exists>err. fst (register_agent (sample_register_env ''000000000003'' ''t7'') sample_again ?s) = Inl err" .
  moreover have "ag_active sample_former" by code_simp
  ultimately show ?thesis using sample_former_ok(3) by simp
qed

end
