(* ===== verification/Spec2Isabelle.thy ===== *)
theory Spec2Isabelle
  imports Routing_Samples Reader_Samples Registry_Samples
begin

text \<open>
  AgentTower is a daemon that watches tmux panes in containers, each bound to a registered agent, and
  routes messages between them. This library models its discovery, its registry of agents, its routing
  and its log subsystems, file by file under \<open>src/src/agenttower/\<close>, and proves what makes them correct.

  \<^bold>\<open>The parts and how they interact.\<close> A container scan asks docker for the running
  containers, a pane scan asks tmux in each of them for its panes, and both reconcile the answers with
  the tables. A pane registers itself as an agent with a role, from which its permissions follow; only a
  confirmed change of role makes a master. A sender calls the queue service, which resolves the target in
  the agent registry, checks permissions and body, and inserts a row with its audit event in one
  transaction. The delivery worker takes the oldest ready row, marks it in flight, pastes its body into
  the target's pane and records the outcome; after a crash the recovery pass fails what was in flight.
  The kill switch stops both. The routing worker reads the event log behind each route's cursor,
  arbitrates a master, renders the route's template and sends the result through the queue service. The
  events it reads come from the log subsystem: the log service attaches a file to a pane, the reader
  follows every attached file, classifies its lines, collapses bursts, stores events and offsets in one
  transaction and publishes the events to a JSONL file and to follow sessions.

  \<^bold>\<open>Conventions.\<close> A Python string is a HOL string of its UTF-8 bytes, a list of code points a list of
  naturals, a byte string a list of 8-bit words, a Python integer an integer, a time stamp the string
  that is stored, a monotonic clock reading an integer number of milliseconds. A table is a list of
  records, and an exception is a value of the type \<open>exc\<close> on the left of a sum. A transaction is a
  function on the database that either raises, with no change, or returns the changed database. What
  the code gets from outside, clock, random ids, lock contention, errors of the disk and of SQLite,
  the answers of docker and tmux, and what other threads do while a lock is not held, is an argument.

  \<^bold>\<open>Queue and delivery.\<close> \<open>Errors\<close> has the closed vocabularies (\<open>routing/errors.py\<close>), \<open>Schema\<close> the tables
  (\<open>state/schema.py\<close>), \<open>Lock_Retry\<close> and \<open>Queue_Dao\<close> the transactions of \<open>routing/dao.py\<close>, \<open>Agents\<close> the
  registry reads and target resolution, \<open>Permissions\<close>, \<open>Envelope\<close> (with \<open>Utf8\<close>) and \<open>Excerpt\<close> the checks
  of a message, \<open>Audit_Writer\<close> and \<open>Kill_Switch\<close> the audit trail and the switch, \<open>Queue_Service\<close> and
  \<open>Delivery\<close> the two services. \<open>Queue_System\<close> composes them into a step relation over all interleavings
  of senders, operators, worker and crashes; \<open>Queue_Contract\<close> says what each transition does. The
  properties that span them are in this theory: at most one paste per message, delivered only when
  pasted, a refinement to the life cycle of a message, terminal rows that never change, a sound audit
  trail, recovery that settles what a crash left.

  \<^bold>\<open>Routing.\<close> \<open>Source_Scope\<close>, \<open>Template\<close>, \<open>Arbitration\<close>, \<open>Routes_Dao\<close>, \<open>Routes_Audit\<close>, \<open>Routing_State\<close>,
  \<open>Routes_Service\<close> and \<open>Routing_Worker\<close> model the files of the same names under \<open>routing/\<close>. An event is
  decided exactly once or left for the next cycle, a crash between insert and cursor never doubles a
  message, a batch shortens the backlog, and no audit record of a route is lost uncounted.

  \<^bold>\<open>Logs and events.\<close> \<open>Regex\<close> is a backtracking matcher for the constructs of Python's \<open>re\<close> that the
  sources use; \<open>Redaction\<close>, \<open>Classifier\<close> and \<open>Debounce\<close> model \<open>logs/redaction.py\<close> and the files of
  \<open>events/\<close>; \<open>Log_Tables\<close> and \<open>Log_Lifecycle\<close> the attachment and offset tables and the lifecycle
  events; \<open>Reader_Recovery\<close> and \<open>Events_Reader\<close> the reader; \<open>Json\<close>, \<open>Events_Dao\<close> and \<open>Follow_Sessions\<close>
  the event queries and the methods of the socket that serve them; \<open>Log_Paths\<close> and \<open>Log_Service\<close> the
  attach and detach methods with their paths and shell commands. \<open>Reader_Facts\<close>, \<open>Reader_Publish\<close> and
  \<open>Log_Service_Facts\<close> hold the proofs: every record is stored or in an open window, the commit is
  atomic, publication follows store, line, watermark, the tables keep their shape, a detached log
  resumes where it stopped.

  \<^bold>\<open>Discovery and registry.\<close> \<open>Py_Text\<close> has the text functions of Python that the adapters use;
  \<open>Tmux_Adapter\<close> and \<open>Docker_Adapter\<close> model \<open>tmux/subprocess_adapter.py\<close>, \<open>tmux/parsers.py\<close>,
  \<open>docker/subprocess_adapter.py\<close> and \<open>docker/parsers.py\<close> over an arbitrary answer of the process that they
  run; \<open>Audit_Lines\<close> the lines of the events file; \<open>Container_Scan\<close> and \<open>Pane_Scan\<close> the services of
  \<open>discovery/\<close>; \<open>Agent_Service\<close> the methods of \<open>agents/service.py\<close>. \<open>Pane_Scan_Facts\<close> and \<open>Agent_Facts\<close>
  hold their proofs: what is active after a scan, what is read back from tmux, who can become master.
  \<open>Registry_System\<close> composes the methods, the scans and the recovery of the reader into histories: the
  tables of agents, containers, panes and attachments stay consistent whatever fails, and the lines of
  the events file replay to the roles in the table.

  \<^bold>\<open>Interfaces.\<close> The locales \<open>audit_hook\<close>, \<open>agents_lookup\<close> and \<open>docker_adapter\<close> state what a caller
  relies on of the audit callback, of the registry and of docker; they are interpreted on the
  definitions of the model.

  \<^bold>\<open>Samples.\<close> The theories named \<open>Samples\<close> evaluate the model on concrete inputs and instantiate the
  theorems that have hypotheses.

  \<^bold>\<open>Bounds and fuel.\<close> Constants of the code (retries, caps, page sizes, buffer bounds) are kept as they
  are. Loops are structural or have a termination proof; the wait loop of the queue service and the
  long poll of the follow sessions run over the list of what happens while they wait, which is finite
  because both have a deadline. The star of the regular expressions is bounded by the rest of the input.

  \<^bold>\<open>Not modelled.\<close> The command line (\<open>cli.py\<close>, \<open>routing/cli_routes.py\<close>) parses arguments and prints; the
  daemon start (\<open>daemon.py\<close>), the socket server and client, thread start and stop, file locks and
  signals are input and output of the operating system; the processes that the adapters start are
  parameters. \<open>config_doctor\<close> inspects a host, \<open>app_contract\<close> presents the methods to applications, and
  the log preview and the detection of orphaned pipes read the host's files. A scan and a method that
  overlap in time are not histories of \<open>Registry_System\<close>: there each operation runs to its end. The hash, random ids, the ISO date parser, base64 and
  the JSON text format are parameters.
\<close>

section \<open>The message queue as a system\<close>

text \<open>
  C1: at most once. In every reachable state, however senders, operators, toggles, the delivery
  worker, crashes and recovery passes were interleaved, tmux has been asked to paste a given
  message at most once, counting failed pastes.
\<close>

theorem paste_at_most_once:
  assumes "reachable n s"
  shows "length (filter (\<lambda>(m', c, res). m' = m \<and> is_paste c) (w_tmux (sy_world s))) \<le> 1"
proof -
  have "length (filter (\<lambda>(m', c, res). m' = m \<and> is_paste c) (w_tmux (sy_world s))) =
      length (filter (\<lambda>e. is_paste (fst e)) (trace m (sy_world s)))"
    unfolding trace_def
    by (induction "w_tmux (sy_world s)" rule: list.induct) (simp_all add: filter_map comp_def case_prod_unfold conj_commute)
  also have "\<dots> \<le> 1"
    using trace_attempt [OF reachable_inv [OF assms], of m] attempt_trace_pastes by fastforce
  finally show ?thesis .
qed

theorem paste_at_most_once_witness:
  "reachable 1024 (sample_system Idle sample_delivered) \<and>
   length (filter (\<lambda>(m', c, res). m' = ''m1'' \<and> is_paste c)
     (w_tmux (sy_world (sample_system Idle sample_delivered)))) \<le> 1"
  using sample_delivered_reachable paste_at_most_once [OF sample_delivered_reachable, of "''m1''"]
  by simp

text \<open>
  C2: a row is \<open>delivered\<close> only if tmux answered ok to loading its body, to pasting it and to
  \<open>Enter\<close>, in this order and once each, in the container and pane the row captured at enqueue.
\<close>

theorem delivered_means_pasted:
  assumes "reachable n s" "row \<in> set (db_queue (w_db (sy_world s)))" "mq_state row = Delivered"
  shows "delivered_trace row (trace (mq_message_id row) (sy_world s))"
proof -
  have "row_trace_ok row (trace (mq_message_id row) (sy_world s))"
    using reachable_inv [OF assms(1)] assms(2)
    by (auto simp: system_inv_def worker_inv_def traces_ok_def)
  then show ?thesis using assms(3) by (simp add: row_trace_ok_def phase_def)
qed

theorem delivered_means_pasted_witness:
  "mq_state (hd (db_queue (w_db sample_delivered))) = Delivered \<and>
   delivered_trace (hd (db_queue (w_db sample_delivered))) (trace ''m1'' sample_delivered)"
proof -
  let ?row = "hd (db_queue (w_db sample_delivered))"
  have "mq_state ?row = Delivered" "?row \<in> set (db_queue (w_db sample_delivered))"
    "mq_message_id ?row = ''m1''" by code_simp+
  then show ?thesis
    using delivered_means_pasted [OF sample_delivered_reachable, of ?row]
    by (simp add: sample_system_def)
qed

text \<open>
  No tmux call has been made for a row that carries no delivery stamp: for one that is
  blocked, canceled, or queued and not yet claimed by the worker.
\<close>

lemma unclaimed_rows_untouched:
  assumes "reachable n s" "row \<in> set (db_queue (w_db (sy_world s)))"
    and "mq_state row \<in> {Blocked, Canceled} \<or> mq_delivery_attempt_started_at row = None"
  shows "(mq_message_id row, c, res) \<notin> set (w_tmux (sy_world s))"
proof
  assume "(mq_message_id row, c, res) \<in> set (w_tmux (sy_world s))"
  then have "trace (mq_message_id row) (sy_world s) \<noteq> []" by (force simp flip: in_trace_iff)
  moreover have wf: "queue_wf (db_queue (w_db (sy_world s)))"
    using reachable_inv [OF assms(1)] by (simp add: system_inv_def worker_inv_def)
  moreover from calculation(1) obtain row' where "row' \<in> set (db_queue (w_db (sy_world s)))"
    "mq_message_id row' = mq_message_id row" "mq_delivery_attempt_started_at row' \<noteq> None"
    using trace_attempt [OF reachable_inv [OF assms(1)]] by blast
  ultimately have "mq_delivery_attempt_started_at row \<noteq> None"
    using assms(2) unfolding queue_wf_def distinct_map inj_on_def by metis
  moreover have "mq_delivery_attempt_started_at row = None"
    using assms(3) queue_wf_row_ok [OF wf assms(2)] by (auto simp: row_ok_defs)
  ultimately show False by simp
qed

text \<open>
  What a paste pastes and where. If tmux was ever asked to paste for a message, the first two
  calls for that message were a successful load of exactly the body stored in its row, into the
  buffer named after it, and then this paste of that buffer into the container and pane stored in
  the row.
\<close>

lemma paste_is_stored_body:
  assumes "reachable n s" "(m, Paste_buffer ctx b, res) \<in> set (w_tmux (sy_world s))"
  shows "\<exists>row \<in> set (db_queue (w_db (sy_world s))). mq_message_id row = m \<and>
    dc_container_id ctx = mq_target_container_id row \<and> dc_pane_id ctx = mq_target_pane_id row \<and>
    b = ''agenttower-'' @ m \<and>
    take 2 (trace m (sy_world s)) =
      [(Load_buffer ctx b (mq_envelope_body row), Tmux_ok), (Paste_buffer ctx b, res)]"
proof -
  have "(Paste_buffer ctx b, res) \<in> set (trace m (sy_world s))"
    using assms(2) by (simp add: in_trace_iff)
  moreover from this have "trace m (sy_world s) \<noteq> []" by force
  then obtain row where row: "row \<in> set (db_queue (w_db (sy_world s)))" "mq_message_id row = m"
    "attempt_trace row (trace m (sy_world s))"
    using trace_attempt [OF reachable_inv [OF assms(1)]] by blast
  ultimately show ?thesis
    using attempt_trace_paste_prefix [OF row(3)]
    by (intro bexI [OF _ row(1)]) (simp add: row(2) ctx_for_def buffer_name_def)
qed

text \<open>
  C3: refinement of the message life cycle. Every step of the system changes \<open>message_queue\<close> by
  transitions of the specification \<open>phase_step\<close> only: each row is kept or makes one transition with
  its identity, body and route columns unchanged, new rows start queued or blocked, and the table
  stays well-formed.
\<close>

theorem step_refines_phases:
  assumes "reachable n s" "system_step n s t"
  shows "queue_legal spec_step (db_queue (w_db (sy_world s))) (db_queue (w_db (sy_world t)))"
  by (rule step_legal [OF assms(2) reachable_inv [OF assms(1)]])

theorem step_refines_phases_witness:
  "queue_legal spec_step (db_queue (w_db sample_sent)) (db_queue (w_db (crash_world sample_sent)))"
  using step_refines_phases [OF sample_sent_reachable system_step.crash]
  by (simp add: sample_system_def)

text \<open>
  C4: terminal rows are immutable. A row that is delivered, failed or canceled in a reachable
  state is in the table, with every column as it was, in every later state.
\<close>

theorem terminal_rows_immutable:
  assumes "reachable n s" "(system_step n)\<^sup>*\<^sup>* s t"
    and "row \<in> set (db_queue (w_db (sy_world s)))" "terminal (mq_state row)"
  shows "row \<in> set (db_queue (w_db (sy_world t)))"
proof -
  have "reachable n t \<and> row \<in> set (db_queue (w_db (sy_world t)))"
    using assms(2)
  proof (induction rule: rtranclp_induct)
    case base
    then show ?case using assms(1,3) by simp
  next
    case (step t u)
    then show ?case
      using step_legal [OF step(2) reachable_inv] legal_terminal_kept assms(4) reach_step by metis
  qed
  then show ?thesis ..
qed

theorem terminal_rows_immutable_witness:
  "hd (db_queue (w_db sample_delivered)) \<in> set (db_queue (w_db (crash_world sample_delivered)))"
proof -
  have "hd (db_queue (w_db sample_delivered)) \<in> set (db_queue (w_db sample_delivered))"
    "terminal (mq_state (hd (db_queue (w_db sample_delivered))))" by code_simp+
  then show ?thesis
    using terminal_rows_immutable [OF sample_delivered_reachable r_into_rtranclp [of "system_step 1024", OF system_step.crash]]
    by (simp add: sample_system_def)
qed



text \<open>
  One iteration of the delivery worker's loop, in source order (drain the audit buffer, check
  the switch, pick, re-check, stamp, load, paste, submit, delete, commit, with every failure
  branch), is a run of the system: from a reachable state it leads to a reachable state.
\<close>

lemma loop_iteration_is_run:
  assumes "reachable n s" "sy_up s" "sy_pc s = Idle" "se_max_pending se = n"
    and "run_loop_once se de je we pick_raises (sy_world s) = (r, w')"
  shows "reachable n (s\<lparr>sy_world := w'\<rparr>)"
  by (rule loop_iteration_reachable [OF assms])



text \<open>
  C39: \<open>cancel\<close> reads the state it reports before its transaction. A run in which the message is
  delayed between the read and the commit ends with the message canceled and an audit record that
  says it was canceled from \<open>queued\<close>, although it was \<open>blocked\<close> when the cancellation committed.
\<close>

theorem cancel_audits_stale_state:
  "\<exists>s pre row e p. reachable 1024 s \<and>
     Cancel_request ''m1'' ''op'' (Some pre) \<in> set (sy_requests s) \<and>
     get_row_by_id ''m1'' (w_db (sy_world s)) = Some row \<and> mq_state row = Blocked \<and>
     last (au_jsonl (w_audit (snd (cancel_commit sample_env (sample_call '''' ''t6'') ''m1'' ''op''
       (Some pre) (sy_world s))))) = (e, Queue_transition p) \<and>
     pl_event_type p = ''queue_message_canceled'' \<and> pl_from_state p = Some Queued"
proof -
  let ?c = "Cancel_request ''m1'' ''op'' (Some sample_row)" and ?d = "Delay_request ''m1'' ''op2'' sample_row"
  define s0 where "s0 = sample_system Idle sample_sent"
  define s1 where "s1 = s0\<lparr>sy_requests := [?c]\<rparr>"
  define s2 where "s2 = s1\<lparr>sy_requests := [?d, ?c]\<rparr>"
  define s3 where "s3 = s2\<lparr>sy_world := sample_delayed, sy_requests := [?c]\<rparr>"
  have row: "get_row_by_id ''m1'' (w_db sample_sent) = Some sample_row" by code_simp
  have "system_step 1024 s0 s1"
    using system_step.cancel_begin [of s0 1024 "''m1''" "''op''"]
    by (simp add: s0_def s1_def sample_system_def row)
  moreover have "system_step 1024 s1 s2"
    using system_step.delay_begin [of s1 "''m1''" sample_row 1024 "''op2''"]
    by (simp add: s0_def s1_def s2_def sample_system_def delay_read_def row)
  moreover have "system_step 1024 s2 s3"
  proof -
    have "delay_commit sample_env (sample_call '''' ''t5'') ''m1'' ''op2'' sample_row sample_sent =
        (fst (delay_commit sample_env (sample_call '''' ''t5'') ''m1'' ''op2'' sample_row sample_sent), sample_delayed)"
      by (simp add: sample_delayed_def)
    then show ?thesis
      using system_step.delay_end [of s2 sample_env 1024 "''m1''" "''op2''" sample_row]
      by (simp add: s3_def s2_def s1_def s0_def sample_system_def sample_max_pending)
  qed
  ultimately have "reachable 1024 s3"
    using sample_sent_reachable reach_step unfolding s0_def by metis
  moreover have "?c \<in> set (sy_requests s3)" "sy_world s3 = sample_delayed" by (simp_all add: s3_def)
  moreover obtain row' where "get_row_by_id ''m1'' (w_db sample_delayed) = Some row'" "mq_state row' = Blocked"
  proof -
    have "map_option mq_state (get_row_by_id ''m1'' (w_db sample_delayed)) = Some Blocked" by code_simp
    then show thesis using that by auto
  qed
  moreover obtain e p where "last (au_jsonl (w_audit (snd (cancel_commit sample_env (sample_call '''' ''t6'')
      ''m1'' ''op'' (Some sample_row) sample_delayed)))) = (e, Queue_transition p)"
    "pl_event_type p = ''queue_message_canceled''" "pl_from_state p = Some Queued"
  proof -
    have "case snd (last (au_jsonl (w_audit (snd (cancel_commit sample_env (sample_call '''' ''t6'')
        ''m1'' ''op'' (Some sample_row) sample_delayed))))) of
        Queue_transition p \<Rightarrow> pl_event_type p = ''queue_message_canceled'' \<and> pl_from_state p = Some Queued
      | _ \<Rightarrow> False" by code_simp
    then show thesis using that by (auto split: payload.splits) (metis prod.collapse)
  qed
  ultimately show ?thesis by metis
qed

end
